(* ===== verification/Prelude.thy ===== *)
theory Prelude
  imports Complex_Main
begin

text \<open>
  Shared vocabulary of the development: the fallible result type of the Go code (a value
  together with an \<^verbatim>\<open>error\<close>, of which callers use the value only when the error is nil), its
  bind, the loop that stops at the first error, and generic facts about association lists.
  The code's \<^verbatim>\<open>if err != nil { return ..., err }\<close> is \<open>bind_r\<close>.
\<close>

named_theorems result_simps
named_theorems result_elims

type_synonym 'a res = "string + 'a"

subsection \<open>Results\<close>

fun bind_r :: "'e + 'a \<Rightarrow> ('a \<Rightarrow> 'e + 'b) \<Rightarrow> 'e + 'b" where
  "bind_r (Inl e) k = Inl e"
| "bind_r (Inr a) k = k a"

lemma bind_r_Inr_iff [result_simps]:
  "(bind_r m k = Inr y) = (\<exists>x. m = Inr x \<and> k x = Inr y)"
  by (cases m) auto

lemma bind_r_Inl_iff [result_simps]:
  "(bind_r m k = Inl e) = (m = Inl e \<or> (\<exists>x. m = Inr x \<and> k x = Inl e))"
  by (cases m) auto

lemma bind_r_assoc: "bind_r (bind_r m f) g = bind_r m (\<lambda>x. bind_r (f x) g)"
  by (cases m) auto

lemma bind_r_unit [simp]: "bind_r m Inr = m"
  by (cases m) auto

lemma bind_r_split:
  "P (bind_r m k) = ((\<forall>e. m = Inl e \<longrightarrow> P (Inl e)) \<and> (\<forall>x. m = Inr x \<longrightarrow> P (k x)))"
  by (cases m) auto

lemma bind_r_cong [fundef_cong]:
  "m = m' \<Longrightarrow> (\<And>x. m' = Inr x \<Longrightarrow> k x = k' x) \<Longrightarrow> bind_r m k = bind_r m' k'"
  by (cases m') auto

definition require :: "bool \<Rightarrow> 'e \<Rightarrow> ('e + 'a) \<Rightarrow> 'e + 'a" where
  "require ok e k = (if ok then k else Inl e)"

lemma require_Inr_iff [result_simps]: "(require ok e k = Inr y) = (ok \<and> k = Inr y)"
  by (simp add: require_def)

lemma require_True [simp]: "require True e k = k"
  by (simp add: require_def)

lemma require_False [simp]: "require False e k = Inl e"
  by (simp add: require_def)

subsection \<open>Loops over a list that stop at the first error\<close>

fun mapM_r :: "('a \<Rightarrow> 'e + 'b) \<Rightarrow> 'a list \<Rightarrow> 'e + 'b list" where
  "mapM_r f [] = Inr []"
| "mapM_r f (x # xs) = bind_r (f x) (\<lambda>y. bind_r (mapM_r f xs) (\<lambda>ys. Inr (y # ys)))"

lemma mapM_r_cong [fundef_cong]:
  "xs = ys \<Longrightarrow> (\<And>x. x \<in> set ys \<Longrightarrow> f x = g x) \<Longrightarrow> mapM_r f xs = mapM_r g ys"
  by (induction ys arbitrary: xs) auto

lemma mapM_r_Inr_iff [result_simps]:
  "(mapM_r f xs = Inr ys) = list_all2 (\<lambda>x y. f x = Inr y) xs ys"
proof (induction xs arbitrary: ys)
  case Nil
  then show ?case by auto
next
  case (Cons x xs)
  then show ?case by (cases ys) (auto simp: result_simps)
qed

lemma mapM_r_length: "mapM_r f xs = Inr ys \<Longrightarrow> length ys = length xs"
  by (simp add: result_simps list_all2_lengthD)

lemma mapM_r_total: "(\<And>x. x \<in> set xs \<Longrightarrow> f x = Inr (g x)) \<Longrightarrow> mapM_r f xs = Inr (map g xs)"
  by (induction xs) auto

lemma mapM_r_Inl: "mapM_r f xs = Inl e \<Longrightarrow> \<exists>x \<in> set xs. f x = Inl e"
  by (induction xs) (auto simp: result_simps)

subsection \<open>Sums\<close>

definition ok_r :: "'e + 'a \<Rightarrow> bool" where
  "ok_r m = (case m of Inl _ \<Rightarrow> False | Inr _ \<Rightarrow> True)"

lemma ok_r_simps [simp]: "ok_r (Inl e) = False" "ok_r (Inr a) = True"
  by (simp_all add: ok_r_def)

lemma ok_r_iff: "ok_r m = (\<exists>x. m = Inr x)"
  by (cases m) auto

subsection \<open>Association lists standing for Go maps\<close>

lemma map_of_filter_keys:
  "map_of (filter (\<lambda>(k, v). P k) xs) k = (if P k then map_of xs k else None)"
  by (induction xs) auto

lemma map_of_SomeE [result_elims]:
  "map_of xs k = Some v \<Longrightarrow> (k, v) \<in> set xs"
  by (rule map_of_SomeD)

end
