(* ===== verification/Go_Float.thy ===== *)
theory Go_Float
  imports Go_Strings
begin

text \<open>
  Go's \<^verbatim>\<open>float64\<close>: IEEE 754 binary64 with round to nearest, ties to even. A finite non-zero
  value is the rational it denotes; zero has two signs. Every operation computes the exact
  rational result and rounds it once (\<open>f64_of_rat\<close>), which is what the standard prescribes, so
  the definitions compute the code's results bit for bit and stay executable.
\<close>

datatype f64 = FNaN | FInf bool | FNegZero | FRat rat
  \<comment> \<open>\<open>FInf True\<close> is minus infinity; \<open>FRat 0\<close> is plus zero\<close>

subsection \<open>Rounding\<close>

definition pow2 :: "int \<Rightarrow> rat" where
  "pow2 e = (if 0 \<le> e then 2 ^ nat e else 1 / 2 ^ nat (- e))"

definition round_even :: "rat \<Rightarrow> int" where
  "round_even q =
     (let f = \<lfloor>q\<rfloor>; r = q - of_int f
      in if r < 1 / 2 then f else if r > 1 / 2 then f + 1 else if even f then f else f + 1)"

text \<open>\<^verbatim>\<open>math.Round\<close>: nearest integer, ties away from zero.\<close>

definition round_away :: "rat \<Rightarrow> int" where
  "round_away q = (if q < 0 then - \<lfloor>- q + 1 / 2\<rfloor> else \<lfloor>q + 1 / 2\<rfloor>)"

text \<open>Number of bits of a positive integer.\<close>

function bit_len :: "int \<Rightarrow> nat" where
  "bit_len n = (if n \<le> 0 then 0 else Suc (bit_len (n div 2)))"
  by pat_completeness auto
termination
  by (relation "measure nat") auto

declare bit_len.simps [simp del]

text \<open>The binary exponent of a positive rational: \<open>2\<^sup>e \<le> q < 2\<^sup>e\<^sup>+\<^sup>1\<close>.\<close>

definition inv_exp :: "rat \<Rightarrow> int" where
  "inv_exp q = 1 - int (bit_len \<lfloor>1 / q\<rfloor>)"

definition rat_exp :: "rat \<Rightarrow> int" where
  "rat_exp q =
     (if 1 \<le> q then int (bit_len \<lfloor>q\<rfloor>) - 1
      else if pow2 (inv_exp q) \<le> q then inv_exp q else inv_exp q - 1)"

definition ulp_exp :: "rat \<Rightarrow> int" where
  "ulp_exp q = max (rat_exp q - 52) (- 1074)"

definition round_pos :: "rat \<Rightarrow> rat" where
  "round_pos q = of_int (round_even (q / pow2 (ulp_exp q))) * pow2 (ulp_exp q)"

text \<open>Rounding with the sign a zero result takes.\<close>

definition f64_of_rat :: "bool \<Rightarrow> rat \<Rightarrow> f64" where
  "f64_of_rat neg q =
     (if q = 0 then (if neg then FNegZero else FRat 0)
      else let m = round_pos \<bar>q\<bar>
           in if m = 0 then (if q < 0 then FNegZero else FRat 0)
              else if 1024 \<le> rat_exp m then FInf (q < 0)
              else FRat (if q < 0 then - m else m))"

definition f64_of_int :: "int \<Rightarrow> f64" where
  "f64_of_int i = f64_of_rat False (of_int i)"

fun f64_rat :: "f64 \<Rightarrow> rat option" where
  "f64_rat FNaN = None"
| "f64_rat (FInf _) = None"
| "f64_rat FNegZero = Some 0"
| "f64_rat (FRat q) = Some q"

fun f64_neg :: "f64 \<Rightarrow> bool" where
  "f64_neg FNaN = False"
| "f64_neg (FInf s) = s"
| "f64_neg FNegZero = True"
| "f64_neg (FRat q) = (q < 0)"

definition f64_is_nan :: "f64 \<Rightarrow> bool" where
  "f64_is_nan x = (x = FNaN)"

subsection \<open>Arithmetic\<close>

fun f64_uminus :: "f64 \<Rightarrow> f64" where
  "f64_uminus FNaN = FNaN"
| "f64_uminus (FInf s) = FInf (\<not> s)"
| "f64_uminus FNegZero = FRat 0"
| "f64_uminus (FRat q) = (if q = 0 then FNegZero else FRat (- q))"

fun f64_add :: "f64 \<Rightarrow> f64 \<Rightarrow> f64" where
  "f64_add FNaN y = FNaN"
| "f64_add x FNaN = FNaN"
| "f64_add (FInf s) (FInf t) = (if s = t then FInf s else FNaN)"
| "f64_add (FInf s) y = FInf s"
| "f64_add x (FInf t) = FInf t"
| "f64_add FNegZero FNegZero = FNegZero"
| "f64_add FNegZero (FRat q) = FRat q"
| "f64_add (FRat q) FNegZero = FRat q"
| "f64_add (FRat p) (FRat q) = f64_of_rat False (p + q)"

definition f64_sub :: "f64 \<Rightarrow> f64 \<Rightarrow> f64" where
  "f64_sub x y = f64_add x (f64_uminus y)"

definition f64_mul :: "f64 \<Rightarrow> f64 \<Rightarrow> f64" where
  "f64_mul x y =
     (let s = (f64_neg x \<noteq> f64_neg y) in
      if x = FNaN \<or> y = FNaN then FNaN
      else case (f64_rat x, f64_rat y) of
             (Some p, Some q) \<Rightarrow> f64_of_rat s (p * q)
           | (Some p, None) \<Rightarrow> if p = 0 then FNaN else FInf s
           | (None, Some q) \<Rightarrow> if q = 0 then FNaN else FInf s
           | (None, None) \<Rightarrow> FInf s)"

definition f64_div :: "f64 \<Rightarrow> f64 \<Rightarrow> f64" where
  "f64_div x y =
     (let s = (f64_neg x \<noteq> f64_neg y) in
      if x = FNaN \<or> y = FNaN then FNaN
      else case (f64_rat x, f64_rat y) of
             (Some p, Some q) \<Rightarrow> if q = 0 then (if p = 0 then FNaN else FInf s)
                                else f64_of_rat s (p / q)
           | (Some p, None) \<Rightarrow> f64_of_rat s 0
           | (None, Some q) \<Rightarrow> FInf s
           | (None, None) \<Rightarrow> FNaN)"

subsection \<open>Comparison: every comparison with NaN is false, the two zeros are equal\<close>

fun f64_lt :: "f64 \<Rightarrow> f64 \<Rightarrow> bool" where
  "f64_lt FNaN y = False"
| "f64_lt x FNaN = False"
| "f64_lt (FInf s) (FInf t) = (s \<and> \<not> t)"
| "f64_lt (FInf s) y = s"
| "f64_lt x (FInf t) = (\<not> t)"
| "f64_lt x y = (the (f64_rat x) < the (f64_rat y))"

fun f64_eq :: "f64 \<Rightarrow> f64 \<Rightarrow> bool" where
  "f64_eq FNaN y = False"
| "f64_eq x FNaN = False"
| "f64_eq (FInf s) y = (y = FInf s)"
| "f64_eq x (FInf t) = False"
| "f64_eq x y = (the (f64_rat x) = the (f64_rat y))"

definition f64_le :: "f64 \<Rightarrow> f64 \<Rightarrow> bool" where
  "f64_le x y = (f64_lt x y \<or> f64_eq x y)"

definition f64_zero :: f64 where "f64_zero = FRat 0"

text \<open>\<^verbatim>\<open>math.MaxFloat64\<close>\<close>

definition f64_max :: f64 where
  "f64_max = FRat (pow2 1024 - pow2 971)"

text \<open>
  Go's conversion of a finite \<^verbatim>\<open>float64\<close> to \<^verbatim>\<open>int\<close> truncates towards zero. Out of the range of
  \<^verbatim>\<open>int64\<close>, and for NaN and the infinities, the result depends on the machine; on amd64 it is
  the least \<^verbatim>\<open>int64\<close>, which the model takes.
\<close>

definition rat_trunc :: "rat \<Rightarrow> int" where
  "rat_trunc q = (if q < 0 then - \<lfloor>- q\<rfloor> else \<lfloor>q\<rfloor>)"

definition min_int64 :: int where "min_int64 = - (2 ^ 63)"
definition max_int64 :: int where "max_int64 = 2 ^ 63 - 1"

definition f64_to_int :: "f64 \<Rightarrow> int" where
  "f64_to_int x =
     (case f64_rat x of None \<Rightarrow> min_int64
      | Some q \<Rightarrow> let i = rat_trunc q in if min_int64 \<le> i \<and> i \<le> max_int64 then i else min_int64)"

subsection \<open>Powers of two and exponents\<close>

lemma pow2_pos [simp]: "0 < pow2 e"
  by (simp add: pow2_def)

lemma pow2_nz [simp]: "pow2 e \<noteq> 0"
  using pow2_pos by (metis less_irrefl)

lemma pow2_0 [simp]: "pow2 0 = 1"
  by (simp add: pow2_def)

lemma pow2_Suc: "pow2 (e + 1) = 2 * pow2 e"
proof (cases "0 \<le> e")
  case True
  then show ?thesis by (simp add: pow2_def nat_add_distrib)
next
  case False
  then have "nat (- e) = Suc (nat (- (e + 1)))" by simp
  with False show ?thesis by (cases "e = -1") (auto simp: pow2_def)
qed

lemma pow2_add_nat: "pow2 (e + int n) = pow2 e * 2 ^ n"
proof (induction n)
  case (Suc n)
  have "pow2 (e + int (Suc n)) = pow2 (e + int n + 1)" by (simp add: algebra_simps)
  then show ?case using Suc by (simp add: pow2_Suc)
qed simp

lemma pow2_add: "pow2 (a + b) = pow2 a * pow2 b"
proof (cases "0 \<le> b")
  case True
  then show ?thesis using pow2_add_nat [of a "nat b"] by (simp add: pow2_def)
next
  case False
  then have "pow2 a = pow2 (a + b) * 2 ^ nat (- b)"
    using pow2_add_nat [of "a + b" "nat (- b)"] by simp
  with False show ?thesis by (simp add: pow2_def)
qed

lemma pow2_mono: "a \<le> b \<Longrightarrow> pow2 a \<le> pow2 b"
proof -
  assume "a \<le> b"
  then have "pow2 b = pow2 a * 2 ^ nat (b - a)"
    using pow2_add_nat [of a "nat (b - a)"] by simp
  moreover have "(1::rat) \<le> 2 ^ nat (b - a)" by simp
  ultimately show ?thesis using pow2_pos [of a] by simp
qed

lemma pow2_strict: "pow2 a < pow2 b \<Longrightarrow> a < b"
  using pow2_mono by (meson leD linorder_not_le)

lemma pow2_int [simp]: "pow2 (int k) = of_nat (2 ^ k)"
  by (simp add: pow2_def)

lemma bit_len_0 [simp]: "bit_len 0 = 0"
  by (simp add: bit_len.simps)

lemma bit_len_1 [simp]: "bit_len 1 = 1"
  by (simp add: bit_len.simps [of 1])

lemma bit_len_numeral [simp]:
  "bit_len (numeral (num.Bit0 k)) = Suc (bit_len (numeral k))"
  "bit_len (numeral (num.Bit1 k)) = Suc (bit_len (numeral k))"
  by (simp_all add: bit_len.simps [of "numeral _"])

lemma bit_len_pos: "0 < n \<Longrightarrow> 0 < bit_len n"
  by (simp add: bit_len.simps)

lemma bit_len_bounds: "0 < n \<Longrightarrow> 2 ^ (bit_len n - 1) \<le> n \<and> n < 2 ^ bit_len n"
proof (induction n rule: bit_len.induct)
  case (1 n)
  show ?case
  proof (cases "n = 1")
    case False
    then have h: "0 < n div 2" using 1 by auto
    with 1 have "2 ^ (bit_len (n div 2) - 1) \<le> n div 2 \<and> n div 2 < 2 ^ bit_len (n div 2)" by simp
    moreover have "bit_len n = Suc (bit_len (n div 2))" using 1 by (simp add: bit_len.simps [of n])
    moreover obtain k where "bit_len (n div 2) = Suc k" using bit_len_pos [OF h] gr0_implies_Suc by blast
    ultimately show ?thesis by auto
  qed simp
qed

lemma bit_len_floor:
  assumes "1 \<le> (q::rat)"
  shows "pow2 (int (bit_len \<lfloor>q\<rfloor>) - 1) \<le> q" "q < pow2 (int (bit_len \<lfloor>q\<rfloor>))"
proof -
  define k where "k = bit_len \<lfloor>q\<rfloor>"
  have f: "0 < \<lfloor>q\<rfloor>" using assms by simp
  have b: "2 ^ (k - 1) \<le> \<lfloor>q\<rfloor> \<and> \<lfloor>q\<rfloor> < 2 ^ k"
    using bit_len_bounds [OF f] by (simp add: k_def)
  have "0 < k" using f by (simp add: bit_len_pos k_def)
  then have k1: "int k - 1 = int (k - 1)" by simp
  have "of_int (2 ^ (k - 1)) \<le> q" using b by (simp only: le_floor_iff)
  moreover have "q < of_int (2 ^ k)" using b by (simp only: floor_less_iff)
  ultimately show "pow2 (int (bit_len \<lfloor>q\<rfloor>) - 1) \<le> q" "q < pow2 (int (bit_len \<lfloor>q\<rfloor>))"
    unfolding k_def [symmetric] k1 pow2_int by simp_all
qed

lemma pow2_uminus: "pow2 (- e) = 1 / pow2 e"
proof -
  have "pow2 (- e) * pow2 e = 1" by (simp flip: pow2_add)
  then show ?thesis by (simp add: eq_divide_eq)
qed

lemma rat_exp_bounds:
  assumes "0 < q"
  shows "pow2 (rat_exp q) \<le> q \<and> q < pow2 (rat_exp q + 1)"
proof (cases "1 \<le> q")
  case True
  then show ?thesis using bit_len_floor [of q] by (simp add: rat_exp_def)
next
  case False
  define k where "k = int (bit_len \<lfloor>1 / q\<rfloor>) - 1"
  have e: "inv_exp q = - k" by (simp add: inv_exp_def k_def)
  have "1 \<le> 1 / q" using False assms by simp
  then have "pow2 k \<le> 1 / q" "1 / q < pow2 (k + 1)"
    using bit_len_floor [of "1 / q"] by (simp_all add: k_def)
  then have "q \<le> pow2 (- k)" "pow2 (- (k + 1)) < q"
    using assms by (simp_all only: pow2_uminus) (simp_all add: field_simps)
  moreover have "- (k + 1) = - k - 1" by simp
  ultimately have "q \<le> pow2 (- k)" "pow2 (- k - 1) < q" by (simp_all only:)
  moreover have "pow2 (- k) < pow2 (- k + 1)" by (simp only: pow2_Suc) simp
  ultimately show ?thesis using False e by (auto simp: rat_exp_def algebra_simps)
qed

lemmas rat_exp_le = rat_exp_bounds [THEN conjunct1]
lemmas rat_exp_less = rat_exp_bounds [THEN conjunct2]

subsection \<open>Values that rounding keeps\<close>

lemma round_even_of_int [simp]: "round_even (of_int i) = i"
  by (simp add: round_even_def)

lemma round_pos_exact:
  assumes "q = of_int i * pow2 (ulp_exp q)"
  shows "round_pos q = q"
proof -
  have "q / pow2 (ulp_exp q) = of_int i"
    by (subst assms) simp
  then show ?thesis using assms by (simp add: round_pos_def)
qed

lemma rat_exp_small:
  assumes "0 < n" "n \<le> 2 ^ 53"
  shows "rat_exp (of_nat n) \<le> 53"
proof -
  have "rat_of_nat n \<le> of_nat (2 ^ 53)" using assms(2) by (simp only: of_nat_le_iff)
  then have "rat_of_nat n \<le> pow2 53" by (simp add: pow2_def)
  then have "pow2 (rat_exp (of_nat n)) \<le> pow2 53" using rat_exp_le [of "of_nat n"] assms by simp
  moreover have "pow2 53 < pow2 54" by (simp add: pow2_def)
  ultimately have "pow2 (rat_exp (of_nat n)) < pow2 54" by linarith
  then show ?thesis using pow2_strict by fastforce
qed

lemma round_pos_nat:
  assumes "0 < n" "n \<le> 2 ^ 53"
  shows "round_pos (of_nat n) = of_nat n"
proof -
  let ?q = "rat_of_nat n" and ?u = "ulp_exp (rat_of_nat n)"
  have qpos: "0 < ?q" using assms by simp
  have "?q \<le> of_nat (2 ^ 53)" using assms(2) by (simp only: of_nat_le_iff)
  then have q53: "?q \<le> pow2 53" by (simp add: pow2_def)
  have e53: "rat_exp ?q \<le> 53" using assms by (rule rat_exp_small)
  have e0: "0 \<le> rat_exp ?q"
  proof -
    have "pow2 0 \<le> ?q" using assms(1) by simp
    then have "pow2 0 < pow2 (rat_exp ?q + 1)" using rat_exp_less [OF qpos] by linarith
    then show ?thesis using pow2_strict by fastforce
  qed
  show ?thesis
  proof (cases "rat_exp ?q = 53")
    case True
    then have "?q = pow2 53" using q53 rat_exp_le [OF qpos] by simp
    moreover have "?u = 1" using True by (simp add: ulp_exp_def)
    moreover have "pow2 53 = of_int (2 ^ 52) * pow2 1" by (simp add: pow2_def)
    ultimately show ?thesis using round_pos_exact [of ?q "2 ^ 52"] by simp
  next
    case False
    then have u: "?u \<le> 0" using e53 e0 by (simp add: ulp_exp_def)
    then have "pow2 (- ?u) = of_int (2 ^ nat (- ?u))" by (simp add: pow2_def)
    moreover have "pow2 (- ?u) * pow2 ?u = 1" by (simp flip: pow2_add)
    ultimately have "?q = of_int (int n * 2 ^ nat (- ?u)) * pow2 ?u"
      by (simp add: algebra_simps)
    then show ?thesis by (rule round_pos_exact)
  qed
qed

lemma f64_of_int_exact:
  assumes "\<bar>i\<bar> \<le> 2 ^ 53"
  shows "f64_of_int i = FRat (of_int i)"
proof (cases "i = 0")
  case False
  then have n: "0 < nat \<bar>i\<bar>" "nat \<bar>i\<bar> \<le> 2 ^ 53" using assms by auto
  have r: "rat_of_nat (nat \<bar>i\<bar>) = \<bar>of_int i\<bar>" by (simp add: of_nat_nat)
  have rp: "round_pos \<bar>of_int i :: rat\<bar> = \<bar>of_int i\<bar>" using round_pos_nat [OF n] r by simp
  have "rat_exp (rat_of_nat (nat \<bar>i\<bar>)) \<le> 53" using n by (rule rat_exp_small)
  then have "\<not> 1024 \<le> rat_exp \<bar>of_int i :: rat\<bar>" using r by simp
  then show ?thesis using False rp by (auto simp: f64_of_int_def f64_of_rat_def Let_def)
qed (simp add: f64_of_int_def f64_of_rat_def)

lemma f64_to_int_of_int:
  assumes "\<bar>i\<bar> \<le> 2 ^ 53"
  shows "f64_to_int (f64_of_int i) = i"
  using assms
  by (auto simp: f64_of_int_exact f64_to_int_def rat_trunc_def min_int64_def max_int64_def Let_def)

lemmas f64_eval = f64_of_rat_def round_pos_def ulp_exp_def rat_exp_def inv_exp_def pow2_def
  round_even_def Let_def

subsection \<open>Order\<close>

lemma f64_eq_sym: "f64_eq x y = f64_eq y x"
  by (cases x; cases y) auto

lemma f64_lt_asym: "f64_lt x y \<Longrightarrow> \<not> f64_lt y x"
  by (cases x; cases y) auto

lemma f64_trichotomy:
  "x \<noteq> FNaN \<Longrightarrow> y \<noteq> FNaN \<Longrightarrow> f64_lt x y \<or> f64_eq x y \<or> f64_lt y x"
  by (cases x; cases y) auto

lemma f64_lt_not_eq: "f64_lt x y \<Longrightarrow> \<not> f64_eq x y"
  by (cases x; cases y) auto

lemma f64_eq_refl: "x \<noteq> FNaN \<Longrightarrow> f64_eq x x"
  by (cases x) auto

end
