(* ===== verification/Go_Time.thy ===== *)
theory Go_Time
  imports Go_Strings
begin

text \<open>
  Go's \<^verbatim>\<open>time\<close> package as far as the code uses it. An instant is the number of nanoseconds since
  1970-01-01T00:00:00Z, an \<^typ>\<open>int\<close>; a civil date is the triple of year, month and day of the
  proleptic Gregorian calendar. A \<^verbatim>\<open>*time.Location\<close> is a record with the look-up function of the zone
  database, which is data outside the repository: \<open>zone_lookup\<close> gives for a Unix second the
  offset east of Greenwich and the half-open interval of seconds on which that offset holds.
\<close>

definition sec_ns :: int where "sec_ns = 1000000000"
definition minute_ns :: int where "minute_ns = 60 * sec_ns"
definition hour_ns :: int where "hour_ns = 60 * minute_ns"
definition day_ns :: int where "day_ns = 24 * hour_ns"

subsection \<open>The calendar\<close>

definition is_leap :: "int \<Rightarrow> bool" where
  "is_leap y = (y mod 4 = 0 \<and> (y mod 100 \<noteq> 0 \<or> y mod 400 = 0))"

definition month_days :: "int \<Rightarrow> int \<Rightarrow> int" where
  "month_days y m = (if m = 2 then (if is_leap y then 29 else 28)
                     else if m = 4 \<or> m = 6 \<or> m = 9 \<or> m = 11 then 30 else 31)"

text \<open>Days before the first of a month, in a year that begins in March.\<close>

definition march_days :: "int \<Rightarrow> int" where
  "march_days mp = (153 * mp + 2) div 5"

text \<open>Days from 1970-01-01 to a civil date; months outside 1..12 and days outside the month carry over,
  as \<^verbatim>\<open>time.Date\<close> normalises them.\<close>

definition days_of_civil :: "int \<Rightarrow> int \<Rightarrow> int \<Rightarrow> int" where
  "days_of_civil y0 m0 d =
     (let y1 = y0 + (m0 - 1) div 12; m = (m0 - 1) mod 12 + 1;
          y = (if m \<le> 2 then y1 - 1 else y1); mp = (if 2 < m then m - 3 else m + 9)
      in 365 * y + y div 4 - y div 100 + y div 400 + march_days mp + (d - 1) - 719468)"

text \<open>The year that begins in March and contains a day, day 0 being 0000-03-01.\<close>

definition march_year_start :: "int \<Rightarrow> int" where
  "march_year_start y = 365 * y + y div 4 - y div 100 + y div 400"

definition march_year :: "int \<Rightarrow> int" where
  "march_year z =
     (let a = z div 146097; r = z mod 146097; b = min 3 (r div 36524); r2 = r - 36524 * b;
          c = r2 div 1461; r3 = r2 mod 1461; d = min 3 (r3 div 365)
      in 400 * a + 100 * b + 4 * c + d)"

definition civil_of_days :: "int \<Rightarrow> int \<times> int \<times> int" where
  "civil_of_days n =
     (let z = n + 719468; y = march_year z; doy = z - march_year_start y;
          mp = (5 * doy + 2) div 153; m = (if mp < 10 then mp + 3 else mp - 9)
      in (if m \<le> 2 then y + 1 else y, m, doy - march_days mp + 1))"

text \<open>\<^verbatim>\<open>Weekday\<close>: 0 is Sunday; 1970-01-01 was a Thursday.\<close>

definition weekday_of_days :: "int \<Rightarrow> int" where
  "weekday_of_days n = (n + 4) mod 7"

subsection \<open>Locations\<close>

record location =
  zone_lookup :: "int \<Rightarrow> int \<times> int \<times> int"

definition utc_loc :: location where
  "utc_loc = \<lparr>zone_lookup = (\<lambda>_. (0, - (2 ^ 63), 2 ^ 63 - 1))\<rparr>"

definition fixed_loc :: "int \<Rightarrow> location" where
  "fixed_loc off = \<lparr>zone_lookup = (\<lambda>_. (off, - (2 ^ 63), 2 ^ 63 - 1))\<rparr>"

definition unix_sec :: "int \<Rightarrow> int" where
  "unix_sec t = t div sec_ns"

definition zone_offset :: "location \<Rightarrow> int \<Rightarrow> int" where
  "zone_offset loc sec = fst (zone_lookup loc sec)"

text \<open>Wall-clock seconds of an instant in a location, and the fields read from them.\<close>

definition local_sec :: "location \<Rightarrow> int \<Rightarrow> int" where
  "local_sec loc t = unix_sec t + zone_offset loc (unix_sec t)"

definition local_days :: "location \<Rightarrow> int \<Rightarrow> int" where
  "local_days loc t = local_sec loc t div 86400"

definition local_date :: "location \<Rightarrow> int \<Rightarrow> int \<times> int \<times> int" where
  "local_date loc t = civil_of_days (local_days loc t)"

definition local_year :: "location \<Rightarrow> int \<Rightarrow> int" where
  "local_year loc t = fst (local_date loc t)"
definition local_month :: "location \<Rightarrow> int \<Rightarrow> int" where
  "local_month loc t = fst (snd (local_date loc t))"
definition local_day :: "location \<Rightarrow> int \<Rightarrow> int" where
  "local_day loc t = snd (snd (local_date loc t))"
definition local_hour :: "location \<Rightarrow> int \<Rightarrow> int" where
  "local_hour loc t = (local_sec loc t mod 86400) div 3600"
definition local_minute :: "location \<Rightarrow> int \<Rightarrow> int" where
  "local_minute loc t = (local_sec loc t mod 3600) div 60"
definition local_second :: "location \<Rightarrow> int \<Rightarrow> int" where
  "local_second loc t = local_sec loc t mod 60"
definition local_nano :: "int \<Rightarrow> int" where
  "local_nano t = t mod sec_ns"
definition local_weekday :: "location \<Rightarrow> int \<Rightarrow> int" where
  "local_weekday loc t = weekday_of_days (local_days loc t)"

text \<open>\<^verbatim>\<open>time.Date\<close>: the wall clock is first read as UTC, then shifted by the offset looked up at
  that second, and looked up again when the shifted second falls outside the zone found.\<close>

definition resolve_wall :: "location \<Rightarrow> int \<Rightarrow> int" where
  "resolve_wall loc wall =
     (let (off, st, en) = zone_lookup loc wall
      in if off = 0 then wall
         else let utc = wall - off
              in if utc < st \<or> en \<le> utc then wall - zone_offset loc utc else utc)"

definition wall_sec :: "int \<Rightarrow> int \<Rightarrow> int \<Rightarrow> int \<Rightarrow> int \<Rightarrow> int \<Rightarrow> int" where
  "wall_sec y mo d h mi s = days_of_civil y mo d * 86400 + h * 3600 + mi * 60 + s"

definition go_date :: "location \<Rightarrow> int \<Rightarrow> int \<Rightarrow> int \<Rightarrow> int \<Rightarrow> int \<Rightarrow> int \<Rightarrow> int \<Rightarrow> int" where
  "go_date loc y mo d h mi s ns = resolve_wall loc (wall_sec y mo d h mi s) * sec_ns + ns"

definition add_date :: "location \<Rightarrow> int \<Rightarrow> int \<Rightarrow> int \<Rightarrow> int \<Rightarrow> int" where
  "add_date loc t dy dm dd =
     go_date loc (local_year loc t + dy) (local_month loc t + dm) (local_day loc t + dd)
       (local_hour loc t) (local_minute loc t) (local_second loc t) (local_nano t)"

subsection \<open>Parsing\<close>

definition two_digits :: "string \<Rightarrow> (int \<times> string) option" where
  "two_digits s = (case s of a # b # r \<Rightarrow>
       if is_digit a \<and> is_digit b then Some (digit_val a * 10 + digit_val b, r) else None
     | _ \<Rightarrow> None)"

text \<open>The hour of a layout with \<^verbatim>\<open>15\<close> takes one or two digits.\<close>

definition one_or_two_digits :: "string \<Rightarrow> (int \<times> string) option" where
  "one_or_two_digits s = (case s of
       a # b # r \<Rightarrow> if \<not> is_digit a then None
                   else if is_digit b then Some (digit_val a * 10 + digit_val b, r)
                   else Some (digit_val a, b # r)
     | [a] \<Rightarrow> if is_digit a then Some (digit_val a, []) else None
     | [] \<Rightarrow> None)"

definition four_digits :: "string \<Rightarrow> (int \<times> string) option" where
  "four_digits s =
     (if 4 \<le> length s \<and> list_all is_digit (take 4 s)
      then Some (digits_val (take 4 s), drop 4 s) else None)"

definition eat :: "char \<Rightarrow> string \<Rightarrow> string option" where
  "eat c s = (case s of [] \<Rightarrow> None | d # r \<Rightarrow> if c = d then Some r else None)"

text \<open>Fraction of a second after the seconds field: a point or comma and at least one digit; digits beyond
  the ninth are dropped.\<close>

definition frac_nanos :: "string \<Rightarrow> int \<times> string" where
  "frac_nanos s = (case s of
       p # d # r \<Rightarrow>
         if (p = CHR ''.'' \<or> p = CHR '','') \<and> is_digit d
         then (let ds = takeWhile is_digit (d # r); k = take 9 ds
               in (digits_val k * 10 ^ (9 - length k), dropWhile is_digit (d # r)))
         else (0, s)
     | _ \<Rightarrow> (0, s))"

text \<open>The zone field \<^verbatim>\<open>Z07:00\<close>, in seconds.\<close>

definition zone_field :: "string \<Rightarrow> (int \<times> string) option" where
  "zone_field s = (case s of
       [] \<Rightarrow> None
     | c # r \<Rightarrow>
         if c = CHR ''Z'' then Some (0, r)
         else if c = CHR ''+'' \<or> c = CHR ''-'' then
           Option.bind (two_digits r) (\<lambda>(h, r1).
           Option.bind (eat (CHR '':'') r1) (\<lambda>r2.
           Option.bind (two_digits r2) (\<lambda>(m, r3).
             if 24 < h \<or> 60 < m then None
             else Some ((if c = CHR ''-'' then -1 else 1) * (h * 3600 + m * 60), r3))))
         else None)"

text \<open>\<^verbatim>\<open>time.Parse(time.RFC3339Nano, s)\<close>; the layout \<^verbatim>\<open>time.RFC3339\<close> accepts the same texts.\<close>

definition parse_rfc3339 :: "string \<Rightarrow> int option" where
  "parse_rfc3339 s =
     Option.bind (four_digits s) (\<lambda>(y, s1).
     Option.bind (eat (CHR ''-'') s1) (\<lambda>s2.
     Option.bind (two_digits s2) (\<lambda>(mo, s3).
     Option.bind (eat (CHR ''-'') s3) (\<lambda>s4.
     Option.bind (two_digits s4) (\<lambda>(d, s5).
     Option.bind (eat (CHR ''T'') s5) (\<lambda>s6.
     Option.bind (one_or_two_digits s6) (\<lambda>(h, s7).
     Option.bind (eat (CHR '':'') s7) (\<lambda>s8.
     Option.bind (two_digits s8) (\<lambda>(mi, s9).
     Option.bind (eat (CHR '':'') s9) (\<lambda>s10.
     Option.bind (two_digits s10) (\<lambda>(sec, s11).
     (let (ns, s12) = frac_nanos s11 in
     Option.bind (zone_field s12) (\<lambda>(off, rest).
       if rest = [] \<and> 1 \<le> mo \<and> mo \<le> 12 \<and> 1 \<le> d \<and> d \<le> month_days y mo
          \<and> h < 24 \<and> mi < 60 \<and> sec < 60
       then Some ((wall_sec y mo d h mi sec - off) * sec_ns + ns)
       else None)))))))))))))"

text \<open>\<^verbatim>\<open>time.Parse("15:04", s)\<close>: hour and minute.\<close>

definition parse_hhmm :: "string \<Rightarrow> (int \<times> int) option" where
  "parse_hhmm s =
     Option.bind (one_or_two_digits s) (\<lambda>(h, s1).
     Option.bind (eat (CHR '':'') s1) (\<lambda>s2.
     Option.bind (two_digits s2) (\<lambda>(mi, rest).
       if rest = [] \<and> h < 24 \<and> mi < 60 then Some (h, mi) else None)))"

subsection \<open>Facts\<close>

lemma march_year_start_split:
  assumes "0 \<le> b" "b \<le> 3" "0 \<le> c" "c \<le> 24" "0 \<le> d" "d \<le> (3::int)"
  shows "march_year_start (400 * a + 100 * b + 4 * c + d)
         = 146097 * a + 36524 * b + 1461 * c + 365 * d"
proof -
  let ?y = "400 * a + 100 * b + 4 * c + d"
  have "?y div 4 = 100 * a + 25 * b + c"
    by (rule int_div_pos_eq [where r = d]) (use assms in auto)
  moreover have "?y div 100 = 4 * a + b"
    by (rule int_div_pos_eq [where r = "4 * c + d"]) (use assms in auto)
  moreover have "?y div 400 = a"
    by (rule int_div_pos_eq [where r = "100 * b + 4 * c + d"]) (use assms in auto)
  ultimately show ?thesis by (simp add: march_year_start_def)
qed

lemma march_year_bounds:
  "0 \<le> z - march_year_start (march_year z) \<and> z - march_year_start (march_year z) \<le> 365"
proof -
  define a where "a = z div 146097"
  define r where "r = z mod 146097"
  define b where "b = min 3 (r div 36524)"
  define r2 where "r2 = r - 36524 * b"
  define c where "c = r2 div 1461"
  define r3 where "r3 = r2 mod 1461"
  define d where "d = min 3 (r3 div 365)"
  have z: "z = 146097 * a + r" by (simp add: a_def r_def)
  have r: "0 \<le> r" "r < 146097" by (simp_all add: r_def)
  have b: "0 \<le> b" "b \<le> 3" "0 \<le> r2" "r2 \<le> 36524"
    using r by (auto simp: b_def r2_def min_def)
  have r2: "r2 = 1461 * c + r3" by (simp add: c_def r3_def)
  have c: "0 \<le> c" "c \<le> 24" "0 \<le> r3" "r3 < 1461"
    using b by (auto simp: c_def r3_def)
  have d: "0 \<le> d" "d \<le> 3" "365 * d \<le> r3" "r3 - 365 * d \<le> 365"
    using c by (auto simp: d_def min_def)
  have y: "march_year z = 400 * a + 100 * b + 4 * c + d"
    by (simp add: march_year_def a_def r_def b_def r2_def c_def r3_def d_def Let_def)
  have "z - march_year_start (march_year z) = r3 - 365 * d"
    unfolding y march_year_start_split [OF b(1,2) c(1,2) d(1,2)]
    using z r2 by (simp add: r2_def)
  then show ?thesis using d by simp
qed

theorem days_of_civil_of_days:
  "(case civil_of_days n of (y, m, d) \<Rightarrow> days_of_civil y m d) = n"
proof -
  define z where "z = n + 719468"
  define y where "y = march_year z"
  define doy where "doy = z - march_year_start y"
  define mp where "mp = (5 * doy + 2) div 153"
  have "0 \<le> doy" "doy \<le> 365" using march_year_bounds [of z] by (simp_all add: doy_def y_def)
  then have mp: "0 \<le> mp" "mp \<le> 11" by (auto simp: mp_def)
  have "days_of_civil (if mp < 10 then y else y + 1) (if mp < 10 then mp + 3 else mp - 9)
          (doy - march_days mp + 1) = n"
  proof (cases "mp < 10")
    case True
    with mp have "(mp + 2) div 12 = 0" "(mp + 2) mod 12 = mp + 2" by auto
    then show ?thesis using True mp
      by (simp add: days_of_civil_def Let_def doy_def march_year_start_def z_def)
  next
    case False
    with mp have "(mp - 10) div 12 = 0" "(mp - 10) mod 12 = mp - 10" by auto
    then show ?thesis using False mp
      by (simp add: days_of_civil_def Let_def doy_def march_year_start_def z_def)
  qed
  moreover have "civil_of_days n = (if mp < 10 then y else y + 1,
      if mp < 10 then mp + 3 else mp - 9, doy - march_days mp + 1)"
    using mp by (auto simp: civil_of_days_def Let_def mp_def doy_def y_def z_def)
  ultimately show ?thesis by simp
qed

lemma days_of_civil_day: "days_of_civil y m (d + k) = days_of_civil y m d + k"
  by (simp add: days_of_civil_def Let_def)

lemma local_date_days:
  "days_of_civil (local_year loc t) (local_month loc t) (local_day loc t + k) = local_days loc t + k"
  using days_of_civil_of_days [of "local_days loc t"]
  by (simp add: local_year_def local_month_def local_day_def local_date_def days_of_civil_day
      split: prod.splits)

lemma zone_offset_fixed [simp]: "zone_offset (fixed_loc off) s = off"
  by (simp add: zone_offset_def fixed_loc_def)

lemma zone_offset_utc [simp]: "zone_offset utc_loc s = 0"
  by (simp add: zone_offset_def utc_loc_def)

lemma resolve_wall_fixed [simp]: "resolve_wall (fixed_loc off) w = w - off"
  by (simp add: resolve_wall_def fixed_loc_def zone_offset_def Let_def)

lemma resolve_wall_utc [simp]: "resolve_wall utc_loc w = w"
  by (simp add: resolve_wall_def utc_loc_def)

end
