(* ===== verification/Ast_Value.thy ===== *)
theory Ast_Value
  imports Go_Float Go_Time
begin

text \<open>
  The dynamic values of the rule language and the operations on them:
  \<^verbatim>\<open>decision-engine-service/internal/runtime/ast_eval/evaluator.go\<close>, from \<^verbatim>\<open>containsValue\<close> to the end of
  the file, without the fuzzy matching (theory Ast_Fuzzy). A value of Go type \<^verbatim>\<open>any\<close> is a \<open>gval\<close> with one
  constructor per dynamic type the evaluator handles; Go maps are association lists.
\<close>

record score_result =
  sr_triggered :: bool
  sr_modifier :: int
  sr_floor :: int
  sr_branch :: "int option"
  sr_fallback :: bool
  sr_default :: bool

definition zero_score :: score_result where
  "zero_score = \<lparr>sr_triggered = False, sr_modifier = 0, sr_floor = 0, sr_branch = None,
                 sr_fallback = False, sr_default = False\<rparr>"

datatype gval =
    VNil
  | VBool bool
  | VStr string
  | VInt int          \<comment> \<open>Go \<^verbatim>\<open>int\<close>, 64 bits wide\<close>
  | VInt64 int
  | VFloat f64
  | VFloat32 f64      \<comment> \<open>the exact value of a \<^verbatim>\<open>float32\<close>\<close>
  | VNum string       \<comment> \<open>\<^verbatim>\<open>json.Number\<close>, the literal\<close>
  | VTime int         \<comment> \<open>\<^verbatim>\<open>time.Time\<close> in UTC\<close>
  | VList "gval list"
  | VObj "(string \<times> gval) list"
  | VFilter string string string gval
  | VScore score_result

definition in_int64 :: "int \<Rightarrow> bool" where
  "in_int64 i = (min_int64 \<le> i \<and> i \<le> max_int64)"

definition wrap64 :: "int \<Rightarrow> int" where
  "wrap64 i = (i + 2 ^ 63) mod 2 ^ 64 - 2 ^ 63"

fun go_type_name :: "gval \<Rightarrow> string" where
  "go_type_name VNil = ''<nil>''"
| "go_type_name (VBool _) = ''bool''"
| "go_type_name (VStr _) = ''string''"
| "go_type_name (VInt _) = ''int''"
| "go_type_name (VInt64 _) = ''int64''"
| "go_type_name (VFloat _) = ''float64''"
| "go_type_name (VFloat32 _) = ''float32''"
| "go_type_name (VNum _) = ''json.Number''"
| "go_type_name (VTime _) = ''time.Time''"
| "go_type_name (VList _) = ''[]interface {}''"
| "go_type_name (VObj _) = ''map[string]interface {}''"
| "go_type_name (VFilter _ _ _ _) = ''ast_eval.marbleFilter''"
| "go_type_name (VScore _) = ''ast_eval.ScoreComputationResult''"

text \<open>Reading a key of a Go map of type \<^verbatim>\<open>map[string]any\<close>: nil when the key is absent.\<close>

definition field_of :: "(string \<times> gval) list \<Rightarrow> string \<Rightarrow> gval" where
  "field_of m k = (case map_of m k of None \<Rightarrow> VNil | Some v \<Rightarrow> v)"

subsection \<open>JSON number literals\<close>

definition pow10 :: "int \<Rightarrow> rat" where
  "pow10 e = (if 0 \<le> e then 10 ^ nat e else 1 / 10 ^ nat (- e))"

text \<open>Sign, digits as one integer, and decimal exponent of a literal.\<close>

definition num_exponent :: "string \<Rightarrow> int option" where
  "num_exponent s = (case s of
       [] \<Rightarrow> Some 0
     | c # r \<Rightarrow>
         if c = CHR ''e'' \<or> c = CHR ''E'' then
           (let neg = (case r of d # _ \<Rightarrow> d = CHR ''-'' | [] \<Rightarrow> False);
                ds = (case r of d # t \<Rightarrow> if d = CHR ''-'' \<or> d = CHR ''+'' then t else r | [] \<Rightarrow> [])
            in if ds \<noteq> [] \<and> list_all is_digit ds
               then Some (if neg then - digits_val ds else digits_val ds) else None)
         else None)"

definition parse_number :: "string \<Rightarrow> (bool \<times> rat) option" where
  "parse_number s =
     (let neg = (case s of c # _ \<Rightarrow> c = CHR ''-'' | [] \<Rightarrow> False);
          body = (if neg then tl s else s);
          ip = takeWhile is_digit body; r1 = dropWhile is_digit body;
          hasfrac = (case r1 of c # _ \<Rightarrow> c = CHR ''.'' | [] \<Rightarrow> False);
          fp = (if hasfrac then takeWhile is_digit (tl r1) else []);
          r2 = (if hasfrac then dropWhile is_digit (tl r1) else r1)
      in if ip = [] \<or> (hasfrac \<and> fp = []) then None
         else (case num_exponent r2 of None \<Rightarrow> None
               | Some e \<Rightarrow>
                   let q = of_int (digits_val (ip @ fp)) * pow10 (e - int (length fp))
                   in Some (neg, if neg then - q else q)))"

subsection \<open>Numeric views of a value\<close>

text \<open>\<^verbatim>\<open>toFloat\<close>\<close>

fun to_float :: "gval \<Rightarrow> f64 option" where
  "to_float (VNum s) = (case parse_number s of None \<Rightarrow> None
     | Some (neg, q) \<Rightarrow> (case f64_of_rat neg q of FInf _ \<Rightarrow> None | x \<Rightarrow> Some x))"
| "to_float (VFloat x) = Some x"
| "to_float (VFloat32 x) = Some x"
| "to_float (VInt i) = Some (f64_of_int i)"
| "to_float (VInt64 i) = Some (f64_of_int i)"
| "to_float _ = None"

text \<open>\<^verbatim>\<open>exactNumericOperand\<close>\<close>

fun exact_operand :: "gval \<Rightarrow> bool" where
  "exact_operand (VInt i) = (i > 2 ^ 53 - 1 \<or> i < - (2 ^ 53 - 1))"
| "exact_operand (VInt64 i) = (i > 2 ^ 53 - 1 \<or> i < - (2 ^ 53 - 1))"
| "exact_operand (VNum _) = True"
| "exact_operand _ = False"

text \<open>\<^verbatim>\<open>numericRat\<close>\<close>

fun numeric_rat :: "gval \<Rightarrow> rat option" where
  "numeric_rat (VInt i) = Some (of_int i)"
| "numeric_rat (VInt64 i) = Some (of_int i)"
| "numeric_rat (VNum s) = map_option snd (parse_number s)"
| "numeric_rat (VFloat x) = f64_rat x"
| "numeric_rat (VFloat32 x) = f64_rat x"
| "numeric_rat _ = None"

text \<open>\<^verbatim>\<open>parseTimeValue\<close>\<close>

fun parse_time_value :: "gval \<Rightarrow> int option" where
  "parse_time_value (VTime t) = Some t"
| "parse_time_value (VStr s) = parse_rfc3339 s"
| "parse_time_value _ = None"

subsection \<open>Comparison\<close>

text \<open>The six operators read off a three-way comparison.\<close>

definition cmp_result :: "string \<Rightarrow> int \<Rightarrow> bool option" where
  "cmp_result op c =
     (if op = ''eq'' then Some (c = 0) else if op = ''neq'' then Some (c \<noteq> 0)
      else if op = ''gt'' then Some (c > 0) else if op = ''gte'' then Some (c \<ge> 0)
      else if op = ''lt'' then Some (c < 0) else if op = ''lte'' then Some (c \<le> 0) else None)"

definition three_way :: "'a::linorder \<Rightarrow> 'a \<Rightarrow> int" where
  "three_way a b = (if a < b then -1 else if b < a then 1 else 0)"

definition str_three_way :: "string \<Rightarrow> string \<Rightarrow> int" where
  "str_three_way a b = (if str_less a b then -1 else if str_less b a then 1 else 0)"

definition unsupported_op :: "string \<Rightarrow> 'a res" where
  "unsupported_op op = Inl (''unsupported operator '' @ str_quote op)"

text \<open>\<^verbatim>\<open>compareFloat\<close>\<close>

definition compare_float :: "string \<Rightarrow> f64 \<Rightarrow> f64 \<Rightarrow> bool" where
  "compare_float op l r =
     (if op = ''eq'' then f64_eq l r else if op = ''neq'' then \<not> f64_eq l r
      else if op = ''gt'' then f64_lt r l else if op = ''gte'' then f64_le r l
      else if op = ''lt'' then f64_lt l r else if op = ''lte'' then f64_le l r else False)"

definition compare_num :: "string \<Rightarrow> f64 \<Rightarrow> gval \<Rightarrow> bool res" where
  "compare_num op l right =
     (case to_float right of None \<Rightarrow> Inl (op @ '' expects numeric operands'')
      | Some r \<Rightarrow> Inr (compare_float op l r))"

definition compare_nil :: "string \<Rightarrow> gval \<Rightarrow> gval \<Rightarrow> bool res" where
  "compare_nil op left right =
     (if op = ''eq'' then Inr (left = VNil \<and> right = VNil)
      else if op = ''neq'' then Inr (left \<noteq> VNil \<or> right \<noteq> VNil)
      else if op = ''gt'' \<or> op = ''gte'' \<or> op = ''lt'' \<or> op = ''lte'' then Inr False
      else unsupported_op op)"

definition of_cmp :: "string \<Rightarrow> int \<Rightarrow> bool res" where
  "of_cmp op c = (case cmp_result op c of None \<Rightarrow> unsupported_op op | Some b \<Rightarrow> Inr b)"

text \<open>The switch on the type of the left operand.\<close>

fun compare_typed :: "string \<Rightarrow> gval \<Rightarrow> gval \<Rightarrow> bool res" where
  "compare_typed op (VBool l) right = (case right of
       VBool r \<Rightarrow> if op = ''eq'' then Inr (l = r) else if op = ''neq'' then Inr (l \<noteq> r)
                  else Inl (op @ '' not supported for booleans'')
     | _ \<Rightarrow> Inl (op @ '' expects matching boolean operands''))"
| "compare_typed op (VStr l) right = (case right of
       VStr r \<Rightarrow> of_cmp op (str_three_way l r)
     | _ \<Rightarrow> Inl (op @ '' expects matching string operands''))"
| "compare_typed op (VFloat l) right = compare_num op l right"
| "compare_typed op (VFloat32 l) right = compare_num op l right"
| "compare_typed op (VInt l) right = compare_num op (f64_of_int l) right"
| "compare_typed op (VInt64 l) right = compare_num op (f64_of_int l) right"
| "compare_typed op left right = Inl (''unsupported operand type '' @ go_type_name left)"

text \<open>\<^verbatim>\<open>compareValues\<close>\<close>

definition compare_values :: "string \<Rightarrow> gval \<Rightarrow> gval \<Rightarrow> bool res" where
  "compare_values op left right =
     (if left = VNil \<or> right = VNil then compare_nil op left right
      else case parse_time_value left of
        Some lt \<Rightarrow> (case parse_time_value right of
            None \<Rightarrow> Inl (op @ '' expects matching timestamp operands'')
          | Some rt \<Rightarrow> of_cmp op (three_way lt rt))
      | None \<Rightarrow>
          if exact_operand left \<or> exact_operand right then
            (case (numeric_rat left, numeric_rat right) of
               (Some l, Some r) \<Rightarrow> (case cmp_result op (three_way l r) of
                   Some b \<Rightarrow> Inr b | None \<Rightarrow> compare_typed op left right)
             | _ \<Rightarrow> Inl (op @ '' expects numeric operands''))
          else compare_typed op left right)"

definition values_equal :: "gval \<Rightarrow> gval \<Rightarrow> bool" where
  "values_equal l r = (compare_values ''eq'' l r = Inr True)"

subsection \<open>Containment\<close>

text \<open>\<^verbatim>\<open>containsValue\<close>; a comparison that errors counts as unequal.\<close>

fun contains_value :: "gval \<Rightarrow> gval \<Rightarrow> bool res" where
  "contains_value (VStr s) right = (case right of VStr n \<Rightarrow> Inr (str_contains s n)
     | _ \<Rightarrow> Inl ''contains expects string right operand when left is string'')"
| "contains_value (VList xs) right = Inr (list_ex (\<lambda>item. values_equal item right) xs)"
| "contains_value left right = Inl (''contains does not support left operand type '' @ go_type_name left)"

text \<open>\<^verbatim>\<open>inValue\<close>\<close>

fun in_value :: "gval \<Rightarrow> gval \<Rightarrow> bool res" where
  "in_value left (VList xs) = Inr (list_ex (\<lambda>item. values_equal left item) xs)"
| "in_value left right = Inl ''in expects list right operand''"

text \<open>\<^verbatim>\<open>containsAnyValue\<close>: the loop stops at the first hit, so a non-string after it is not seen.\<close>

fun contains_any_items :: "string \<Rightarrow> gval list \<Rightarrow> bool res" where
  "contains_any_items hay [] = Inr False"
| "contains_any_items hay (VStr t # items) =
     (if str_contains hay (to_lower t) then Inr True else contains_any_items hay items)"
| "contains_any_items hay (item # items) = Inl ''contains_any expects list of strings''"

definition contains_any_value :: "gval \<Rightarrow> gval \<Rightarrow> bool res" where
  "contains_any_value left right = (case left of
       VStr s \<Rightarrow> (case right of VList items \<Rightarrow> contains_any_items (to_lower s) items
                 | _ \<Rightarrow> Inl ''contains_any expects list right operand'')
     | _ \<Rightarrow> Inl ''contains_any expects string left operand'')"

subsection \<open>Arithmetic\<close>

text \<open>\<^verbatim>\<open>arithmeticValue\<close>\<close>

definition arithmetic_value :: "string \<Rightarrow> gval \<Rightarrow> gval \<Rightarrow> f64 res" where
  "arithmetic_value op left right =
     (case to_float left of None \<Rightarrow> Inl (op @ '' expects numeric left operand'')
      | Some l \<Rightarrow> (case to_float right of None \<Rightarrow> Inl (op @ '' expects numeric right operand'')
      | Some r \<Rightarrow>
          if op = ''add'' then Inr (f64_add l r)
          else if op = ''subtract'' then Inr (f64_sub l r)
          else if op = ''multiply'' then Inr (f64_mul l r)
          else if op = ''divide'' then
            (if f64_eq r f64_zero then Inl ''divide by zero'' else Inr (f64_div l r))
          else Inl (''unsupported arithmetic op '' @ str_quote op)))"

text \<open>\<^verbatim>\<open>aggregateNumericList\<close>; the sums are taken from left to right, starting at zero.\<close>

definition f64_sum :: "f64 list \<Rightarrow> f64" where
  "f64_sum xs = foldl f64_add f64_zero xs"

definition numeric_items :: "string \<Rightarrow> gval list \<Rightarrow> f64 list res" where
  "numeric_items op items =
     mapM_r (\<lambda>item. case to_float item of None \<Rightarrow> Inl (op @ '' expects list of numeric values'')
                    | Some x \<Rightarrow> Inr x) items"

definition aggregate_numeric_list :: "string \<Rightarrow> gval list \<Rightarrow> f64 res" where
  "aggregate_numeric_list op items =
     (if items = [] then Inr f64_zero
      else bind_r (numeric_items op items) (\<lambda>vs.
        if op = ''sum'' then Inr (f64_sum vs)
        else if op = ''avg'' then Inr (f64_div (f64_sum vs) (f64_of_int (int (length vs))))
        else if op = ''min'' then
          Inr (foldl (\<lambda>m v. if f64_lt v m then v else m) f64_max vs)
        else if op = ''max'' then
          Inr (foldl (\<lambda>m v. if f64_lt m v then v else m) (f64_uminus f64_max) vs)
        else Inl (''unsupported aggregate '' @ str_quote op)))"

text \<open>\<^verbatim>\<open>downcastToInt64\<close>; the two bounds are the \<^verbatim>\<open>float64\<close> values of the \<^verbatim>\<open>int64\<close> limits.\<close>

definition f64_round :: "f64 \<Rightarrow> f64" where
  "f64_round x = (case x of FRat q \<Rightarrow> f64_of_rat (q < 0) (of_int (round_away q)) | _ \<Rightarrow> x)"

definition f64_abs :: "f64 \<Rightarrow> f64" where
  "f64_abs x = (if f64_neg x then f64_uminus x else x)"

definition downcast_tolerance :: f64 where
  "downcast_tolerance = f64_of_rat False (1 / 10 ^ 8)"

definition downcast_to_int64 :: "f64 \<Rightarrow> int option" where
  "downcast_to_int64 x =
     (if f64_lt x (FRat (- (2 ^ 63))) \<or> f64_lt (FRat (2 ^ 63)) x then None
      else if f64_lt downcast_tolerance (f64_abs (f64_sub (f64_round x) x)) then None
      else Some (f64_to_int x))"

subsection \<open>Facts about comparison\<close>

lemmas cmp_defs = cmp_result_def three_way_def str_three_way_def of_cmp_def compare_num_def
  compare_float_def compare_nil_def unsupported_op_def

lemma three_way_swap: "three_way b a = - three_way a b"
  by (auto simp: three_way_def)

lemma str_three_way_swap: "str_three_way b a = - str_three_way a b"
  using str_less_asym by (auto simp: str_three_way_def)

lemma cmp_result_swap: "cmp_result ''gt'' (- c) = cmp_result ''lt'' c"
  by (simp add: cmp_result_def)

lemma of_cmp_swap: "of_cmp ''gt'' (- c) = of_cmp ''lt'' c"
  by (simp add: of_cmp_def cmp_result_def)

lemma to_float_int:
  "\<bar>i\<bar> \<le> 2 ^ 53 \<Longrightarrow> f64_of_int i = FRat (of_int i)"
  by (rule f64_of_int_exact)

text \<open>What the six operators mean on integers.\<close>

definition int_compare :: "string \<Rightarrow> int \<Rightarrow> int \<Rightarrow> bool" where
  "int_compare op a b =
     (if op = ''eq'' then a = b else if op = ''neq'' then a \<noteq> b
      else if op = ''gt'' then a > b else if op = ''gte'' then a \<ge> b
      else if op = ''lt'' then a < b else a \<le> b)"

definition comparison_ops :: "string list" where
  "comparison_ops = [''eq'', ''neq'', ''gt'', ''gte'', ''lt'', ''lte'']"

lemma cmp_result_int:
  "op \<in> set comparison_ops \<Longrightarrow>
   cmp_result op (three_way (of_int a :: rat) (of_int b)) = Some (int_compare op a b)"
  by (auto simp: comparison_ops_def cmp_result_def three_way_def int_compare_def)

lemma compare_float_int:
  assumes "op \<in> set comparison_ops" "\<bar>a\<bar> \<le> 2 ^ 53" "\<bar>b\<bar> \<le> 2 ^ 53"
  shows "compare_float op (f64_of_int a) (f64_of_int b) = int_compare op a b"
  using assms
  by (auto simp: comparison_ops_def compare_float_def int_compare_def to_float_int f64_le_def)

fun int_value :: "gval \<Rightarrow> int option" where
  "int_value (VInt i) = Some i"
| "int_value (VInt64 i) = Some i"
| "int_value _ = None"

text \<open>C2. Two integers compare exactly: for every comparison and every pair of Go int or
  int64 operands, also beyond 2^53 where float64 is not exact, the verdict is that of the
  integers.\<close>

theorem compare_values_integers:
  assumes "op \<in> set comparison_ops" "int_value l = Some a" "int_value r = Some b"
  shows "compare_values op l r = Inr (int_compare op a b)"
proof (cases "exact_operand l \<or> exact_operand r")
  case True
  moreover have "numeric_rat l = Some (of_int a)" "numeric_rat r = Some (of_int b)"
    using assms(2,3) by (cases l; cases r; simp)+
  moreover have "l \<noteq> VNil" "r \<noteq> VNil" "parse_time_value l = None"
    using assms(2,3) by (cases l; cases r; simp)+
  ultimately show ?thesis
    using cmp_result_int [OF assms(1)] by (simp add: compare_values_def)
next
  case False
  then have "\<bar>a\<bar> \<le> 2 ^ 53" "\<bar>b\<bar> \<le> 2 ^ 53"
    using assms(2,3) by (cases l; cases r; auto)+
  moreover have "to_float r = Some (f64_of_int b)" using assms(3) by (cases r) auto
  moreover have "compare_typed op l r = compare_num op (f64_of_int a) r"
    using assms(2) by (cases l) auto
  moreover have "l \<noteq> VNil" "r \<noteq> VNil" "parse_time_value l = None"
    using assms(2,3) by (cases l; cases r; simp)+
  ultimately show ?thesis
    using False compare_float_int [OF assms(1)]
    by (simp add: compare_values_def compare_num_def)
qed

lemma compare_typed_neq:
  "(compare_typed ''neq'' l r = Inr b) = (compare_typed ''eq'' l r = Inr (\<not> b))"
  by (cases l; cases r) (auto simp: cmp_defs split: option.splits)

lemma compare_values_neq:
  "(compare_values ''neq'' l r = Inr b) = (compare_values ''eq'' l r = Inr (\<not> b))"
  using compare_typed_neq [of l r b]
  by (auto simp: compare_values_def cmp_defs split: option.splits)

text \<open>The views of a value two comparisons can disagree about.\<close>

lemma compare_num_float:
  "compare_num op x r = Inr b \<longleftrightarrow> (\<exists>y. to_float r = Some y \<and> b = compare_float op x y)"
  by (auto simp: compare_num_def split: option.splits)

lemma compare_float_swap: "compare_float ''gt'' x y = compare_float ''lt'' y x"
  by (simp add: compare_float_def)

lemma of_cmp_str_swap: "of_cmp ''gt'' (str_three_way a b) = of_cmp ''lt'' (str_three_way b a)"
  using of_cmp_swap [of "str_three_way b a"] by (simp add: str_three_way_swap [of a b])

fun float_view :: "gval \<Rightarrow> f64 option" where
  "float_view (VFloat x) = Some x"
| "float_view (VFloat32 x) = Some x"
| "float_view (VInt i) = Some (f64_of_int i)"
| "float_view (VInt64 i) = Some (f64_of_int i)"
| "float_view _ = None"

lemma float_view_to_float: "float_view v = Some x \<Longrightarrow> to_float v = Some x"
  by (cases v) auto

lemma compare_typed_float: "float_view l = Some x \<Longrightarrow> compare_typed op l r = compare_num op x r"
  by (cases l) auto

lemma compare_typed_swap:
  assumes gt: "compare_typed ''gt'' l r = Inr b" and lt: "compare_typed ''lt'' r l = Inr b'"
  shows "b = b'"
proof (cases "float_view l")
  case (Some x)
  have "to_float l = Some x" using Some by (rule float_view_to_float)
  moreover obtain y where y: "to_float r = Some y" "b = compare_float ''gt'' x y"
    using gt compare_typed_float [OF Some] by (auto simp: compare_num_float)
  moreover have "float_view r = Some y" using y(1) lt by (cases r) auto
  then have "compare_typed ''lt'' r l = compare_num ''lt'' y l" by (rule compare_typed_float)
  ultimately show ?thesis using lt by (simp add: compare_num_def compare_float_swap)
next
  case None
  then obtain a c where "l = VStr a" "r = VStr c"
    using gt by (cases l; cases r) (auto split: if_splits)
  then show ?thesis using gt lt of_cmp_str_swap [of a c] by simp
qed

lemma parse_time_value_num: "numeric_rat v = Some q \<Longrightarrow> parse_time_value v = None"
  by (cases v) auto

lemma exact_operand_numeric: "exact_operand v \<Longrightarrow> to_float v \<noteq> None \<Longrightarrow> numeric_rat v \<noteq> None"
  by (cases v) (auto split: option.splits)

lemma compare_values_swap:
  assumes gt: "compare_values ''gt'' l r = Inr b" and lt: "compare_values ''lt'' r l = Inr b'"
  shows "b = b'"
proof (cases "l = VNil \<or> r = VNil")
  case True
  then show ?thesis using gt lt by (auto simp: compare_values_def compare_nil_def)
next
  case nn: False
  show ?thesis
  proof (cases "parse_time_value l")
    case (Some lt')
    then show ?thesis using nn gt lt
      by (auto simp: compare_values_def of_cmp_def cmp_result_def three_way_def
          split: option.splits if_splits)
  next
    case l: None
    show ?thesis
    proof (cases "parse_time_value r")
      case (Some rt)
      then show ?thesis using nn lt l by (simp add: compare_values_def)
    next
      case r: None
      show ?thesis
      proof (cases "exact_operand l \<or> exact_operand r")
        case True
        then show ?thesis using nn gt lt l r
          by (auto simp: compare_values_def cmp_result_def three_way_def
              split: option.splits if_splits)
      next
        case False
        then have "compare_typed ''gt'' l r = Inr b" "compare_typed ''lt'' r l = Inr b'"
          using nn gt lt l r by (auto simp: compare_values_def)
        then show ?thesis by (rule compare_typed_swap)
      qed
    qed
  qed
qed

theorem compare_values_integers_witness:
  "compare_values ''gt'' (VInt64 9007199254740993) (VInt 9007199254740992) = Inr True"
  using compare_values_integers [of "''gt''" "VInt64 9007199254740993" 9007199254740993
      "VInt 9007199254740992" 9007199254740992]
  by (simp add: comparison_ops_def int_compare_def)

theorem compare_values_swap_witness:
  "compare_values ''gt'' (VStr ''b'') (VStr ''a'') = compare_values ''lt'' (VStr ''a'') (VStr ''b'')"
proof -
  have "compare_values ''gt'' (VStr ''b'') (VStr ''a'') = Inr True"
    "compare_values ''lt'' (VStr ''a'') (VStr ''b'') = Inr True" by code_simp+
  with compare_values_swap [OF this] show ?thesis by simp
qed

end
