(* ===== verification/Ast_Text.thy ===== *)
theory Ast_Text
  imports Ast_Value
begin

text \<open>
  Text and time helpers of \<^verbatim>\<open>ast_eval/evaluator.go\<close>: how \<^verbatim>\<open>fmt\<close> and \<^verbatim>\<open>strconv\<close> print a value, durations
  (\<^verbatim>\<open>parseDurationValue\<close>), parts of a timestamp, template rendering and the grouped counts and sums.
\<close>

subsection \<open>Printing a \<^verbatim>\<open>float64\<close>\<close>

text \<open>Decimal exponent of a positive rational below one, by search; 330 steps pass the least \<^verbatim>\<open>float64\<close>.\<close>

fun small_exp10 :: "nat \<Rightarrow> int \<Rightarrow> rat \<Rightarrow> int" where
  "small_exp10 0 e q = e"
| "small_exp10 (Suc n) e q = (if pow10 e \<le> q then e else small_exp10 n (e - 1) q)"

definition rat_exp10 :: "rat \<Rightarrow> int" where
  "rat_exp10 q = (if 1 \<le> q then int (length (dec_digits \<lfloor>q\<rfloor>)) - 1 else small_exp10 330 (-1) q)"

definition near_candidates :: "rat \<Rightarrow> int list" where
  "near_candidates y = (if y - of_int \<lfloor>y\<rfloor> \<le> 1 / 2 then [\<lfloor>y\<rfloor>, \<lfloor>y\<rfloor> + 1] else [\<lfloor>y\<rfloor> + 1, \<lfloor>y\<rfloor>])"

text \<open>Shortest decimal \<open>c \<cdot> 10\<^sup>k\<close> that reads back (\<open>rd\<close>) as the same number; 17 digits always do.\<close>

fun shortest_from :: "(rat \<Rightarrow> bool) \<Rightarrow> nat \<Rightarrow> nat \<Rightarrow> rat \<Rightarrow> int \<times> int" where
  "shortest_from rd 0 n q = (\<lfloor>q * pow10 (int n - 1 - rat_exp10 q)\<rfloor>, rat_exp10 q - int n + 1)"
| "shortest_from rd (Suc k) n q =
     (let sc = pow10 (int n - 1 - rat_exp10 q)
      in case find (\<lambda>c. rd (of_int c / sc)) (near_candidates (q * sc)) of
           Some c \<Rightarrow> (c, rat_exp10 q - int n + 1)
         | None \<Rightarrow> shortest_from rd k (Suc n) q)"

text \<open>A positive rational read as a \<^verbatim>\<open>float32\<close>.\<close>

definition f32_round :: "rat \<Rightarrow> rat" where
  "f32_round q = (let u = pow2 (max (rat_exp q - 23) (- 149)) in of_int (round_even (q / u)) * u)"

definition strip_zeros :: "string \<Rightarrow> string" where
  "strip_zeros s = rev (dropWhile (\<lambda>c. c = CHR ''0'') (rev s))"

definition pad2 :: "int \<Rightarrow> string" where
  "pad2 n = (if n < 10 then ''0'' @ dec_digits n else dec_digits n)"

definition zeros :: "nat \<Rightarrow> string" where
  "zeros n = replicate n (CHR ''0'')"

text \<open>Layout of \<^verbatim>\<open>%v\<close>, that is \<^verbatim>\<open>%g\<close> with the shortest precision: the exponent form is used for
  exponents below -4 and from 6 on.\<close>

definition layout_g :: "string \<Rightarrow> int \<Rightarrow> string" where
  "layout_g ds e =
     (if e < -4 \<or> 6 \<le> e then
        [hd ds] @ (if tl ds = [] then [] else ''.'' @ tl ds) @ ''e'' @ (if e < 0 then ''-'' else ''+'') @
        pad2 \<bar>e\<bar>
      else if e < 0 then ''0.'' @ zeros (nat (- e) - 1) @ ds
      else if length ds \<le> nat e + 1 then ds @ zeros (nat e + 1 - length ds)
      else take (nat e + 1) ds @ ''.'' @ drop (nat e + 1) ds)"

definition format_pos :: "(rat \<Rightarrow> bool) \<Rightarrow> rat \<Rightarrow> string" where
  "format_pos rd q =
     (let ck = shortest_from rd 16 1 q; ds = dec_digits (fst ck)
      in layout_g (strip_zeros ds) (snd ck + int (length ds) - 1))"

text \<open>\<^verbatim>\<open>%v\<close> with \<open>reads\<close> telling when a positive decimal reads as a positive float.\<close>

fun format_float :: "(rat \<Rightarrow> rat \<Rightarrow> bool) \<Rightarrow> f64 \<Rightarrow> string" where
  "format_float reads FNaN = ''NaN''"
| "format_float reads (FInf s) = (if s then ''-Inf'' else ''+Inf'')"
| "format_float reads FNegZero = ''-0''"
| "format_float reads (FRat q) =
     (if q = 0 then ''0'' else if q < 0 then ''-'' @ format_pos (reads (- q)) (- q)
      else format_pos (reads q) q)"

definition format_v :: "f64 \<Rightarrow> string" where
  "format_v = format_float (\<lambda>q r. f64_of_rat False r = FRat q)"

definition format_v32 :: "f64 \<Rightarrow> string" where
  "format_v32 = format_float (\<lambda>q r. f32_round r = q)"

text \<open>\<^verbatim>\<open>strconv.FormatFloat(x, 'f', 2, 64)\<close>: the exact value rounded half to even at two decimals.\<close>

definition format_f2_nat :: "int \<Rightarrow> string" where
  "format_f2_nat c = dec_digits (c div 100) @ ''.'' @ pad2 (c mod 100)"

fun format_f2 :: "f64 \<Rightarrow> string" where
  "format_f2 FNaN = ''NaN''"
| "format_f2 (FInf s) = (if s then ''-Inf'' else ''+Inf'')"
| "format_f2 FNegZero = ''-0.00''"
| "format_f2 (FRat q) =
     (if q < 0 then ''-'' else []) @ format_f2_nat (round_even (\<bar>q\<bar> * 100))"

subsection \<open>\<^verbatim>\<open>fmt.Sprint\<close>\<close>

definition pad_to :: "nat \<Rightarrow> int \<Rightarrow> string" where
  "pad_to w n = (let ds = dec_digits n in zeros (w - length ds) @ ds)"

definition strip_frac :: "int \<Rightarrow> string" where
  "strip_frac ns = (if ns = 0 then [] else ''.'' @ strip_zeros (pad_to 9 ns))"

text \<open>A UTC time prints as \<^verbatim>\<open>2006-01-02 15:04:05.999999999 +0000 UTC\<close>.\<close>

definition format_time :: "int \<Rightarrow> string" where
  "format_time t =
     pad_to 4 (local_year utc_loc t) @ ''-'' @ pad2 (local_month utc_loc t) @ ''-'' @
     pad2 (local_day utc_loc t) @ '' '' @ pad2 (local_hour utc_loc t) @ '':'' @
     pad2 (local_minute utc_loc t) @ '':'' @ pad2 (local_second utc_loc t) @
     strip_frac (local_nano t) @ '' +0000 UTC''"

definition bool_text :: "bool \<Rightarrow> string" where
  "bool_text b = (if b then ''true'' else ''false'')"

text \<open>Maps print with their keys in order.\<close>

fun insert_pair :: "string \<times> string \<Rightarrow> (string \<times> string) list \<Rightarrow> (string \<times> string) list" where
  "insert_pair p [] = [p]"
| "insert_pair p (q # qs) = (if str_less (fst q) (fst p) then q # insert_pair p qs else p # q # qs)"

definition sort_pairs :: "(string \<times> string) list \<Rightarrow> (string \<times> string) list" where
  "sort_pairs ps = foldr insert_pair ps []"

text \<open>The branch index of a score is a pointer in Go and prints as an address; records that reach
  \<^verbatim>\<open>fmt.Sprint\<close> are field values, which are never scores, and the model prints the number.\<close>

definition sprint_score :: "score_result \<Rightarrow> string" where
  "sprint_score r =
     ''{'' @ join_with '' '' [bool_text (sr_triggered r), itoa (sr_modifier r), itoa (sr_floor r),
        (case sr_branch r of None \<Rightarrow> ''<nil>'' | Some b \<Rightarrow> itoa b),
        bool_text (sr_fallback r), bool_text (sr_default r)] @ ''}''"

fun go_sprint :: "gval \<Rightarrow> string" where
  "go_sprint VNil = ''<nil>''"
| "go_sprint (VBool b) = bool_text b"
| "go_sprint (VStr s) = s"
| "go_sprint (VInt i) = itoa i"
| "go_sprint (VInt64 i) = itoa i"
| "go_sprint (VFloat x) = format_v x"
| "go_sprint (VFloat32 x) = format_v32 x"
| "go_sprint (VNum s) = s"
| "go_sprint (VTime t) = format_time t"
| "go_sprint (VList xs) = ''['' @ join_with '' '' (map go_sprint xs) @ '']''"
| "go_sprint (VObj m) = ''map['' @ join_with '' ''
     (map (\<lambda>(k, v). k @ '':'' @ v) (sort_pairs (map (\<lambda>(k, v). (k, go_sprint v)) m))) @ '']''"
| "go_sprint (VFilter t f op v) = ''{'' @ join_with '' '' [t, f, op, go_sprint v] @ ''}''"
| "go_sprint (VScore r) = sprint_score r"

subsection \<open>Grouping\<close>

text \<open>\<^verbatim>\<open>m[k] = v\<close>\<close>

fun obj_put :: "string \<Rightarrow> gval \<Rightarrow> (string \<times> gval) list \<Rightarrow> (string \<times> gval) list" where
  "obj_put k v [] = [(k, v)]"
| "obj_put k v (p # ps) = (if fst p = k then (k, v) # ps else p # obj_put k v ps)"

lemma map_of_obj_put [simp]: "map_of (obj_put k v m) = (map_of m)(k \<mapsto> v)"
  by (induction m) auto

text \<open>One step of \<^verbatim>\<open>groupCount\<close> and \<^verbatim>\<open>groupSum\<close>: add to the number under a key, or start with it.\<close>

definition group_add :: "string \<Rightarrow> f64 \<Rightarrow> (string \<times> gval) list \<Rightarrow> (string \<times> gval) list" where
  "group_add key x out = (case map_of out key of
       Some (VFloat n) \<Rightarrow> obj_put key (VFloat (f64_add n x)) out
     | _ \<Rightarrow> obj_put key (VFloat x) out)"

fun group_count_step :: "string \<Rightarrow> gval \<Rightarrow> (string \<times> gval) list \<Rightarrow> (string \<times> gval) list" where
  "group_count_step f (VObj m) out = group_add (go_sprint (field_of m f)) (FRat 1) out"
| "group_count_step f _ out = out"

definition group_count :: "gval list \<Rightarrow> string \<Rightarrow> gval" where
  "group_count items f = VObj (fold (group_count_step f) items [])"

fun group_sum_loop :: "gval list \<Rightarrow> string \<Rightarrow> string \<Rightarrow> (string \<times> gval) list \<Rightarrow> (string \<times> gval) list res" where
  "group_sum_loop [] gf vf out = Inr out"
| "group_sum_loop (VObj m # items) gf vf out =
     (case to_float (field_of m vf) of
        None \<Rightarrow> Inl (''group_sum expects numeric '' @ str_quote vf @ '' values'')
      | Some x \<Rightarrow> group_sum_loop items gf vf (group_add (go_sprint (field_of m gf)) x out))"
| "group_sum_loop (_ # items) gf vf out = group_sum_loop items gf vf out"

definition group_sum :: "gval list \<Rightarrow> string \<Rightarrow> string \<Rightarrow> gval res" where
  "group_sum items gf vf = bind_r (group_sum_loop items gf vf []) (\<lambda>out. Inr (VObj out))"

subsection \<open>Timestamps\<close>

text \<open>\<^verbatim>\<open>extractTimestampPart\<close>\<close>

definition extract_timestamp_part :: "int \<Rightarrow> string \<Rightarrow> gval res" where
  "extract_timestamp_part t part =
     (let p = trim_space (to_lower part) in
      if p = ''year'' then Inr (VInt (local_year utc_loc t))
      else if p = ''month'' then Inr (VInt (local_month utc_loc t))
      else if p = ''day_of_month'' then Inr (VInt (local_day utc_loc t))
      else if p = ''day_of_week'' then
        Inr (VInt (let w = local_weekday utc_loc t in if w = 0 then 7 else w))
      else if p = ''hour'' then Inr (VInt (local_hour utc_loc t))
      else Inl (''timestamp_extract part '' @ str_quote part @ '' is not supported''))"

subsection \<open>Durations\<close>

definition duration_units :: "(string \<times> int) list" where
  "duration_units = [(''ns'', 1), (''us'', 1000), ([CHR 0xC2, CHR 0xB5, CHR ''s''], 1000),
     ([CHR 0xCE, CHR 0xBC, CHR ''s''], 1000), (''ms'', 1000000), (''s'', sec_ns),
     (''m'', minute_ns), (''h'', hour_ns)]"

text \<open>Fraction digits: value, scale and whether further digits are skipped.\<close>

fun frac_digits :: "string \<Rightarrow> int \<Rightarrow> f64 \<Rightarrow> bool \<Rightarrow> int \<times> f64" where
  "frac_digits [] f sc ovf = (f, sc)"
| "frac_digits (c # s) f sc ovf =
     (if ovf \<or> f > max_int64 div 10 then frac_digits s f sc True
      else let y = f * 10 + digit_val c
           in if y > 2 ^ 63 then frac_digits s f sc True
              else frac_digits s y (f64_mul sc (FRat 10)) False)"

definition is_dot :: "char \<Rightarrow> bool" where
  "is_dot c = (c = CHR ''.'')"

text \<open>One number with its unit at the front of the text: its nanoseconds and the rest.\<close>

definition duration_item :: "string \<Rightarrow> (int \<times> string) option" where
  "duration_item s =
     (let ip = takeWhile is_digit s; s1 = dropWhile is_digit s; v = digits_val ip;
          dot = (case s1 of c # _ \<Rightarrow> is_dot c | [] \<Rightarrow> False);
          fp = (if dot then takeWhile is_digit (tl s1) else []);
          s2 = (if dot then dropWhile is_digit (tl s1) else s1);
          fsc = frac_digits fp 0 (FRat 1) False;
          u = takeWhile (\<lambda>c. \<not> is_dot c \<and> \<not> is_digit c) s2;
          s3 = dropWhile (\<lambda>c. \<not> is_dot c \<and> \<not> is_digit c) s2
      in if (ip = [] \<and> fp = []) \<or> v > 2 ^ 63 then None
         else case map_of duration_units u of None \<Rightarrow> None
         | Some unit \<Rightarrow>
             if v > 2 ^ 63 div unit then None
             else let w = v * unit + (if fst fsc > 0
                        then f64_to_int (f64_mul (f64_of_int (fst fsc)) (f64_div (f64_of_int unit) (snd fsc)))
                        else 0)
                  in if w > 2 ^ 63 then None else Some (w, s3))"

fun duration_items :: "nat \<Rightarrow> int \<Rightarrow> string \<Rightarrow> int option" where
  "duration_items n d [] = Some d"
| "duration_items 0 d s = None"
| "duration_items (Suc n) d s = (case duration_item s of None \<Rightarrow> None
     | Some (v, r) \<Rightarrow> if d + v > 2 ^ 63 then None else duration_items n (d + v) r)"

text \<open>\<^verbatim>\<open>time.ParseDuration\<close>\<close>

definition parse_duration :: "string \<Rightarrow> int option" where
  "parse_duration s0 =
     (let neg = (case s0 of c # _ \<Rightarrow> c = CHR ''-'' | [] \<Rightarrow> False);
          s = (case s0 of c # r \<Rightarrow> if c = CHR ''-'' \<or> c = CHR ''+'' then r else s0 | [] \<Rightarrow> [])
      in if s = ''0'' then Some 0 else if s = [] then None
         else case duration_items (length s) 0 s of None \<Rightarrow> None
         | Some d \<Rightarrow> if neg then Some (- d) else if d > max_int64 then None else Some d)"

text \<open>\<^verbatim>\<open>fmt.Sscanf(s, "%d", &n)\<close> with \<^verbatim>\<open>n\<close> zero before the call: zero stays when nothing is read.\<close>

definition scan_int :: "string \<Rightarrow> int" where
  "scan_int s0 =
     (let s = dropWhile is_space s0;
          neg = (case s of c # _ \<Rightarrow> c = CHR ''-'' | [] \<Rightarrow> False);
          r = (case s of c # t \<Rightarrow> if c = CHR ''-'' \<or> c = CHR ''+'' then t else s | [] \<Rightarrow> []);
          ds = takeWhile is_digit r; v = (if neg then - digits_val ds else digits_val ds)
      in if ds = [] \<or> \<not> in_int64 v then 0 else v)"

text \<open>Text before the first occurrence of a letter, and after it; the whole text when it is absent.\<close>

definition cut_at :: "char \<Rightarrow> string \<Rightarrow> int \<times> string" where
  "cut_at c s = (if c \<in> set s
     then (scan_int (takeWhile (\<lambda>d. d \<noteq> c) s), tl (dropWhile (\<lambda>d. d \<noteq> c) s)) else (0, s))"

definition iso_days :: "string \<Rightarrow> int" where
  "iso_days s = (if has_suffix s ''D'' then scan_int (take (length s - 1) s) else 0)"

definition iso_duration :: "string \<Rightarrow> int" where
  "iso_duration text =
     (if CHR ''T'' \<in> set text then
        (let date = takeWhile (\<lambda>d. d \<noteq> CHR ''T'') text; time = tl (dropWhile (\<lambda>d. d \<noteq> CHR ''T'') text);
             (h, r1) = cut_at (CHR ''H'') time; (m, r2) = cut_at (CHR ''M'') r1;
             (sec, r3) = cut_at (CHR ''S'') r2
         in wrap64 (iso_days date * 24 * hour_ns + h * hour_ns + m * minute_ns + sec * sec_ns))
      else wrap64 (iso_days text * 24 * hour_ns))"

text \<open>\<^verbatim>\<open>parseDurationValue\<close>\<close>

definition parse_duration_value :: "string \<Rightarrow> int res" where
  "parse_duration_value value =
     (case parse_duration value of Some d \<Rightarrow> Inr d
      | None \<Rightarrow>
          (let text = trim_space (to_upper value) in
           if \<not> has_prefix text ''P'' then Inl (''unsupported duration '' @ str_quote value)
           else let total = iso_duration (tl text)
                in if total = 0 then Inl (''unsupported duration '' @ str_quote value)
                   else Inr total))"

subsection \<open>Templates\<close>

definition name_char :: "char \<Rightarrow> bool" where
  "name_char c = (is_letter c \<or> is_digit c \<or> c = CHR ''_'')"

text \<open>The variable names a template mentions: the matches of \<^verbatim>\<open>%([a-z0-9_]+)%\<close>, leftmost and not
  overlapping.\<close>

function template_vars :: "string \<Rightarrow> string list" where
  "template_vars [] = []"
| "template_vars (c # s) =
     (let name = takeWhile name_char s; rest = dropWhile name_char s
      in if c = CHR ''%'' \<and> name \<noteq> [] \<and> rest \<noteq> [] \<and> hd rest = CHR ''%''
         then name # template_vars (tl rest) else template_vars s)"
  by pat_completeness auto
termination
proof (relation "measure length", goal_cases)
  case (2 c s)
  have "length (tl (dropWhile name_char s)) \<le> length s"
    using length_dropWhile_le [of name_char s] by (simp del: length_dropWhile_le)
  with 2 show ?case by simp
qed auto

text \<open>\<^verbatim>\<open>stringifyTemplateValue\<close>\<close>

fun stringify_template_value :: "gval \<Rightarrow> string res" where
  "stringify_template_value VNil = Inr ''{}''"
| "stringify_template_value (VStr s) = Inr s"
| "stringify_template_value (VInt i) = Inr (itoa i)"
| "stringify_template_value (VInt64 i) = Inr (itoa i)"
| "stringify_template_value (VFloat32 x) = Inr (format_f2 x)"
| "stringify_template_value (VFloat x) = Inr (format_f2 x)"
| "stringify_template_value _ = Inl ''string_template variables must resolve to string or number''"

end
