(* ===== verification/Ast_Fuzzy.thy ===== *)
theory Ast_Fuzzy
  imports Ast_Value
begin

text \<open>
  Fuzzy matching of \<^verbatim>\<open>ast_eval/evaluator.go\<close>: \<^verbatim>\<open>fuzzySimilarityScore\<close> and what it calls. The edit
  distance is the two-row dynamic program of the code, over lists for rows; it is proved to compute
  the least number of insertions, deletions and substitutions. Text is ASCII, so runes are bytes.
\<close>

text \<open>\<^verbatim>\<open>normalizeFuzzyText\<close>\<close>

definition normalize_fuzzy_text :: "string \<Rightarrow> string" where
  "normalize_fuzzy_text v =
     join_with '' '' (str_fields (filter (\<lambda>c. is_letter c \<or> is_digit c \<or> is_space c)
       (to_lower (trim_space v))))"

subsection \<open>The distance\<close>

text \<open>One pass of the inner loop: \<open>prev\<close> is the previous row from column \<open>j - 1\<close> on, \<open>left\<close> the entry
  just written.\<close>

fun lev_cells :: "char \<Rightarrow> string \<Rightarrow> nat \<Rightarrow> nat list \<Rightarrow> nat list" where
  "lev_cells c (d # ds) left (p0 # p1 # ps) =
     (let cost = (if c = d then 0 else 1); v = min (min (left + 1) (p1 + 1)) (p0 + cost)
      in v # lev_cells c ds v (p1 # ps))"
| "lev_cells c _ left _ = []"

definition lev_row :: "string \<Rightarrow> nat \<Rightarrow> char \<Rightarrow> nat list \<Rightarrow> nat list" where
  "lev_row right i c prev = i # lev_cells c right i prev"

fun lev_rows :: "string \<Rightarrow> nat \<Rightarrow> string \<Rightarrow> nat list \<Rightarrow> nat list" where
  "lev_rows right i [] prev = prev"
| "lev_rows right i (c # cs) prev = lev_rows right (Suc i) cs (lev_row right (Suc i) c prev)"

text \<open>\<^verbatim>\<open>levenshteinDistance\<close>\<close>

definition levenshtein_distance :: "string \<Rightarrow> string \<Rightarrow> nat" where
  "levenshtein_distance left right =
     (if left = [] then length right else if right = [] then length left
      else last (lev_rows right 0 left [0..<Suc (length right)]))"

text \<open>\<^verbatim>\<open>directSimilarity\<close>: the score is computed in \<^verbatim>\<open>float64\<close>.\<close>

definition clamp100 :: "int \<Rightarrow> int" where
  "clamp100 n = (if n < 0 then 0 else if n > 100 then 100 else n)"

definition similarity_percent :: "nat \<Rightarrow> nat \<Rightarrow> int" where
  "similarity_percent k n =
     f64_to_int (f64_round (f64_mul (f64_sub (FRat 1)
       (f64_div (f64_of_int (int k)) (f64_of_int (int n)))) (FRat 100)))"

definition direct_similarity :: "string \<Rightarrow> string \<Rightarrow> int" where
  "direct_similarity left right =
     (if left = [] \<and> right = [] then 100
      else let m = max (length left) (length right)
           in if m = 0 then 100 else clamp100 (similarity_percent (levenshtein_distance left right) m))"

text \<open>\<^verbatim>\<open>bagOfWordsSimilarity\<close>\<close>

definition bag_of_words_similarity :: "string \<Rightarrow> string \<Rightarrow> int" where
  "bag_of_words_similarity left right =
     (let lt = str_fields left; rt = str_fields right; ls = remdups lt; rs = remdups rt;
          inter = length (filter (\<lambda>t. t \<in> set rs) ls);
          union = length ls + length (filter (\<lambda>t. t \<notin> set ls) rs)
      in if lt = [] \<and> rt = [] then 100
         else if union = 0 then 100
         else f64_to_int (f64_round (f64_mul (f64_div (f64_of_int (int inter)) (f64_of_int (int union)))
                (FRat 100))))"

text \<open>\<^verbatim>\<open>fuzzySimilarityScore\<close>\<close>

definition fuzzy_similarity_score :: "string \<Rightarrow> string \<Rightarrow> string \<Rightarrow> int res" where
  "fuzzy_similarity_score left right algorithm =
     (let l = normalize_fuzzy_text left; r = normalize_fuzzy_text right;
          a = trim_space (to_lower algorithm)
      in if a = ''ratio'' \<or> a = ''direct_string_similarity_db'' then Inr (direct_similarity l r)
         else if a = ''token_set_ratio'' \<or> a = ''bag_of_words_similarity'' \<or> a = ''bag_of_words_similarity_db''
         then Inr (bag_of_words_similarity l r)
         else Inl (''unknown fuzzy match algorithm '' @ str_quote algorithm))"

subsection \<open>Specification: edit scripts\<close>

text \<open>\<open>edits xs ys n\<close>: \<open>n\<close> insertions, deletions and substitutions turn \<open>xs\<close> into \<open>ys\<close>.\<close>

inductive edits :: "'a list \<Rightarrow> 'a list \<Rightarrow> nat \<Rightarrow> bool" where
  edits_nil: "edits [] [] 0"
| edits_del: "edits xs ys n \<Longrightarrow> edits (x # xs) ys (Suc n)"
| edits_ins: "edits xs ys n \<Longrightarrow> edits xs (y # ys) (Suc n)"
| edits_sub: "edits xs ys n \<Longrightarrow> edits (x # xs) (y # ys) (if x = y then n else Suc n)"

fun edit_dist :: "'a list \<Rightarrow> 'a list \<Rightarrow> nat" where
  "edit_dist [] ys = length ys"
| "edit_dist xs [] = length xs"
| "edit_dist (x # xs) (y # ys) =
     min (min (edit_dist (x # xs) ys + 1) (edit_dist xs (y # ys) + 1))
         (edit_dist xs ys + (if x = y then 0 else 1))"

lemma edit_dist_Nil2 [simp]: "edit_dist xs [] = length xs"
  by (cases xs) auto

lemma edits_length_ins: "edits [] ys (length ys)"
  by (induction ys) (auto intro: edits.intros)

lemma edits_length_del: "edits xs [] (length xs)"
  by (induction xs) (auto intro: edits.intros)

lemma edit_dist_edits: "edits xs ys (edit_dist xs ys)"
proof (induction xs ys rule: edit_dist.induct)
  case (1 ys)
  then show ?case by (simp add: edits_length_ins)
next
  case (2 v va)
  then show ?case using edits_length_del [of "v # va"] by simp
next
  case (3 x xs y ys)
  have a: "edits (x # xs) (y # ys) (edit_dist (x # xs) ys + 1)"
    using edits_ins [OF "3.IH"(1)] by simp
  have b: "edits (x # xs) (y # ys) (edit_dist xs (y # ys) + 1)"
    using edits_del [OF "3.IH"(2)] by simp
  have c: "edits (x # xs) (y # ys) (edit_dist xs ys + (if x = y then 0 else 1))"
    using edits_sub [OF "3.IH"(3), of x y] by (auto split: if_splits)
  show ?case using a b c by (simp add: min_def)
qed

lemma edit_dist_ins: "edit_dist xs (y # ys) \<le> Suc (edit_dist xs ys)"
  by (cases xs) auto

lemma edit_dist_del: "edit_dist (x # xs) ys \<le> Suc (edit_dist xs ys)"
  by (cases ys) auto

lemma edit_dist_least: "edits xs ys n \<Longrightarrow> edit_dist xs ys \<le> n"
proof (induction rule: edits.induct)
  case (edits_del xs ys n x)
  then show ?case using edit_dist_del [of x xs ys] by simp
next
  case (edits_ins xs ys n y)
  then show ?case using edit_dist_ins [of xs y ys] by simp
qed auto

lemma edits_append: "edits xs ys n \<Longrightarrow> edits xs' ys' m \<Longrightarrow> edits (xs @ xs') (ys @ ys') (n + m)"
proof (induction rule: edits.induct)
  case (edits_sub xs ys n x y)
  then have "edits (x # (xs @ xs')) (y # (ys @ ys')) (if x = y then n + m else Suc (n + m))"
    by (intro edits.edits_sub) simp
  then show ?case by (simp split: if_splits)
qed (auto intro: edits.intros)

lemma edits_rev: "edits xs ys n \<Longrightarrow> edits (rev xs) (rev ys) n"
proof (induction rule: edits.induct)
  case (edits_del xs ys n x)
  then show ?case using edits_append [OF edits_del.IH edits.edits_del [OF edits_nil, of x]] by simp
next
  case (edits_ins xs ys n y)
  then show ?case using edits_append [OF edits_ins.IH edits.edits_ins [OF edits_nil, of y]] by simp
next
  case (edits_sub xs ys n x y)
  have "edits [x] [y] (if x = y then 0 else Suc 0)" by (rule edits.edits_sub [OF edits_nil])
  from edits_append [OF edits_sub.IH this] show ?case by (simp split: if_splits)
qed (simp add: edits_nil)

lemma edit_dist_rev: "edit_dist (rev xs) (rev ys) = edit_dist xs ys"
proof (rule antisym)
  show "edit_dist (rev xs) (rev ys) \<le> edit_dist xs ys"
    by (rule edit_dist_least [OF edits_rev [OF edit_dist_edits]])
  show "edit_dist xs ys \<le> edit_dist (rev xs) (rev ys)"
    using edit_dist_least [OF edits_rev [OF edit_dist_edits [of "rev xs" "rev ys"]]] by simp
qed

lemma edits_sym: "edits xs ys n \<Longrightarrow> edits ys xs n"
proof (induction rule: edits.induct)
  case (edits_sub xs ys n x y)
  then show ?case using edits.edits_sub [of ys xs n y x] by (simp add: eq_commute)
qed (auto intro: edits.intros)

lemma edit_dist_sym: "edit_dist xs ys = edit_dist ys xs"
  by (metis antisym edit_dist_edits edit_dist_least edits_sym)

lemma edits_0_iff: "edits xs ys 0 \<Longrightarrow> xs = ys"
proof (induction xs ys "0::nat" rule: edits.induct)
  case (edits_sub xs ys n x y)
  then show ?case by (auto split: if_splits)
qed auto

lemma edit_dist_0_iff: "edit_dist xs ys = 0 \<longleftrightarrow> xs = ys"
proof
  assume "edit_dist xs ys = 0"
  then show "xs = ys" using edits_0_iff edit_dist_edits by metis
next
  have "edits xs xs 0" for xs :: "'a list"
  proof (induction xs)
    case (Cons x xs)
    then show ?case using edits_sub [of xs xs 0 x x] by simp
  qed (rule edits_nil)
  then show "xs = ys \<Longrightarrow> edit_dist xs ys = 0" using edit_dist_least by fastforce
qed

lemma edit_dist_max: "edit_dist xs ys \<le> max (length xs) (length ys)"
  by (induction xs ys rule: edit_dist.induct) auto

subsection \<open>The rows\<close>

definition row_of :: "string \<Rightarrow> string \<Rightarrow> nat list" where
  "row_of p right = map (\<lambda>j. edit_dist (rev p) (rev (take j right))) [0..<Suc (length right)]"

text \<open>The cells from column \<open>k\<close> on.\<close>

lemma lev_cells_spec:
  "lev_cells c ds (edit_dist (c # p) (rev r))
     (map (\<lambda>j. edit_dist p (rev (r @ take j ds))) [0..<Suc (length ds)])
   = map (\<lambda>j. edit_dist (c # p) (rev (r @ take j ds))) [1..<Suc (length ds)]"
proof (induction ds arbitrary: r)
  case Nil
  then show ?case by simp
next
  case (Cons d ds)
  have up: "[0..<Suc (length (d # ds))] = 0 # map Suc [0..<Suc (length ds)]"
    by (simp only: map_Suc_upt upt_conv_Cons [symmetric]) (simp add: upt_conv_Cons)
  have up1: "[1..<Suc (length (d # ds))] = 1 # map Suc [1..<Suc (length ds)]"
    by (simp only: map_Suc_upt) (simp add: upt_conv_Cons del: upt_Suc)
  have shift: "map (\<lambda>j. f (rev (r @ take j (d # ds)))) (map Suc js)
             = map (\<lambda>j. f (rev ((r @ [d]) @ take j ds))) js" for f :: "string \<Rightarrow> nat" and js
    by simp
  let ?prev = "map (\<lambda>j. edit_dist p (rev ((r @ [d]) @ take j ds))) [0..<Suc (length ds)]"
  have prev: "map (\<lambda>j. edit_dist p (rev (r @ take j (d # ds)))) [0..<Suc (length (d # ds))]
      = edit_dist p (rev r) # ?prev"
    unfolding up list.map(2) shift by simp
  obtain ps where ps: "?prev = edit_dist p (rev (r @ [d])) # ps"
    by (simp add: upt_conv_Cons del: upt_Suc)
  have v: "min (min (edit_dist (c # p) (rev r) + 1) (edit_dist p (rev (r @ [d])) + 1))
      (edit_dist p (rev r) + (if c = d then 0 else 1)) = edit_dist (c # p) (rev (r @ [d]))"
    by simp
  have "lev_cells c (d # ds) (edit_dist (c # p) (rev r)) (edit_dist p (rev r) # ?prev)
      = edit_dist (c # p) (rev (r @ [d])) # lev_cells c ds (edit_dist (c # p) (rev (r @ [d]))) ?prev"
    unfolding ps by (simp only: lev_cells.simps Let_def v)
  also have "\<dots> = edit_dist (c # p) (rev (r @ [d])) #
      map (\<lambda>j. edit_dist (c # p) (rev ((r @ [d]) @ take j ds))) [1..<Suc (length ds)]"
    using Cons.IH [of "r @ [d]"] by simp
  also have "\<dots> = map (\<lambda>j. edit_dist (c # p) (rev (r @ take j (d # ds)))) [1..<Suc (length (d # ds))]"
    unfolding up1 list.map(2) shift by simp
  finally show ?case unfolding prev .
qed

lemma lev_row_spec: "lev_row right (Suc (length p)) c (row_of p right) = row_of (p @ [c]) right"
proof -
  have "lev_cells c right (Suc (length p)) (row_of p right)
      = map (\<lambda>j. edit_dist (c # rev p) (rev (take j right))) [1..<Suc (length right)]"
    using lev_cells_spec [of c right "rev p" "[]"] by (simp add: row_of_def)
  moreover have "row_of (p @ [c]) right = Suc (length p) #
      map (\<lambda>j. edit_dist (c # rev p) (rev (take j right))) [1..<Suc (length right)]"
    by (simp add: row_of_def upt_conv_Cons del: upt_Suc)
  ultimately show ?thesis by (simp add: lev_row_def)
qed

lemma lev_rows_spec: "lev_rows right (length p) cs (row_of p right) = row_of (p @ cs) right"
proof (induction cs arbitrary: p)
  case (Cons c cs)
  then show ?case using lev_row_spec [of right p c] Cons.IH [of "p @ [c]"] by simp
qed simp

lemma row_of_Nil: "row_of [] right = [0..<Suc (length right)]"
  by (rule nth_equalityI) (auto simp: row_of_def simp del: upt_Suc)

lemma levenshtein_edit_dist: "levenshtein_distance left right = edit_dist left right"
proof -
  have "last (lev_rows right 0 left [0..<Suc (length right)]) = last (row_of left right)"
    using lev_rows_spec [of right "[]" left] by (simp add: row_of_Nil del: upt_Suc)
  also have "\<dots> = edit_dist (rev left) (rev right)"
    by (simp add: row_of_def last_map)
  finally show ?thesis by (simp add: levenshtein_distance_def edit_dist_rev)
qed

subsection \<open>Properties\<close>

text \<open>C5. The two-row dynamic program computes the least number of insertions, deletions and
  substitutions that turn one text into the other.\<close>

theorem levenshtein_least_edits: "levenshtein_distance left right = (LEAST n. edits left right n)"
proof (rule sym, rule Least_equality)
  show "edits left right (levenshtein_distance left right)"
    by (simp add: levenshtein_edit_dist edit_dist_edits)
qed (simp add: levenshtein_edit_dist edit_dist_least)

lemma levenshtein_sym_zero:
  "levenshtein_distance left right = levenshtein_distance right left \<and>
     (levenshtein_distance left right = 0 \<longleftrightarrow> left = right)"
  by (metis levenshtein_edit_dist edit_dist_sym edit_dist_0_iff)

lemma clamp100_range: "0 \<le> clamp100 n \<and> clamp100 n \<le> 100"
  by (simp add: clamp100_def)

lemma round_even_pos: "1 \<le> q \<Longrightarrow> 1 \<le> round_even q"
  by (auto simp: round_even_def Let_def le_floor_iff)

lemma f64_of_int_pos:
  assumes "0 < i"
  shows "f64_of_int i = FInf False \<or> (\<exists>p > 0. f64_of_int i = FRat p)"
proof -
  let ?q = "rat_of_int i"
  have q: "1 \<le> ?q" using assms by simp
  have "0 \<le> rat_exp ?q"
  proof (rule ccontr)
    assume "\<not> 0 \<le> rat_exp ?q"
    then have "rat_exp ?q + 1 \<le> 0" by simp
    then have "pow2 (rat_exp ?q + 1) \<le> pow2 0" by (rule pow2_mono)
    moreover have "?q < pow2 (rat_exp ?q + 1)" using rat_exp_less [of ?q] q by simp
    ultimately show False using q by simp
  qed
  then have "ulp_exp ?q \<le> rat_exp ?q" by (simp add: ulp_exp_def)
  then have "pow2 (ulp_exp ?q) \<le> pow2 (rat_exp ?q)" by (rule pow2_mono)
  also have "\<dots> \<le> ?q" using rat_exp_le [of ?q] q by simp
  finally have "1 \<le> ?q / pow2 (ulp_exp ?q)" by (simp add: le_divide_eq)
  then have "1 \<le> round_even (?q / pow2 (ulp_exp ?q))" by (rule round_even_pos)
  then have "0 < round_pos ?q" by (simp add: round_pos_def)
  then show ?thesis using assms by (auto simp: f64_of_int_def f64_of_rat_def Let_def)
qed

lemma similarity_percent_0: "0 < m \<Longrightarrow> similarity_percent 0 m = 100"
proof -
  assume "0 < m"
  then have "0 < int m" by simp
  have z: "f64_of_int 0 = FRat 0" by (simp add: f64_of_int_def f64_of_rat_def)
  have d: "f64_div (FRat 0) (f64_of_int (int m)) = FRat 0"
    using f64_of_int_pos [OF \<open>0 < int m\<close>] by (auto simp: f64_div_def f64_of_rat_def)
  have "f64_to_int (f64_round (f64_mul (f64_sub (FRat 1) (FRat 0)) (FRat 100))) = 100" by code_simp
  then show ?thesis by (simp add: similarity_percent_def z d)
qed

lemma direct_similarity_range:
  "0 \<le> direct_similarity left right \<and> direct_similarity left right \<le> 100 \<and>
     direct_similarity left right = direct_similarity right left \<and> direct_similarity left left = 100"
proof -
  have "levenshtein_distance left left = 0" by (simp add: levenshtein_edit_dist edit_dist_0_iff)
  then have "direct_similarity left left = 100"
    using similarity_percent_0 by (simp add: direct_similarity_def clamp100_def Let_def)
  moreover have "direct_similarity left right = direct_similarity right left"
    by (simp add: direct_similarity_def levenshtein_edit_dist edit_dist_sym [of left] max.commute conj_commute)
  ultimately show ?thesis
    using clamp100_range by (simp add: direct_similarity_def Let_def)
qed

end
