(* ===== verification/Tenant_Model.thy ===== *)
theory Tenant_Model
  imports Prelude
begin

text \<open>
  The tenant's data model as the decision engine reads it
  (\<^verbatim>\<open>decision-engine-service/internal/ports/data_model_reader.go\<close>): tables with typed fields and links to
  a single parent record. Go maps are association lists.
\<close>

record tm_field =
  tf_name :: string
  tf_type :: string
  tf_nullable :: bool
  tf_archived :: bool
  tf_is_enum :: bool
  tf_enum_values :: "string list"

record tm_link =
  tl_name :: string
  tl_parent_table :: string
  tl_parent_field :: string
  tl_child_table :: string
  tl_child_field :: string

record tm_table =
  tt_id :: string
  tt_name :: string
  tt_archived :: bool
  tt_fields :: "(string \<times> tm_field) list"
  tt_links :: "(string \<times> tm_link) list"

record tenant_model =
  tm_revision :: string
  tm_lookup_field :: string
  tm_system_fields :: "string list"
  tm_tables :: "(string \<times> tm_table) list"

end
