(* ===== verification/Ast_Node.thy ===== *)
theory Ast_Node
  imports Ast_Text Ast_Fuzzy Tenant_Model
begin

text \<open>
  Formula nodes (\<^verbatim>\<open>domain/ast/model.go\<close>), the evaluation environment (\<^verbatim>\<open>ast_eval/runtime.go\<close>) and the
  readers of named children. The readers take the evaluator as the argument \<open>ev\<close>; theory Ast_Eval
  closes the recursion. The repositories behind the environment are databases and services outside
  the program: each is a function of the record, absent when the service was built without it.
\<close>

datatype node =
  Node (nd_fn: string) (nd_const: gval) (nd_children: "node list") (nd_named: "(string \<times> node) list")

type_synonym ev = "node \<Rightarrow> gval res"

text \<open>A filter as \<^verbatim>\<open>ports.AggregateFilter\<close> and the compiler's \<^verbatim>\<open>aggregateFilterExpr\<close> carry it.\<close>

datatype agg_filter =
  AggFilter (af_kind: string) (af_operator: string) (af_children: "agg_filter list")
    (af_field: string) (af_op: string) (af_value: gval)

record agg_query =
  aq_object_type :: string
  aq_aggregate :: string
  aq_field :: string
  aq_filter :: "agg_filter option"

type_synonym field_map = "(string \<times> gval) list"

record tenant_reader =
  rd_query :: "string \<Rightarrow> string \<Rightarrow> string \<Rightarrow> string \<Rightarrow> field_map list res"
  rd_aggregate :: "string \<Rightarrow> agg_query \<Rightarrow> gval res"

record custom_list_repo =
  cl_contains :: "string \<Rightarrow> string \<Rightarrow> string \<Rightarrow> bool res"
  cl_list_by_id :: "string \<Rightarrow> string \<Rightarrow> string res"
  cl_entries :: "string \<Rightarrow> string \<Rightarrow> string list res"
  cl_by_name :: "string \<Rightarrow> string \<Rightarrow> string list res"

datatype risk_answer = RiskNoRows | RiskFailed string | RiskSnapshot "string option"

record geo_location =
  geo_country :: string
  geo_country_code :: string
  geo_region :: string
  geo_region_code :: string
  geo_continent_code :: string

definition zero_geo :: geo_location where
  "zero_geo = \<lparr>geo_country = [], geo_country_code = [], geo_region = [], geo_region_code = [],
               geo_continent_code = []\<rparr>"

record runtime =
  rt_tenant :: string
  rt_object_id :: string
  rt_object_type :: string
  rt_fields :: field_map
  rt_now :: "int option"
  rt_wall_clock :: int
  rt_model :: "tenant_model option"
  rt_reader :: "tenant_reader option"
  rt_custom_lists :: "custom_list_repo option"
  rt_tags :: "(string \<Rightarrow> string \<Rightarrow> string \<Rightarrow> string \<Rightarrow> bool res) option"
  rt_risk :: "(string \<Rightarrow> string \<Rightarrow> string \<Rightarrow> risk_answer) option"
  rt_ip_flags :: "(string \<Rightarrow> string \<Rightarrow> string \<Rightarrow> bool res) option"
  rt_parse_addr :: "string \<Rightarrow> string res"
  rt_geoip :: "(string \<Rightarrow> (geo_location \<times> bool) res) option"
  rt_decisions :: "(string \<Rightarrow> string \<Rightarrow> string \<Rightarrow> string list res) option"
  rt_pushdown_mode :: string
  rt_pushdown_aggregates :: "string list"

text \<open>\<^verbatim>\<open>Runtime.aggregatePushdownMode\<close> and the two tests on it.\<close>

definition pushdown_mode :: "runtime \<Rightarrow> string" where
  "pushdown_mode rt =
     (if rt_pushdown_mode rt = ''disabled'' then ''disabled''
      else if rt_pushdown_mode rt = ''strict'' then ''strict'' else ''enabled'')"

definition pushdown_enabled :: "runtime \<Rightarrow> bool" where
  "pushdown_enabled rt = (pushdown_mode rt \<noteq> ''disabled'')"

definition pushdown_supports :: "runtime \<Rightarrow> string \<Rightarrow> bool" where
  "pushdown_supports rt name =
     (rt_pushdown_aggregates rt = [] \<or>
      list_ex (\<lambda>item. to_lower (trim_space item) = to_lower (trim_space name)) (rt_pushdown_aggregates rt))"

subsection \<open>Function names\<close>

definition canonical_table :: "(string \<times> string) list" where
  "canonical_table =
    [(''and'', ''and''), (''or'', ''or''), (''not'', ''not''), (''eq'', ''eq''), (''='', ''eq''),
     (''neq'', ''neq''), (''!='', ''neq''), ([CHR 0xE2, CHR 0x89, CHR 0xA0], ''neq''),
     (''gt'', ''gt''), (''>'', ''gt''), (''gte'', ''gte''), (''>='', ''gte''), (''lt'', ''lt''),
     (''<'', ''lt''), (''lte'', ''lte''), (''<='', ''lte''), (''add'', ''add''), (''+'', ''add''),
     (''subtract'', ''subtract''), (''-'', ''subtract''), (''multiply'', ''multiply''),
     (''*'', ''multiply''), (''divide'', ''divide''), (''/'', ''divide''), (''payload'', ''payload''),
     (''databaseaccess'', ''database_access''), (''ipcountry'', ''ip_country''),
     (''ipcountrycode'', ''ip_country_code''), (''ipregion'', ''ip_region''),
     (''ipregioncode'', ''ip_region_code''), (''ipcontinentcode'', ''ip_continent_code''),
     (''ipgeofound'', ''ip_geo_found''), (''customlistaccess'', ''custom_list_access''),
     (''timeadd'', ''time_add''), (''timenow'', ''time_now''), (''parsetime'', ''parse_time''),
     (''aggregator'', ''aggregator''), (''filter'', ''filter''), (''list'', ''list''),
     (''isinlist'', ''is_in_list''), (''isnotinlist'', ''is_not_in_list''),
     (''stringcontains'', ''contains''), (''stringnotcontain'', ''string_not_contain''),
     (''stringstartswith'', ''starts_with''), (''stringendswith'', ''ends_with''),
     (''containsanyof'', ''contains_any''), (''containsnoneof'', ''contains_none''),
     (''isempty'', ''is_empty''), (''isnotempty'', ''is_not_empty''),
     (''timestampextract'', ''timestamp_extract''), (''fuzzymatch'', ''fuzzy_match''),
     (''fuzzymatchanyof'', ''fuzzy_match_any_of''),
     (''fuzzymatchoptions'', ''fuzzy_match_filter_options''), (''ismultipleof'', ''is_multiple_of''),
     (''stringtemplate'', ''string_template''), (''stringconcat'', ''string_concat''),
     (''scorecomputation'', ''score_computation''), (''switch'', ''switch'')]"

text \<open>\<^verbatim>\<open>canonicalFunctionName\<close>\<close>

definition canonical_function_name :: "string \<Rightarrow> string" where
  "canonical_function_name name =
     (let k = trim_space (to_lower name)
      in case map_of canonical_table k of Some c \<Rightarrow> c | None \<Rightarrow> k)"

definition is_constant_fn :: "string \<Rightarrow> bool" where
  "is_constant_fn fn = (fn = [] \<or> equal_fold fn ''constant'')"

subsection \<open>Named children\<close>

definition named_error :: "node \<Rightarrow> string \<Rightarrow> string \<Rightarrow> 'a res" where
  "named_error n name what = Inl (nd_fn n @ '' named child '' @ str_quote name @ what)"

text \<open>\<^verbatim>\<open>evalNamedAny\<close>\<close>

definition eval_named_any :: "ev \<Rightarrow> node \<Rightarrow> string \<Rightarrow> gval res" where
  "eval_named_any ev n name = (case map_of (nd_named n) name of
       None \<Rightarrow> Inl (nd_fn n @ '' requires named child '' @ str_quote name)
     | Some c \<Rightarrow> ev c)"

text \<open>\<^verbatim>\<open>evalNamedString\<close>\<close>

definition eval_named_string :: "ev \<Rightarrow> node \<Rightarrow> string \<Rightarrow> string res" where
  "eval_named_string ev n name = bind_r (eval_named_any ev n name) (\<lambda>v. case v of
       VStr s \<Rightarrow> Inr s | _ \<Rightarrow> named_error n name '' must resolve to string'')"

text \<open>\<^verbatim>\<open>evalOptionalNamedString\<close>: no value when the child is absent.\<close>

definition eval_optional_named_string :: "ev \<Rightarrow> node \<Rightarrow> string \<Rightarrow> string option res" where
  "eval_optional_named_string ev n name = (case map_of (nd_named n) name of
       None \<Rightarrow> Inr None
     | Some c \<Rightarrow> bind_r (ev c) (\<lambda>v. case v of
         VStr s \<Rightarrow> Inr (Some s) | _ \<Rightarrow> named_error n name '' must resolve to string''))"

text \<open>\<^verbatim>\<open>evalNamedList\<close>\<close>

definition eval_named_list :: "ev \<Rightarrow> node \<Rightarrow> string \<Rightarrow> gval list res" where
  "eval_named_list ev n name = bind_r (eval_named_any ev n name) (\<lambda>v. case v of
       VList xs \<Rightarrow> Inr xs | _ \<Rightarrow> named_error n name '' must resolve to list'')"

text \<open>\<^verbatim>\<open>evalNamedStringList\<close>\<close>

definition as_string :: "gval \<Rightarrow> string option" where
  "as_string v = (case v of VStr s \<Rightarrow> Some s | _ \<Rightarrow> None)"

definition eval_named_string_list :: "ev \<Rightarrow> node \<Rightarrow> string \<Rightarrow> string list res" where
  "eval_named_string_list ev n name = bind_r (eval_named_any ev n name) (\<lambda>v. case v of
       VList xs \<Rightarrow> mapM_r (\<lambda>item. case as_string item of Some s \<Rightarrow> Inr s
           | None \<Rightarrow> named_error n name '' must resolve to list of strings'') xs
     | _ \<Rightarrow> named_error n name '' must resolve to list of strings'')"

text \<open>\<^verbatim>\<open>evalListChildOrNamedItems\<close>: a failing named child \<open>items\<close> falls back to the one positional child.\<close>

definition eval_list_child_or_items :: "ev \<Rightarrow> node \<Rightarrow> gval list res" where
  "eval_list_child_or_items ev n = (case eval_named_list ev n ''items'' of
       Inr xs \<Rightarrow> Inr xs
     | Inl _ \<Rightarrow> (case nd_children n of
         [c] \<Rightarrow> bind_r (ev c) (\<lambda>v. case v of VList xs \<Rightarrow> Inr xs
                                | _ \<Rightarrow> Inl (nd_fn n @ '' expects list input''))
       | _ \<Rightarrow> Inl (nd_fn n @ '' expects exactly one list child or named child '' @
               [CHR 0x27] @ ''items'' @ [CHR 0x27])))"

subsection \<open>Positional children\<close>

definition one_child :: "string \<Rightarrow> ev \<Rightarrow> node \<Rightarrow> (gval \<Rightarrow> 'a res) \<Rightarrow> 'a res" where
  "one_child label ev n k = (case nd_children n of
       [a] \<Rightarrow> bind_r (ev a) k | _ \<Rightarrow> Inl (label @ '' expects exactly one child''))"

definition two_children :: "string \<Rightarrow> ev \<Rightarrow> node \<Rightarrow> (gval \<Rightarrow> gval \<Rightarrow> 'a res) \<Rightarrow> 'a res" where
  "two_children label ev n k = (case nd_children n of
       [a, b] \<Rightarrow> bind_r (ev a) (\<lambda>l. bind_r (ev b) (\<lambda>r. k l r))
     | _ \<Rightarrow> Inl (label @ '' expects exactly two children''))"

subsection \<open>Agreement of two evaluators below a node\<close>

definition agree_below :: "(node \<Rightarrow> 'a) \<Rightarrow> (node \<Rightarrow> 'a) \<Rightarrow> node \<Rightarrow> bool" where
  "agree_below f g n = (\<forall>m. size m < size n \<longrightarrow> f m = g m)"

lemma child_size: "c \<in> set (nd_children n) \<Longrightarrow> size c < size n"
  by (cases n) (auto simp: less_Suc_eq_le dest!: size_list_estimation' [OF _ order_refl, where f = size])

lemma named_size: "map_of (nd_named n) k = Some c \<Longrightarrow> size c < size n"
proof (cases n)
  case (Node fn c' cs nm)
  assume "map_of (nd_named n) k = Some c"
  then have "(k, c) \<in> set nm" using Node by (auto dest: map_of_SomeD)
  then have "size_prod (\<lambda>_. 0) size (k, c) \<le> size_list (size_prod (\<lambda>_. 0) size) nm"
    by (rule size_list_estimation' [OF _ order_refl])
  then show ?thesis using Node by simp
qed

lemma agree_child: "agree_below f g n \<Longrightarrow> c \<in> set (nd_children n) \<Longrightarrow> f c = g c"
  using child_size by (auto simp: agree_below_def)

lemma agree_named: "agree_below f g n \<Longrightarrow> map_of (nd_named n) k = Some c \<Longrightarrow> f c = g c"
  using named_size by (auto simp: agree_below_def)

named_theorems ev_congs

lemma eval_named_any_cong [ev_congs]:
  "agree_below f g n \<Longrightarrow> eval_named_any f n k = eval_named_any g n k"
  by (auto simp: eval_named_any_def agree_named split: option.splits)

lemma eval_named_string_cong [ev_congs]:
  "agree_below f g n \<Longrightarrow> eval_named_string f n k = eval_named_string g n k"
  by (simp add: eval_named_string_def eval_named_any_cong)

lemma eval_optional_named_string_cong [ev_congs]:
  "agree_below f g n \<Longrightarrow> eval_optional_named_string f n k = eval_optional_named_string g n k"
  by (auto simp: eval_optional_named_string_def agree_named split: option.splits)

lemma eval_named_list_cong [ev_congs]:
  "agree_below f g n \<Longrightarrow> eval_named_list f n k = eval_named_list g n k"
  by (simp add: eval_named_list_def eval_named_any_cong)

lemma eval_named_string_list_cong [ev_congs]:
  "agree_below f g n \<Longrightarrow> eval_named_string_list f n k = eval_named_string_list g n k"
  by (simp add: eval_named_string_list_def eval_named_any_cong)

lemma one_child_cong [ev_congs]:
  "agree_below f g n \<Longrightarrow> one_child l f n k = one_child l g n k"
  by (auto simp: one_child_def agree_child split: list.splits)

lemma two_children_cong [ev_congs]:
  "agree_below f g n \<Longrightarrow> two_children l f n k = two_children l g n k"
  by (auto simp: two_children_def agree_child split: list.splits)

lemma eval_list_child_or_items_cong [ev_congs]:
  "agree_below f g n \<Longrightarrow> eval_list_child_or_items f n = eval_list_child_or_items g n"
  by (auto simp: eval_list_child_or_items_def eval_named_list_cong agree_child
      split: list.splits sum.splits)

end
