(* ===== verification/Aggregate_Compiler.thy ===== *)
theory Aggregate_Compiler
  imports Ast_Node
begin

text \<open>
  Compilation of an aggregator node to a query for the ingestion service
  (\<^verbatim>\<open>ast_eval/aggregate_compiler.go\<close>), with the filter semantics of \<^verbatim>\<open>recordMatchesFilterExpr\<close> and
  \<^verbatim>\<open>applyFilter\<close> (\<^verbatim>\<open>evaluator.go\<close>). The rewriting of an OR of equalities into one IN is proved to keep
  the verdict on every record on which the original filter has one.
\<close>

subsection \<open>Names\<close>

text \<open>\<^verbatim>\<open>normalizeAggregateName\<close>\<close>

definition normalize_aggregate_name :: "string \<Rightarrow> string" where
  "normalize_aggregate_name name =
     (let u = to_upper (trim_space name) in
      if u = ''COUNT'' then ''count'' else if u = ''COUNT_DISTINCT'' then ''count_distinct''
      else if u = ''SUM'' then ''sum'' else if u = ''AVG'' then ''avg''
      else if u = ''MIN'' then ''min'' else if u = ''MAX'' then ''max''
      else to_lower (trim_space name))"

definition pushdown_aggregates :: "string list" where
  "pushdown_aggregates = [''count'', ''count_distinct'', ''sum'', ''avg'', ''min'', ''max'']"

definition neq_sign :: string where
  "neq_sign = [CHR 0xE2, CHR 0x89, CHR 0xA0]"

text \<open>\<^verbatim>\<open>normalizeAggregateFilterOperator\<close>; no result when the operator is not pushed down.\<close>

definition normalize_filter_operator :: "string \<Rightarrow> gval \<Rightarrow> string option" where
  "normalize_filter_operator operator value =
     (let p = trim_space (to_lower operator) in
      if p = ''='' \<or> p = ''eq'' then Some (if value = VNil then ''is_null'' else ''eq'')
      else if p = ''!='' \<or> p = ''neq'' \<or> p = neq_sign then
        Some (if value = VNil then ''is_not_null'' else ''neq'')
      else if p = ''>'' \<or> p = ''gt'' then Some ''gt''
      else if p = ''>='' \<or> p = ''gte'' then Some ''gte''
      else if p = ''<'' \<or> p = ''lt'' then Some ''lt''
      else if p = ''<='' \<or> p = ''lte'' then Some ''lte''
      else if p = ''isinlist'' then (case value of VList _ \<Rightarrow> Some ''in'' | _ \<Rightarrow> None)
      else if p = ''stringstartswith'' then (case value of VStr _ \<Rightarrow> Some ''starts_with'' | _ \<Rightarrow> None)
      else None)"

subsection \<open>Parsing the filter subtree\<close>

text \<open>An inner \<open>Inl\<close> is the reason a shape is not supported; it is not an error of the Go code.\<close>

type_synonym parsed = "(string + agg_filter) res"

text \<open>The case \<^verbatim>\<open>filter\<close>.\<close>

definition optional_value :: "ev \<Rightarrow> node \<Rightarrow> gval res" where
  "optional_value ev n = (case map_of (nd_named n) ''value'' of None \<Rightarrow> Inr VNil | Some c \<Rightarrow> ev c)"

definition parse_predicate :: "ev \<Rightarrow> node \<Rightarrow> parsed" where
  "parse_predicate ev n =
     bind_r (eval_named_string ev n ''fieldName'') (\<lambda>field.
     bind_r (eval_named_string ev n ''operator'') (\<lambda>operator.
     bind_r (optional_value ev n) (\<lambda>value.
       case normalize_filter_operator operator value of
         None \<Rightarrow> Inr (Inl (''filter operator '' @ str_quote operator @ '' is not supported for pushdown''))
       | Some p \<Rightarrow> Inr (Inr (AggFilter ''predicate'' [] [] field p value)))))"

definition group_of :: "string \<Rightarrow> (string + agg_filter list) res \<Rightarrow> parsed" where
  "group_of operator children = bind_r children (\<lambda>c. case c of
       Inl reason \<Rightarrow> Inr (Inl reason)
     | Inr fs \<Rightarrow> Inr (Inr (AggFilter ''group'' operator fs [] [] VNil)))"

text \<open>\<^verbatim>\<open>parseAggregateFilterExpr\<close> and its loop over the children.\<close>

fun parse_agg_filter :: "ev \<Rightarrow> node \<Rightarrow> parsed"
  and parse_agg_filters :: "ev \<Rightarrow> node list \<Rightarrow> (string + agg_filter list) res" where
  "parse_agg_filter ev (Node fn c cs nm) =
     (let cf = canonical_function_name fn in
      if cf = ''filter'' then parse_predicate ev (Node fn c cs nm)
      else if cf = ''list'' then group_of ''and'' (parse_agg_filters ev cs)
      else if cf = ''and'' \<or> cf = ''or'' then group_of cf (parse_agg_filters ev cs)
      else if cf = ''not'' then
        (if length cs \<noteq> 1 then Inr (Inl ''not filter expects exactly one child'')
         else group_of ''not'' (parse_agg_filters ev cs))
      else Inr (Inl (''filter node function '' @ str_quote fn @ '' is not supported for pushdown'')))"
| "parse_agg_filters ev [] = Inr (Inr [])"
| "parse_agg_filters ev (n # ns) =
     bind_r (parse_agg_filter ev n) (\<lambda>p. case p of
       Inl reason \<Rightarrow> Inr (Inl reason)
     | Inr f \<Rightarrow> bind_r (parse_agg_filters ev ns) (\<lambda>q. case q of
         Inl reason \<Rightarrow> Inr (Inl reason) | Inr fs \<Rightarrow> Inr (Inr (f # fs))))"

subsection \<open>Normal form\<close>

text \<open>\<^verbatim>\<open>collapseOrEqualsToIn\<close>: the loop keeps the field of the first child whose field is not empty.\<close>

fun collapse_loop :: "string \<Rightarrow> gval list \<Rightarrow> agg_filter list \<Rightarrow> (string \<times> gval list) option" where
  "collapse_loop field vs [] = Some (field, vs)"
| "collapse_loop field vs (c # cs) =
     (if \<not> equal_fold (af_kind c) ''predicate'' then None
      else if af_op c \<noteq> ''eq'' then None
      else if field = [] then collapse_loop (af_field c) (vs @ [af_value c]) cs
      else if af_field c \<noteq> field then None
      else collapse_loop field (vs @ [af_value c]) cs)"

definition collapse_or_equals :: "agg_filter list \<Rightarrow> agg_filter option" where
  "collapse_or_equals cs =
     (if length cs < 2 then None
      else map_option (\<lambda>(field, vs). AggFilter ''predicate'' [] [] field ''in'' (VList vs))
             (collapse_loop [] [] cs))"

text \<open>\<^verbatim>\<open>normalizeAggregateFilterExpr\<close>\<close>

fun normalize_filter :: "agg_filter \<Rightarrow> agg_filter" where
  "normalize_filter (AggFilter k opr cs f p v) =
     (let cs' = map normalize_filter cs in
      if equal_fold k ''group'' \<and> equal_fold opr ''or'' then
        (case collapse_or_equals cs' of Some e \<Rightarrow> e | None \<Rightarrow> AggFilter k opr cs' f p v)
      else AggFilter k opr cs' f p v)"

lemma normalize_filter_children:
  "af_children (normalize_filter (AggFilter k opr cs f p v)) = map normalize_filter cs
   \<or> af_children (normalize_filter (AggFilter k opr cs f p v)) = []"
  by (auto simp: Let_def collapse_or_equals_def split: option.splits)

lemma normalize_filter_size: "size (normalize_filter e) \<le> size e"
proof (induction e)
  case (AggFilter k opr cs f p v)
  have "size_list size (map normalize_filter cs) \<le> size_list size cs"
    using AggFilter by (induction cs) (auto intro: add_mono)
  then show ?case
    by (auto simp: Let_def collapse_or_equals_def split: option.splits)
qed

lemma normalize_child_size:
  assumes "normalize_filter e = AggFilter k opr cs f p v" "c \<in> set cs"
  shows "size c < size e"
proof -
  have "size c \<le> size_list size cs" using assms(2) by (rule size_list_estimation') simp
  then have "size c < size (normalize_filter e)" using assms(1) by simp
  then show ?thesis using normalize_filter_size [of e] by simp
qed

text \<open>\<^verbatim>\<open>toAggregatePortFilter\<close>\<close>

function to_port_filter :: "agg_filter \<Rightarrow> agg_filter" where
  "to_port_filter e = (case normalize_filter e of
       AggFilter k opr cs f p v \<Rightarrow> AggFilter k opr (map to_port_filter cs) f p v)"
  by pat_completeness auto
termination
  by (relation "measure size") (auto simp: normalize_child_size)

declare to_port_filter.simps [simp del]

subsection \<open>Compilation\<close>

text \<open>\<^verbatim>\<open>CompileAggregateQuery\<close>; the inner \<open>Inl\<close> is \<^verbatim>\<open>UnsupportedReason\<close>.\<close>

definition compile_filter :: "ev \<Rightarrow> node \<Rightarrow> (string + agg_filter option) res" where
  "compile_filter ev n = (case map_of (nd_named n) ''filters'' of
       None \<Rightarrow> Inr (Inr None)
     | Some c \<Rightarrow> bind_r (parse_agg_filter ev c) (\<lambda>p. case p of
         Inl reason \<Rightarrow> Inr (Inl reason) | Inr e \<Rightarrow> Inr (Inr (Some (to_port_filter e)))))"

definition compile_aggregate_query :: "ev \<Rightarrow> node \<Rightarrow> (string + agg_query) res" where
  "compile_aggregate_query ev n =
     bind_r (eval_named_string ev n ''tableName'') (\<lambda>table.
     bind_r (eval_named_string ev n ''fieldName'') (\<lambda>field.
     bind_r (eval_named_string ev n ''aggregator'') (\<lambda>aggregator.
       let name = normalize_aggregate_name aggregator in
       if name \<notin> set pushdown_aggregates
       then Inr (Inl (''aggregate '' @ str_quote aggregator @ '' is not supported for pushdown''))
       else bind_r (compile_filter ev n) (\<lambda>cf. case cf of
         Inl reason \<Rightarrow> Inr (Inl reason)
       | Inr flt \<Rightarrow> Inr (Inr \<lparr>aq_object_type = table, aq_aggregate = name, aq_field = field,
                             aq_filter = flt\<rparr>)))))"

subsection \<open>What a filter means on a record\<close>

definition str_pair_test :: "string \<Rightarrow> (string \<Rightarrow> string \<Rightarrow> bool) \<Rightarrow> gval \<Rightarrow> gval \<Rightarrow> bool res" where
  "str_pair_test name test left right = (case left of
       VStr l \<Rightarrow> (case right of VStr r \<Rightarrow> Inr (test l r)
         | _ \<Rightarrow> Inl (name @ '' expects string comparison value''))
     | _ \<Rightarrow> Inl (name @ '' expects string field value''))"

definition is_empty_value :: "gval \<Rightarrow> bool" where
  "is_empty_value v = (v = VNil \<or> v = VStr [])"

text \<open>\<^verbatim>\<open>applyFilter\<close>\<close>

definition apply_filter :: "gval \<Rightarrow> string \<Rightarrow> gval \<Rightarrow> bool res" where
  "apply_filter left operator right =
     (let p = trim_space (to_lower operator) in
      if p = ''='' \<or> p = ''eq'' then compare_values ''eq'' left right
      else if p = ''!='' \<or> p = neq_sign \<or> p = ''neq'' then compare_values ''neq'' left right
      else if p = ''>'' \<or> p = ''gt'' then compare_values ''gt'' left right
      else if p = ''>='' \<or> p = ''gte'' then compare_values ''gte'' left right
      else if p = ''<'' \<or> p = ''lt'' then compare_values ''lt'' left right
      else if p = ''<='' \<or> p = ''lte'' then compare_values ''lte'' left right
      else if p = ''isinlist'' \<or> p = ''in'' then in_value left right
      else if p = ''isnotinlist'' then bind_r (in_value left right) (\<lambda>b. Inr (\<not> b))
      else if p = ''isempty'' then Inr (is_empty_value left)
      else if p = ''isnotempty'' then Inr (\<not> is_empty_value left)
      else if p = ''stringstartswith'' then str_pair_test ''StringStartsWith'' has_prefix left right
      else if p = ''stringendswith'' then str_pair_test ''StringEndsWith'' has_suffix left right
      else Inl (''unsupported filter operator '' @ str_quote operator))"

text \<open>\<^verbatim>\<open>recordMatchesFilterExpr\<close>; the two loops stop at the child that decides.\<close>

fun all_r :: "bool res list \<Rightarrow> bool res" where
  "all_r [] = Inr True"
| "all_r (m # ms) = bind_r m (\<lambda>b. if b then all_r ms else Inr False)"

fun any_r :: "bool res list \<Rightarrow> bool res" where
  "any_r [] = Inr False"
| "any_r (m # ms) = bind_r m (\<lambda>b. if b then Inr True else any_r ms)"

fun record_matches :: "field_map \<Rightarrow> agg_filter \<Rightarrow> bool res" where
  "record_matches rec (AggFilter k opr cs f p v) =
     (if k = [] \<or> k = ''group'' then
        (let o1 = to_lower (trim_space opr); op2 = (if o1 = [] then ''and'' else o1) in
         if op2 = ''and'' then all_r (map (record_matches rec) cs)
         else if op2 = ''or'' then any_r (map (record_matches rec) cs)
         else if op2 = ''not'' then
           (case map (record_matches rec) cs of
              [m] \<Rightarrow> bind_r m (\<lambda>b. Inr (\<not> b))
            | _ \<Rightarrow> Inl ''not filter expects exactly one child'')
         else Inl (''unsupported filter group operator '' @ str_quote opr))
      else if k = ''predicate'' then apply_filter (field_of rec f) p v
      else Inl (''unsupported filter kind '' @ str_quote k))"

subsection \<open>The normal form keeps the meaning\<close>

text \<open>Predicates name a field.\<close>

fun fields_named :: "agg_filter \<Rightarrow> bool" where
  "fields_named (AggFilter k opr cs f p v) =
     ((equal_fold k ''predicate'' \<longrightarrow> f \<noteq> []) \<and> list_all fields_named cs)"

lemma all_r_refine:
  "list_all2 (\<lambda>m m'. \<forall>b. m = Inr b \<longrightarrow> m' = Inr b) ms ms' \<Longrightarrow> all_r ms = Inr b \<Longrightarrow> all_r ms' = Inr b"
  by (induction ms ms' rule: list_all2_induct) (auto simp: result_simps split: if_splits)

lemma any_r_refine:
  "list_all2 (\<lambda>m m'. \<forall>b. m = Inr b \<longrightarrow> m' = Inr b) ms ms' \<Longrightarrow> any_r ms = Inr b \<Longrightarrow> any_r ms' = Inr b"
  by (induction ms ms' rule: list_all2_induct) (auto simp: result_simps split: if_splits)

lemma collapse_loop_shape:
  assumes "collapse_loop field vs cs = Some (field', vs')" "field \<noteq> []"
  shows "field' = field \<and> vs' = vs @ map af_value cs \<and>
    list_all (\<lambda>c. equal_fold (af_kind c) ''predicate'' \<and> af_op c = ''eq'' \<and> af_field c = field) cs"
  using assms
proof (induction cs arbitrary: vs)
  case (Cons c cs)
  then have "equal_fold (af_kind c) ''predicate''" "af_op c = ''eq''" "af_field c = field"
    "collapse_loop field (vs @ [af_value c]) cs = Some (field', vs')"
    by (auto split: if_splits)
  then show ?case using Cons.IH [of "vs @ [af_value c]"] Cons.prems(2) by simp
qed simp

lemma collapse_shape:
  assumes "collapse_or_equals cs = Some e" "list_all fields_named cs"
  shows "\<exists>f. f \<noteq> [] \<and> e = AggFilter ''predicate'' [] [] f ''in'' (VList (map af_value cs)) \<and>
    list_all (\<lambda>c. equal_fold (af_kind c) ''predicate'' \<and> af_op c = ''eq'' \<and> af_field c = f) cs"
proof -
  obtain c cs' where cs: "cs = c # cs'"
    using assms(1) by (cases cs) (auto simp: collapse_or_equals_def)
  obtain f vs where loop: "collapse_loop [] [] cs = Some (f, vs)"
    and e: "e = AggFilter ''predicate'' [] [] f ''in'' (VList vs)"
    using assms(1) by (auto simp: collapse_or_equals_def split: if_splits)
  have h: "equal_fold (af_kind c) ''predicate''" "af_op c = ''eq''"
    "collapse_loop (af_field c) [af_value c] cs' = Some (f, vs)"
    using loop cs by (auto split: if_splits)
  have "af_field c \<noteq> []" using assms(2) cs h(1) by (cases c) auto
  then show ?thesis using collapse_loop_shape [OF h(3)] h e cs by auto
qed

lemma trim_eq: "trim_space ''eq'' = ''eq''" "to_lower ''eq'' = ''eq''"
  "trim_space ''in'' = ''in''" "to_lower ''in'' = ''in''"
  by code_simp+

lemma apply_eq: "apply_filter l ''eq'' r = compare_values ''eq'' l r"
  by (simp add: apply_filter_def trim_eq Let_def)

lemma apply_in: "apply_filter l ''in'' (VList vs) = Inr (list_ex (\<lambda>i. values_equal l i) vs)"
  by (simp add: apply_filter_def trim_eq neq_sign_def Let_def)

lemma predicate_match:
  assumes "record_matches rec c = Inr b" "equal_fold (af_kind c) ''predicate''" "af_op c = ''eq''"
  shows "compare_values ''eq'' (field_of rec (af_field c)) (af_value c) = Inr b"
proof -
  have "\<not> equal_fold [] ''predicate''" "\<not> equal_fold ''group'' ''predicate''" by code_simp+
  then show ?thesis using assms by (cases c) (auto simp: apply_eq split: if_splits)
qed

lemma any_eq_in:
  assumes "list_all (\<lambda>c. equal_fold (af_kind c) ''predicate'' \<and> af_op c = ''eq'' \<and> af_field c = f) cs"
    and "any_r (map (record_matches rec) cs) = Inr b"
  shows "list_ex (\<lambda>i. values_equal (field_of rec f) i) (map af_value cs) = b"
  using assms
proof (induction cs)
  case (Cons c cs)
  then obtain b1 where m: "record_matches rec c = Inr b1"
    and rest: "if b1 then b else any_r (map (record_matches rec) cs) = Inr b"
    by (auto simp: result_simps split: if_splits)
  have "compare_values ''eq'' (field_of rec f) (af_value c) = Inr b1"
    using predicate_match [OF m] Cons.prems(1) by auto
  then show ?case using rest Cons by (cases b1) (auto simp: values_equal_def)
qed simp

lemma fields_named_normalize: "fields_named e \<Longrightarrow> fields_named (normalize_filter e)"
proof (induction e)
  case (AggFilter k opr cs f p v)
  then have cs: "list_all fields_named (map normalize_filter cs)"
    by (auto simp: list_all_iff)
  show ?case
  proof (cases "equal_fold k ''group'' \<and> equal_fold opr ''or''")
    case True
    then show ?thesis using collapse_shape [OF _ cs] AggFilter.prems cs
      by (fastforce simp: Let_def split: option.splits)
  next
    case False
    then show ?thesis using AggFilter.prems cs by (auto simp: Let_def)
  qed
qed

lemma record_matches_group:
  assumes "list_all2 (\<lambda>m m'. \<forall>b. m = Inr b \<longrightarrow> m' = Inr b) (map (record_matches rec) cs)
      (map (record_matches rec) cs')"
    and "record_matches rec (AggFilter k opr cs f p v) = Inr b"
  shows "record_matches rec (AggFilter k opr cs' f p v) = Inr b"
proof -
  have not: "(case map (record_matches rec) cs of [m] \<Rightarrow> bind_r m (\<lambda>b. Inr (\<not> b))
      | _ \<Rightarrow> Inl ''not filter expects exactly one child'') = Inr b \<Longrightarrow>
    (case map (record_matches rec) cs' of [m] \<Rightarrow> bind_r m (\<lambda>b. Inr (\<not> b))
      | _ \<Rightarrow> Inl ''not filter expects exactly one child'') = Inr b"
    using assms(1) by (auto simp: result_simps list_all2_Cons1 split: list.splits)
  show ?thesis
    using assms(2) all_r_refine [OF assms(1)] any_r_refine [OF assms(1)] not
    by (auto simp: Let_def split: if_splits)
qed

lemma equal_fold_or: "equal_fold opr ''or'' \<Longrightarrow> to_lower opr = ''or''"
proof -
  have "to_lower ''or'' = ''or''" by code_simp
  then show "equal_fold opr ''or'' \<Longrightarrow> to_lower opr = ''or''" by (simp add: equal_fold_def)
qed

lemma or_group_operator:
  assumes "equal_fold opr ''or''"
  shows "to_lower (trim_space opr) = ''or''"
proof -
  have "trim_space ''or'' = ''or''" by code_simp
  then show ?thesis using equal_fold_or [OF assms] by (simp add: trim_lower [symmetric])
qed

lemma group_kind:
  assumes "record_matches rec (AggFilter k opr cs f p v) = Inr b" "equal_fold k ''group''"
  shows "k = ''group''"
proof -
  have "\<not> equal_fold [] ''group''" "\<not> equal_fold ''predicate'' ''group''" by code_simp+
  then show ?thesis using assms by (auto split: if_splits)
qed

text \<open>C3. Rewriting an aggregate filter (an OR of equalities on one field becomes one IN)
  keeps the verdict on every record on which the original filter has one, if its predicates name a
  field.\<close>

theorem normalize_filter_keeps:
  assumes "fields_named e" "record_matches rec e = Inr b"
  shows "record_matches rec (normalize_filter e) = Inr b"
  using assms
proof (induction e arbitrary: b)
  case (AggFilter k opr cs f p v)
  let ?cs = "map normalize_filter cs"
  have "list_all2 (\<lambda>m m'. \<forall>b. m = Inr b \<longrightarrow> m' = Inr b) (map (record_matches rec) cs)
      (map (record_matches rec) ?cs)"
    using AggFilter.IH AggFilter.prems(1)
    by (auto simp: list_all2_map1 list_all2_map2 list.rel_map list_all_iff intro!: list.rel_refl_strong)
  then have m: "record_matches rec (AggFilter k opr ?cs f p v) = Inr b"
    using AggFilter.prems(2) by (rule record_matches_group)
  show ?case
  proof (cases "equal_fold k ''group'' \<and> equal_fold opr ''or''")
    case False
    then show ?thesis using m by (auto simp: Let_def)
  next
    case True
    show ?thesis
    proof (cases "collapse_or_equals ?cs")
      case None
      then show ?thesis using m True by (simp add: Let_def)
    next
      case (Some e)
      have named: "list_all fields_named ?cs"
        using AggFilter.prems(1) by (auto simp: list_all_iff fields_named_normalize)
      obtain g where e: "e = AggFilter ''predicate'' [] [] g ''in'' (VList (map af_value ?cs))"
        and eqs: "list_all (\<lambda>c. equal_fold (af_kind c) ''predicate'' \<and> af_op c = ''eq'' \<and> af_field c = g) ?cs"
        using collapse_shape [OF Some named] by blast
      have "any_r (map (record_matches rec) ?cs) = Inr b"
        using m group_kind [OF m] or_group_operator True by simp
      then have "list_ex (\<lambda>i. values_equal (field_of rec g) i) (map af_value ?cs) = b"
        by (rule any_eq_in [OF eqs])
      then show ?thesis using True Some e by (simp add: Let_def apply_in)
    qed
  qed
qed

lemma normalize_filter_group:
  "normalize_filter (AggFilter k opr cs f p v) =
     (if equal_fold k ''group'' \<and> equal_fold opr ''or'' \<and> collapse_or_equals (map normalize_filter cs) \<noteq> None
      then the (collapse_or_equals (map normalize_filter cs))
      else AggFilter k opr (map normalize_filter cs) f p v)"
  by (auto simp: Let_def)

lemma collapse_or_equals_normal:
  "collapse_or_equals cs = Some e \<Longrightarrow> normalize_filter e = e"
proof -
  have pred: "\<not> equal_fold ''predicate'' ''group''" by code_simp
  show "collapse_or_equals cs = Some e \<Longrightarrow> normalize_filter e = e"
    using pred by (auto simp: collapse_or_equals_def split: if_splits)
qed

lemma normalize_filter_idem: "normalize_filter (normalize_filter e) = normalize_filter e"
proof (induction e)
  case (AggFilter k opr cs f p v)
  have cs: "map normalize_filter (map normalize_filter cs) = map normalize_filter cs"
    unfolding map_map by (rule map_cong [OF refl]) (simp add: AggFilter.IH)
  show ?case
  proof (cases "equal_fold k ''group'' \<and> equal_fold opr ''or'' \<and>
      collapse_or_equals (map normalize_filter cs) \<noteq> None")
    case True
    then obtain e where e: "collapse_or_equals (map normalize_filter cs) = Some e" by blast
    have n: "normalize_filter (AggFilter k opr cs f p v) = e"
      using True by (simp only: normalize_filter_group e if_True simp_thms option.sel)
    show ?thesis unfolding n by (rule collapse_or_equals_normal [OF e])
  next
    case False
    then have n: "normalize_filter (AggFilter k opr cs f p v) = AggFilter k opr (map normalize_filter cs) f p v"
      by (simp only: normalize_filter_group if_False)
    show ?thesis unfolding n using False by (simp only: normalize_filter_group cs if_False)
  qed
qed

lemma normalize_filter_child_fixed:
  "c \<in> set (af_children (normalize_filter e)) \<Longrightarrow> normalize_filter c = c"
  by (cases e) (auto simp: Let_def collapse_or_equals_def normalize_filter_idem
      split: option.splits if_splits)

lemma to_port_filter_eq: "to_port_filter e = normalize_filter e"
proof (induction e rule: to_port_filter.induct)
  case (1 e)
  obtain k opr cs f p v where n: "normalize_filter e = AggFilter k opr cs f p v"
    by (cases "normalize_filter e")
  have "to_port_filter c = c" if "c \<in> set cs" for c
  proof -
    have "to_port_filter c = normalize_filter c" using "1.IH" [OF n that] .
    then show ?thesis using normalize_filter_child_fixed [of c e] n that by simp
  qed
  then have "map to_port_filter cs = cs" by (simp add: map_idI)
  then show ?case using n by (simp add: to_port_filter.simps [of e])
qed

subsection \<open>Dependence on the evaluator\<close>

lemma optional_value_cong [ev_congs]: "agree_below f g n \<Longrightarrow> optional_value f n = optional_value g n"
  by (auto simp: optional_value_def agree_named split: option.splits)

lemma parse_predicate_cong [ev_congs]: "agree_below f g n \<Longrightarrow> parse_predicate f n = parse_predicate g n"
  by (simp add: parse_predicate_def eval_named_string_cong optional_value_cong cong: bind_r_cong)

lemma agree_below_mono: "agree_below f g n \<Longrightarrow> size m \<le> size n \<Longrightarrow> agree_below f g m"
  by (auto simp: agree_below_def)

lemma parse_agg_filter_cong:
  "agree_below f g n \<Longrightarrow> parse_agg_filter f n = parse_agg_filter g n"
  "(\<And>m. m \<in> set ns \<Longrightarrow> agree_below f g m) \<Longrightarrow> parse_agg_filters f ns = parse_agg_filters g ns"
proof (induction f n and f ns rule: parse_agg_filter_parse_agg_filters.induct)
  case (1 ev fn c cs nm)
  have cs: "agree_below ev g m" if "m \<in> set cs" for m
    using agree_below_mono [OF "1.prems"] child_size [of m "Node fn c cs nm"] that by fastforce
  have eq: "parse_agg_filters ev cs = parse_agg_filters g cs"
    if "canonical_function_name fn = ''list'' \<or> canonical_function_name fn = ''and''
      \<or> canonical_function_name fn = ''or'' \<or> (canonical_function_name fn = ''not'' \<and> length cs = 1)"
    using "1.IH" cs that by fastforce
  show ?case using parse_predicate_cong [OF "1.prems"] eq by (auto simp: Let_def)
next
  case (2 ev)
  then show ?case by simp
next
  case (3 ev n ns)
  then show ?case by (auto intro!: bind_r_cong split: sum.splits)
qed

lemma compile_filter_cong [ev_congs]: "agree_below f g n \<Longrightarrow> compile_filter f n = compile_filter g n"
proof (cases "map_of (nd_named n) ''filters''")
  case (Some c)
  assume "agree_below f g n"
  then have "agree_below f g c" using named_size [OF Some] by (auto intro: agree_below_mono)
  then have "parse_agg_filter f c = parse_agg_filter g c" by (rule parse_agg_filter_cong)
  then show ?thesis using Some by (simp add: compile_filter_def)
qed (simp add: compile_filter_def)

lemma compile_aggregate_query_cong [ev_congs]:
  "agree_below f g n \<Longrightarrow> compile_aggregate_query f n = compile_aggregate_query g n"
  by (simp add: compile_aggregate_query_def Let_def eval_named_string_cong compile_filter_cong
      cong: if_cong)

subsection \<open>Properties\<close>

definition demo_filter :: agg_filter where
  "demo_filter = AggFilter ''group'' ''or''
     [AggFilter ''predicate'' [] [] ''status'' ''eq'' (VStr ''open''),
      AggFilter ''predicate'' [] [] ''status'' ''eq'' (VStr ''held'')] [] [] VNil"

theorem normalize_filter_keeps_witness:
  "record_matches [(''status'', VStr ''held'')] (normalize_filter demo_filter) = Inr True"
proof -
  have "fields_named demo_filter" by code_simp
  moreover have "record_matches [(''status'', VStr ''held'')] demo_filter = Inr True" by code_simp
  ultimately show ?thesis by (rule normalize_filter_keeps)
qed

lemma port_filter_normal_form:
  "to_port_filter e = normalize_filter e \<and> normalize_filter (normalize_filter e) = normalize_filter e"
  by (simp add: to_port_filter_eq normalize_filter_idem)
end
