(* ===== verification/Related_Path.thy ===== *)
theory Related_Path
  imports Ast_Node
begin

text \<open>
  Following single links from the trigger object to a related record:
  \<^verbatim>\<open>TraverseRelatedPath\<close> and \<^verbatim>\<open>traverseRelatedPathSegments\<close> of \<^verbatim>\<open>ast_eval/evaluator.go\<close>. A record that is
  reached is \<open>Some\<close> of its fields and its object type; \<open>None\<close> is the empty object type the code returns
  when a link value is null or its record is missing.
\<close>

definition empty_segment_error :: string where
  "empty_segment_error = ''related_field path contains an empty segment''"

definition type_not_found :: "string \<Rightarrow> string" where
  "type_not_found t = ''object type '' @ str_quote t @ '' not found in tenant model''"

definition link_not_found :: "string \<Rightarrow> string \<Rightarrow> string" where
  "link_not_found l t = ''link '' @ str_quote l @ '' not found on object type '' @ str_quote t"

text \<open>One turn of the loop: the related record, if any.\<close>

definition follow_link ::
  "tenant_model \<Rightarrow> tenant_reader \<Rightarrow> string \<Rightarrow> string \<Rightarrow> field_map \<Rightarrow> string \<Rightarrow> (field_map \<times> string) option res" where
  "follow_link model rd tenant ty flds raw =
     (let segment = trim_space raw in
      if segment = [] then Inl empty_segment_error
      else case map_of (tm_tables model) ty of None \<Rightarrow> Inl (type_not_found ty)
      | Some table \<Rightarrow> (case map_of (tt_links table) segment of None \<Rightarrow> Inl (link_not_found segment ty)
      | Some link \<Rightarrow>
          let v = field_of flds (tl_child_field link) in
          if v = VNil then Inr None
          else bind_r (rd_query rd tenant (tl_parent_table link) (tl_parent_field link) (go_sprint v)) (\<lambda>rows.
            case rows of [] \<Rightarrow> Inr None | r # _ \<Rightarrow> Inr (Some (r, tl_parent_table link)))))"

fun follow_path ::
  "tenant_model \<Rightarrow> tenant_reader \<Rightarrow> string \<Rightarrow> string \<Rightarrow> field_map \<Rightarrow> string list \<Rightarrow> (field_map \<times> string) option res" where
  "follow_path model rd tenant ty flds [] = Inr (Some (flds, ty))"
| "follow_path model rd tenant ty flds (s # ss) =
     bind_r (follow_link model rd tenant ty flds s) (\<lambda>r. case r of
       None \<Rightarrow> Inr None
     | Some (flds', ty') \<Rightarrow> follow_path model rd tenant ty' flds' ss)"

definition no_model :: string where
  "no_model = ''tenant model is not configured''"

definition no_reader :: string where
  "no_reader = ''tenant data reader is not configured''"

text \<open>\<^verbatim>\<open>TraverseRelatedPath\<close>, before its result is cached.\<close>

definition traverse_related_path :: "runtime \<Rightarrow> string \<Rightarrow> (field_map \<times> string) option res" where
  "traverse_related_path rt path = (case rt_model rt of None \<Rightarrow> Inl no_model
     | Some model \<Rightarrow> (case rt_reader rt of None \<Rightarrow> Inl no_reader
     | Some rd \<Rightarrow> follow_path model rd (rt_tenant rt) (rt_object_type rt) (rt_fields rt)
                   (split_on (CHR ''.'') path)))"

text \<open>\<^verbatim>\<open>traverseRelatedPathSegments\<close>\<close>

definition traverse_segments :: "runtime \<Rightarrow> string list \<Rightarrow> (field_map \<times> string) option res" where
  "traverse_segments rt path =
     (if path = [] then Inr (Some (rt_fields rt, rt_object_type rt))
      else traverse_related_path rt (join_with ''.'' path))"

text \<open>The checks of \<^verbatim>\<open>related_field\<close> and \<^verbatim>\<open>database_access\<close> on the record reached.\<close>

definition read_related :: "runtime \<Rightarrow> field_map \<Rightarrow> string \<Rightarrow> string \<Rightarrow> gval res" where
  "read_related rt flds ty name = (case rt_model rt of None \<Rightarrow> Inl no_model
     | Some model \<Rightarrow> (case map_of (tm_tables model) ty of
         None \<Rightarrow> Inl (''target object type '' @ str_quote ty @ '' not found in tenant model'')
       | Some table \<Rightarrow>
           if map_of (tt_fields table) name = None
           then Inl (''field '' @ str_quote name @ '' not found on related object type '' @ str_quote ty)
           else Inr (field_of flds name)))"

subsection \<open>Facts\<close>

lemma follow_path_append:
  "follow_path m rd t ty fs (p @ q) =
     bind_r (follow_path m rd t ty fs p) (\<lambda>r. case r of
        None \<Rightarrow> Inr None | Some (fs', ty') \<Rightarrow> follow_path m rd t ty' fs' q)"
proof (induction p arbitrary: ty fs)
  case (Cons s p)
  show ?case
    by (cases "follow_link m rd t ty fs s") (auto simp: Cons.IH split: option.splits)
qed simp

text \<open>A record reached by a path belongs to the parent table of a link of the model.\<close>

definition parent_tables :: "tenant_model \<Rightarrow> string set" where
  "parent_tables m = {tl_parent_table l | l t. t \<in> snd ` set (tm_tables m) \<and> l \<in> snd ` set (tt_links t)}"

lemma follow_link_type:
  assumes "follow_link m rd t ty fs s = Inr (Some (fs', ty'))"
  shows "ty' \<in> parent_tables m"
proof -
  obtain table link where "map_of (tm_tables m) ty = Some table"
    "map_of (tt_links table) (trim_space s) = Some link" "ty' = tl_parent_table link"
    using assms by (auto simp: follow_link_def Let_def result_simps neq_Nil_conv
        split: if_splits option.splits list.splits)
  then have "table \<in> snd ` set (tm_tables m)" "link \<in> snd ` set (tt_links table)"
    by (force dest: map_of_SomeD)+
  then show ?thesis using \<open>ty' = tl_parent_table link\<close> by (auto simp: parent_tables_def)
qed

lemma follow_path_type:
  "follow_path m rd t ty fs ss = Inr (Some (fs', ty')) \<Longrightarrow> ss \<noteq> [] \<Longrightarrow> ty' \<in> parent_tables m"
proof (induction ss arbitrary: ty fs)
  case (Cons s ss)
  then obtain fs1 ty1 where h: "follow_link m rd t ty fs s = Inr (Some (fs1, ty1))"
    "follow_path m rd t ty1 fs1 ss = Inr (Some (fs', ty'))"
    by (auto simp: result_simps split: option.splits)
  show ?case
  proof (cases "ss = []")
    case True
    then show ?thesis using h follow_link_type [OF h(1)] by simp
  next
    case False
    then show ?thesis using Cons.IH h(2) by blast
  qed
qed simp

end
