(* ===== verification/Ast_Cases.thy ===== *)
theory Ast_Cases
  imports Aggregate_Compiler Related_Path
begin

text \<open>
  The cases of the switch in \<^verbatim>\<open>evaluateNodeUncached\<close> (\<^verbatim>\<open>ast_eval/evaluator.go\<close>), one definition each (a few
  cases that share their code share a definition). Each takes the environment, the evaluator for
  the children and the node. Theory Ast_Eval puts them together.
\<close>

type_synonym handler = "runtime \<Rightarrow> ev \<Rightarrow> node \<Rightarrow> gval res"

definition vbool :: "bool res \<Rightarrow> gval res" where
  "vbool m = bind_r m (\<lambda>b. Inr (VBool b))"

definition vnot :: "bool res \<Rightarrow> gval res" where
  "vnot m = bind_r m (\<lambda>b. Inr (VBool (\<not> b)))"

definition canon :: "node \<Rightarrow> string" where
  "canon n = canonical_function_name (nd_fn n)"

subsection \<open>Fields and logic\<close>

definition eval_field_ref :: handler where
  "eval_field_ref rt ev n = (case map_of (nd_named n) ''field'' of
       None \<Rightarrow> Inl (''field_ref requires named child '' @ [CHR 0x27] @ ''field'' @ [CHR 0x27])
     | Some c \<Rightarrow> (case nd_const c of
         VStr name \<Rightarrow> Inr (field_of (rt_fields rt) name)
       | _ \<Rightarrow> Inl ''field_ref field child must be a string''))"

definition eval_payload :: handler where
  "eval_payload rt ev n = one_child ''payload'' ev n (\<lambda>v. case v of
       VStr name \<Rightarrow> Inr (field_of (rt_fields rt) name)
     | _ \<Rightarrow> Inl ''payload child must resolve to string'')"

text \<open>The loops of \<^verbatim>\<open>and\<close> and \<^verbatim>\<open>or\<close>: the value \<open>stop\<close> ends the loop.\<close>

fun bool_loop :: "string \<Rightarrow> bool \<Rightarrow> ev \<Rightarrow> node list \<Rightarrow> gval res" where
  "bool_loop name stop ev [] = Inr (VBool (\<not> stop))"
| "bool_loop name stop ev (c # cs) = bind_r (ev c) (\<lambda>v. case v of
       VBool b \<Rightarrow> if b = stop then Inr (VBool stop) else bool_loop name stop ev cs
     | _ \<Rightarrow> Inl (name @ '' expects boolean children''))"

definition eval_and :: handler where
  "eval_and rt ev n = bool_loop ''and'' False ev (nd_children n)"

definition eval_or :: handler where
  "eval_or rt ev n = bool_loop ''or'' True ev (nd_children n)"

definition eval_not :: handler where
  "eval_not rt ev n = one_child ''not'' ev n (\<lambda>v. case v of
       VBool b \<Rightarrow> Inr (VBool (\<not> b)) | _ \<Rightarrow> Inl ''not expects boolean child'')"

subsection \<open>Comparison, containment, text\<close>

definition eval_compare :: handler where
  "eval_compare rt ev n = two_children (nd_fn n) ev n (\<lambda>l r. vbool (compare_values (canon n) l r))"

definition eval_contains :: handler where
  "eval_contains rt ev n = two_children ''contains'' ev n (\<lambda>l r. vbool (contains_value l r))"

definition eval_string_not_contain :: handler where
  "eval_string_not_contain rt ev n =
     two_children ''string_not_contain'' ev n (\<lambda>l r. vnot (contains_value l r))"

definition eval_in :: handler where
  "eval_in rt ev n = two_children ''in'' ev n (\<lambda>l r. vbool (in_value l r))"

definition eval_is_in_list :: handler where
  "eval_is_in_list rt ev n = two_children ''is_in_list'' ev n (\<lambda>l r. vbool (in_value l r))"

definition eval_is_not_in_list :: handler where
  "eval_is_not_in_list rt ev n = two_children ''is_not_in_list'' ev n (\<lambda>l r. vnot (in_value l r))"

definition eval_contains_any :: handler where
  "eval_contains_any rt ev n = two_children (nd_fn n) ev n (\<lambda>l r.
     if canon n = ''contains_none'' then vnot (contains_any_value l r) else vbool (contains_any_value l r))"

definition eval_affix :: handler where
  "eval_affix rt ev n = two_children (nd_fn n) ev n (\<lambda>l r. case l of
       VStr ls \<Rightarrow> (case r of
           VStr rs \<Rightarrow> Inr (VBool (if to_lower (nd_fn n) = ''starts_with'' then has_prefix ls rs
                                   else has_suffix ls rs))
         | _ \<Rightarrow> Inl (nd_fn n @ '' expects string right operand''))
     | _ \<Rightarrow> Inl (nd_fn n @ '' expects string left operand''))"

definition eval_letter_case :: handler where
  "eval_letter_case rt ev n = one_child (nd_fn n) ev n (\<lambda>v. case v of
       VStr s \<Rightarrow> Inr (VStr (if to_lower (nd_fn n) = ''lower'' then to_lower s else to_upper s))
     | _ \<Rightarrow> Inl (nd_fn n @ '' expects a string child''))"

definition eval_is_null :: handler where
  "eval_is_null rt ev n = one_child ''is_null'' ev n (\<lambda>v. Inr (VBool (v = VNil)))"

definition eval_is_empty :: handler where
  "eval_is_empty rt ev n = one_child (nd_fn n) ev n (\<lambda>v.
     Inr (VBool (if canon n = ''is_not_empty'' then \<not> is_empty_value v else is_empty_value v)))"

fun coalesce_loop :: "ev \<Rightarrow> node list \<Rightarrow> gval res" where
  "coalesce_loop ev [] = Inr VNil"
| "coalesce_loop ev (c # cs) =
     bind_r (ev c) (\<lambda>v. if v \<noteq> VNil then Inr v else coalesce_loop ev cs)"

definition eval_coalesce :: handler where
  "eval_coalesce rt ev n =
     (if nd_children n = [] then Inl ''coalesce expects at least one child''
      else coalesce_loop ev (nd_children n))"

definition eval_arithmetic :: handler where
  "eval_arithmetic rt ev n = two_children (nd_fn n) ev n (\<lambda>l r.
     bind_r (arithmetic_value (to_lower (nd_fn n)) l r) (\<lambda>x. Inr (VFloat x)))"

subsection \<open>Repositories\<close>

definition eval_in_custom_list :: handler where
  "eval_in_custom_list rt ev n =
     bind_r (eval_named_string ev n ''list'') (\<lambda>name.
     bind_r (eval_named_string ev n ''value'') (\<lambda>value.
       case rt_custom_lists rt of None \<Rightarrow> Inl ''custom list repository is not configured''
       | Some repo \<Rightarrow> vbool (cl_contains repo (rt_tenant rt) name value)))"

definition eval_custom_list_access :: handler where
  "eval_custom_list_access rt ev n =
     bind_r (eval_named_string ev n ''customListId'') (\<lambda>ref.
       case rt_custom_lists rt of None \<Rightarrow> Inl ''custom list repository is not configured''
       | Some repo \<Rightarrow> bind_r (case cl_list_by_id repo (rt_tenant rt) ref of
             Inr lid \<Rightarrow> cl_entries repo (rt_tenant rt) lid
           | Inl _ \<Rightarrow> cl_by_name repo (rt_tenant rt) ref) (\<lambda>items. Inr (VList (map VStr items))))"

definition eval_record_has_tag :: handler where
  "eval_record_has_tag rt ev n = bind_r (eval_named_string ev n ''tag'') (\<lambda>tag.
       case rt_tags rt of None \<Rightarrow> Inl ''record tag repository is not configured''
       | Some has \<Rightarrow> vbool (has (rt_tenant rt) (rt_object_type rt) (rt_object_id rt) tag))"

definition eval_record_risk_level :: handler where
  "eval_record_risk_level rt ev n = (case rt_risk rt of
       None \<Rightarrow> Inl ''risk snapshot repository is not configured''
     | Some get \<Rightarrow> (case get (rt_tenant rt) (rt_object_type rt) (rt_object_id rt) of
         RiskNoRows \<Rightarrow> Inr VNil
       | RiskFailed e \<Rightarrow> Inl e
       | RiskSnapshot s \<Rightarrow> Inr (case s of None \<Rightarrow> VNil | Some level \<Rightarrow> VStr level)))"

definition eval_has_ip_flag :: handler where
  "eval_has_ip_flag rt ev n =
     bind_r (eval_named_string ev n ''ip'') (\<lambda>ip.
     bind_r (eval_named_string ev n ''flag'') (\<lambda>flag.
       case rt_ip_flags rt of None \<Rightarrow> Inl ''ip flag repository is not configured''
       | Some has \<Rightarrow> vbool (has (rt_tenant rt) ip flag)))"

definition eval_past_decision_count :: handler where
  "eval_past_decision_count rt ev n = (case rt_decisions rt of
       None \<Rightarrow> Inl ''decision repository is not configured''
     | Some get \<Rightarrow> bind_r (get (rt_tenant rt) (rt_object_type rt) (rt_object_id rt)) (\<lambda>outcomes.
         bind_r (eval_optional_named_string ev n ''outcome'') (\<lambda>wanted.
           Inr (VFloat (f64_of_int (int (length (filter
             (\<lambda>o1. wanted = None \<or> wanted = Some o1) outcomes))))))))"

definition eval_disabled :: "string \<Rightarrow> handler" where
  "eval_disabled name rt ev n =
     Inl (name @ '' is disabled: broad record-list evaluation is not allowed'')"

subsection \<open>Addresses\<close>

text \<open>\<^verbatim>\<open>evaluateGeoIPLookup\<close> with an empty cache; a lookup that is not configured is an error.\<close>

definition eval_geo_lookup :: "runtime \<Rightarrow> ev \<Rightarrow> node \<Rightarrow> (geo_location \<times> bool) res" where
  "eval_geo_lookup rt ev n = one_child (nd_fn n) ev n (\<lambda>v. case v of
       VNil \<Rightarrow> Inr (zero_geo, False)
     | VStr raw \<Rightarrow> (let text = trim_space raw in
         if text = [] then Inr (zero_geo, False)
         else (case rt_parse_addr rt text of
             Inl e \<Rightarrow> Inl (nd_fn n @ '' received invalid IP address '' @ str_quote text @ '': '' @ e)
           | Inr addr \<Rightarrow> (case rt_geoip rt of None \<Rightarrow> Inl ''geoip lookup is not configured''
               | Some lookup \<Rightarrow> lookup addr)))
     | _ \<Rightarrow> Inl (nd_fn n @ '' expects an IP address child''))"

text \<open>\<^verbatim>\<open>geoIPStringResult\<close>\<close>

definition geo_string_result :: "string \<Rightarrow> bool \<Rightarrow> gval" where
  "geo_string_result value found = (if \<not> found \<or> trim_space value = [] then VNil else VStr value)"

definition eval_geo :: handler where
  "eval_geo rt ev n = bind_r (eval_geo_lookup rt ev n) (\<lambda>(loc, found).
     Inr (if canon n = ''ip_geo_found'' then VBool found
          else if canon n = ''ip_country'' then geo_string_result (geo_country loc) found
          else if canon n = ''ip_country_code'' then geo_string_result (geo_country_code loc) found
          else if canon n = ''ip_region'' then geo_string_result (geo_region loc) found
          else if canon n = ''ip_region_code'' then geo_string_result (geo_region_code loc) found
          else geo_string_result (geo_continent_code loc) found))"

subsection \<open>Related records\<close>

definition eval_related_field :: handler where
  "eval_related_field rt ev n =
     bind_r (eval_named_string ev n ''path'') (\<lambda>path.
     bind_r (eval_named_string ev n ''field'') (\<lambda>name.
     bind_r (traverse_related_path rt path) (\<lambda>r. case r of
       None \<Rightarrow> Inr VNil
     | Some (flds, ty) \<Rightarrow> if ty = [] then Inr VNil else read_related rt flds ty name)))"

text \<open>\<^verbatim>\<open>evaluateDatabaseAccess\<close>: no related record reads the trigger object instead.\<close>

definition eval_database_access :: handler where
  "eval_database_access rt ev n =
     bind_r (eval_named_string ev n ''tableName'') (\<lambda>table.
     bind_r (eval_named_string ev n ''fieldName'') (\<lambda>name.
     bind_r (eval_named_string_list ev n ''path'') (\<lambda>path.
       if table \<noteq> [] \<and> table \<noteq> rt_object_type rt
       then Inl ''database_access currently expects tableName to match the trigger object type''
       else bind_r (traverse_segments rt path) (\<lambda>r. case r of
         None \<Rightarrow> read_related rt (rt_fields rt) (rt_object_type rt) name
       | Some (flds, ty) \<Rightarrow>
           if ty = [] then read_related rt (rt_fields rt) (rt_object_type rt) name
           else read_related rt flds ty name))))"

text \<open>\<^verbatim>\<open>evaluateMarbleAggregator\<close>\<close>

definition pushdown_unsupported :: "string \<Rightarrow> 'a res" where
  "pushdown_unsupported reason = Inl (''aggregate pushdown unsupported: '' @ reason)"

definition eval_aggregator :: handler where
  "eval_aggregator rt ev n =
     bind_r (eval_named_string ev n ''tableName'') (\<lambda>_.
     bind_r (eval_named_string ev n ''fieldName'') (\<lambda>_.
     bind_r (eval_named_string ev n ''aggregator'') (\<lambda>_.
       case rt_reader rt of None \<Rightarrow> Inl no_reader
       | Some rd \<Rightarrow>
           if \<not> pushdown_enabled rt then pushdown_unsupported ''aggregate pushdown is disabled''
           else bind_r (compile_aggregate_query ev n) (\<lambda>cr. case cr of
             Inl reason \<Rightarrow> pushdown_unsupported reason
           | Inr query \<Rightarrow>
               if \<not> pushdown_supports rt (aq_aggregate query)
               then pushdown_unsupported (''aggregate '' @ str_quote (aq_aggregate query) @
                      '' is not enabled for remote pushdown'')
               else (case rd_aggregate rd (rt_tenant rt) query of
                       Inl e \<Rightarrow> Inl (''aggregate pushdown failed: '' @ e)
                     | Inr v \<Rightarrow> Inr v)))))"

definition eval_filter :: handler where
  "eval_filter rt ev n =
     bind_r (eval_named_string ev n ''tableName'') (\<lambda>table.
     bind_r (eval_named_string ev n ''fieldName'') (\<lambda>field.
     bind_r (eval_named_string ev n ''operator'') (\<lambda>operator.
     bind_r (optional_value ev n) (\<lambda>v. Inr (VFilter table field operator v)))))"

definition eval_list :: handler where
  "eval_list rt ev n = bind_r (mapM_r ev (nd_children n)) (\<lambda>vs. Inr (VList vs))"

subsection \<open>Time\<close>

definition eval_time_now :: handler where
  "eval_time_now rt ev n = Inr (VTime (case rt_now rt of None \<Rightarrow> rt_wall_clock rt | Some t \<Rightarrow> t))"

definition eval_parse_time :: handler where
  "eval_parse_time rt ev n = one_child ''parse_time'' ev n (\<lambda>v. case parse_time_value v of
       None \<Rightarrow> Inl ''parse_time expects RFC3339 timestamp input'' | Some t \<Rightarrow> Inr (VTime t))"

definition eval_timestamp_extract :: handler where
  "eval_timestamp_extract rt ev n = bind_r (eval_named_any ev n ''timestamp'') (\<lambda>v.
     if v = VNil then Inr VNil
     else bind_r (eval_named_string ev n ''part'') (\<lambda>part. case parse_time_value v of
       None \<Rightarrow> Inl ''timestamp_extract timestamp must resolve to timestamp''
     | Some t \<Rightarrow> extract_timestamp_part t part))"

definition eval_time_add :: handler where
  "eval_time_add rt ev n = bind_r (eval_named_any ev n ''timestampField'') (\<lambda>v.
     if v = VNil then Inr VNil
     else case parse_time_value v of
       None \<Rightarrow> Inl ''time_add timestampField must resolve to timestamp''
     | Some t \<Rightarrow>
         bind_r (eval_named_string ev n ''duration'') (\<lambda>text.
         bind_r (parse_duration_value text) (\<lambda>d.
         bind_r (eval_named_string ev n ''sign'') (\<lambda>sign.
           if sign = ''-'' then Inr (VTime (t + wrap64 (- d)))
           else if sign = ''+'' then Inr (VTime (t + d))
           else Inl ''time_add sign must be + or -''))))"

subsection \<open>Fuzzy matching\<close>

definition eval_fuzzy_match :: handler where
  "eval_fuzzy_match rt ev n = two_children ''fuzzy_match'' ev n (\<lambda>l r.
     if l = VNil \<or> r = VNil then Inr VNil
     else bind_r (eval_named_string ev n ''algorithm'') (\<lambda>alg. case l of
       VStr ls \<Rightarrow> (case r of
           VStr rs \<Rightarrow> bind_r (fuzzy_similarity_score ls rs alg) (\<lambda>s. Inr (VInt s))
         | _ \<Rightarrow> Inl ''fuzzy_match expects string right operand'')
     | _ \<Rightarrow> Inl ''fuzzy_match expects string left operand''))"

fun fuzzy_best :: "string \<Rightarrow> string \<Rightarrow> int \<Rightarrow> gval list \<Rightarrow> int res" where
  "fuzzy_best ls alg best [] = Inr best"
| "fuzzy_best ls alg best (item # items) = (case item of
       VStr text \<Rightarrow> bind_r (fuzzy_similarity_score ls text alg) (\<lambda>s.
         let m = (if s > best then s else best)
         in if m = 100 then Inr m else fuzzy_best ls alg m items)
     | _ \<Rightarrow> Inl ''fuzzy_match_any_of expects list of strings'')"

definition eval_fuzzy_match_any_of :: handler where
  "eval_fuzzy_match_any_of rt ev n = two_children ''fuzzy_match_any_of'' ev n (\<lambda>l r.
     if l = VNil \<or> r = VNil then Inr VNil
     else bind_r (eval_named_string ev n ''algorithm'') (\<lambda>alg. case l of
       VStr ls \<Rightarrow> (case r of
           VList items \<Rightarrow> bind_r (fuzzy_best ls alg 0 items) (\<lambda>m. Inr (VInt m))
         | _ \<Rightarrow> Inl ''fuzzy_match_any_of expects list right operand'')
     | _ \<Rightarrow> Inl ''fuzzy_match_any_of expects string left operand''))"

definition eval_fuzzy_options :: handler where
  "eval_fuzzy_options rt ev n =
     bind_r (eval_named_string ev n ''algorithm'') (\<lambda>alg.
     bind_r (eval_named_any ev n ''threshold'') (\<lambda>th.
     bind_r (eval_named_string ev n ''value'') (\<lambda>value. case to_float th of
       None \<Rightarrow> Inl ''fuzzy_match_filter_options threshold must resolve to number''
     | Some x \<Rightarrow>
         if f64_lt x f64_zero \<or> f64_lt (FRat 100) x
         then Inl ''fuzzy_match_filter_options threshold must be between 0 and 100''
         else Inr (VObj [(''algorithm'', VStr alg), (''threshold'', VFloat (f64_div x (FRat 100))),
                         (''value'', VStr value)]))))"

subsection \<open>Numbers and text\<close>

text \<open>The quotient rounds toward zero; \<^verbatim>\<open>%\<close> takes the sign of the dividend.\<close>

definition go_rem :: "int \<Rightarrow> int \<Rightarrow> int" where
  "go_rem a b = sgn a * (\<bar>a\<bar> mod \<bar>b\<bar>)"

definition eval_is_multiple_of :: handler where
  "eval_is_multiple_of rt ev n = bind_r (eval_named_any ev n ''value'') (\<lambda>v.
     if v = VNil then Inr VNil
     else bind_r (eval_named_any ev n ''divider'') (\<lambda>d. case to_float v of
       None \<Rightarrow> Inl ''is_multiple_of value must resolve to number''
     | Some x \<Rightarrow> (case to_float d of
         None \<Rightarrow> Inl ''is_multiple_of divider must resolve to number''
       | Some y \<Rightarrow> (case downcast_to_int64 x of
           None \<Rightarrow> Inr (VBool False)
         | Some i \<Rightarrow> (case downcast_to_int64 y of
             None \<Rightarrow> Inl ''is_multiple_of divider must resolve to non-zero integer''
           | Some j \<Rightarrow>
               if j = 0 then Inl ''is_multiple_of divider must resolve to non-zero integer''
               else Inr (VBool (go_rem i j = 0)))))))"

text \<open>A named child that is evaluated when present.\<close>

definition eval_if_present :: "ev \<Rightarrow> node \<Rightarrow> string \<Rightarrow> gval option res" where
  "eval_if_present ev n name = (case map_of (nd_named n) name of
       None \<Rightarrow> Inr None | Some c \<Rightarrow> bind_r (ev c) (\<lambda>v. Inr (Some v)))"

fun concat_part :: "gval \<Rightarrow> string option res" where
  "concat_part VNil = Inr None"
| "concat_part (VStr s) = Inr (Some s)"
| "concat_part (VInt i) = Inr (Some (itoa i))"
| "concat_part (VInt64 i) = Inr (Some (itoa i))"
| "concat_part (VFloat x) = Inr (Some (format_v x))"
| "concat_part (VFloat32 x) = Inr (Some (format_v32 x))"
| "concat_part _ = Inl ''string_concat argument is not supported''"

fun concat_loop :: "ev \<Rightarrow> node list \<Rightarrow> string list res" where
  "concat_loop ev [] = Inr []"
| "concat_loop ev (c # cs) = bind_r (ev c) (\<lambda>v. bind_r (concat_part v) (\<lambda>p.
     bind_r (concat_loop ev cs) (\<lambda>ps. Inr (case p of None \<Rightarrow> ps | Some s \<Rightarrow> s # ps))))"

definition eval_string_concat :: handler where
  "eval_string_concat rt ev n =
     bind_r (eval_if_present ev n ''with_separator'') (\<lambda>w.
     bind_r (eval_if_present ev n ''separator'') (\<lambda>s.
     bind_r (concat_loop ev (nd_children n)) (\<lambda>parts.
       let with_sep = (w = Some (VBool True));
           sep = (case s of Some (VStr t) \<Rightarrow> t | _ \<Rightarrow> '' '')
       in Inr (VStr (join_with (if with_sep then sep else []) parts)))))"

definition template_hole :: "string \<Rightarrow> string" where
  "template_hole name = ''%'' @ name @ ''%''"

text \<open>The loop of \<^verbatim>\<open>renderStringTemplate\<close> over the names the template mentions.\<close>

fun render_template :: "ev \<Rightarrow> (string \<times> node) list \<Rightarrow> string list \<Rightarrow> string \<Rightarrow> string res" where
  "render_template ev named [] text = Inr text"
| "render_template ev named (x # xs) text = (case map_of named x of
       None \<Rightarrow> render_template ev named xs (replace_all (template_hole x) ''{}'' text)
     | Some c \<Rightarrow> bind_r (ev c) (\<lambda>v. bind_r (stringify_template_value v) (\<lambda>t.
         render_template ev named xs (replace_all (template_hole x) t text))))"

definition eval_string_template :: handler where
  "eval_string_template rt ev n = one_child ''string_template'' ev n (\<lambda>v. case v of
       VStr text \<Rightarrow>
         if text = [] then Inl ''string_template expects non-empty string template''
         else bind_r (render_template ev (nd_named n) (template_vars text) text) (\<lambda>t. Inr (VStr t))
     | _ \<Rightarrow> Inl ''string_template expects non-empty string template'')"

subsection \<open>Scores\<close>

definition score_floor :: "ev \<Rightarrow> node \<Rightarrow> f64 res" where
  "score_floor ev n = bind_r (eval_if_present ev n ''floor'') (\<lambda>fv. case fv of
       None \<Rightarrow> Inr f64_zero
     | Some v \<Rightarrow> if v = VNil then Inr f64_zero
         else (case to_float v of
             None \<Rightarrow> Inl ''score_computation floor must resolve to number''
           | Some x \<Rightarrow> Inr x))"

definition score_of :: "f64 \<Rightarrow> f64 \<Rightarrow> gval \<Rightarrow> gval res" where
  "score_of m fl v = (case v of
       VNil \<Rightarrow> Inr (VScore zero_score)
     | VBool b \<Rightarrow> Inr (VScore (zero_score
         \<lparr>sr_triggered := b, sr_modifier := (if b then f64_to_int m else 0),
          sr_floor := (if b then f64_to_int fl else 0)\<rparr>))
     | _ \<Rightarrow> Inl ''score_computation child must resolve to boolean'')"

definition eval_score_computation :: handler where
  "eval_score_computation rt ev n =
     bind_r (eval_named_any ev n ''modifier'') (\<lambda>mv. case to_float mv of
       None \<Rightarrow> Inl ''score_computation modifier must resolve to number''
     | Some m \<Rightarrow> bind_r (score_floor ev n) (\<lambda>fl. case nd_children n of
           [c] \<Rightarrow> bind_r (ev c) (\<lambda>v. score_of m fl v)
         | _ \<Rightarrow> Inl ''score_computation must have exactly one child''))"

fun score_branches :: "ev \<Rightarrow> node list \<Rightarrow> score_result list res" where
  "score_branches ev [] = Inr []"
| "score_branches ev (c # cs) = bind_r (ev c) (\<lambda>v. case v of
       VScore s \<Rightarrow> bind_r (score_branches ev cs) (\<lambda>ss. Inr (s # ss))
     | _ \<Rightarrow> Inl ''switch branches must resolve to score_computation results'')"

fun first_triggered :: "int \<Rightarrow> score_result list \<Rightarrow> score_result option" where
  "first_triggered i [] = None"
| "first_triggered i (s # ss) =
     (if sr_triggered s
      then Some (s\<lparr>sr_fallback := False, sr_default := False, sr_branch := Some i\<rparr>)
      else first_triggered (i + 1) ss)"

definition default_score :: score_result where
  "default_score = zero_score\<lparr>sr_triggered := True, sr_default := True\<rparr>"

text \<open>No triggered branch: the fallback when it is a score, else the default score. A fallback that
  fails is ignored.\<close>

definition switch_fallback :: "ev \<Rightarrow> node \<Rightarrow> gval" where
  "switch_fallback ev n = (case map_of (nd_named n) ''fallback'' of
       None \<Rightarrow> VScore default_score
     | Some c \<Rightarrow> (case ev c of
         Inr (VScore s) \<Rightarrow> VScore (s\<lparr>sr_fallback := True, sr_default := False, sr_branch := None\<rparr>)
       | _ \<Rightarrow> VScore default_score))"

definition switch_needs_field :: "'a res" where
  "switch_needs_field = Inl (''switch requires named child '' @ str_quote ''field'')"

definition eval_switch :: handler where
  "eval_switch rt ev n = (case map_of (nd_named n) ''field'' of
       None \<Rightarrow> switch_needs_field
     | Some field \<Rightarrow>
         if nd_fn field = [] \<and> nd_const field = VNil then switch_needs_field
         else if nd_children n = [] then Inl ''switch should have at least one branch''
         else bind_r (ev field) (\<lambda>v.
           if v = VNil then Inr (switch_fallback ev n)
           else bind_r (score_branches ev (nd_children n)) (\<lambda>ss. case first_triggered 0 ss of
               Some s \<Rightarrow> Inr (VScore s) | None \<Rightarrow> Inr (switch_fallback ev n))))"

subsection \<open>Lists of records\<close>

definition eval_filter_eq :: handler where
  "eval_filter_eq rt ev n =
     bind_r (eval_named_list ev n ''items'') (\<lambda>items.
     bind_r (eval_named_string ev n ''field'') (\<lambda>name.
     bind_r (eval_named_any ev n ''value'') (\<lambda>expected.
       Inr (VList (filter (\<lambda>item. case item of
           VObj m \<Rightarrow> values_equal (field_of m name) expected | _ \<Rightarrow> False) items)))))"

definition eval_map_field :: handler where
  "eval_map_field rt ev n =
     bind_r (eval_named_list ev n ''items'') (\<lambda>items.
     bind_r (eval_named_string ev n ''field'') (\<lambda>name.
       Inr (VList (map (\<lambda>item. case item of VObj m \<Rightarrow> field_of m name | _ \<Rightarrow> VNil) items))))"

definition eval_list_count :: handler where
  "eval_list_count rt ev n =
     bind_r (eval_list_child_or_items ev n) (\<lambda>items. Inr (VFloat (f64_of_int (int (length items)))))"

definition eval_aggregate_list :: handler where
  "eval_aggregate_list rt ev n = bind_r (eval_list_child_or_items ev n) (\<lambda>items.
     bind_r (aggregate_numeric_list (to_lower (nd_fn n)) items) (\<lambda>x. Inr (VFloat x)))"

definition eval_group_count :: handler where
  "eval_group_count rt ev n =
     bind_r (eval_named_list ev n ''items'') (\<lambda>items.
     bind_r (eval_named_string ev n ''field'') (\<lambda>name. Inr (group_count items name)))"

definition eval_group_sum :: handler where
  "eval_group_sum rt ev n =
     bind_r (eval_named_list ev n ''items'') (\<lambda>items.
     bind_r (eval_named_string ev n ''group_field'') (\<lambda>gf.
     bind_r (eval_named_string ev n ''value_field'') (\<lambda>vf. group_sum items gf vf)))"

definition score_member :: "score_result \<Rightarrow> string \<Rightarrow> gval option" where
  "score_member s key =
     (if key = ''triggered'' then Some (VBool (sr_triggered s))
      else if key = ''modifier'' then Some (VFloat (f64_of_int (sr_modifier s)))
      else if key = ''floor'' then Some (VFloat (f64_of_int (sr_floor s)))
      else if key = ''branch'' then
        Some (case sr_branch s of None \<Rightarrow> VNil | Some b \<Rightarrow> VFloat (f64_of_int b))
      else if key = ''fallback'' then Some (VBool (sr_fallback s))
      else if key = ''default'' then Some (VBool (sr_default s))
      else None)"

definition eval_object_get :: handler where
  "eval_object_get rt ev n =
     bind_r (eval_named_any ev n ''object'') (\<lambda>v.
     bind_r (eval_named_string ev n ''key'') (\<lambda>key. case v of
       VObj m \<Rightarrow> Inr (field_of m key)
     | VScore s \<Rightarrow> (case score_member s key of Some x \<Rightarrow> Inr x
         | None \<Rightarrow> Inl ''object_get expects object named child'')
     | _ \<Rightarrow> Inl ''object_get expects object named child''))"

end
