(* ===== verification/Ast_Eval.thy ===== *)
theory Ast_Eval
  imports Ast_Cases
begin

text \<open>
  The evaluator of formula nodes: \<^verbatim>\<open>EvaluateNode\<close>, the switch of \<^verbatim>\<open>evaluateNodeUncached\<close> and
  \<^verbatim>\<open>EvaluateFormula\<close> (\<^verbatim>\<open>ast_eval/evaluator.go\<close>), with the facts that a rule author relies on. The recursion
  of the Go functions goes to a node's positional and named children only; it is closed here over
  the size of the node, which every handler is shown to respect.
\<close>

subsection \<open>The switch\<close>

definition eval_cases :: "(string \<times> handler) list" where
  "eval_cases =
    [(''field_ref'', eval_field_ref), (''and'', eval_and), (''or'', eval_or), (''not'', eval_not),
     (''eq'', eval_compare), (''neq'', eval_compare), (''gt'', eval_compare), (''gte'', eval_compare),
     (''lt'', eval_compare), (''lte'', eval_compare), (''contains'', eval_contains),
     (''string_not_contain'', eval_string_not_contain), (''in'', eval_in),
     (''contains_any'', eval_contains_any), (''contains_none'', eval_contains_any),
     (''starts_with'', eval_affix), (''ends_with'', eval_affix), (''lower'', eval_letter_case),
     (''upper'', eval_letter_case), (''is_null'', eval_is_null), (''is_empty'', eval_is_empty),
     (''is_not_empty'', eval_is_empty), (''coalesce'', eval_coalesce), (''add'', eval_arithmetic),
     (''subtract'', eval_arithmetic), (''multiply'', eval_arithmetic), (''divide'', eval_arithmetic),
     (''in_custom_list'', eval_in_custom_list), (''record_has_tag'', eval_record_has_tag),
     (''record_risk_level'', eval_record_risk_level), (''has_ip_flag'', eval_has_ip_flag),
     (''ip_country'', eval_geo), (''ip_country_code'', eval_geo), (''ip_region'', eval_geo),
     (''ip_region_code'', eval_geo), (''ip_continent_code'', eval_geo), (''ip_geo_found'', eval_geo),
     (''past_decision_count'', eval_past_decision_count),
     (''related_count'', eval_disabled ''related_count''), (''related_field'', eval_related_field),
     (''payload'', eval_payload), (''list'', eval_list), (''filter'', eval_filter),
     (''aggregator'', eval_aggregator), (''database_access'', eval_database_access),
     (''time_now'', eval_time_now), (''parse_time'', eval_parse_time),
     (''timestamp_extract'', eval_timestamp_extract), (''time_add'', eval_time_add),
     (''custom_list_access'', eval_custom_list_access), (''fuzzy_match'', eval_fuzzy_match),
     (''fuzzy_match_any_of'', eval_fuzzy_match_any_of),
     (''fuzzy_match_filter_options'', eval_fuzzy_options), (''is_in_list'', eval_is_in_list),
     (''is_not_in_list'', eval_is_not_in_list), (''is_multiple_of'', eval_is_multiple_of),
     (''string_concat'', eval_string_concat), (''string_template'', eval_string_template),
     (''score_computation'', eval_score_computation), (''switch'', eval_switch),
     (''related_records'', eval_disabled ''related_records''), (''filter_eq'', eval_filter_eq),
     (''map_field'', eval_map_field), (''list_count'', eval_list_count),
     (''sum'', eval_aggregate_list), (''avg'', eval_aggregate_list), (''min'', eval_aggregate_list),
     (''max'', eval_aggregate_list), (''group_count'', eval_group_count),
     (''group_sum'', eval_group_sum), (''object_get'', eval_object_get)]"

definition unsupported_function :: "string \<Rightarrow> 'a res" where
  "unsupported_function fn = Inl (''unsupported AST function '' @ str_quote fn)"

definition eval_uncached :: handler where
  "eval_uncached rt ev n = (case map_of eval_cases (canon n) of
       None \<Rightarrow> unsupported_function (nd_fn n) | Some h \<Rightarrow> h rt ev n)"

subsection \<open>Handlers read the evaluator below the node only\<close>

lemma bool_loop_cong: "(\<And>c. c \<in> set cs \<Longrightarrow> f c = g c) \<Longrightarrow> bool_loop l s f cs = bool_loop l s g cs"
  by (induction cs) (auto intro!: bind_r_cong split: gval.splits)

lemma coalesce_loop_cong: "(\<And>c. c \<in> set cs \<Longrightarrow> f c = g c) \<Longrightarrow> coalesce_loop f cs = coalesce_loop g cs"
  by (induction cs) (auto intro!: bind_r_cong)

lemma concat_loop_cong: "(\<And>c. c \<in> set cs \<Longrightarrow> f c = g c) \<Longrightarrow> concat_loop f cs = concat_loop g cs"
  by (induction cs) (auto intro!: bind_r_cong)

lemma score_branches_cong: "(\<And>c. c \<in> set cs \<Longrightarrow> f c = g c) \<Longrightarrow> score_branches f cs = score_branches g cs"
  by (induction cs) (auto intro!: bind_r_cong split: gval.splits)

lemma render_template_cong:
  "(\<And>k c. map_of nm k = Some c \<Longrightarrow> f c = g c) \<Longrightarrow> render_template f nm xs t = render_template g nm xs t"
  by (induction xs arbitrary: t) (auto intro!: bind_r_cong split: option.splits)

lemma loops_below [ev_congs]:
  assumes "agree_below f g n"
  shows "bool_loop l s f (nd_children n) = bool_loop l s g (nd_children n)"
    "coalesce_loop f (nd_children n) = coalesce_loop g (nd_children n)"
    "concat_loop f (nd_children n) = concat_loop g (nd_children n)"
    "score_branches f (nd_children n) = score_branches g (nd_children n)"
    "mapM_r f (nd_children n) = mapM_r g (nd_children n)"
    "render_template f (nd_named n) xs t = render_template g (nd_named n) xs t"
    "eval_if_present f n k = eval_if_present g n k"
    "switch_fallback f n = switch_fallback g n"
  using agree_child [OF assms] agree_named [OF assms]
  by (auto intro!: bool_loop_cong coalesce_loop_cong concat_loop_cong score_branches_cong
      mapM_r_cong render_template_cong simp: eval_if_present_def switch_fallback_def
      split: option.splits)

lemma simple_handlers_below:
  assumes "agree_below f g n"
  shows "eval_field_ref rt f n = eval_field_ref rt g n" "eval_payload rt f n = eval_payload rt g n"
    "eval_and rt f n = eval_and rt g n" "eval_or rt f n = eval_or rt g n"
    "eval_not rt f n = eval_not rt g n" "eval_compare rt f n = eval_compare rt g n"
    "eval_contains rt f n = eval_contains rt g n"
    "eval_string_not_contain rt f n = eval_string_not_contain rt g n"
    "eval_in rt f n = eval_in rt g n" "eval_is_in_list rt f n = eval_is_in_list rt g n"
    "eval_is_not_in_list rt f n = eval_is_not_in_list rt g n"
    "eval_contains_any rt f n = eval_contains_any rt g n" "eval_affix rt f n = eval_affix rt g n"
    "eval_letter_case rt f n = eval_letter_case rt g n" "eval_is_null rt f n = eval_is_null rt g n"
    "eval_is_empty rt f n = eval_is_empty rt g n" "eval_coalesce rt f n = eval_coalesce rt g n"
    "eval_arithmetic rt f n = eval_arithmetic rt g n"
  unfolding eval_field_ref_def eval_payload_def eval_and_def eval_or_def eval_not_def
    eval_compare_def eval_contains_def eval_string_not_contain_def eval_in_def eval_is_in_list_def
    eval_is_not_in_list_def eval_contains_any_def eval_affix_def eval_letter_case_def
    eval_is_null_def eval_is_empty_def eval_coalesce_def eval_arithmetic_def
  by (simp_all add: ev_congs [OF assms] two_children_cong [OF assms] one_child_cong [OF assms])

lemma reader_handlers_below:
  assumes "agree_below f g n"
  shows "eval_in_custom_list rt f n = eval_in_custom_list rt g n"
    "eval_custom_list_access rt f n = eval_custom_list_access rt g n"
    "eval_record_has_tag rt f n = eval_record_has_tag rt g n"
    "eval_record_risk_level rt f n = eval_record_risk_level rt g n"
    "eval_has_ip_flag rt f n = eval_has_ip_flag rt g n"
    "eval_past_decision_count rt f n = eval_past_decision_count rt g n"
    "eval_disabled l rt f n = eval_disabled l rt g n" "eval_geo rt f n = eval_geo rt g n"
    "eval_related_field rt f n = eval_related_field rt g n"
    "eval_database_access rt f n = eval_database_access rt g n"
    "eval_aggregator rt f n = eval_aggregator rt g n"
    "eval_filter rt f n = eval_filter rt g n" "eval_list rt f n = eval_list rt g n"
  unfolding eval_in_custom_list_def eval_custom_list_access_def eval_record_has_tag_def
    eval_record_risk_level_def eval_has_ip_flag_def eval_past_decision_count_def
    eval_disabled_def eval_geo_def eval_geo_lookup_def eval_related_field_def
    eval_database_access_def eval_aggregator_def eval_filter_def eval_list_def
  by (simp_all only: ev_congs [OF assms])

lemma value_handlers_below:
  assumes "agree_below f g n"
  shows "eval_time_now rt f n = eval_time_now rt g n" "eval_parse_time rt f n = eval_parse_time rt g n"
    "eval_timestamp_extract rt f n = eval_timestamp_extract rt g n"
    "eval_time_add rt f n = eval_time_add rt g n" "eval_fuzzy_match rt f n = eval_fuzzy_match rt g n"
    "eval_fuzzy_match_any_of rt f n = eval_fuzzy_match_any_of rt g n"
    "eval_fuzzy_options rt f n = eval_fuzzy_options rt g n"
    "eval_is_multiple_of rt f n = eval_is_multiple_of rt g n"
    "eval_string_concat rt f n = eval_string_concat rt g n"
    "eval_string_template rt f n = eval_string_template rt g n"
    "eval_filter_eq rt f n = eval_filter_eq rt g n" "eval_map_field rt f n = eval_map_field rt g n"
    "eval_list_count rt f n = eval_list_count rt g n"
    "eval_aggregate_list rt f n = eval_aggregate_list rt g n"
    "eval_group_count rt f n = eval_group_count rt g n"
    "eval_group_sum rt f n = eval_group_sum rt g n" "eval_object_get rt f n = eval_object_get rt g n"
  unfolding eval_time_now_def eval_parse_time_def eval_timestamp_extract_def eval_time_add_def
    eval_fuzzy_match_def eval_fuzzy_match_any_of_def eval_fuzzy_options_def eval_is_multiple_of_def
    eval_string_concat_def eval_string_template_def eval_filter_eq_def eval_map_field_def
    eval_list_count_def eval_aggregate_list_def eval_group_count_def eval_group_sum_def
    eval_object_get_def
  by (simp_all only: ev_congs [OF assms])

lemma score_handlers_below:
  assumes "agree_below f g n"
  shows "eval_score_computation rt f n = eval_score_computation rt g n"
    "eval_switch rt f n = eval_switch rt g n"
proof -
  have one: "(case nd_children n of [c] \<Rightarrow> bind_r (f c) k | _ \<Rightarrow> e) =
      (case nd_children n of [c] \<Rightarrow> bind_r (g c) k | _ \<Rightarrow> e)" for k :: "gval \<Rightarrow> gval res" and e
    using agree_child [OF assms] by (cases "nd_children n") (auto split: list.splits)
  show "eval_score_computation rt f n = eval_score_computation rt g n"
    unfolding eval_score_computation_def score_floor_def one by (simp only: ev_congs [OF assms])
  show "eval_switch rt f n = eval_switch rt g n"
    unfolding eval_switch_def ev_congs [OF assms]
    by (cases "map_of (nd_named n) ''field''") (simp_all add: agree_named [OF assms])
qed

lemma eval_uncached_below:
  assumes "agree_below f g n"
  shows "eval_uncached rt f n = eval_uncached rt g n"
proof -
  have "list_all (\<lambda>(k, h). h rt f n = h rt g n) eval_cases"
    unfolding eval_cases_def
    by (simp only: list.pred_inject prod.case simple_handlers_below [OF assms]
        reader_handlers_below [OF assms] value_handlers_below [OF assms]
        score_handlers_below [OF assms] simp_thms)
  then have "h rt f n = h rt g n" if "map_of eval_cases k = Some h" for k h
    using map_of_SomeD [OF that] by (auto simp: list_all_iff)
  then show ?thesis
    by (simp add: eval_uncached_def split: option.splits)
qed

lemma eval_uncached_cong [fundef_cong]:
  "rt = rt' \<Longrightarrow> n = n' \<Longrightarrow> (\<And>m. size m < size n' \<Longrightarrow> f m = g m) \<Longrightarrow>
    eval_uncached rt f n = eval_uncached rt' g n'"
  by (simp add: eval_uncached_below agree_below_def)

subsection \<open>The evaluator\<close>

text \<open>\<^verbatim>\<open>EvaluateNode\<close> without a cache; theory Eval_Caches adds the caches.\<close>

function eval_node :: "runtime \<Rightarrow> node \<Rightarrow> gval res" where
  "eval_node rt n = (if is_constant_fn (nd_fn n) then Inr (nd_const n)
     else eval_uncached rt (eval_node rt) n)"
  by pat_completeness auto
termination
  by (relation "measure (\<lambda>(rt, n). size n)") auto

declare eval_node.simps [simp del]

text \<open>\<^verbatim>\<open>EvaluateFormula\<close> on a parsed formula.\<close>

definition evaluate_formula :: "runtime \<Rightarrow> node \<Rightarrow> bool res" where
  "evaluate_formula rt n = bind_r (eval_node rt n) (\<lambda>v. case v of
       VBool b \<Rightarrow> Inr b | _ \<Rightarrow> Inl ''formula did not evaluate to boolean'')"

end
