(* ===== verification/Eval_Laws.thy ===== *)
theory Eval_Laws
  imports Ast_Eval
begin

text \<open>
  What the rule language promises: the verdicts of the logical functions, the types of results,
  and the behaviour of the functions over related records, scores and switches. Two groups of facts
  record where names and aliases part ways.
\<close>

subsection \<open>Dispatch\<close>

lemma canonical_constant: "is_constant_fn fn \<Longrightarrow> canonical_function_name fn = [] \<or> canonical_function_name fn = ''constant''"
proof -
  have t: "to_lower ''constant'' = ''constant''" "trim_space ''constant'' = ''constant''"
    "map_of canonical_table ''constant'' = None"
    by code_simp+
  have e: "canonical_function_name [] = []" by code_simp
  show "is_constant_fn fn \<Longrightarrow> canonical_function_name fn = [] \<or> canonical_function_name fn = ''constant''"
    using t e by (auto simp: is_constant_fn_def equal_fold_def canonical_function_name_def Let_def)
qed

lemma eval_node_handler:
  assumes "map_of eval_cases (canon n) = Some h"
  shows "eval_node rt n = h rt (eval_node rt) n"
proof -
  have "map_of eval_cases [] = None" "map_of eval_cases ''constant'' = None" by code_simp+
  then have "\<not> is_constant_fn (nd_fn n)"
    using canonical_constant [of "nd_fn n"] assms by (auto simp: canon_def)
  then show ?thesis using assms by (simp add: eval_node.simps [of rt n] eval_uncached_def)
qed

lemma eval_node_const: "is_constant_fn (nd_fn n) \<Longrightarrow> eval_node rt n = Inr (nd_const n)"
  by (simp add: eval_node.simps)

named_theorems dispatch

lemma dispatch_logic [dispatch]:
  "map_of eval_cases ''and'' = Some eval_and" "map_of eval_cases ''or'' = Some eval_or"
  "map_of eval_cases ''not'' = Some eval_not" "map_of eval_cases ''coalesce'' = Some eval_coalesce"
  "map_of eval_cases ''is_empty'' = Some eval_is_empty"
  "map_of eval_cases ''is_not_empty'' = Some eval_is_empty"
  "map_of eval_cases ''is_null'' = Some eval_is_null"
  by (simp_all add: eval_cases_def)

lemma dispatch_values [dispatch]:
  "map_of eval_cases ''starts_with'' = Some eval_affix" "map_of eval_cases ''ends_with'' = Some eval_affix"
  "map_of eval_cases ''add'' = Some eval_arithmetic"
  "map_of eval_cases ''subtract'' = Some eval_arithmetic"
  "map_of eval_cases ''multiply'' = Some eval_arithmetic"
  "map_of eval_cases ''divide'' = Some eval_arithmetic"
  "map_of eval_cases ''gt'' = Some eval_compare" "map_of eval_cases ''lt'' = Some eval_compare"
  "map_of eval_cases ''eq'' = Some eval_compare" "map_of eval_cases ''neq'' = Some eval_compare"
  "map_of eval_cases ''gte'' = Some eval_compare" "map_of eval_cases ''lte'' = Some eval_compare"
  by (simp_all add: eval_cases_def)

lemma dispatch_records [dispatch]:
  "map_of eval_cases ''related_field'' = Some eval_related_field"
  "map_of eval_cases ''database_access'' = Some eval_database_access"
  "map_of eval_cases ''aggregator'' = Some eval_aggregator"
  "map_of eval_cases ''switch'' = Some eval_switch"
  "map_of eval_cases ''score_computation'' = Some eval_score_computation"
  "map_of eval_cases ''payload'' = Some eval_payload"
  "map_of eval_cases ''field_ref'' = Some eval_field_ref"
  by (simp_all add: eval_cases_def)

lemma canonical_names [simp]:
  "canonical_function_name ''and'' = ''and''" "canonical_function_name ''or'' = ''or''"
  "canonical_function_name ''not'' = ''not''"
  "canonical_function_name ''StringStartsWith'' = ''starts_with''"
  "canonical_function_name ''+'' = ''add''" "canonical_function_name ''-'' = ''subtract''"
  "canonical_function_name ''*'' = ''multiply''" "canonical_function_name ''/'' = ''divide''"
  by code_simp+

subsection \<open>Results of a case on the kind of a value\<close>

lemma value_case_Inr [result_simps]:
  "((case v of VBool b \<Rightarrow> f b | _ \<Rightarrow> Inl e) = Inr y) = (\<exists>b. v = VBool b \<and> f b = Inr y)"
  "((case v of VStr s \<Rightarrow> g s | _ \<Rightarrow> Inl e) = Inr y) = (\<exists>s. v = VStr s \<and> g s = Inr y)"
  "((case v of VList xs \<Rightarrow> h xs | _ \<Rightarrow> Inl e) = Inr y) = (\<exists>xs. v = VList xs \<and> h xs = Inr y)"
  "((case v of VScore r \<Rightarrow> k r | _ \<Rightarrow> Inl e) = Inr y) = (\<exists>r. v = VScore r \<and> k r = Inr y)"
  "((case v of VNil \<Rightarrow> a | VBool b \<Rightarrow> f b | _ \<Rightarrow> Inl e) = Inr y) =
     ((v = VNil \<and> a = Inr y) \<or> (\<exists>b. v = VBool b \<and> f b = Inr y))"
  by (cases v; simp)+

lemma singleton_case_Inr [result_simps]:
  "((case xs of [c] \<Rightarrow> f c | _ \<Rightarrow> Inl e) = Inr y) = (\<exists>c. xs = [c] \<and> f c = Inr y)"
  by (auto split: list.splits)

lemma option_case_Inr [result_simps]:
  "((case m of None \<Rightarrow> Inl e | Some x \<Rightarrow> f x) = Inr y) = (\<exists>x. m = Some x \<and> f x = Inr y)"
  by (cases m) auto

lemma one_child_Inr [result_simps]:
  "(one_child l ev n k = Inr y) = (\<exists>c v. nd_children n = [c] \<and> ev c = Inr v \<and> k v = Inr y)"
  by (auto simp: one_child_def result_simps split: list.splits)

lemma two_children_Inr [result_simps]:
  "(two_children l ev n k = Inr y) =
     (\<exists>a b u v. nd_children n = [a, b] \<and> ev a = Inr u \<and> ev b = Inr v \<and> k u v = Inr y)"
  by (auto simp: two_children_def result_simps split: list.splits)

subsection \<open>Logic\<close>

lemma bool_loop_stop:
  "bool_loop l s ev cs = Inr (VBool s) \<longleftrightarrow>
     (\<exists>i < length cs. ev (cs ! i) = Inr (VBool s) \<and> (\<forall>j < i. ev (cs ! j) = Inr (VBool (\<not> s))))"
proof (induction cs)
  case (Cons c cs)
  have shift: "(\<exists>i < length (c # cs). ev ((c # cs) ! i) = Inr (VBool s) \<and>
        (\<forall>j < i. ev ((c # cs) ! j) = Inr (VBool (\<not> s)))) \<longleftrightarrow>
      (ev c = Inr (VBool s) \<or> (ev c = Inr (VBool (\<not> s)) \<and>
        (\<exists>i < length cs. ev (cs ! i) = Inr (VBool s) \<and> (\<forall>j < i. ev (cs ! j) = Inr (VBool (\<not> s))))))"
    by (simp add: Ex_less_Suc2 All_less_Suc2) blast
  show ?case
    unfolding shift Cons.IH [symmetric]
    by (cases "ev c") (auto split: gval.splits)
qed simp

lemma bool_loop_pass:
  "bool_loop l s ev cs = Inr (VBool (\<not> s)) \<longleftrightarrow> (\<forall>c \<in> set cs. ev c = Inr (VBool (\<not> s)))"
proof (induction cs)
  case (Cons c cs)
  show ?case
    using Cons.IH by (cases "ev c") (auto split: gval.splits)
qed simp

lemma bool_loop_bool: "bool_loop l s ev cs = Inr v \<Longrightarrow> \<exists>b. v = VBool b"
  by (induction cs) (auto simp: result_simps split: if_splits)

text \<open>An \<open>and\<close> is true exactly when every child is, and false exactly when some child is false and
  all before it are true: the children after it are not read.\<close>

lemma and_node_verdict:
  assumes "canon n = ''and''"
  shows "eval_node rt n = Inr (VBool True) \<longleftrightarrow>
      (\<forall>c \<in> set (nd_children n). eval_node rt c = Inr (VBool True))"
    and "eval_node rt n = Inr (VBool False) \<longleftrightarrow>
      (\<exists>i < length (nd_children n). eval_node rt (nd_children n ! i) = Inr (VBool False) \<and>
        (\<forall>j < i. eval_node rt (nd_children n ! j) = Inr (VBool True)))"
  using bool_loop_stop [of "''and''" False "eval_node rt" "nd_children n"]
    bool_loop_pass [of "''and''" False "eval_node rt" "nd_children n"]
  by (simp_all add: eval_node_handler assms dispatch eval_and_def)

lemma or_node_verdict:
  assumes "canon n = ''or''"
  shows "eval_node rt n = Inr (VBool False) \<longleftrightarrow>
      (\<forall>c \<in> set (nd_children n). eval_node rt c = Inr (VBool False))"
    and "eval_node rt n = Inr (VBool True) \<longleftrightarrow>
      (\<exists>i < length (nd_children n). eval_node rt (nd_children n ! i) = Inr (VBool True) \<and>
        (\<forall>j < i. eval_node rt (nd_children n ! j) = Inr (VBool False)))"
  using bool_loop_stop [of "''or''" True "eval_node rt" "nd_children n"]
    bool_loop_pass [of "''or''" True "eval_node rt" "nd_children n"]
  by (simp_all add: eval_node_handler assms dispatch eval_or_def)

lemma not_node_verdict:
  "canon n = ''not'' \<Longrightarrow> nd_children n = [c] \<Longrightarrow>
     (eval_node rt n = Inr v) = (\<exists>b. eval_node rt c = Inr (VBool b) \<and> v = VBool (\<not> b))"
  by (auto simp: eval_node_handler dispatch eval_not_def result_simps)

lemma logic_node_bool:
  "canon n = ''and'' \<or> canon n = ''or'' \<Longrightarrow> eval_node rt n = Inr v \<Longrightarrow> \<exists>b. v = VBool b"
  using bool_loop_bool by (auto simp: eval_node_handler dispatch eval_and_def eval_or_def)

subsection \<open>De Morgan\<close>

definition not_node :: "node \<Rightarrow> node" where
  "not_node c = Node ''not'' VNil [c] []"

lemma eval_not_node:
  "(eval_node rt (not_node c) = Inr v) = (\<exists>b. eval_node rt c = Inr (VBool b) \<and> v = VBool (\<not> b))"
  by (rule not_node_verdict) (simp_all add: not_node_def canon_def)

lemma eval_not_node_bool [simp]:
  "(eval_node rt (not_node c) = Inr (VBool b)) = (eval_node rt c = Inr (VBool (\<not> b)))"
  by (auto simp: eval_not_node)

lemma de_morgan_and:
  "eval_node rt (not_node (Node ''and'' c cs nm)) = Inr v \<longleftrightarrow>
     eval_node rt (Node ''or'' c (map not_node cs) nm) = Inr v"
proof -
  let ?a = "Node ''and'' c cs nm" and ?o = "Node ''or'' c (map not_node cs) nm"
  have ca: "canon ?a = ''and''" and co: "canon ?o = ''or''" by (simp_all add: canon_def)
  note A = and_node_verdict [OF ca, of rt] and O = or_node_verdict [OF co, of rt]
  have pass: "eval_node rt ?o = Inr (VBool False) \<longleftrightarrow> eval_node rt ?a = Inr (VBool True)"
    unfolding A(1) O(1) by auto
  have "eval_node rt (map not_node cs ! i) = Inr (VBool True) \<and>
      (\<forall>j < i. eval_node rt (map not_node cs ! j) = Inr (VBool False)) \<longleftrightarrow>
      eval_node rt (cs ! i) = Inr (VBool False) \<and> (\<forall>j < i. eval_node rt (cs ! j) = Inr (VBool True))"
    if "i < length cs" for i
    using that by auto
  then have stop: "eval_node rt ?o = Inr (VBool True) \<longleftrightarrow> eval_node rt ?a = Inr (VBool False)"
    unfolding A(2) O(2) node.sel length_map by blast
  show ?thesis
  proof
    assume "eval_node rt (not_node ?a) = Inr v"
    then obtain b where b: "eval_node rt ?a = Inr (VBool b)" "v = VBool (\<not> b)" by (auto simp: eval_not_node)
    then show "eval_node rt ?o = Inr v" using pass stop by (cases b) auto
  next
    assume o1: "eval_node rt ?o = Inr v"
    then obtain b where "v = VBool b" using logic_node_bool co by blast
    then show "eval_node rt (not_node ?a) = Inr v"
      using o1 pass stop by (cases b) auto
  qed
qed

subsection \<open>Null tests\<close>

lemma is_not_empty_complement:
  assumes "canon n = ''is_empty''" "canon m = ''is_not_empty''" "nd_children n = nd_children m"
  shows "eval_node rt n = Inr (VBool b) \<longleftrightarrow> eval_node rt m = Inr (VBool (\<not> b))"
  using assms by (auto simp: eval_node_handler dispatch eval_is_empty_def result_simps)

text \<open>\<open>coalesce\<close> gives the first value that is not null.\<close>

lemma coalesce_loop_value:
  "coalesce_loop ev cs = Inr v \<longleftrightarrow>
     ((\<exists>i < length cs. ev (cs ! i) = Inr v \<and> v \<noteq> VNil \<and> (\<forall>j < i. ev (cs ! j) = Inr VNil)) \<or>
      (v = VNil \<and> (\<forall>c \<in> set cs. ev c = Inr VNil)))"
proof (induction cs)
  case (Cons c cs)
  have shift: "(\<exists>i < length (c # cs). ev ((c # cs) ! i) = Inr v \<and> v \<noteq> VNil \<and>
        (\<forall>j < i. ev ((c # cs) ! j) = Inr VNil)) \<longleftrightarrow>
      ((ev c = Inr v \<and> v \<noteq> VNil) \<or> (ev c = Inr VNil \<and>
        (\<exists>i < length cs. ev (cs ! i) = Inr v \<and> v \<noteq> VNil \<and> (\<forall>j < i. ev (cs ! j) = Inr VNil))))"
    by (simp add: Ex_less_Suc2 All_less_Suc2) blast
  show ?case
    unfolding shift using Cons.IH by (cases "ev c") auto
qed auto

lemma coalesce_first_value:
  assumes "canon n = ''coalesce''"
  shows "eval_node rt n = Inr v \<longleftrightarrow> nd_children n \<noteq> [] \<and>
     ((\<exists>i < length (nd_children n). eval_node rt (nd_children n ! i) = Inr v \<and> v \<noteq> VNil \<and>
        (\<forall>j < i. eval_node rt (nd_children n ! j) = Inr VNil)) \<or>
      (v = VNil \<and> (\<forall>c \<in> set (nd_children n). eval_node rt c = Inr VNil)))"
  by (simp add: eval_node_handler assms dispatch eval_coalesce_def coalesce_loop_value)

subsection \<open>Scores and switches\<close>

lemma score_branches_value:
  "score_branches ev cs = Inr ss \<longleftrightarrow> list_all2 (\<lambda>c s. ev c = Inr (VScore s)) cs ss"
proof (induction cs arbitrary: ss)
  case (Cons c cs)
  then show ?case by (cases ss) (auto simp: result_simps)
qed auto

lemma first_triggered_least:
  "first_triggered k ss = Some s \<longleftrightarrow>
     (\<exists>i < length ss. sr_triggered (ss ! i) \<and> (\<forall>j < i. \<not> sr_triggered (ss ! j)) \<and>
        s = (ss ! i)\<lparr>sr_fallback := False, sr_default := False, sr_branch := Some (k + int i)\<rparr>)"
proof (induction ss arbitrary: k)
  case (Cons x ss)
  show ?case
    by (cases "sr_triggered x")
      (auto simp: Cons.IH Ex_less_Suc2 All_less_Suc2 algebra_simps)
qed simp

lemma first_triggered_None: "first_triggered k ss = None \<longleftrightarrow> (\<forall>s \<in> set ss. \<not> sr_triggered s)"
  by (induction ss arbitrary: k) auto

text \<open>A switch whose field has a value and whose branches are scores gives the least triggered branch.\<close>

lemma switch_least_branch:
  assumes "canon n = ''switch''" "map_of (nd_named n) ''field'' = Some f" "nd_children n \<noteq> []"
    and "nd_fn f \<noteq> [] \<or> nd_const f \<noteq> VNil" "eval_node rt f = Inr v" "v \<noteq> VNil"
    and ss: "list_all2 (\<lambda>c s. eval_node rt c = Inr (VScore s)) (nd_children n) ss"
    and i: "i < length ss" "sr_triggered (ss ! i)" "\<And>j. j < i \<Longrightarrow> \<not> sr_triggered (ss ! j)"
  shows "eval_node rt n = Inr (VScore ((ss ! i)\<lparr>sr_fallback := False, sr_default := False,
    sr_branch := Some (int i)\<rparr>))"
proof -
  have b: "score_branches (eval_node rt) (nd_children n) = Inr ss"
    using ss by (simp add: score_branches_value)
  have t: "first_triggered 0 ss = Some ((ss ! i)\<lparr>sr_fallback := False, sr_default := False,
      sr_branch := Some (int i)\<rparr>)"
    unfolding first_triggered_least using i by (intro exI [of _ i]) auto
  show ?thesis
    using assms(2-6) by (auto simp: eval_node_handler [of n eval_switch] assms(1) dispatch eval_switch_def b t)
qed

lemma switch_default:
  assumes "canon n = ''switch''" "map_of (nd_named n) ''field'' = Some f" "nd_children n \<noteq> []"
    and "nd_fn f \<noteq> [] \<or> nd_const f \<noteq> VNil" "eval_node rt f = Inr v" "v \<noteq> VNil"
    and ss: "list_all2 (\<lambda>c s. eval_node rt c = Inr (VScore s)) (nd_children n) ss"
    and "\<forall>s \<in> set ss. \<not> sr_triggered s"
  shows "eval_node rt n = Inr (switch_fallback (eval_node rt) n)"
proof -
  have b: "score_branches (eval_node rt) (nd_children n) = Inr ss"
    using ss by (simp add: score_branches_value)
  have t: "first_triggered 0 ss = None" using assms(8) by (simp add: first_triggered_None)
  show ?thesis
    using assms(2-6) by (auto simp: eval_node_handler [of n eval_switch] assms(1) dispatch eval_switch_def b t)
qed

text \<open>A switch never gives anything but a triggered score or its fallback's score.\<close>

lemma switch_is_score:
  assumes "canon n = ''switch''" "eval_node rt n = Inr v"
  shows "\<exists>s. v = VScore s"
proof -
  have "\<exists>s. switch_fallback (eval_node rt) n = VScore s"
    by (auto simp: switch_fallback_def split: option.splits sum.splits gval.splits)
  then show ?thesis
    using assms(2) by (auto simp: eval_node_handler [of n eval_switch] assms(1) dispatch eval_switch_def
        result_simps switch_needs_field_def split: if_splits option.splits)
qed

text \<open>A score that is not triggered carries neither points nor a floor.\<close>

lemma score_of_score:
  "score_of m fl u = Inr v \<Longrightarrow> v = VScore s \<Longrightarrow>
     sr_branch s = None \<and> (\<not> sr_triggered s \<longrightarrow> s = zero_score)"
  unfolding score_of_def by (cases u; simp add: zero_score_def; force)

lemma score_of_kind: "score_of m fl u = Inr v \<Longrightarrow> \<exists>s. v = VScore s"
  unfolding score_of_def by (cases u; simp; blast)

lemma score_node_value:
  assumes "canon n = ''score_computation''" "eval_node rt n = Inr v"
  shows "\<exists>m fl u. score_of m fl u = Inr v"
proof -
  have "eval_score_computation rt (eval_node rt) n = Inr v"
    using assms(2) by (simp add: eval_node_handler [of n eval_score_computation] assms(1) dispatch)
  then show ?thesis
    by (simp only: eval_score_computation_def bind_r_Inr_iff option_case_Inr singleton_case_Inr) blast
qed

lemma score_untriggered_zero:
  assumes "canon n = ''score_computation''" "eval_node rt n = Inr (VScore s)"
  shows "sr_branch s = None \<and> (\<not> sr_triggered s \<longrightarrow> s = zero_score)"
  using score_node_value [OF assms] score_of_score by blast

subsection \<open>Kinds of results\<close>

text \<open>The kinds of value each function can give, where the function fixes them.\<close>

datatype kind = KNull | KBool | KText | KFloat | KInt | KTime | KList | KObject | KFilter | KScore | KOther

fun kind_of :: "gval \<Rightarrow> kind" where
  "kind_of VNil = KNull"
| "kind_of (VBool _) = KBool"
| "kind_of (VStr _) = KText"
| "kind_of (VInt _) = KInt"
| "kind_of (VFloat _) = KFloat"
| "kind_of (VTime _) = KTime"
| "kind_of (VList _) = KList"
| "kind_of (VObj _) = KObject"
| "kind_of (VFilter _ _ _ _) = KFilter"
| "kind_of (VScore _) = KScore"
| "kind_of _ = KOther"

lemma kind_of_simps [simp]:
  "kind_of v = KNull \<longleftrightarrow> v = VNil" "kind_of v = KBool \<longleftrightarrow> (\<exists>b. v = VBool b)"
  "kind_of v = KText \<longleftrightarrow> (\<exists>s. v = VStr s)" "kind_of v = KFloat \<longleftrightarrow> (\<exists>x. v = VFloat x)"
  "kind_of v = KInt \<longleftrightarrow> (\<exists>i. v = VInt i)" "kind_of v = KTime \<longleftrightarrow> (\<exists>t. v = VTime t)"
  "kind_of v = KList \<longleftrightarrow> (\<exists>xs. v = VList xs)" "kind_of v = KObject \<longleftrightarrow> (\<exists>m. v = VObj m)"
  "kind_of v = KFilter \<longleftrightarrow> (\<exists>t f op x. v = VFilter t f op x)"
  "kind_of v = KScore \<longleftrightarrow> (\<exists>s. v = VScore s)"
  by (cases v; simp)+

definition result_kinds :: "(string \<times> kind list) list" where
  "result_kinds =
    [(''and'', [KBool]), (''or'', [KBool]), (''not'', [KBool]), (''eq'', [KBool]), (''neq'', [KBool]),
     (''gt'', [KBool]), (''gte'', [KBool]), (''lt'', [KBool]), (''lte'', [KBool]),
     (''contains'', [KBool]), (''string_not_contain'', [KBool]), (''in'', [KBool]),
     (''contains_any'', [KBool]), (''contains_none'', [KBool]), (''starts_with'', [KBool]),
     (''ends_with'', [KBool]), (''lower'', [KText]), (''upper'', [KText]), (''is_null'', [KBool]),
     (''is_empty'', [KBool]), (''is_not_empty'', [KBool]), (''add'', [KFloat]), (''subtract'', [KFloat]),
     (''multiply'', [KFloat]), (''divide'', [KFloat]), (''in_custom_list'', [KBool]),
     (''record_has_tag'', [KBool]), (''record_risk_level'', [KText, KNull]), (''has_ip_flag'', [KBool]),
     (''ip_country'', [KText, KNull]), (''ip_country_code'', [KText, KNull]),
     (''ip_region'', [KText, KNull]), (''ip_region_code'', [KText, KNull]),
     (''ip_continent_code'', [KText, KNull]), (''ip_geo_found'', [KBool]),
     (''past_decision_count'', [KFloat]), (''related_count'', []), (''list'', [KList]),
     (''filter'', [KFilter]), (''time_now'', [KTime]), (''parse_time'', [KTime]),
     (''timestamp_extract'', [KInt, KNull]), (''time_add'', [KTime, KNull]),
     (''custom_list_access'', [KList]), (''fuzzy_match'', [KInt, KNull]),
     (''fuzzy_match_any_of'', [KInt, KNull]), (''fuzzy_match_filter_options'', [KObject]),
     (''is_in_list'', [KBool]), (''is_not_in_list'', [KBool]), (''is_multiple_of'', [KBool, KNull]),
     (''string_concat'', [KText]), (''string_template'', [KText]), (''score_computation'', [KScore]),
     (''switch'', [KScore]), (''related_records'', []), (''filter_eq'', [KList]),
     (''map_field'', [KList]), (''list_count'', [KFloat]), (''sum'', [KFloat]), (''avg'', [KFloat]),
     (''min'', [KFloat]), (''max'', [KFloat]), (''group_count'', [KObject]), (''group_sum'', [KObject])]"

lemma vbool_Inr [result_simps]: "(vbool m = Inr v) = (\<exists>b. m = Inr b \<and> v = VBool b)"
  "(vnot m = Inr v) = (\<exists>b. m = Inr b \<and> v = VBool (\<not> b))"
  by (auto simp: vbool_def vnot_def result_simps)

named_theorems kinds

lemma kinds_bool [kinds]:
  "eval_and rt ev n = Inr v \<Longrightarrow> kind_of v = KBool" "eval_or rt ev n = Inr v \<Longrightarrow> kind_of v = KBool"
  "eval_not rt ev n = Inr v \<Longrightarrow> kind_of v = KBool" "eval_compare rt ev n = Inr v \<Longrightarrow> kind_of v = KBool"
  "eval_contains rt ev n = Inr v \<Longrightarrow> kind_of v = KBool"
  "eval_string_not_contain rt ev n = Inr v \<Longrightarrow> kind_of v = KBool"
  "eval_in rt ev n = Inr v \<Longrightarrow> kind_of v = KBool" "eval_contains_any rt ev n = Inr v \<Longrightarrow> kind_of v = KBool"
  "eval_affix rt ev n = Inr v \<Longrightarrow> kind_of v = KBool" "eval_is_null rt ev n = Inr v \<Longrightarrow> kind_of v = KBool"
  "eval_is_empty rt ev n = Inr v \<Longrightarrow> kind_of v = KBool"
  "eval_in_custom_list rt ev n = Inr v \<Longrightarrow> kind_of v = KBool"
  "eval_record_has_tag rt ev n = Inr v \<Longrightarrow> kind_of v = KBool"
  "eval_has_ip_flag rt ev n = Inr v \<Longrightarrow> kind_of v = KBool"
  "eval_is_in_list rt ev n = Inr v \<Longrightarrow> kind_of v = KBool"
  "eval_is_not_in_list rt ev n = Inr v \<Longrightarrow> kind_of v = KBool"
  unfolding eval_and_def eval_or_def eval_not_def eval_compare_def eval_contains_def
    eval_string_not_contain_def eval_in_def eval_contains_any_def eval_affix_def eval_is_null_def
    eval_is_empty_def eval_in_custom_list_def eval_record_has_tag_def eval_has_ip_flag_def
    eval_is_in_list_def eval_is_not_in_list_def
  by (auto simp: result_simps dest!: bool_loop_bool split: if_splits)

lemma kinds_number [kinds]:
  "eval_arithmetic rt ev n = Inr v \<Longrightarrow> kind_of v = KFloat"
  "eval_past_decision_count rt ev n = Inr v \<Longrightarrow> kind_of v = KFloat"
  "eval_list_count rt ev n = Inr v \<Longrightarrow> kind_of v = KFloat"
  "eval_aggregate_list rt ev n = Inr v \<Longrightarrow> kind_of v = KFloat"
  "eval_fuzzy_match rt ev n = Inr v \<Longrightarrow> kind_of v = KInt \<or> kind_of v = KNull"
  "eval_fuzzy_match_any_of rt ev n = Inr v \<Longrightarrow> kind_of v = KInt \<or> kind_of v = KNull"
  unfolding eval_arithmetic_def eval_past_decision_count_def eval_list_count_def
    eval_aggregate_list_def eval_fuzzy_match_def eval_fuzzy_match_any_of_def
  by (auto simp: result_simps split: if_splits)

lemma extract_kind: "extract_timestamp_part t p = Inr v \<Longrightarrow> kind_of v = KInt"
  by (auto simp: extract_timestamp_part_def Let_def split: if_splits)

lemma kinds_text_time [kinds]:
  "eval_letter_case rt ev n = Inr v \<Longrightarrow> kind_of v = KText"
  "eval_string_concat rt ev n = Inr v \<Longrightarrow> kind_of v = KText"
  "eval_string_template rt ev n = Inr v \<Longrightarrow> kind_of v = KText"
  "eval_time_now rt ev n = Inr v \<Longrightarrow> kind_of v = KTime"
  "eval_parse_time rt ev n = Inr v \<Longrightarrow> kind_of v = KTime"
  "eval_time_add rt ev n = Inr v \<Longrightarrow> kind_of v = KTime \<or> kind_of v = KNull"
  "eval_timestamp_extract rt ev n = Inr v \<Longrightarrow> kind_of v = KInt \<or> kind_of v = KNull"
  "eval_is_multiple_of rt ev n = Inr v \<Longrightarrow> kind_of v = KBool \<or> kind_of v = KNull"
  unfolding eval_letter_case_def eval_string_concat_def eval_string_template_def eval_time_now_def
    eval_parse_time_def eval_time_add_def eval_timestamp_extract_def eval_is_multiple_of_def
  by (auto simp: result_simps Let_def dest: extract_kind split: if_splits option.splits)

lemma group_count_kind: "kind_of (group_count xs f) = KObject"
  by (simp add: group_count_def)

lemma group_sum_kind: "group_sum xs g f = Inr v \<Longrightarrow> kind_of v = KObject"
  by (auto simp: group_sum_def result_simps)

lemma kinds_structure [kinds]:
  "eval_list rt ev n = Inr v \<Longrightarrow> kind_of v = KList"
  "eval_custom_list_access rt ev n = Inr v \<Longrightarrow> kind_of v = KList"
  "eval_filter_eq rt ev n = Inr v \<Longrightarrow> kind_of v = KList"
  "eval_map_field rt ev n = Inr v \<Longrightarrow> kind_of v = KList"
  "eval_filter rt ev n = Inr v \<Longrightarrow> kind_of v = KFilter"
  "eval_fuzzy_options rt ev n = Inr v \<Longrightarrow> kind_of v = KObject"
  "eval_group_count rt ev n = Inr v \<Longrightarrow> kind_of v = KObject"
  "eval_group_sum rt ev n = Inr v \<Longrightarrow> kind_of v = KObject"
  unfolding eval_list_def eval_custom_list_access_def eval_filter_eq_def eval_map_field_def
    eval_filter_def eval_fuzzy_options_def eval_group_count_def eval_group_sum_def
  using group_count_kind group_sum_kind
  by (auto simp: bind_r_Inr_iff option_case_Inr split: if_splits)

lemma risk_kind:
  "(case a of RiskNoRows \<Rightarrow> Inr VNil | RiskFailed e \<Rightarrow> Inl e
      | RiskSnapshot s \<Rightarrow> Inr (case s of None \<Rightarrow> VNil | Some l \<Rightarrow> VStr l)) = Inr v \<Longrightarrow>
    kind_of v = KText \<or> kind_of v = KNull"
  by (cases a) (auto split: option.splits)

lemma kinds_repository [kinds]:
  "eval_record_risk_level rt ev n = Inr v \<Longrightarrow> kind_of v = KText \<or> kind_of v = KNull"
  "eval_geo rt ev n = Inr v \<Longrightarrow> canon n = ''ip_geo_found'' \<Longrightarrow> kind_of v = KBool"
  "eval_geo rt ev n = Inr v \<Longrightarrow> canon n \<noteq> ''ip_geo_found'' \<Longrightarrow> kind_of v = KText \<or> kind_of v = KNull"
  "eval_disabled l rt ev n = Inr v \<Longrightarrow> False"
  unfolding eval_record_risk_level_def eval_geo_def eval_disabled_def
  by (auto simp: result_simps geo_string_result_def simp del: kind_of_simps dest!: risk_kind split: if_splits)

lemma kinds_score [kinds]:
  "eval_score_computation rt ev n = Inr v \<Longrightarrow> kind_of v = KScore"
  "eval_switch rt ev n = Inr v \<Longrightarrow> kind_of v = KScore"
proof -
  show "eval_score_computation rt ev n = Inr v \<Longrightarrow> kind_of v = KScore"
    by (simp only: eval_score_computation_def bind_r_Inr_iff option_case_Inr singleton_case_Inr)
      (auto dest: score_of_kind)
  have "\<exists>s. switch_fallback ev n = VScore s"
    by (auto simp: switch_fallback_def split: option.splits sum.splits gval.splits)
  then show "eval_switch rt ev n = Inr v \<Longrightarrow> kind_of v = KScore"
    by (auto simp: eval_switch_def result_simps switch_needs_field_def split: if_splits option.splits)
qed

definition gives :: "handler \<Rightarrow> string \<Rightarrow> kind list \<Rightarrow> bool" where
  "gives h k ks = (\<forall>rt ev n v. canon n = k \<longrightarrow> h rt ev n = Inr v \<longrightarrow> kind_of v \<in> set ks)"

lemma gives_one:
  "(\<And>rt ev n v. h rt ev n = Inr v \<Longrightarrow> kind_of v = a) \<Longrightarrow> gives h k [a]"
  by (auto simp: gives_def)

lemma gives_two:
  "(\<And>rt ev n v. h rt ev n = Inr v \<Longrightarrow> kind_of v = a \<or> kind_of v = b) \<Longrightarrow> gives h k [a, b]"
  by (auto simp: gives_def)

lemma gives_geo:
  "gives eval_geo ''ip_geo_found'' [KBool]"
  "k \<noteq> ''ip_geo_found'' \<Longrightarrow> gives eval_geo k [KText, KNull]"
  using kinds_repository(2,3) by (fastforce simp: gives_def simp del: kind_of_simps)+

lemma gives_disabled: "gives (eval_disabled l) k []"
  using kinds_repository(4) by (auto simp: gives_def)

lemmas gives_facts =
  kinds_bool [THEN gives_one] kinds_number(1-4) [THEN gives_one] kinds_number(5-6) [THEN gives_two]
  kinds_text_time(1-5) [THEN gives_one] kinds_text_time(6-8) [THEN gives_two]
  kinds_structure [THEN gives_one] kinds_repository(1) [THEN gives_two] kinds_score [THEN gives_one]
  gives_geo gives_disabled

text \<open>The table lists the functions in the order of the switch.\<close>

fun aligned :: "(string \<Rightarrow> 'a \<Rightarrow> 'b \<Rightarrow> bool) \<Rightarrow> (string \<times> 'a) list \<Rightarrow> (string \<times> 'b) list \<Rightarrow> bool" where
  "aligned P [] cs = True"
| "aligned P (r # rs) [] = False"
| "aligned P (r # rs) (c # cs) =
     (if fst r = fst c then P (fst r) (snd r) (snd c) \<and> aligned P rs cs else aligned P (r # rs) cs)"

lemma aligned_lookup:
  "aligned P rs cs \<Longrightarrow> distinct (map fst cs) \<Longrightarrow> (k, x) \<in> set rs \<Longrightarrow>
     \<exists>h. map_of cs k = Some h \<and> P k x h"
proof (induction P rs cs rule: aligned.induct)
  case (3 P r rs c cs)
  show ?case
  proof (cases "fst r = fst c \<and> (k, x) = r")
    case True
    then show ?thesis using "3.prems"(1) by (cases c) auto
  next
    case False
    then obtain h where h: "map_of cs k = Some h" "P k x h"
      using "3.IH" "3.prems" by (cases "fst r = fst c") auto
    then have "k \<in> fst ` set cs" by (force dest: map_of_SomeD)
    moreover have "fst c \<notin> fst ` set cs" using "3.prems"(2) by simp
    ultimately have "k \<noteq> fst c" by blast
    then show ?thesis using h by (cases c) auto
  qed
qed auto

lemma result_kinds_ok: "aligned (\<lambda>k ks h. gives h k ks) result_kinds eval_cases"
  unfolding result_kinds_def eval_cases_def by (simp add: gives_facts)

lemma eval_cases_distinct: "distinct (map fst eval_cases)"
  by code_simp

text \<open>Every function whose kind of result is fixed gives a value of that kind.\<close>

lemma eval_node_kind:
  assumes "map_of result_kinds (canon n) = Some ks" "eval_node rt n = Inr v"
  shows "kind_of v \<in> set ks"
proof -
  have "(canon n, ks) \<in> set result_kinds" using assms(1) by (rule map_of_SomeD)
  then obtain h where h: "map_of eval_cases (canon n) = Some h" "gives h (canon n) ks"
    using aligned_lookup [OF result_kinds_ok eval_cases_distinct] by blast
  then show ?thesis using assms(2) eval_node_handler [OF h(1)] by (auto simp: gives_def)
qed

lemma option_value_Inr:
  "((case m of None \<Rightarrow> Inr a | Some x \<Rightarrow> f x) = Inr y) = ((m = None \<and> a = y) \<or> (\<exists>x. m = Some x \<and> f x = Inr y))"
  by (cases m) auto

lemma sum_case_Inr [result_simps]:
  "((case s of Inl r \<Rightarrow> Inl (g r) | Inr q \<Rightarrow> f q) = Inr y) = (\<exists>q. s = Inr q \<and> f q = Inr y)"
  "((case s of Inl r \<Rightarrow> Inl (g r) | Inr q \<Rightarrow> Inr q) = Inr y) = (s = Inr y)"
  by (cases s; auto)+

lemma reason_case_Inr [result_simps]:
  "((case s of Inl r \<Rightarrow> Inr (Inl r) | Inr q \<Rightarrow> f q) = Inr (Inr y)) = (\<exists>q. s = Inr q \<and> f q = Inr (Inr y))"
  by (cases s) auto

lemma pushdown_case_Inr [result_simps]:
  "(pushdown_unsupported r = Inr y) = False"
  "((case s of Inl r \<Rightarrow> pushdown_unsupported r | Inr q \<Rightarrow> f q) = Inr y) = (\<exists>q. s = Inr q \<and> f q = Inr y)"
  by (cases s; auto simp: pushdown_unsupported_def)+

subsection \<open>Related records\<close>

lemma related_field_node:
  assumes "canon n = ''related_field''" "map_of (nd_named n) ''path'' = Some p"
    "map_of (nd_named n) ''field'' = Some f" "eval_node rt p = Inr (VStr path)"
    "eval_node rt f = Inr (VStr name)"
  shows "eval_node rt n = bind_r (traverse_related_path rt path) (\<lambda>r. case r of
      None \<Rightarrow> Inr VNil
    | Some (flds, ty) \<Rightarrow> if ty = [] then Inr VNil else read_related rt flds ty name)"
  using assms(2-5)
  by (simp add: eval_node_handler [of n eval_related_field] assms(1) dispatch eval_related_field_def
      eval_named_string_def eval_named_any_def)

text \<open>A value read through \<open>related_field\<close> is a field the model declares on the parent table of a link.\<close>

lemma related_field_declared:
  assumes "canon n = ''related_field''" "eval_node rt n = Inr v" "v \<noteq> VNil"
  shows "\<exists>m ty table name. rt_model rt = Some m \<and> ty \<in> parent_tables m \<and>
    map_of (tm_tables m) ty = Some table \<and> map_of (tt_fields table) name \<noteq> None"
proof -
  have "eval_related_field rt (eval_node rt) n = Inr v"
    using assms(2) by (simp add: eval_node_handler [of n eval_related_field] assms(1) dispatch)
  then obtain path name flds ty where t: "traverse_related_path rt path = Inr (Some (flds, ty))"
    and r: "read_related rt flds ty name = Inr v"
    using assms(3) by (auto simp: eval_related_field_def result_simps option_value_Inr split: if_splits)
  obtain m rd where m: "rt_model rt = Some m"
    and f: "follow_path m rd (rt_tenant rt) (rt_object_type rt) (rt_fields rt)
        (split_on (CHR ''.'') path) = Inr (Some (flds, ty))"
    using t by (auto simp: traverse_related_path_def result_simps)
  have "ty \<in> parent_tables m" by (rule follow_path_type [OF f split_on_nonempty])
  then show ?thesis using r m by (auto simp: read_related_def split: option.splits if_splits)
qed

lemma database_access_node:
  assumes "canon n = ''database_access''" "map_of (nd_named n) ''tableName'' = Some t"
    "map_of (nd_named n) ''fieldName'' = Some f" "map_of (nd_named n) ''path'' = Some p"
    "eval_node rt t = Inr (VStr table)" "eval_node rt f = Inr (VStr name)"
    "eval_node rt p = Inr (VList (map VStr path))" "table = [] \<or> table = rt_object_type rt"
  shows "eval_node rt n = bind_r (traverse_segments rt path) (\<lambda>r. case r of
      None \<Rightarrow> read_related rt (rt_fields rt) (rt_object_type rt) name
    | Some (flds, ty) \<Rightarrow>
        if ty = [] then read_related rt (rt_fields rt) (rt_object_type rt) name
        else read_related rt flds ty name)"
proof -
  have s: "eval_named_string_list (eval_node rt) n ''path'' = Inr path"
    using assms(4,7) by (simp add: eval_named_string_list_def eval_named_any_def result_simps
        list_all2_map1 as_string_def list.rel_refl)
  show ?thesis
    using assms(2,3,5,6,8)
    by (auto simp: eval_node_handler [of n eval_database_access] assms(1) dispatch eval_database_access_def s
      eval_named_string_def eval_named_any_def)
qed

text \<open>When the linked record is missing, \<open>related_field\<close> is null and \<open>database_access\<close> gives the field of the
  trigger object that has the same name.\<close>

lemma missing_record_reads_trigger:
  assumes "canon n = ''database_access''" "map_of (nd_named n) ''tableName'' = Some t"
    "map_of (nd_named n) ''fieldName'' = Some f" "map_of (nd_named n) ''path'' = Some p"
    "eval_node rt t = Inr (VStr (rt_object_type rt))" "eval_node rt f = Inr (VStr name)"
    "eval_node rt p = Inr (VList (map VStr path))" "path \<noteq> []"
    and m: "canon m = ''related_field''" "map_of (nd_named m) ''path'' = Some p'"
    "map_of (nd_named m) ''field'' = Some f'" "eval_node rt p' = Inr (VStr (join_with ''.'' path))"
    "eval_node rt f' = Inr (VStr name)"
    and none: "traverse_related_path rt (join_with ''.'' path) = Inr None"
  shows "eval_node rt m = Inr VNil \<and>
    eval_node rt n = read_related rt (rt_fields rt) (rt_object_type rt) name"
  using related_field_node [OF m] database_access_node [OF assms(1-7)] none assms(8)
  by (simp add: traverse_segments_def)

subsection \<open>Aggregates\<close>

text \<open>An aggregator gives the answer of the data service to the compiled query, and only for an
  aggregate that may be pushed down, with a filter in normal form.\<close>

lemma aggregator_answer:
  assumes "canon n = ''aggregator''" "eval_node rt n = Inr v"
  shows "\<exists>rd q. rt_reader rt = Some rd \<and> pushdown_enabled rt \<and>
    compile_aggregate_query (eval_node rt) n = Inr (Inr q) \<and> aq_aggregate q \<in> set pushdown_aggregates \<and>
    pushdown_supports rt (aq_aggregate q) \<and> rd_aggregate rd (rt_tenant rt) q = Inr v \<and>
    (\<forall>e. aq_filter q = Some e \<longrightarrow> normalize_filter e = e)"
proof -
  have "eval_aggregator rt (eval_node rt) n = Inr v"
    using assms(2) by (simp add: eval_node_handler [of n eval_aggregator] assms(1) dispatch)
  then obtain rd q where h: "rt_reader rt = Some rd" "pushdown_enabled rt"
    "compile_aggregate_query (eval_node rt) n = Inr (Inr q)" "pushdown_supports rt (aq_aggregate q)"
    "rd_aggregate rd (rt_tenant rt) q = Inr v"
    by (auto simp: eval_aggregator_def result_simps split: if_splits)
  have "aq_aggregate q \<in> set pushdown_aggregates \<and> (\<forall>e. aq_filter q = Some e \<longrightarrow> normalize_filter e = e)"
    using h(3) by (auto simp: compile_aggregate_query_def compile_filter_def Let_def result_simps
        option_value_Inr to_port_filter_eq normalize_filter_idem split: if_splits)
  then show ?thesis using h by blast
qed

subsection \<open>Names and aliases\<close>

definition const_node :: "gval \<Rightarrow> node" where
  "const_node v = Node [] v [] []"

lemma eval_const_node [simp]: "eval_node rt (const_node v) = Inr v"
  by (simp add: const_node_def eval_node_const is_constant_fn_def)

lemma starts_with_node:
  "canonical_function_name fn = ''starts_with'' \<Longrightarrow>
     eval_node rt (Node fn c [const_node (VStr l), const_node (VStr r)] nm) =
     Inr (VBool (if to_lower fn = ''starts_with'' then has_prefix l r else has_suffix l r))"
  by (simp add: eval_node_handler [of _ eval_affix] canon_def dispatch eval_affix_def two_children_def)

text \<open>The catalogue's name \<open>StringStartsWith\<close> reaches the right case, which then tests the suffix.\<close>

lemma string_starts_with_tests_suffix:
  "eval_node rt (Node ''StringStartsWith'' c [const_node (VStr l), const_node (VStr r)] nm) =
     Inr (VBool (has_suffix l r))"
proof -
  have "to_lower ''StringStartsWith'' \<noteq> ''starts_with''" by code_simp
  then show ?thesis by (simp add: starts_with_node)
qed

text \<open>The arithmetic signs reach the arithmetic case, which does not know them: no operands give a value.\<close>

lemma arithmetic_sign_fails:
  assumes "op \<in> {''+'', ''-'', ''*'', ''/''}"
  shows "eval_node rt (Node op c cs nm) \<noteq> Inr v"
proof -
  have l: "to_lower op = op" using assms by (auto simp: to_lower_def lower_char_def)
  have "arithmetic_value op u w \<noteq> Inr x" for u w x
    using assms by (auto simp: arithmetic_value_def split: option.splits)
  moreover have "canonical_function_name op \<in> {''add'', ''subtract'', ''multiply'', ''divide''}"
    using assms by auto
  then have "map_of eval_cases (canon (Node op c cs nm)) = Some eval_arithmetic"
    by (auto simp: canon_def dispatch)
  ultimately show ?thesis
    using l by (auto simp: eval_node_handler eval_arithmetic_def result_simps)
qed

subsection \<open>Properties\<close>

text \<open>An environment without services, for evaluating closed formulas.\<close>

definition blank_runtime :: runtime where
  "blank_runtime = \<lparr>rt_tenant = ''t'', rt_object_id = ''o'', rt_object_type = ''transactions'',
     rt_fields = [(''amount'', VInt64 250), (''country'', VStr ''GH'')], rt_now = None, rt_wall_clock = 0,
     rt_model = None, rt_reader = None, rt_custom_lists = None, rt_tags = None, rt_risk = None,
     rt_ip_flags = None, rt_parse_addr = (\<lambda>s. Inl s), rt_geoip = None, rt_decisions = None,
     rt_pushdown_mode = [], rt_pushdown_aggregates = []\<rparr>"

lemma and_verdict:
  assumes "canon n = ''and''"
  shows "(eval_node rt n = Inr (VBool True) \<longleftrightarrow>
      (\<forall>c \<in> set (nd_children n). eval_node rt c = Inr (VBool True))) \<and>
    (eval_node rt n = Inr (VBool False) \<longleftrightarrow>
      (\<exists>i < length (nd_children n). eval_node rt (nd_children n ! i) = Inr (VBool False) \<and>
        (\<forall>j < i. eval_node rt (nd_children n ! j) = Inr (VBool True))))"
  using and_node_verdict [OF assms] by blast

lemma canon_name [simp]: "canon (Node fn c cs nm) = canonical_function_name fn"
  by (simp add: canon_def)

lemma canonical_spaced: "canonical_function_name '' AND '' = ''and''"
  by code_simp

theorem and_verdict_witness:
  "eval_node blank_runtime (Node '' AND '' VNil [const_node (VBool True), const_node (VBool True)] []) =
     Inr (VBool True)"
  using and_verdict [of "Node '' AND '' VNil [const_node (VBool True), const_node (VBool True)] []"
      blank_runtime] canonical_spaced
  by simp

lemma de_morgan:
  "eval_node rt (not_node (Node ''and'' c cs nm)) = Inr v \<longleftrightarrow>
     eval_node rt (Node ''or'' c (map not_node cs) nm) = Inr v"
  by (rule de_morgan_and)

lemma coalesce_first:
  assumes "canon n = ''coalesce''"
  shows "eval_node rt n = Inr v \<longleftrightarrow> nd_children n \<noteq> [] \<and>
     ((\<exists>i < length (nd_children n). eval_node rt (nd_children n ! i) = Inr v \<and> v \<noteq> VNil \<and>
        (\<forall>j < i. eval_node rt (nd_children n ! j) = Inr VNil)) \<or>
      (v = VNil \<and> (\<forall>c \<in> set (nd_children n). eval_node rt c = Inr VNil)))"
  using assms by (rule coalesce_first_value)

lemma canonical_more [simp]:
  "canonical_function_name ''coalesce'' = ''coalesce''" "canonical_function_name ''switch'' = ''switch''"
  "canonical_function_name ''score_computation'' = ''score_computation''"
  "canonical_function_name ''related_field'' = ''related_field''"
  "canonical_function_name ''database_access'' = ''database_access''"
  "canonical_function_name ''aggregator'' = ''aggregator''"
  "canonical_function_name ''gt'' = ''gt''"
  by code_simp+

theorem coalesce_first_witness:
  "eval_node blank_runtime (Node ''coalesce'' VNil [const_node VNil, const_node (VStr ''a'')] []) =
     Inr (VStr ''a'')"
proof -
  let ?n = "Node ''coalesce'' VNil [const_node VNil, const_node (VStr ''a'')] []"
  have "\<exists>i < length (nd_children ?n). eval_node blank_runtime (nd_children ?n ! i) = Inr (VStr ''a'') \<and>
      VStr ''a'' \<noteq> VNil \<and> (\<forall>j < i. eval_node blank_runtime (nd_children ?n ! j) = Inr VNil)"
    by (rule exI [of _ 1]) simp
  then show ?thesis using coalesce_first [of ?n blank_runtime "VStr ''a''"] by simp
qed

definition score_node :: "gval \<Rightarrow> bool \<Rightarrow> node" where
  "score_node m b = Node ''score_computation'' VNil [const_node (VBool b)] [(''modifier'', const_node m)]"

lemma eval_score_node:
  "eval_node rt (score_node (VInt i) b) = Inr (VScore (zero_score\<lparr>sr_triggered := b,
     sr_modifier := (if b then f64_to_int (f64_of_int i) else 0),
     sr_floor := (if b then f64_to_int f64_zero else 0)\<rparr>))"
  by (simp add: score_node_def eval_node_handler [of _ eval_score_computation] dispatch
      eval_score_computation_def eval_named_any_def score_floor_def eval_if_present_def score_of_def)

lemma switch_least:
  assumes "canon n = ''switch''" "map_of (nd_named n) ''field'' = Some f" "nd_children n \<noteq> []"
    and "nd_fn f \<noteq> [] \<or> nd_const f \<noteq> VNil" "eval_node rt f = Inr v" "v \<noteq> VNil"
    and "list_all2 (\<lambda>c s. eval_node rt c = Inr (VScore s)) (nd_children n) ss"
    and "i < length ss" "sr_triggered (ss ! i)" "\<forall>j < i. \<not> sr_triggered (ss ! j)"
  shows "eval_node rt n = Inr (VScore ((ss ! i)\<lparr>sr_fallback := False, sr_default := False,
    sr_branch := Some (int i)\<rparr>))"
  using assms by (intro switch_least_branch) auto

definition score_value :: "int \<Rightarrow> bool \<Rightarrow> score_result" where
  "score_value i b = zero_score\<lparr>sr_triggered := b,
     sr_modifier := (if b then f64_to_int (f64_of_int i) else 0),
     sr_floor := (if b then f64_to_int f64_zero else 0)\<rparr>"

theorem switch_least_witness:
  "eval_node blank_runtime (Node ''switch'' VNil
      [score_node (VInt 10) False, score_node (VInt 20) True, score_node (VInt 30) True]
      [(''field'', const_node (VStr ''x''))]) =
    Inr (VScore ((score_value 20 True)\<lparr>sr_fallback := False, sr_default := False, sr_branch := Some 1\<rparr>))"
proof -
  let ?n = "Node ''switch'' VNil
      [score_node (VInt 10) False, score_node (VInt 20) True, score_node (VInt 30) True]
      [(''field'', const_node (VStr ''x''))]"
  let ?ss = "[score_value 10 False, score_value 20 True, score_value 30 True]"
  have "list_all2 (\<lambda>c s. eval_node blank_runtime c = Inr (VScore s)) (nd_children ?n) ?ss"
    by (simp add: eval_score_node score_value_def)
  then show ?thesis
    using switch_least [of ?n "const_node (VStr ''x'')" blank_runtime "VStr ''x''" ?ss 1]
    by (simp add: const_node_def score_value_def zero_score_def eval_node_const is_constant_fn_def)
qed

lemma score_carries_nothing:
  assumes "canon n = ''score_computation''" "eval_node rt n = Inr (VScore s)"
  shows "sr_branch s = None \<and> (\<not> sr_triggered s \<longrightarrow> s = zero_score)"
  using assms by (rule score_untriggered_zero)

theorem score_carries_nothing_witness:
  "eval_node blank_runtime (score_node (VInt 40) False) = Inr (VScore zero_score)"
proof -
  have e: "eval_node blank_runtime (score_node (VInt 40) False) = Inr (VScore (score_value 40 False))"
    by (simp add: eval_score_node score_value_def)
  have "canon (score_node (VInt 40) False) = ''score_computation''" by (simp add: score_node_def)
  from score_carries_nothing [OF this e] have "score_value 40 False = zero_score"
    by (simp add: score_value_def zero_score_def)
  then show ?thesis using e by simp
qed



text \<open>A small tenant: transactions link to accounts by \<open>account_id\<close>.\<close>

definition demo_field :: "string \<Rightarrow> string \<Rightarrow> string \<times> tm_field" where
  "demo_field name ty = (name, \<lparr>tf_name = name, tf_type = ty, tf_nullable = True, tf_archived = False,
     tf_is_enum = False, tf_enum_values = []\<rparr>)"

definition demo_model :: tenant_model where
  "demo_model = \<lparr>tm_revision = ''r1'', tm_lookup_field = ''object_id'', tm_system_fields = [],
     tm_tables =
      [(''transactions'', \<lparr>tt_id = ''1'', tt_name = ''transactions'', tt_archived = False,
          tt_fields = [demo_field ''amount'' ''int'', demo_field ''status'' ''string''],
          tt_links = [(''account'', \<lparr>tl_name = ''account'', tl_parent_table = ''accounts'',
             tl_parent_field = ''object_id'', tl_child_table = ''transactions'',
             tl_child_field = ''account_id''\<rparr>)]\<rparr>),
       (''accounts'', \<lparr>tt_id = ''2'', tt_name = ''accounts'', tt_archived = False,
          tt_fields = [demo_field ''status'' ''string''], tt_links = []\<rparr>)]\<rparr>"

definition demo_reader :: tenant_reader where
  "demo_reader = \<lparr>rd_query = (\<lambda>t table field key.
       Inr (if table = ''accounts'' \<and> key = ''a1'' then [[(''status'', VStr ''frozen'')]] else [])),
     rd_aggregate = (\<lambda>t q. Inr (VFloat (FRat 7)))\<rparr>"

definition demo_runtime :: "string \<Rightarrow> runtime" where
  "demo_runtime account = blank_runtime\<lparr>rt_model := Some demo_model, rt_reader := Some demo_reader,
     rt_fields := [(''amount'', VInt64 250), (''status'', VStr ''open''), (''account_id'', VStr account)]\<rparr>"

definition text_node :: "string \<Rightarrow> node" where
  "text_node s = const_node (VStr s)"

definition demo_related :: node where
  "demo_related = Node ''related_field'' VNil []
     [(''path'', text_node ''account''), (''field'', text_node ''status'')]"

definition demo_access :: node where
  "demo_access = Node ''DatabaseAccess'' VNil []
     [(''tableName'', text_node ''transactions''), (''fieldName'', text_node ''status''),
      (''path'', const_node (VList [VStr ''account'']))]"

definition demo_aggregate :: node where
  "demo_aggregate = Node ''Aggregator'' VNil []
     [(''tableName'', text_node ''transactions''), (''fieldName'', text_node ''amount''),
      (''aggregator'', text_node ''SUM''),
      (''filters'', Node ''List'' VNil [Node ''Filter'' VNil [] [(''tableName'', text_node ''transactions''),
         (''fieldName'', text_node ''status''), (''operator'', text_node ''=''), (''value'', text_node ''open'')]] [])]"

lemma demo_values:
  "eval_node (demo_runtime ''a1'') demo_related = Inr (VStr ''frozen'')"
  "eval_node (demo_runtime ''a1'') demo_access = Inr (VStr ''frozen'')"
  "eval_node (demo_runtime ''a2'') demo_related = Inr VNil"
  "eval_node (demo_runtime ''a2'') demo_access = Inr (VStr ''open'')"
  "eval_node (demo_runtime ''a1'') demo_aggregate = Inr (VFloat (FRat 7))"
  by code_simp+



lemma missing_record_divergence:
  assumes "canon n = ''database_access''" "map_of (nd_named n) ''tableName'' = Some t"
    "map_of (nd_named n) ''fieldName'' = Some f" "map_of (nd_named n) ''path'' = Some p"
    "eval_node rt t = Inr (VStr (rt_object_type rt))" "eval_node rt f = Inr (VStr name)"
    "eval_node rt p = Inr (VList (map VStr path))" "path \<noteq> []"
    and "canon m = ''related_field''" "map_of (nd_named m) ''path'' = Some p'"
    "map_of (nd_named m) ''field'' = Some f'" "eval_node rt p' = Inr (VStr (join_with ''.'' path))"
    "eval_node rt f' = Inr (VStr name)"
    and "traverse_related_path rt (join_with ''.'' path) = Inr None"
  shows "eval_node rt m = Inr VNil \<and>
    eval_node rt n = read_related rt (rt_fields rt) (rt_object_type rt) name"
  by (rule missing_record_reads_trigger [OF assms(1-13) assms(14)])

theorem missing_record_divergence_witness:
  "eval_node (demo_runtime ''a2'') demo_access =
     read_related (demo_runtime ''a2'') (rt_fields (demo_runtime ''a2'')) ''transactions'' ''status''"
proof -
  have none: "traverse_related_path (demo_runtime ''a2'') (join_with ''.'' [''account'']) = Inr None"
    by code_simp
  have c: "canonical_function_name ''DatabaseAccess'' = ''database_access''" by code_simp
  have ty: "rt_object_type (demo_runtime ''a2'') = ''transactions''"
    by (simp add: demo_runtime_def blank_runtime_def)
  show ?thesis
    using missing_record_divergence [of demo_access "text_node ''transactions''" "text_node ''status''"
        "const_node (VList [VStr ''account''])" "demo_runtime ''a2''" "''status''" "[''account'']"
        demo_related "text_node ''account''" "text_node ''status''"] none c ty
    by (simp add: demo_access_def demo_related_def text_node_def)
qed

text \<open>C4. An aggregator gives a value only as the answer of the data service to the query
  its node compiles to, with pushdown enabled, for a supported aggregate that the allow-list
  admits, and with a filter in normal form.\<close>

theorem aggregator_pushed_down:
  assumes "canon n = ''aggregator''" "eval_node rt n = Inr v"
  shows "\<exists>rd q. rt_reader rt = Some rd \<and> pushdown_enabled rt \<and>
    compile_aggregate_query (eval_node rt) n = Inr (Inr q) \<and> aq_aggregate q \<in> set pushdown_aggregates \<and>
    pushdown_supports rt (aq_aggregate q) \<and> rd_aggregate rd (rt_tenant rt) q = Inr v \<and>
    (\<forall>e. aq_filter q = Some e \<longrightarrow> normalize_filter e = e)"
  using assms by (rule aggregator_answer)

theorem aggregator_pushed_down_witness: "pushdown_enabled (demo_runtime ''a1'')"
proof -
  have "canonical_function_name ''Aggregator'' = ''aggregator''" by code_simp
  then have "canon demo_aggregate = ''aggregator''" by (simp add: demo_aggregate_def)
  from aggregator_pushed_down [OF this demo_values(5)] show ?thesis by blast
qed

lemma starts_with_alias_tests_suffix:
  "eval_node rt (Node ''StringStartsWith'' c [const_node (VStr l), const_node (VStr r)] nm) =
     Inr (VBool (has_suffix l r))"
  by (rule string_starts_with_tests_suffix)

lemma arithmetic_signs_fail:
  "eval_node rt (Node ''+'' c cs nm) \<noteq> Inr v \<and> eval_node rt (Node ''-'' c cs nm) \<noteq> Inr v \<and>
   eval_node rt (Node ''*'' c cs nm) \<noteq> Inr v \<and> eval_node rt (Node ''/'' c cs nm) \<noteq> Inr v"
  by (simp add: arithmetic_sign_fails)

end
