(* ===== verification/Ast_Evidence.thy ===== *)
theory Ast_Evidence
  imports Eval_Laws
begin

text \<open>
  Evaluation with evidence (\<^verbatim>\<open>ast_eval/evidence.go\<close>): the tree of values the decision keeps for
  investigators, with the children a logical function did not read marked as skipped. The recorded
  value of the root is shown to be the value the plain evaluator gives, and the tree to mirror the
  formula.
\<close>

text \<open>\<^verbatim>\<open>EvaluationNode\<close>\<close>

datatype evidence =
  Evidence (en_fn: string) (en_const: gval) (en_value: gval) (en_children: "evidence list")
    (en_named: "(string \<times> evidence) list") (en_skipped: bool)

text \<open>\<^verbatim>\<open>skippedEvaluation\<close>\<close>

fun skipped_evaluation :: "node \<Rightarrow> evidence" where
  "skipped_evaluation (Node fn c cs nm) =
     Evidence fn c VNil (map skipped_evaluation cs) (map (\<lambda>(k, d). (k, skipped_evaluation d)) nm) True"

type_synonym ev_evidence = "node \<Rightarrow> evidence res"

text \<open>The loops of the cases \<^verbatim>\<open>and\<close>, \<^verbatim>\<open>or\<close> and \<^verbatim>\<open>coalesce\<close>.\<close>

fun evidence_bool_loop :: "string \<Rightarrow> bool \<Rightarrow> ev_evidence \<Rightarrow> node list \<Rightarrow> (evidence list \<times> bool) res" where
  "evidence_bool_loop l stop f [] = Inr ([], \<not> stop)"
| "evidence_bool_loop l stop f (c # cs) = bind_r (f c) (\<lambda>e. case en_value e of
       VBool b \<Rightarrow> if b = stop then Inr (e # map skipped_evaluation cs, stop)
         else bind_r (evidence_bool_loop l stop f cs) (\<lambda>(es, r). Inr (e # es, r))
     | _ \<Rightarrow> Inl (l @ '' expects boolean children''))"

fun evidence_coalesce_loop :: "ev_evidence \<Rightarrow> node list \<Rightarrow> (evidence list \<times> gval) res" where
  "evidence_coalesce_loop f [] = Inr ([], VNil)"
| "evidence_coalesce_loop f (c # cs) = bind_r (f c) (\<lambda>e.
       if en_value e \<noteq> VNil then Inr (e # map skipped_evaluation cs, en_value e)
       else bind_r (evidence_coalesce_loop f cs) (\<lambda>(es, v). Inr (e # es, v)))"

text \<open>All children and named children, then the plain value of the node itself. Go visits the named
  children in no fixed order; the order can only change which error is reported.\<close>

definition evidence_named :: "ev_evidence \<Rightarrow> (string \<times> node) list \<Rightarrow> (string \<times> evidence) list res" where
  "evidence_named f nm = mapM_r (\<lambda>(k, c). bind_r (f c) (\<lambda>e. Inr (k, e))) nm"

definition evidence_general :: "runtime \<Rightarrow> ev_evidence \<Rightarrow> node \<Rightarrow> evidence res" where
  "evidence_general rt f n =
     bind_r (mapM_r f (nd_children n)) (\<lambda>es.
     bind_r (evidence_named f (nd_named n)) (\<lambda>ens.
     bind_r (eval_node rt n) (\<lambda>v. Inr (Evidence (nd_fn n) (nd_const n) v es ens False))))"

definition evidence_step :: "runtime \<Rightarrow> ev_evidence \<Rightarrow> node \<Rightarrow> evidence res" where
  "evidence_step rt f n =
     (if is_constant_fn (nd_fn n) then Inr (Evidence (nd_fn n) (nd_const n) (nd_const n) [] [] False)
      else if canon n = ''and'' then
        bind_r (evidence_bool_loop ''and'' False f (nd_children n)) (\<lambda>(es, b).
          Inr (Evidence (nd_fn n) (nd_const n) (VBool b) es [] False))
      else if canon n = ''or'' then
        bind_r (evidence_bool_loop ''or'' True f (nd_children n)) (\<lambda>(es, b).
          Inr (Evidence (nd_fn n) (nd_const n) (VBool b) es [] False))
      else if canon n = ''not'' then
        (case nd_children n of
           [c] \<Rightarrow> bind_r (f c) (\<lambda>e. case en_value e of
               VBool b \<Rightarrow> Inr (Evidence (nd_fn n) (nd_const n) (VBool (\<not> b)) [e] [] False)
             | _ \<Rightarrow> Inl ''not expects boolean child'')
         | _ \<Rightarrow> Inl ''not expects exactly one child'')
      else if canon n = ''coalesce'' then
        bind_r (evidence_coalesce_loop f (nd_children n)) (\<lambda>(es, v).
          Inr (Evidence (nd_fn n) (nd_const n) v es [] False))
      else evidence_general rt f n)"

lemma evidence_bool_loop_cong:
  "(\<And>c. c \<in> set cs \<Longrightarrow> f c = g c) \<Longrightarrow> evidence_bool_loop l s f cs = evidence_bool_loop l s g cs"
  by (induction cs) (auto intro!: bind_r_cong split: gval.splits)

lemma evidence_coalesce_loop_cong:
  "(\<And>c. c \<in> set cs \<Longrightarrow> f c = g c) \<Longrightarrow> evidence_coalesce_loop f cs = evidence_coalesce_loop g cs"
  by (induction cs) (auto intro!: bind_r_cong)

lemma named_member_size: "(k, c) \<in> set (nd_named n) \<Longrightarrow> size c < size n"
proof (cases n)
  case (Node fn c' cs nm)
  assume "(k, c) \<in> set (nd_named n)"
  then have "size_prod (\<lambda>_. 0) size (k, c) \<le> size_list (size_prod (\<lambda>_. 0) size) nm"
    using Node by (intro size_list_estimation' [OF _ order_refl]) simp
  then show ?thesis using Node by simp
qed

lemma evidence_step_cong [fundef_cong]:
  assumes "rt = rt'" "n = n'" and fg: "\<And>m. size m < size n' \<Longrightarrow> f m = g m"
  shows "evidence_step rt f n = evidence_step rt' g n'"
proof -
  have c: "f c = g c" if "c \<in> set (nd_children n')" for c using that child_size fg by blast
  have nm: "evidence_named f (nd_named n') = evidence_named g (nd_named n')"
    unfolding evidence_named_def using named_member_size fg by (intro mapM_r_cong) auto
  have m: "mapM_r f (nd_children n') = mapM_r g (nd_children n')" using c by (intro mapM_r_cong) auto
  have nt: "(case nd_children n' of [c] \<Rightarrow> bind_r (f c) k | _ \<Rightarrow> e) =
      (case nd_children n' of [c] \<Rightarrow> bind_r (g c) k | _ \<Rightarrow> e)" for k :: "evidence \<Rightarrow> evidence res" and e
    using c by (cases "nd_children n'") (auto split: list.splits)
  have b: "evidence_bool_loop l s f (nd_children n') = evidence_bool_loop l s g (nd_children n')" for l s
    by (rule evidence_bool_loop_cong) (rule c)
  have co: "evidence_coalesce_loop f (nd_children n') = evidence_coalesce_loop g (nd_children n')"
    by (rule evidence_coalesce_loop_cong) (rule c)
  show ?thesis
    unfolding assms(1,2) evidence_step_def evidence_general_def nt m nm b co ..
qed

text \<open>\<^verbatim>\<open>evaluateNodeWithEvidence\<close>\<close>

function evaluate_with_evidence :: "runtime \<Rightarrow> node \<Rightarrow> evidence res" where
  "evaluate_with_evidence rt n = evidence_step rt (evaluate_with_evidence rt) n"
  by pat_completeness auto
termination
  by (relation "measure (\<lambda>(rt, n). size n)") auto

declare evaluate_with_evidence.simps [simp del]

text \<open>\<^verbatim>\<open>EvaluateFormulaWithEvidence\<close> on a parsed formula.\<close>

definition evaluate_formula_with_evidence :: "runtime \<Rightarrow> node \<Rightarrow> (bool \<times> evidence) res" where
  "evaluate_formula_with_evidence rt n = bind_r (evaluate_with_evidence rt n) (\<lambda>e. case en_value e of
       VBool b \<Rightarrow> Inr (b, e) | _ \<Rightarrow> Inl ''formula did not evaluate to boolean'')"

subsection \<open>The recorded value is the value\<close>

text \<open>Every \<open>coalesce\<close> of the formula has a child.\<close>

fun coalesce_nonempty :: "node \<Rightarrow> bool" where
  "coalesce_nonempty (Node fn c cs nm) =
     ((canonical_function_name fn = ''coalesce'' \<longrightarrow> cs \<noteq> []) \<and> list_all coalesce_nonempty cs)"

lemma evidence_bool_loop_value:
  assumes "\<And>c e. c \<in> set cs \<Longrightarrow> f c = Inr e \<Longrightarrow> ev c = Inr (en_value e)"
    "evidence_bool_loop l s f cs = Inr (es, b)"
  shows "bool_loop l s ev cs = Inr (VBool b)"
  using assms
proof (induction cs arbitrary: es)
  case (Cons c cs)
  obtain e where e: "f c = Inr e" using Cons.prems(2) by (auto simp: result_simps)
  then have v: "ev c = Inr (en_value e)" using Cons.prems(1) by simp
  obtain x where x: "en_value e = VBool x" using Cons.prems(2) e by (cases "en_value e") auto
  show ?case
  proof (cases "x = s")
    case True
    then show ?thesis using Cons.prems(2) e v x by simp
  next
    case False
    then obtain es' where "evidence_bool_loop l s f cs = Inr (es', b)"
      using Cons.prems(2) e x by (auto simp: result_simps)
    then have "bool_loop l s ev cs = Inr (VBool b)" using Cons.IH Cons.prems(1) by simp
    then show ?thesis using False v x by simp
  qed
qed simp

lemma evidence_coalesce_loop_value:
  assumes "\<And>c e. c \<in> set cs \<Longrightarrow> f c = Inr e \<Longrightarrow> ev c = Inr (en_value e)"
    "evidence_coalesce_loop f cs = Inr (es, v)"
  shows "coalesce_loop ev cs = Inr v"
  using assms
proof (induction cs arbitrary: es)
  case (Cons c cs)
  obtain e where e: "f c = Inr e" using Cons.prems(2) by (auto simp: result_simps)
  then have u: "ev c = Inr (en_value e)" using Cons.prems(1) by simp
  show ?case
  proof (cases "en_value e = VNil")
    case True
    then obtain es' where "evidence_coalesce_loop f cs = Inr (es', v)"
      using Cons.prems(2) e by (auto simp: result_simps)
    then have "coalesce_loop ev cs = Inr v" using Cons.IH Cons.prems(1) by simp
    then show ?thesis using True u by simp
  qed (use Cons.prems(2) e u in auto)
qed simp

lemma evidence_agrees:
  assumes "evaluate_with_evidence rt n = Inr e" "coalesce_nonempty n"
  shows "eval_node rt n = Inr (en_value e)"
  using assms
proof (induction n arbitrary: e rule: measure_induct_rule [of size])
  case (less n)
  have sub: "coalesce_nonempty c" if "c \<in> set (nd_children n)" for c
    using less.prems(2) that by (cases n) (auto simp: list_all_iff)
  have child: "eval_node rt c = Inr (en_value e)"
    if "c \<in> set (nd_children n)" "evaluate_with_evidence rt c = Inr e" for c e
    using less.IH [OF child_size [OF that(1)] that(2) sub [OF that(1)]] .
  note bl = evidence_bool_loop_value [where f = "evaluate_with_evidence rt" and ev = "eval_node rt"
      and cs = "nd_children n", OF child]
  have step: "evidence_step rt (evaluate_with_evidence rt) n = Inr e"
    using less.prems(1) by (simp add: evaluate_with_evidence.simps [of rt n])
  consider (const) "is_constant_fn (nd_fn n)" | (fn_and) "canon n = ''and''" | (fn_or) "canon n = ''or''"
    | (fn_not) "canon n = ''not''" | (fn_coalesce) "canon n = ''coalesce''"
    | (other) "\<not> is_constant_fn (nd_fn n)" "canon n \<notin> {''and'', ''or'', ''not'', ''coalesce''}"
    by blast
  then show ?case
  proof cases
    case const
    then show ?thesis using step by (auto simp: evidence_step_def eval_node_const)
  next
    case fn_and
    then have "\<not> is_constant_fn (nd_fn n)" using canonical_constant [of "nd_fn n"] by (auto simp: canon_def)
    then obtain es b where "evidence_bool_loop ''and'' False (evaluate_with_evidence rt) (nd_children n) = Inr (es, b)"
      "en_value e = VBool b"
      using step fn_and by (auto simp: evidence_step_def result_simps)
    then show ?thesis using bl fn_and by (simp add: eval_node_handler dispatch eval_and_def)
  next
    case fn_or
    then have "\<not> is_constant_fn (nd_fn n)" using canonical_constant [of "nd_fn n"] by (auto simp: canon_def)
    then obtain es b where "evidence_bool_loop ''or'' True (evaluate_with_evidence rt) (nd_children n) = Inr (es, b)"
      "en_value e = VBool b"
      using step fn_or by (auto simp: evidence_step_def result_simps)
    then show ?thesis using bl fn_or by (simp add: eval_node_handler dispatch eval_or_def)
  next
    case fn_not
    then have "\<not> is_constant_fn (nd_fn n)" using canonical_constant [of "nd_fn n"] by (auto simp: canon_def)
    then obtain c e' b where "nd_children n = [c]" "evaluate_with_evidence rt c = Inr e'"
      "en_value e' = VBool b" "en_value e = VBool (\<not> b)"
      using step fn_not by (auto simp: evidence_step_def result_simps)
    then show ?thesis using child [of c e'] fn_not
      by (simp add: eval_node_handler dispatch eval_not_def one_child_def)
  next
    case fn_coalesce
    then have "\<not> is_constant_fn (nd_fn n)" using canonical_constant [of "nd_fn n"] by (auto simp: canon_def)
    then obtain es where "evidence_coalesce_loop (evaluate_with_evidence rt) (nd_children n) = Inr (es, en_value e)"
      using step fn_coalesce by (auto simp: evidence_step_def result_simps)
    then have "coalesce_loop (eval_node rt) (nd_children n) = Inr (en_value e)"
      using evidence_coalesce_loop_value [where f = "evaluate_with_evidence rt" and ev = "eval_node rt"
          and cs = "nd_children n", OF child] by blast
    moreover have "nd_children n \<noteq> []"
      using less.prems(2) fn_coalesce by (cases n) (auto simp: canon_def)
    ultimately show ?thesis using fn_coalesce by (simp add: eval_node_handler dispatch eval_coalesce_def)
  next
    case other
    then show ?thesis using step by (auto simp: evidence_step_def evidence_general_def result_simps)
  qed
qed

text \<open>Formulas agree as a whole.\<close>

lemma evidence_formula_agrees:
  assumes "evaluate_formula_with_evidence rt n = Inr (b, e)" "coalesce_nonempty n"
  shows "evaluate_formula rt n = Inr b"
proof -
  have "evaluate_with_evidence rt n = Inr e" "en_value e = VBool b"
    using assms(1) by (auto simp: evaluate_formula_with_evidence_def result_simps)
  then show ?thesis using evidence_agrees [OF _ assms(2)] by (simp add: evaluate_formula_def)
qed

subsection \<open>The shape of the evidence\<close>

text \<open>The tree repeats the functions, constants and children of the formula; constants are leaves
  unless they were skipped.\<close>

inductive mirrors :: "evidence \<Rightarrow> node \<Rightarrow> bool" where
  mirrors_leaf: "is_constant_fn fn \<Longrightarrow> mirrors (Evidence fn c v [] [] False) (Node fn c cs nm)"
| mirrors_node: "list_all2 mirrors es cs \<Longrightarrow> mirrors (Evidence fn c v es ens s) (Node fn c cs nm)"

lemma skipped_mirrors: "mirrors (skipped_evaluation n) n"
proof (induction n)
  case (Node fn c cs nm)
  have "list_all2 mirrors (map skipped_evaluation cs) cs"
    using Node(1) by (simp add: list.rel_map list.rel_refl_strong)
  then show ?case by (auto intro: mirrors_node)
qed

lemma skipped_all_mirrors: "list_all2 mirrors (map skipped_evaluation cs) cs"
  by (simp add: list.rel_map list.rel_refl_strong skipped_mirrors)

lemma evidence_bool_loop_mirrors:
  assumes "\<And>c e. c \<in> set cs \<Longrightarrow> f c = Inr e \<Longrightarrow> mirrors e c"
    "evidence_bool_loop l s f cs = Inr (es, b)"
  shows "list_all2 mirrors es cs"
  using assms
proof (induction cs arbitrary: es)
  case (Cons c cs)
  then show ?case using skipped_all_mirrors [of cs]
    by (auto simp: result_simps split: if_splits)
qed simp

lemma evidence_coalesce_loop_mirrors:
  assumes "\<And>c e. c \<in> set cs \<Longrightarrow> f c = Inr e \<Longrightarrow> mirrors e c"
    "evidence_coalesce_loop f cs = Inr (es, v)"
  shows "list_all2 mirrors es cs"
  using assms
proof (induction cs arbitrary: es)
  case (Cons c cs)
  then show ?case using skipped_all_mirrors [of cs]
    by (auto simp: result_simps split: if_splits)
qed simp

lemma evidence_mirrors:
  "evaluate_with_evidence rt n = Inr e \<Longrightarrow> mirrors e n"
proof (induction n arbitrary: e rule: measure_induct_rule [of size])
  case (less n)
  have child: "mirrors e c" if "c \<in> set (nd_children n)" "evaluate_with_evidence rt c = Inr e" for c e
    using less.IH [OF child_size [OF that(1)] that(2)] .
  have step: "evidence_step rt (evaluate_with_evidence rt) n = Inr e"
    using less.prems(1) by (simp add: evaluate_with_evidence.simps [of rt n])
  obtain fn c cs nm where n: "n = Node fn c cs nm" by (cases n)
  have all: "list_all2 mirrors es cs" if "mapM_r (evaluate_with_evidence rt) cs = Inr es" for es
  proof -
    have "list_all2 (\<lambda>x y. evaluate_with_evidence rt x = Inr y) cs es" using that by (simp add: result_simps)
    then have "list_all2 (\<lambda>x y. mirrors y x) cs es"
      using child n by (auto elim!: list.rel_mono_strong)
    then show ?thesis by (simp add: list_all2_conv_all_nth)
  qed
  note loops = evidence_bool_loop_mirrors [where f = "evaluate_with_evidence rt" and cs = cs]
    evidence_coalesce_loop_mirrors [where f = "evaluate_with_evidence rt" and cs = cs]
  show ?case
    using step child all loops n
    by (auto simp: evidence_step_def evidence_general_def result_simps intro: mirrors_leaf mirrors_node
        split: if_splits)
qed

subsection \<open>Properties\<close>



lemma evidence_shape:
  assumes "evaluate_with_evidence rt n = Inr e"
  shows "mirrors e n"
  using assms by (rule evidence_mirrors)

theorem evidence_shape_witness:
  "mirrors (Evidence ''or'' VNil (VBool True) [Evidence [] (VBool True) (VBool True) [] [] False,
      Evidence ''not'' VNil VNil [Evidence [] VNil VNil [] [] True] [] True] [] False)
    (Node ''or'' VNil [const_node (VBool True), not_node (const_node VNil)] [])"
proof -
  have e: "evaluate_with_evidence blank_runtime
      (Node ''or'' VNil [const_node (VBool True), not_node (const_node VNil)] []) =
    Inr (Evidence ''or'' VNil (VBool True) [Evidence [] (VBool True) (VBool True) [] [] False,
      Evidence ''not'' VNil VNil [Evidence [] VNil VNil [] [] True] [] True] [] False)"
    by code_simp
  show ?thesis by (rule evidence_shape [OF e])
qed

theorem empty_coalesce_diverges:
  "evaluate_with_evidence rt (Node ''coalesce'' c [] nm) = Inr (Evidence ''coalesce'' c VNil [] [] False) \<and>
     eval_node rt (Node ''coalesce'' c [] nm) = Inl ''coalesce expects at least one child''"
proof -
  have "\<not> is_constant_fn ''coalesce''" by code_simp
  then show ?thesis
    by (simp add: evaluate_with_evidence.simps evidence_step_def eval_node_handler dispatch eval_coalesce_def)
qed

end
