(* ===== verification/Eval_Caches.thy ===== *)
theory Eval_Caches
  imports Eval_Laws
begin

text \<open>
  The caches of one evaluation: \<^verbatim>\<open>EvaluationCache\<close> (\<^verbatim>\<open>ast_eval/evaluation_cache.go\<close>),
  \<^verbatim>\<open>AggregateResultCache\<close> (\<^verbatim>\<open>aggregate_result_cache.go\<close>) and \<^verbatim>\<open>RelatedPathCache\<close> (\<^verbatim>\<open>runtime.go\<close>). They share
  one contract, the locale \<open>memo\<close>: a request whose key is known is answered from the map, any other is
  computed, and only answers without error are stored. The keys are JSON texts in the code and the
  marshalled payload here, absent when the payload cannot be marshalled; that the text determines
  the payload is the encoder's part.
\<close>

subsection \<open>The contract\<close>

text \<open>The body of \<^verbatim>\<open>evaluate\<close> in both caches: lookup, compute, store.\<close>

definition cache_evaluate ::
  "'k option \<Rightarrow> 'e + 'v \<Rightarrow> ('k \<times> 'v) list \<Rightarrow> ('e + 'v) \<times> ('k \<times> 'v) list" where
  "cache_evaluate key compute cache = (case key of
       None \<Rightarrow> (compute, cache)
     | Some k \<Rightarrow> (case map_of cache k of
         Some v \<Rightarrow> (Inr v, cache)
       | None \<Rightarrow> (case compute of Inl e \<Rightarrow> (Inl e, cache) | Inr v \<Rightarrow> (Inr v, (k, v) # cache))))"

text \<open>Requests one after the other.\<close>

fun cache_run :: "('q \<Rightarrow> 'k option) \<Rightarrow> ('q \<Rightarrow> 'e + 'v) \<Rightarrow> 'q list \<Rightarrow> ('k \<times> 'v) list \<Rightarrow>
    ('e + 'v) list \<times> ('k \<times> 'v) list" where
  "cache_run key answer [] cache = ([], cache)"
| "cache_run key answer (q # qs) cache =
     (let (r, cache1) = cache_evaluate (key q) (answer q) cache;
          (rs, cache2) = cache_run key answer qs cache1
      in (r # rs, cache2))"

text \<open>How often the computation behind the cache runs for a request.\<close>

definition cache_computes :: "'k option \<Rightarrow> ('k \<times> 'v) list \<Rightarrow> nat" where
  "cache_computes key cache = (case key of None \<Rightarrow> 1
     | Some k \<Rightarrow> (case map_of cache k of None \<Rightarrow> 1 | Some _ \<Rightarrow> 0))"

locale memo =
  fixes key :: "'q \<Rightarrow> 'k option" and answer :: "'q \<Rightarrow> 'e + 'v"
  assumes faithful: "key q = Some k \<Longrightarrow> key q' = Some k \<Longrightarrow> answer q = answer q'"
begin

definition valid :: "('k \<times> 'v) list \<Rightarrow> bool" where
  "valid cache = (\<forall>q k v. key q = Some k \<longrightarrow> map_of cache k = Some v \<longrightarrow> answer q = Inr v)"

lemma valid_empty: "valid []"
  by (simp add: valid_def)

lemma evaluate_answer: "valid cache \<Longrightarrow> fst (cache_evaluate (key q) (answer q) cache) = answer q"
  by (auto simp: cache_evaluate_def valid_def split: option.splits sum.splits)

lemma evaluate_valid: "valid cache \<Longrightarrow> valid (snd (cache_evaluate (key q) (answer q) cache))"
proof (cases "\<exists>k a. key q = Some k \<and> map_of cache k = None \<and> answer q = Inr a")
  case True
  assume v: "valid cache"
  obtain k a where k: "key q = Some k" "map_of cache k = None" "answer q = Inr a" using True by blast
  have "answer q' = Inr a" if "key q' = Some k" for q'
    using faithful [OF k(1) that] k(3) by simp
  then show ?thesis using v k by (auto simp: cache_evaluate_def valid_def)
next
  case False
  then show "valid cache \<Longrightarrow> valid (snd (cache_evaluate (key q) (answer q) cache))"
    by (auto simp: cache_evaluate_def split: option.split sum.split)
qed

lemma run_answers: "valid cache \<Longrightarrow> fst (cache_run key answer qs cache) = map answer qs"
proof (induction qs arbitrary: cache)
  case (Cons q qs)
  then have "fst (cache_run key answer qs (snd (cache_evaluate (key q) (answer q) cache))) = map answer qs"
    using evaluate_valid by blast
  then show ?case
    using evaluate_answer [OF Cons.prems, of q] by (simp add: Let_def case_prod_beta)
qed simp

lemma run_valid: "valid cache \<Longrightarrow> valid (snd (cache_run key answer qs cache))"
proof (induction qs arbitrary: cache)
  case (Cons q qs)
  then have "valid (snd (cache_run key answer qs (snd (cache_evaluate (key q) (answer q) cache))))"
    using evaluate_valid by blast
  then show ?case by (simp add: Let_def case_prod_beta)
qed simp

text \<open>An answered request is not computed again.\<close>

lemma evaluate_once:
  "key q = Some k \<Longrightarrow> answer q = Inr v \<Longrightarrow>
     cache_computes (key q) (snd (cache_evaluate (key q) (answer q) cache)) = 0"
  by (auto simp: cache_evaluate_def cache_computes_def split: option.splits)

end

subsection \<open>Aggregate results\<close>

text \<open>A value that \<^verbatim>\<open>json.Marshal\<close> accepts has no NaN and no infinity in it.\<close>

fun json_ok :: "gval \<Rightarrow> bool" where
  "json_ok (VFloat x) = (f64_rat x \<noteq> None)"
| "json_ok (VFloat32 x) = (f64_rat x \<noteq> None)"
| "json_ok (VList xs) = list_all json_ok xs"
| "json_ok (VObj m) = list_all (\<lambda>(k, v). json_ok v) m"
| "json_ok (VFilter t f op v) = json_ok v"
| "json_ok _ = True"

fun filter_json_ok :: "agg_filter \<Rightarrow> bool" where
  "filter_json_ok (AggFilter k opr cs f p v) = (json_ok v \<and> list_all filter_json_ok cs)"

text \<open>\<^verbatim>\<open>aggregateResultCacheKey\<close>\<close>

definition aggregate_cache_key :: "string \<Rightarrow> agg_query \<Rightarrow> (string \<times> agg_query) option" where
  "aggregate_cache_key tenant q =
     (if (case aq_filter q of None \<Rightarrow> True | Some e \<Rightarrow> filter_json_ok e) then Some (tenant, q) else None)"

interpretation aggregate_cache: memo "aggregate_cache_key tenant" "rd_aggregate rd tenant" for tenant rd
  by unfold_locales (auto simp: aggregate_cache_key_def split: if_splits)

subsection \<open>Related records\<close>

text \<open>The key of \<^verbatim>\<open>RelatedPathCache\<close> in \<^verbatim>\<open>TraverseRelatedPath\<close>.\<close>

definition related_cache_key :: "runtime \<Rightarrow> string \<Rightarrow> string option" where
  "related_cache_key rt path = Some (rt_object_type rt @ ''|'' @ trim_space path)"

text \<open>Paths that differ in surrounding space have the same segments once each is trimmed.\<close>

lemma trim_space_front: "is_space c \<Longrightarrow> trim_space (c # s) = trim_space s"
  by (simp add: trim_space_def)

lemma trim_space_back: "is_space c \<Longrightarrow> trim_space (s @ [c]) = trim_space s"
proof (cases "dropWhile is_space s = []")
  case True
  then have "\<forall>x \<in> set s. is_space x" by (simp add: dropWhile_eq_Nil_conv)
  moreover assume "is_space c"
  ultimately show ?thesis by (simp add: trim_space_def dropWhile_append True)
next
  case False
  then have "\<not> (\<forall>x \<in> set s. is_space x)" by (simp add: dropWhile_eq_Nil_conv)
  then show "is_space c \<Longrightarrow> trim_space (s @ [c]) = trim_space s"
    by (auto simp: trim_space_def dropWhile_append)
qed

lemma split_on_front:
  "is_space c \<Longrightarrow> c \<noteq> sep \<Longrightarrow> map trim_space (split_on sep (c # s)) = map trim_space (split_on sep s)"
  by (cases "split_on sep s") (auto simp: trim_space_front)

lemma split_on_back_char:
  "c \<noteq> sep \<Longrightarrow> split_on sep (s @ [c]) = butlast (split_on sep s) @ [last (split_on sep s) @ [c]]"
proof (induction s)
  case (Cons d s)
  obtain w ws where sp: "split_on sep s = w # ws" by (metis list.exhaust split_on_nonempty)
  show ?case using Cons sp by (cases ws) auto
qed simp

lemma split_on_back:
  assumes "is_space c" "c \<noteq> sep"
  shows "map trim_space (split_on sep (s @ [c])) = map trim_space (split_on sep s)"
proof -
  have "map trim_space (split_on sep s) =
      map trim_space (butlast (split_on sep s)) @ [trim_space (last (split_on sep s))]"
    by (metis append_butlast_last_id list.simps(8,9) map_append split_on_nonempty)
  then show ?thesis using assms by (simp add: split_on_back_char trim_space_back)
qed

lemma split_on_fronts:
  "\<not> is_space sep \<Longrightarrow> list_all is_space p \<Longrightarrow>
     map trim_space (split_on sep (p @ s)) = map trim_space (split_on sep s)"
proof (induction p)
  case (Cons c p)
  then have "c \<noteq> sep" by auto
  then show ?case using Cons split_on_front [of c sep "p @ s"] by simp
qed simp

lemma split_on_backs:
  "\<not> is_space sep \<Longrightarrow> list_all is_space p \<Longrightarrow>
     map trim_space (split_on sep (s @ p)) = map trim_space (split_on sep s)"
proof (induction p rule: rev_induct)
  case (snoc c p)
  then have "c \<noteq> sep" by auto
  then show ?case using snoc split_on_back [of c sep "s @ p"] by simp
qed simp

lemma split_on_trim:
  assumes "\<not> is_space sep"
  shows "map trim_space (split_on sep (trim_space s)) = map trim_space (split_on sep s)"
proof -
  define d where "d = dropWhile is_space s"
  define e where "e = rev (dropWhile is_space (rev d))"
  have s: "s = takeWhile is_space s @ d" by (simp add: d_def)
  have "rev d = takeWhile is_space (rev d) @ rev e" by (simp add: e_def)
  then have d: "d = e @ rev (takeWhile is_space (rev d))" by (metis rev_append rev_rev_ident)
  have sp: "list_all is_space (takeWhile is_space s)" "list_all is_space (rev (takeWhile is_space (rev d)))"
    by (auto simp: list_all_iff dest: set_takeWhileD)
  have "map trim_space (split_on sep s) = map trim_space (split_on sep d)"
    by (subst s) (rule split_on_fronts [OF assms sp(1)])
  also have "\<dots> = map trim_space (split_on sep e)"
    by (subst d) (rule split_on_backs [OF assms sp(2)])
  finally show ?thesis by (simp add: trim_space_def d_def e_def)
qed

lemma follow_path_trim:
  "map trim_space p = map trim_space q \<Longrightarrow> follow_path m rd t ty fs p = follow_path m rd t ty fs q"
proof (induction p arbitrary: q ty fs)
  case (Cons s p)
  then obtain s' q' where q: "q = s' # q'" "trim_space s = trim_space s'" "map trim_space p = map trim_space q'"
    by (cases q) auto
  have "follow_link m rd t ty fs s = follow_link m rd t ty fs s'" by (simp add: follow_link_def q(2))
  then show ?case using Cons.IH [OF q(3)] by (simp add: q(1))
qed simp

lemma traverse_trim:
  "trim_space p = trim_space q \<Longrightarrow> traverse_related_path rt p = traverse_related_path rt q"
proof -
  assume t: "trim_space p = trim_space q"
  have "\<not> is_space (CHR ''.'')" by code_simp
  then have "map trim_space (split_on (CHR ''.'') p) = map trim_space (split_on (CHR ''.'') q)"
    using split_on_trim t by metis
  then show ?thesis
    by (auto simp: traverse_related_path_def split: option.splits intro!: follow_path_trim)
qed

interpretation related_cache: memo "related_cache_key rt" "traverse_related_path rt" for rt
  by unfold_locales (auto simp: related_cache_key_def intro: traverse_trim)

subsection \<open>Node values\<close>

fun node_json_ok :: "node \<Rightarrow> bool" where
  "node_json_ok (Node fn c cs nm) =
     (json_ok c \<and> list_all node_json_ok cs \<and> list_all (\<lambda>(k, d). node_json_ok d) nm)"

record evaluation_payload =
  ep_tenant :: string
  ep_object_id :: string
  ep_object_type :: string
  ep_fields :: field_map
  ep_now :: "int option"
  ep_node :: node

text \<open>\<^verbatim>\<open>evaluationCacheKey\<close>\<close>

definition evaluation_cache_key :: "runtime \<Rightarrow> node \<Rightarrow> evaluation_payload option" where
  "evaluation_cache_key rt n =
     (if json_ok (VObj (rt_fields rt)) \<and> node_json_ok n
      then Some \<lparr>ep_tenant = rt_tenant rt, ep_object_id = rt_object_id rt,
                 ep_object_type = rt_object_type rt, ep_fields = rt_fields rt, ep_now = rt_now rt,
                 ep_node = n\<rparr>
      else None)"

interpretation evaluation_cache: memo "evaluation_cache_key rt" "eval_node rt" for rt
  by unfold_locales (auto simp: evaluation_cache_key_def split: if_splits)

text \<open>
  Children go through the cache as well, and rules share it while they run concurrently. \<open>served rt n r\<close>:
  some call of \<^verbatim>\<open>EvaluateNode\<close> may return \<open>r\<close> for \<open>n\<close>, computing it from returned values of smaller nodes, or
  receiving what another call with the same key returned (from the map or as a shared flight).
\<close>

inductive served :: "runtime \<Rightarrow> node \<Rightarrow> gval res \<Rightarrow> bool" for rt where
  served_constant: "is_constant_fn (nd_fn n) \<Longrightarrow> served rt n (Inr (nd_const n))"
| served_computed: "\<not> is_constant_fn (nd_fn n) \<Longrightarrow> (\<And>m. size m < size n \<Longrightarrow> served rt m (f m)) \<Longrightarrow>
    served rt n (eval_uncached rt f n)"
| served_shared: "served rt m r \<Longrightarrow> evaluation_cache_key rt m = Some k \<Longrightarrow>
    evaluation_cache_key rt n = Some k \<Longrightarrow> served rt n r"

inductive_cases served_node: "served rt n r"

lemma served_answer: "served rt n r \<Longrightarrow> r = eval_node rt n"
proof (induction rule: served.induct)
  case (served_constant n)
  then show ?case by (simp add: eval_node_const)
next
  case (served_computed n f)
  then have "agree_below f (eval_node rt) n" by (simp add: agree_below_def)
  then have "eval_uncached rt f n = eval_uncached rt (eval_node rt) n" by (rule eval_uncached_below)
  then show ?case using served_computed(1) by (simp add: eval_node.simps [of rt n])
next
  case (served_shared m r k n)
  then show ?case using evaluation_cache.faithful by metis
qed

lemma served_exists: "served rt n (eval_node rt n)"
proof (induction n rule: measure_induct_rule [of size])
  case (less n)
  show ?case
  proof (cases "is_constant_fn (nd_fn n)")
    case True
    then show ?thesis using served.served_constant [OF True] by (simp add: eval_node_const)
  next
    case False
    then show ?thesis using served.served_computed [OF False less] by (simp add: eval_node.simps [of rt n])
  qed
qed

subsection \<open>Properties\<close>


lemma related_cache_transparent:
  "fst (cache_run (related_cache_key rt) (traverse_related_path rt) paths []) =
     map (traverse_related_path rt) paths"
  by (rule related_cache.run_answers [OF related_cache.valid_empty])

theorem aggregate_cache_transparent:
  "fst (cache_run (aggregate_cache_key tenant) (rd_aggregate rd tenant) qs []) =
     map (rd_aggregate rd tenant) qs"
  by (rule aggregate_cache.run_answers [OF aggregate_cache.valid_empty])


definition demo_query :: agg_query where
  "demo_query = \<lparr>aq_object_type = ''transactions'', aq_aggregate = ''sum'', aq_field = ''amount'',
     aq_filter = None\<rparr>"


end
