(* ===== verification/Recurring_Schedule.thy ===== *)
theory Recurring_Schedule
  imports Go_Time
begin

text \<open>
  Recurring schedules of the decision engine (\<^verbatim>\<open>service/recurring_schedule.go\<close>): the normal form of a
  configuration, the latest and the next occurrence of a schedule, and the occurrences a catch-up
  run creates. Instants are nanoseconds since the epoch; \<^verbatim>\<open>time.LoadLocation\<close> is the parameter
  \<open>zones\<close>. The wording of library errors is not modelled: such an error carries its cause.
\<close>

record schedule_config =
  sc_enabled :: bool
  sc_frequency :: string
  sc_time_of_day :: string
  sc_minute_of_hour :: int
  sc_day_of_week :: string
  sc_day_of_month :: int
  sc_timezone :: string
  sc_candidate_limit :: int
  sc_next_run :: "int option"
  sc_last_run :: "int option"

definition empty_schedule :: schedule_config where
  "empty_schedule = \<lparr>sc_enabled = False, sc_frequency = [], sc_time_of_day = [], sc_minute_of_hour = 0,
     sc_day_of_week = [], sc_day_of_month = 0, sc_timezone = [], sc_candidate_limit = 0,
     sc_next_run = None, sc_last_run = None\<rparr>"

type_synonym zones = "string \<Rightarrow> location option"

subsection \<open>Normal form\<close>

text \<open>\<^verbatim>\<open>normalizeWeekday\<close>; an unknown name is the empty text.\<close>

definition weekday_names :: "(string \<times> string) list" where
  "weekday_names =
    [(''mon'', ''monday''), (''monday'', ''monday''), (''tue'', ''tuesday''), (''tues'', ''tuesday''),
     (''tuesday'', ''tuesday''), (''wed'', ''wednesday''), (''wednesday'', ''wednesday''),
     (''thu'', ''thursday''), (''thurs'', ''thursday''), (''thursday'', ''thursday''),
     (''fri'', ''friday''), (''friday'', ''friday''), (''sat'', ''saturday''), (''saturday'', ''saturday''),
     (''sun'', ''sunday''), (''sunday'', ''sunday'')]"

definition normalize_weekday :: "string \<Rightarrow> string" where
  "normalize_weekday v = (case map_of weekday_names (trim_space (to_lower v)) of
     None \<Rightarrow> [] | Some d \<Rightarrow> d)"

text \<open>\<^verbatim>\<open>weekdayIndex\<close>, Sunday first as in \<^verbatim>\<open>time.Weekday\<close>.\<close>

definition weekday_index :: "string \<Rightarrow> int res" where
  "weekday_index v = (case map_of [(''monday'', 1), (''tuesday'', 2), (''wednesday'', 3),
       (''thursday'', 4), (''friday'', 5), (''saturday'', 6), (''sunday'', 0)] (normalize_weekday v) of
     None \<Rightarrow> Inl ''invalid day_of_week'' | Some i \<Rightarrow> Inr i)"

definition schedule_frequencies :: "string list" where
  "schedule_frequencies = [''daily'', ''hourly'', ''weekly'', ''monthly'']"

definition time_of_day_error :: string where
  "time_of_day_error = ''time_of_day must use HH:MM in 24-hour format''"

text \<open>The switch over the frequency.\<close>

definition normalize_fields :: "schedule_config \<Rightarrow> schedule_config res" where
  "normalize_fields cfg =
     (let tod = trim_space (sc_time_of_day cfg); bad_time = (parse_hhmm tod = None) in
      if sc_frequency cfg = ''hourly'' then
        (if sc_minute_of_hour cfg < 0 \<or> sc_minute_of_hour cfg > 59
         then Inl ''minute_of_hour must be between 0 and 59''
         else Inr (cfg\<lparr>sc_time_of_day := [], sc_day_of_week := [], sc_day_of_month := 0\<rparr>))
      else if bad_time then Inl time_of_day_error
      else if sc_frequency cfg = ''daily'' then
        Inr (cfg\<lparr>sc_time_of_day := tod, sc_minute_of_hour := 0, sc_day_of_week := [], sc_day_of_month := 0\<rparr>)
      else if sc_frequency cfg = ''weekly'' then
        (if normalize_weekday (sc_day_of_week cfg) = []
         then Inl ''day_of_week must be one of monday, tuesday, wednesday, thursday, friday, saturday, sunday''
         else Inr (cfg\<lparr>sc_time_of_day := tod, sc_day_of_week := normalize_weekday (sc_day_of_week cfg),
                       sc_minute_of_hour := 0, sc_day_of_month := 0\<rparr>))
      else
        (if sc_day_of_month cfg < 1 \<or> sc_day_of_month cfg > 31
         then Inl ''day_of_month must be between 1 and 31''
         else Inr (cfg\<lparr>sc_time_of_day := tod, sc_minute_of_hour := 0, sc_day_of_week := []\<rparr>)))"

definition clamp_limit :: "int \<Rightarrow> int" where
  "clamp_limit n = (if n \<le> 0 then 100 else if n > 500 then 500 else n)"

definition or_default :: "string \<Rightarrow> string \<Rightarrow> string" where
  "or_default d s = (if s = [] then d else s)"

text \<open>\<^verbatim>\<open>NormalizeRecurringScheduleConfig\<close>\<close>

definition normalize_schedule :: "zones \<Rightarrow> schedule_config \<Rightarrow> schedule_config res" where
  "normalize_schedule zones cfg =
     (if \<not> sc_enabled cfg then Inr empty_schedule
      else let f = or_default ''daily'' (trim_space (to_lower (sc_frequency cfg)));
               z = or_default ''UTC'' (trim_space (sc_timezone cfg))
           in if f \<notin> set schedule_frequencies
              then Inl ''frequency must be one of daily, hourly, weekly, monthly''
              else if zones z = None then Inl ''timezone must be a valid IANA timezone''
              else bind_r (normalize_fields (cfg\<lparr>sc_frequency := f, sc_timezone := z\<rparr>)) (\<lambda>c.
                Inr (c\<lparr>sc_candidate_limit := clamp_limit (sc_candidate_limit c)\<rparr>)))"

subsection \<open>Occurrences\<close>

definition load_zone :: "zones \<Rightarrow> schedule_config \<Rightarrow> location res" where
  "load_zone zones cfg = (case zones (sc_timezone cfg) of
     None \<Rightarrow> Inl (''unknown time zone '' @ sc_timezone cfg) | Some loc \<Rightarrow> Inr loc)"

definition schedule_hhmm :: "schedule_config \<Rightarrow> (int \<times> int) res" where
  "schedule_hhmm cfg = (case parse_hhmm (sc_time_of_day cfg) of
     None \<Rightarrow> Inl (''parsing time '' @ str_quote (sc_time_of_day cfg)) | Some p \<Rightarrow> Inr p)"

text \<open>\<^verbatim>\<open>time.Date\<close> on the local date of an instant, some days off.\<close>

definition on_day :: "location \<Rightarrow> int \<Rightarrow> int \<Rightarrow> int \<Rightarrow> int \<Rightarrow> int" where
  "on_day loc t k h mi = go_date loc (local_year loc t) (local_month loc t) (local_day loc t + k) h mi 0 0"

text \<open>\<^verbatim>\<open>daysInMonth\<close>\<close>

definition days_in_month :: "location \<Rightarrow> int \<Rightarrow> int \<Rightarrow> int" where
  "days_in_month loc y m = local_day loc (go_date loc y (m + 1) 0 0 0 0 0)"

text \<open>The day of a monthly schedule in the month of an instant.\<close>

definition on_month :: "location \<Rightarrow> int \<Rightarrow> int \<Rightarrow> int \<Rightarrow> int \<Rightarrow> int" where
  "on_month loc t dayno h mi =
     (let y = local_year loc t; m = local_month loc t
      in go_date loc y m (min dayno (days_in_month loc y m)) h mi 0 0)"

text \<open>\<^verbatim>\<open>nextScheduledTime\<close> with \<^verbatim>\<open>nextScheduledTimeForDay\<close>: the latest occurrence that is due. The weekday
  of \<open>now\<close> is read in UTC.\<close>

definition next_scheduled_time :: "zones \<Rightarrow> int \<Rightarrow> schedule_config \<Rightarrow> int res" where
  "next_scheduled_time zones now cfg = bind_r (load_zone zones cfg) (\<lambda>loc.
     if sc_frequency cfg = ''hourly'' then
       (let c = on_day loc now 0 (local_hour loc now) (sc_minute_of_hour cfg)
        in Inr (if c > now then c - hour_ns else c))
     else if sc_frequency cfg = ''weekly'' then
       bind_r (weekday_index (sc_day_of_week cfg)) (\<lambda>wd.
       bind_r (schedule_hhmm cfg) (\<lambda>(h, mi).
         let back = (local_weekday utc_loc now - wd + 7) mod 7; c = on_day loc now (- back) h mi
         in Inr (if c > now then add_date loc c 0 0 (-7) else c)))
     else if sc_frequency cfg = ''monthly'' then
       bind_r (schedule_hhmm cfg) (\<lambda>(h, mi).
         let c = on_month loc now (sc_day_of_month cfg) h mi
         in Inr (if c > now then on_month loc (add_date loc now 0 (-1) 0) (sc_day_of_month cfg) h mi else c))
     else
       bind_r (schedule_hhmm cfg) (\<lambda>(h, mi).
         let c = on_day loc now 0 h mi in Inr (if c > now then add_date loc c 0 0 (-1) else c)))"

text \<open>\<^verbatim>\<open>previousScheduledTime\<close>\<close>

definition previous_scheduled_time :: "zones \<Rightarrow> int \<Rightarrow> schedule_config \<Rightarrow> int res" where
  "previous_scheduled_time zones t cfg = bind_r (load_zone zones cfg) (\<lambda>loc.
     if sc_frequency cfg = ''hourly'' then Inr (t - hour_ns)
     else if sc_frequency cfg = ''weekly'' then Inr (add_date loc t 0 0 (-7))
     else if sc_frequency cfg = ''monthly'' then
       Inr (on_month loc (add_date loc t 0 (-1) 0) (sc_day_of_month cfg) (local_hour loc t) (local_minute loc t))
     else Inr (add_date loc t 0 0 (-1)))"

text \<open>\<^verbatim>\<open>nextFutureScheduledTime\<close>\<close>

definition next_future_time :: "zones \<Rightarrow> int \<Rightarrow> schedule_config \<Rightarrow> int res" where
  "next_future_time zones now cfg = bind_r (load_zone zones cfg) (\<lambda>loc.
     if sc_frequency cfg = ''hourly'' then
       (let c = on_day loc now 0 (local_hour loc now) (sc_minute_of_hour cfg)
        in Inr (if c < now then c + hour_ns else c))
     else if sc_frequency cfg = ''weekly'' then
       bind_r (weekday_index (sc_day_of_week cfg)) (\<lambda>wd.
       bind_r (schedule_hhmm cfg) (\<lambda>(h, mi).
         let forward = (wd - local_weekday utc_loc now + 7) mod 7; c = on_day loc now forward h mi
         in Inr (if c < now then add_date loc c 0 0 7 else c)))
     else if sc_frequency cfg = ''monthly'' then
       bind_r (schedule_hhmm cfg) (\<lambda>(h, mi).
         let c = on_month loc now (sc_day_of_month cfg) h mi
         in Inr (if c < now then on_month loc (add_date loc now 0 1 0) (sc_day_of_month cfg) h mi else c))
     else
       bind_r (schedule_hhmm cfg) (\<lambda>(h, mi).
         let c = on_day loc now 0 h mi in Inr (if c < now then add_date loc c 0 0 1 else c)))"

subsection \<open>Executions of a schedule\<close>

record scheduled_item =
  si_source :: string
  si_status :: string
  si_scheduled_for :: int

text \<open>\<^verbatim>\<open>deriveLastRun\<close>\<close>

fun derive_last_run :: "scheduled_item list \<Rightarrow> int option \<Rightarrow> int option" where
  "derive_last_run [] acc = acc"
| "derive_last_run (x # xs) acc =
     (if si_status x = ''pending'' \<or> si_status x = ''queued'' then derive_last_run xs acc
      else case acc of
        None \<Rightarrow> derive_last_run xs (Some (si_scheduled_for x))
      | Some l \<Rightarrow> derive_last_run xs (Some (if si_scheduled_for x > l then si_scheduled_for x else l)))"

text \<open>\<^verbatim>\<open>hydrateRecurringSchedule\<close>\<close>

definition hydrate_schedule :: "zones \<Rightarrow> schedule_config \<Rightarrow> int \<Rightarrow> scheduled_item list \<Rightarrow> schedule_config res" where
  "hydrate_schedule zones cfg now items =
     (if \<not> sc_enabled cfg then Inr cfg
      else bind_r (next_future_time zones now cfg) (\<lambda>t.
        Inr (cfg\<lparr>sc_next_run := Some t, sc_last_run := derive_last_run items None\<rparr>)))"

text \<open>The loop of \<^verbatim>\<open>dueRecurringScheduleTimes\<close>: \<open>room\<close> is what is left of the bound, the result is newest
  first. A step that does not go back in time ends the loop.\<close>

function due_loop :: "(int \<Rightarrow> int res) \<Rightarrow> int list \<Rightarrow> int \<Rightarrow> nat \<Rightarrow> int \<Rightarrow> int list res" where
  "due_loop prev existing now room cur =
     (if room = 0 then Inr []
      else let hit = cur \<in> set existing; room' = (if hit then room else room - 1) in
        bind_r (prev cur) (\<lambda>p.
          bind_r (if \<not> p < cur then Inr [] else if p > now then Inr []
                  else due_loop prev existing now room' p) (\<lambda>rest.
            Inr (if hit then rest else cur # rest))))"
  by pat_completeness auto
termination
proof (relation "measure (\<lambda>(prev, existing, now, room, cur).
    room + card {t \<in> set existing. t \<le> cur})", goal_cases)
  case (2 prev existing now room cur hit room' p)
  let ?S = "\<lambda>c. {t \<in> set existing. t \<le> c}"
  have p: "p < cur" and room: "0 < room" using 2 by auto
  have sub: "?S p \<subseteq> ?S cur" using p by auto
  have le: "card (?S p) \<le> card (?S cur)" by (rule card_mono [OF _ sub]) simp
  show ?case
  proof (cases "cur \<in> set existing")
    case True
    then have "cur \<in> ?S cur" "cur \<notin> ?S p" using p by auto
    then have "?S p \<subset> ?S cur" using sub by blast
    then have "card (?S p) < card (?S cur)" by (intro psubset_card_mono) auto
    then show ?thesis using True 2 by simp
  next
    case False
    then show ?thesis using le room 2 by simp
  qed
qed auto

declare due_loop.simps [simp del]

text \<open>\<^verbatim>\<open>dueRecurringScheduleTimes\<close>\<close>

definition due_times :: "zones \<Rightarrow> int \<Rightarrow> schedule_config \<Rightarrow> scheduled_item list \<Rightarrow> int \<Rightarrow> int list res" where
  "due_times zones now cfg items limit =
     bind_r (next_scheduled_time zones now cfg) (\<lambda>latest.
     bind_r (due_loop (\<lambda>t. previous_scheduled_time zones t cfg)
         (map si_scheduled_for (filter (\<lambda>x. si_source x = ''recurring'') items)) now
         (nat (min 24 (max 1 limit))) latest) (\<lambda>due. Inr (rev due)))"

subsection \<open>Normal forms stay as they are\<close>

lemma weekday_names_fixed:
  "map_of weekday_names k = Some d \<Longrightarrow> trim_space (to_lower d) = d \<and> map_of weekday_names d = Some d"
proof -
  have "list_all (\<lambda>(k, d). trim_space (to_lower d) = d \<and> map_of weekday_names d = Some d \<and> d \<noteq> []) weekday_names"
    by code_simp
  then show "map_of weekday_names k = Some d \<Longrightarrow> trim_space (to_lower d) = d \<and> map_of weekday_names d = Some d"
    by (auto simp: list_all_iff dest!: map_of_SomeD)
qed

lemma normalize_weekday_idem: "normalize_weekday (normalize_weekday v) = normalize_weekday v"
proof (cases "map_of weekday_names (trim_space (to_lower v))")
  case None
  then have e: "normalize_weekday v = []" by (simp add: normalize_weekday_def)
  have "normalize_weekday [] = []" by code_simp
  then show ?thesis using e by simp
next
  case (Some d)
  then show ?thesis using weekday_names_fixed [OF Some] by (simp add: normalize_weekday_def)
qed

lemma clamp_limit_idem [simp]: "clamp_limit (clamp_limit n) = clamp_limit n"
  by (simp add: clamp_limit_def)

lemma frequencies_fixed:
  "f \<in> set schedule_frequencies \<Longrightarrow> trim_space (to_lower f) = f \<and> f \<noteq> []"
proof -
  have "list_all (\<lambda>f. trim_space (to_lower f) = f \<and> f \<noteq> []) schedule_frequencies" by code_simp
  then show "f \<in> set schedule_frequencies \<Longrightarrow> trim_space (to_lower f) = f \<and> f \<noteq> []"
    by (auto simp: list_all_iff)
qed

lemma normalize_fields_fixed:
  assumes "normalize_fields c = Inr d"
  shows "sc_enabled d = sc_enabled c \<and> sc_frequency d = sc_frequency c \<and> sc_timezone d = sc_timezone c \<and>
    normalize_fields (d\<lparr>sc_candidate_limit := k\<rparr>) = Inr (d\<lparr>sc_candidate_limit := k\<rparr>)"
proof -
  let ?tod = "trim_space (sc_time_of_day c)"
  consider (hourly) "sc_frequency c = ''hourly''" | (daily) "sc_frequency c = ''daily''"
    | (weekly) "sc_frequency c = ''weekly''"
    | (other) "sc_frequency c \<noteq> ''hourly''" "sc_frequency c \<noteq> ''daily''" "sc_frequency c \<noteq> ''weekly''"
    by blast
  then show ?thesis
  proof cases
    case hourly
    then have d: "d = c\<lparr>sc_time_of_day := [], sc_day_of_week := [], sc_day_of_month := 0\<rparr>"
      and "0 \<le> sc_minute_of_hour c" "sc_minute_of_hour c \<le> 59"
      using assms by (simp_all add: normalize_fields_def Let_def split: if_splits)
    then show ?thesis using hourly by (simp add: normalize_fields_def Let_def)
  next
    case daily
    then have d: "d = c\<lparr>sc_time_of_day := ?tod, sc_minute_of_hour := 0, sc_day_of_week := [], sc_day_of_month := 0\<rparr>"
      and "parse_hhmm ?tod \<noteq> None"
      using assms by (simp_all add: normalize_fields_def Let_def split: if_splits)
    then show ?thesis using daily by (simp add: normalize_fields_def Let_def trim_space_idem)
  next
    case weekly
    then have d: "d = c\<lparr>sc_time_of_day := ?tod, sc_day_of_week := normalize_weekday (sc_day_of_week c),
        sc_minute_of_hour := 0, sc_day_of_month := 0\<rparr>"
      and "parse_hhmm ?tod \<noteq> None" "normalize_weekday (sc_day_of_week c) \<noteq> []"
      using assms by (simp_all add: normalize_fields_def Let_def split: if_splits)
    then show ?thesis using weekly
      by (simp add: normalize_fields_def Let_def trim_space_idem normalize_weekday_idem)
  next
    case other
    then have d: "d = c\<lparr>sc_time_of_day := ?tod, sc_minute_of_hour := 0, sc_day_of_week := []\<rparr>"
      and "parse_hhmm ?tod \<noteq> None" "1 \<le> sc_day_of_month c" "sc_day_of_month c \<le> 31"
      using assms by (simp_all add: normalize_fields_def Let_def split: if_splits)
    then show ?thesis using other by (simp add: normalize_fields_def Let_def trim_space_idem)
  qed
qed

lemma normalize_schedule_idem:
  assumes "normalize_schedule zones cfg = Inr c"
  shows "normalize_schedule zones c = Inr c"
proof (cases "sc_enabled cfg")
  case False
  then have "c = empty_schedule" using assms by (simp add: normalize_schedule_def)
  then show ?thesis by (simp add: normalize_schedule_def empty_schedule_def)
next
  case True
  define f where "f = or_default ''daily'' (trim_space (to_lower (sc_frequency cfg)))"
  define z where "z = or_default ''UTC'' (trim_space (sc_timezone cfg))"
  have n: "(if f \<notin> set schedule_frequencies
      then Inl ''frequency must be one of daily, hourly, weekly, monthly''
      else if zones z = None then Inl ''timezone must be a valid IANA timezone''
      else bind_r (normalize_fields (cfg\<lparr>sc_frequency := f, sc_timezone := z\<rparr>)) (\<lambda>d.
        Inr (d\<lparr>sc_candidate_limit := clamp_limit (sc_candidate_limit d)\<rparr>))) = Inr c"
    using assms True unfolding normalize_schedule_def Let_def f_def z_def by (simp only: if_False simp_thms)
  have f: "f \<in> set schedule_frequencies" and z: "zones z \<noteq> None"
    using n by (auto split: if_splits)
  obtain d where d: "normalize_fields (cfg\<lparr>sc_frequency := f, sc_timezone := z\<rparr>) = Inr d"
    and c: "c = d\<lparr>sc_candidate_limit := clamp_limit (sc_candidate_limit d)\<rparr>"
    using n f z by (auto simp: bind_r_Inr_iff)
  have "trim_space ''UTC'' = ''UTC''" by code_simp
  then have zt: "or_default ''UTC'' (trim_space z) = z"
    by (simp add: z_def or_default_def trim_space_idem)
  note k = normalize_fields_fixed [OF d]
  have keep: "sc_enabled c" "sc_frequency c = f" "sc_timezone c = z" "normalize_fields c = Inr c"
    using k True by (simp_all add: c)
  have up: "c\<lparr>sc_frequency := f, sc_timezone := z\<rparr> = c" using keep(2,3) by simp
  have lim: "c\<lparr>sc_candidate_limit := clamp_limit (sc_candidate_limit c)\<rparr> = c" by (simp add: c)
  show ?thesis
    using frequencies_fixed [OF f] f z zt
    by (simp add: normalize_schedule_def keep(1,2,3) Let_def up keep(4) lim or_default_def [of "''daily''"])
qed

subsection \<open>Local time at a fixed offset\<close>

lemma on_day_fixed:
  "on_day (fixed_loc off) t k h mi =
     ((local_days (fixed_loc off) t + k) * 86400 + h * 3600 + mi * 60 - off) * sec_ns"
  by (simp add: on_day_def go_date_def wall_sec_def local_date_days)

lemma split_day: "(s div 86400) * 86400 + (s mod 86400) div 3600 * 3600 = s div 3600 * (3600::int)"
proof -
  have "s div 86400 = s div 3600 div 24" using zdiv_zmult2_eq [of 24 s 3600] by simp
  moreover have "s mod 86400 = 3600 * (s div 3600 mod 24) + s mod 3600"
    using zmod_zmult2_eq [of 24 s 3600] by simp
  then have "s mod 86400 div 3600 = s div 3600 mod 24" by simp
  ultimately show ?thesis using div_mult_mod_eq [of "s div 3600" 24] by linarith
qed

end
