(* ===== verification/Schedule_Laws.thy ===== *)
theory Schedule_Laws
  imports Recurring_Schedule
begin

text \<open>
  What the schedule functions of \<^verbatim>\<open>Recurring_Schedule\<close> compute in a zone of fixed offset: the due times of
  an hourly, daily or weekly schedule are one residue class of local time, the latest and the next
  occurrence are its greatest and least members around the present, and a catch-up run returns the
  newest occurrences that have no execution yet. The last section shows two schedules for which the
  code leaves this specification.
\<close>

subsection \<open>Local time in nanoseconds\<close>

definition local_ns :: "int \<Rightarrow> int \<Rightarrow> int" where
  "local_ns off t = t + off * sec_ns"

lemma local_sec_ns: "local_sec (fixed_loc off) t = local_ns off t div sec_ns"
  by (simp add: local_sec_def unix_sec_def local_ns_def sec_ns_def)

lemma ns_units: "sec_ns = 1000000000" "minute_ns = 60000000000" "hour_ns = 3600000000000"
  "day_ns = 86400000000000"
  by (simp_all add: sec_ns_def minute_ns_def hour_ns_def day_ns_def)

lemma local_fields:
  assumes "local_ns off t = d * day_ns + (h * 3600 + mi * 60 + s) * sec_ns + ns"
    "0 \<le> h" "h < 24" "0 \<le> mi" "mi < 60" "0 \<le> s" "s < 60" "0 \<le> ns" "ns < sec_ns"
  shows "local_days (fixed_loc off) t = d" "local_hour (fixed_loc off) t = h"
    "local_minute (fixed_loc off) t = mi" "local_second (fixed_loc off) t = s" "local_nano t = ns"
proof -
  let ?x = "h * 3600 + mi * 60 + s"
  have sec: "local_sec (fixed_loc off) t = d * 86400 + ?x"
    unfolding local_sec_ns using assms by (simp add: ns_units algebra_simps)
  have x: "0 \<le> ?x" "?x < 86400" using assms by linarith+
  show "local_days (fixed_loc off) t = d" unfolding local_days_def sec using x by simp
  show "local_hour (fixed_loc off) t = h" unfolding local_hour_def sec using x assms(2-7) by simp
  have m: "(d * 86400 + ?x) mod 3600 = mi * 60 + s"
  proof -
    have "d * 86400 + ?x = (mi * 60 + s) + (d * 24 + h) * 3600" by simp
    then show ?thesis using assms(4-7) by (simp only: mod_mult_self1) simp
  qed
  show "local_minute (fixed_loc off) t = mi" unfolding local_minute_def sec m using assms(4-7) by simp
  have "d * 86400 + ?x = s + (d * 1440 + h * 60 + mi) * 60" by simp
  then show "local_second (fixed_loc off) t = s"
    unfolding local_second_def sec using assms(6,7) by (simp only: mod_mult_self1) simp
  have "t = ns + (d * 86400 + ?x - off) * sec_ns" using assms(1) by (simp add: local_ns_def ns_units)
  then show "local_nano t = ns" unfolding local_nano_def using assms(8,9) by (simp only: mod_mult_self1) simp
qed

text \<open>Every instant has such fields.\<close>

lemma local_fields_ex:
  "\<exists>d h mi s ns. local_ns off t = d * day_ns + (h * 3600 + mi * 60 + s) * sec_ns + ns \<and>
    0 \<le> h \<and> h < 24 \<and> 0 \<le> mi \<and> mi < 60 \<and> 0 \<le> s \<and> s < 60 \<and> 0 \<le> ns \<and> ns < sec_ns"
proof -
  define n where "n = local_ns off t"
  define x where "x = n div sec_ns" define r where "r = n mod sec_ns"
  define d where "d = x div 86400" define y where "y = x mod 86400"
  define h where "h = y div 3600" define z where "z = y mod 3600"
  define mi where "mi = z div 60" define s where "s = z mod 60"
  have "n = x * sec_ns + r" "x = d * 86400 + y" "y = h * 3600 + z" "z = mi * 60 + s"
    by (simp_all add: x_def r_def d_def y_def h_def z_def mi_def s_def)
  then have eq: "n = d * day_ns + (h * 3600 + mi * 60 + s) * sec_ns + r" by (simp add: ns_units)
  have y: "0 \<le> y" "y < 86400" and z: "0 \<le> z" "z < 3600" by (simp_all add: y_def z_def)
  have "0 \<le> h" "h < 24" using y by (simp_all add: h_def)
  moreover have "0 \<le> mi" "mi < 60" using z by (simp_all add: mi_def)
  moreover have "0 \<le> s" "s < 60" "0 \<le> r" "r < sec_ns" by (simp_all add: s_def r_def sec_ns_def)
  ultimately show ?thesis using eq unfolding n_def [symmetric] by blast
qed

subsection \<open>Specification\<close>

text \<open>An instant at which a schedule that is not monthly falls due.\<close>

definition occurs :: "location \<Rightarrow> schedule_config \<Rightarrow> int \<Rightarrow> bool" where
  "occurs loc cfg t =
     (local_second loc t = 0 \<and> local_nano t = 0 \<and>
      (if sc_frequency cfg = ''hourly'' then local_minute loc t = sc_minute_of_hour cfg
       else parse_hhmm (sc_time_of_day cfg) = Some (local_hour loc t, local_minute loc t) \<and>
            (sc_frequency cfg = ''weekly'' \<longrightarrow> weekday_index (sc_day_of_week cfg) = Inr (local_weekday loc t))))"

definition schedule_period :: "schedule_config \<Rightarrow> int" where
  "schedule_period cfg = (if sc_frequency cfg = ''hourly'' then hour_ns
     else if sc_frequency cfg = ''weekly'' then 7 * day_ns else day_ns)"

text \<open>Occurrences are the instants of one residue class of local time.\<close>

definition schedule_anchor :: "schedule_config \<Rightarrow> int" where
  "schedule_anchor cfg =
     (if sc_frequency cfg = ''hourly'' then sc_minute_of_hour cfg * 60 * sec_ns
      else case parse_hhmm (sc_time_of_day cfg) of None \<Rightarrow> 0
      | Some (h, mi) \<Rightarrow> (h * 3600 + mi * 60) * sec_ns +
          (if sc_frequency cfg = ''weekly''
           then (case weekday_index (sc_day_of_week cfg) of Inr w \<Rightarrow> (w + 3) mod 7 | Inl _ \<Rightarrow> 0) * day_ns
           else 0))"

text \<open>A configuration whose fields were checked, and is not monthly.\<close>

definition schedule_ok :: "schedule_config \<Rightarrow> bool" where
  "schedule_ok cfg =
     ((sc_frequency cfg = ''hourly'' \<and> 0 \<le> sc_minute_of_hour cfg \<and> sc_minute_of_hour cfg < 60) \<or>
      (sc_frequency cfg = ''daily'' \<and> parse_hhmm (sc_time_of_day cfg) \<noteq> None) \<or>
      (sc_frequency cfg = ''weekly'' \<and> parse_hhmm (sc_time_of_day cfg) \<noteq> None \<and>
       normalize_weekday (sc_day_of_week cfg) \<noteq> []))"

lemma digit_val_nonneg: "is_digit c \<Longrightarrow> 0 \<le> digit_val c"
proof -
  have "(of_char c :: int) = int (of_char c)" by (cases c) (simp add: of_char_def)
  then show "is_digit c \<Longrightarrow> 0 \<le> digit_val c" by (simp add: is_digit_def digit_val_def Let_def)
qed

lemma two_digits_nonneg: "two_digits s = Some (n, r) \<Longrightarrow> 0 \<le> n"
  by (auto simp: two_digits_def digit_val_nonneg split: list.split_asm if_split_asm)

lemma one_or_two_digits_nonneg: "one_or_two_digits s = Some (n, r) \<Longrightarrow> 0 \<le> n"
  by (auto simp: one_or_two_digits_def digit_val_nonneg split: list.split_asm if_split_asm)

lemma parse_hhmm_range:
  "parse_hhmm s = Some (h, mi) \<Longrightarrow> 0 \<le> h \<and> h < 24 \<and> 0 \<le> mi \<and> mi < 60"
  by (auto simp: parse_hhmm_def bind_eq_Some_conv dest: two_digits_nonneg one_or_two_digits_nonneg
      split: if_split_asm)

lemma weekday_index_range: "weekday_index v = Inr w \<Longrightarrow> 0 \<le> w \<and> w < 7"
  by (auto simp: weekday_index_def split: option.splits if_splits)

lemma period_pos: "0 < schedule_period cfg"
  by (simp add: schedule_period_def ns_units)

lemma mod_unique:
  fixes n :: int
  assumes "0 \<le> a" "a < p"
  shows "n mod p = a \<longleftrightarrow> (\<exists>k. n = k * p + a)"
proof
  assume "n mod p = a"
  then have "n = (n div p) * p + a" using div_mult_mod_eq [of n p] by simp
  then show "\<exists>k. n = k * p + a" by blast
next
  assume "\<exists>k. n = k * p + a"
  then show "n mod p = a" using assms by auto
qed

lemma occurs_daily_iff:
  assumes "sc_frequency cfg \<noteq> ''hourly''" "parse_hhmm (sc_time_of_day cfg) = Some (h, mi)"
  shows "occurs (fixed_loc off) cfg t \<longleftrightarrow>
    (\<exists>d. local_ns off t = d * day_ns + (h * 3600 + mi * 60) * sec_ns \<and>
      (sc_frequency cfg = ''weekly'' \<longrightarrow> weekday_index (sc_day_of_week cfg) = Inr ((d + 4) mod 7)))"
proof -
  have r: "0 \<le> h" "h < 24" "0 \<le> mi" "mi < 60" using parse_hhmm_range [OF assms(2)] by auto
  obtain d h' mi' s ns where f: "local_ns off t = d * day_ns + (h' * 3600 + mi' * 60 + s) * sec_ns + ns"
    "0 \<le> h'" "h' < 24" "0 \<le> mi'" "mi' < 60" "0 \<le> s" "s < 60" "0 \<le> ns" "ns < sec_ns"
    using local_fields_ex by blast
  note F = local_fields [OF f]
  have wd: "local_weekday (fixed_loc off) t = (d + 4) mod 7"
    by (simp add: local_weekday_def weekday_of_days_def F(1))
  show ?thesis
  proof
    assume "occurs (fixed_loc off) cfg t"
    then have "s = 0" "ns = 0" "h' = h" "mi' = mi"
      "sc_frequency cfg = ''weekly'' \<longrightarrow> weekday_index (sc_day_of_week cfg) = Inr ((d + 4) mod 7)"
      using assms F wd by (auto simp: occurs_def)
    then show "\<exists>d. local_ns off t = d * day_ns + (h * 3600 + mi * 60) * sec_ns \<and>
      (sc_frequency cfg = ''weekly'' \<longrightarrow> weekday_index (sc_day_of_week cfg) = Inr ((d + 4) mod 7))"
      using f(1) by auto
  next
    assume "\<exists>d. local_ns off t = d * day_ns + (h * 3600 + mi * 60) * sec_ns \<and>
      (sc_frequency cfg = ''weekly'' \<longrightarrow> weekday_index (sc_day_of_week cfg) = Inr ((d + 4) mod 7))"
    then obtain e where e: "local_ns off t = e * day_ns + (h * 3600 + mi * 60) * sec_ns"
      "sc_frequency cfg = ''weekly'' \<longrightarrow> weekday_index (sc_day_of_week cfg) = Inr ((e + 4) mod 7)" by blast
    have "local_ns off t = e * day_ns + (h * 3600 + mi * 60 + 0) * sec_ns + 0" using e(1) by simp
    note G = local_fields [OF this r]
    have "local_weekday (fixed_loc off) t = (e + 4) mod 7"
      using G by (simp add: local_weekday_def weekday_of_days_def sec_ns_def)
    then show "occurs (fixed_loc off) cfg t" using G e(2) assms by (simp add: occurs_def sec_ns_def)
  qed
qed


lemma occurs_hourly_iff:
  assumes "sc_frequency cfg = ''hourly''" "0 \<le> sc_minute_of_hour cfg" "sc_minute_of_hour cfg < 60"
  shows "occurs (fixed_loc off) cfg t \<longleftrightarrow>
    (\<exists>k. local_ns off t = k * hour_ns + sc_minute_of_hour cfg * 60 * sec_ns)"
proof
  assume o: "occurs (fixed_loc off) cfg t"
  obtain d h mi s ns where f: "local_ns off t = d * day_ns + (h * 3600 + mi * 60 + s) * sec_ns + ns"
    "0 \<le> h" "h < 24" "0 \<le> mi" "mi < 60" "0 \<le> s" "s < 60" "0 \<le> ns" "ns < sec_ns"
    using local_fields_ex by blast
  note F = local_fields [OF f]
  have "s = 0" "ns = 0" "mi = sc_minute_of_hour cfg" using o assms F by (auto simp: occurs_def)
  then have "local_ns off t = (d * 24 + h) * hour_ns + sc_minute_of_hour cfg * 60 * sec_ns"
    using f(1) by (simp add: ns_units algebra_simps)
  then show "\<exists>k. local_ns off t = k * hour_ns + sc_minute_of_hour cfg * 60 * sec_ns" by blast
next
  assume "\<exists>k. local_ns off t = k * hour_ns + sc_minute_of_hour cfg * 60 * sec_ns"
  then obtain k where k: "local_ns off t = k * hour_ns + sc_minute_of_hour cfg * 60 * sec_ns" ..
  define q r where "q = k div 24" and "r = k mod 24"
  have "k = q * 24 + r" "0 \<le> r" "r < 24" by (simp_all add: q_def r_def)
  moreover from this k have "local_ns off t =
      q * day_ns + (r * 3600 + sc_minute_of_hour cfg * 60 + 0) * sec_ns + 0"
    by (simp add: ns_units)
  note G = local_fields [OF this]
  ultimately show "occurs (fixed_loc off) cfg t" using G assms by (simp add: occurs_def sec_ns_def)
qed

lemma weekday_class:
  fixes d w :: int
  assumes "0 \<le> w" "w < 7"
  shows "(d + 4) mod 7 = w \<longleftrightarrow> (\<exists>j. d = j * 7 + (w + 3) mod 7)"
proof -
  have "(d + 4) mod 7 = w \<longleftrightarrow> d mod 7 = (w + 3) mod 7"
    using assms by (simp add: mod_eq_dvd_iff dvd_def) presburger
  then show ?thesis by (simp add: mod_unique)
qed

text \<open>At a fixed offset the occurrences are one residue class of local time.\<close>

lemma anchor_range:
  assumes "schedule_ok cfg"
  shows "0 \<le> schedule_anchor cfg" "schedule_anchor cfg < schedule_period cfg"
proof -
  have "0 \<le> schedule_anchor cfg \<and> schedule_anchor cfg < schedule_period cfg"
  proof (cases "sc_frequency cfg = ''hourly''")
    case True
    then show ?thesis using assms by (auto simp: schedule_ok_def schedule_anchor_def schedule_period_def ns_units)
  next
    case False
    then obtain h mi where p: "parse_hhmm (sc_time_of_day cfg) = Some (h, mi)"
      using assms by (auto simp: schedule_ok_def)
    have r: "0 \<le> h" "h < 24" "0 \<le> mi" "mi < 60" using parse_hhmm_range [OF p] by auto
    then have x: "0 \<le> h * 3600 + mi * 60" "h * 3600 + mi * 60 < 86400" by linarith+
    define D where "D = (case weekday_index (sc_day_of_week cfg) of Inr w \<Rightarrow> (w + 3) mod 7 | Inl _ \<Rightarrow> (0::int))"
    have D: "0 \<le> D" "D \<le> 6" by (auto simp: D_def split: sum.split)
    show ?thesis using False p x D
      by (simp add: schedule_anchor_def schedule_period_def ns_units D_def [symmetric])
  qed
  then show "0 \<le> schedule_anchor cfg" "schedule_anchor cfg < schedule_period cfg" by simp_all
qed

lemma map_of_list_all: "list_all (\<lambda>(k, d). P d) xs \<Longrightarrow> map_of xs k = Some d \<Longrightarrow> P d"
  by (auto simp: list_all_iff dest!: map_of_SomeD)

lemma weekday_index_total:
  assumes "normalize_weekday v \<noteq> []"
  shows "\<exists>w. weekday_index v = Inr w"
proof -
  obtain d where d: "map_of weekday_names (trim_space (to_lower v)) = Some d"
    using assms by (auto simp: normalize_weekday_def split: option.splits)
  have "list_all (\<lambda>(k, d). ok_r (weekday_index d)) weekday_names" by code_simp
  note w = map_of_list_all [OF this d]
  have n: "normalize_weekday v = d" using d by (simp add: normalize_weekday_def)
  have "weekday_index v = weekday_index d"
    using normalize_weekday_idem [of v] unfolding weekday_index_def n by simp
  then show ?thesis using w by (simp add: ok_r_iff)
qed

lemma occurs_iff:
  assumes ok: "schedule_ok cfg"
  shows "occurs (fixed_loc off) cfg t \<longleftrightarrow> local_ns off t mod schedule_period cfg = schedule_anchor cfg"
proof -
  note cls = mod_unique [OF anchor_range [OF ok], of "local_ns off t"]
  show ?thesis
  proof (cases "sc_frequency cfg = ''hourly''")
    case True
    then have "occurs (fixed_loc off) cfg t \<longleftrightarrow> (\<exists>k. local_ns off t = k * schedule_period cfg + schedule_anchor cfg)"
      using ok by (simp add: occurs_hourly_iff schedule_ok_def schedule_anchor_def schedule_period_def)
    then show ?thesis by (simp only: cls)
  next
    case False
    then obtain h mi where p: "parse_hhmm (sc_time_of_day cfg) = Some (h, mi)"
      using ok by (auto simp: schedule_ok_def)
    note D = occurs_daily_iff [OF False p, of off t]
    show ?thesis
    proof (cases "sc_frequency cfg = ''weekly''")
      case True
      then obtain w where w: "weekday_index (sc_day_of_week cfg) = Inr w"
        using ok weekday_index_total by (auto simp: schedule_ok_def)
      note wc = weekday_class [OF weekday_index_range [OF w, THEN conjunct1] weekday_index_range [OF w, THEN conjunct2]]
      have "occurs (fixed_loc off) cfg t \<longleftrightarrow>
          (\<exists>d. local_ns off t = d * day_ns + (h * 3600 + mi * 60) * sec_ns \<and> (\<exists>j. d = j * 7 + (w + 3) mod 7))"
        using True D w by (simp only: wc [symmetric]) auto
      also have "\<dots> \<longleftrightarrow> (\<exists>j. local_ns off t = (j * 7 + (w + 3) mod 7) * day_ns + (h * 3600 + mi * 60) * sec_ns)"
        by blast
      also have "\<dots> \<longleftrightarrow> (\<exists>j. local_ns off t = j * schedule_period cfg + schedule_anchor cfg)"
        using True p w by (simp add: schedule_anchor_def schedule_period_def algebra_simps)
      finally show ?thesis by (simp only: cls)
    next
      case F: False
      then have "occurs (fixed_loc off) cfg t \<longleftrightarrow> (\<exists>k. local_ns off t = k * schedule_period cfg + schedule_anchor cfg)"
        using False p D by (simp add: schedule_anchor_def schedule_period_def)
      then show ?thesis by (simp only: cls)
    qed
  qed
qed

lemma add_date_fixed: "add_date (fixed_loc off) t 0 0 k = t + k * day_ns"
proof -
  let ?s = "local_sec (fixed_loc off) t"
  have "?s div 86400 * 86400 + ?s mod 86400 div 3600 * 3600 + ?s mod 3600 div 60 * 60 + ?s mod 60 = ?s"
  proof -
    have "?s mod 3600 mod 60 = ?s mod 60" by (rule mod_mod_cancel) simp
    then have "?s mod 3600 div 60 * 60 + ?s mod 60 = ?s mod 3600" by (metis div_mult_mod_eq)
    then show ?thesis using split_day [of ?s] div_mult_mod_eq [of ?s 3600] by linarith
  qed
  then have "add_date (fixed_loc off) t 0 0 k = (?s + k * 86400 - off) * sec_ns + local_nano t"
    by (simp add: add_date_def go_date_def wall_sec_def local_date_days local_hour_def local_minute_def
        local_second_def local_days_def)
  also have "\<dots> = t + k * day_ns"
    by (simp add: local_sec_def unix_sec_def local_nano_def ns_units algebra_simps)
  finally show ?thesis .
qed

lemma same_class_gap:
  fixes x y p :: int
  assumes "x mod p = y mod p" "x < y" "0 < p"
  shows "x + p \<le> y"
proof -
  have "p dvd y - x" using assms(1) by (metis mod_eq_dvd_iff)
  then show ?thesis using zdvd_imp_le [of p "y - x"] assms by simp
qed

subsection \<open>The latest and the next occurrence\<close>

lemma latest_in_class:
  assumes ok: "schedule_ok cfg"
    and r: "local_ns off r mod schedule_period cfg = schedule_anchor cfg" "r \<le> now" "now < r + schedule_period cfg"
  shows "occurs (fixed_loc off) cfg r" "\<And>t. occurs (fixed_loc off) cfg t \<Longrightarrow> t \<le> now \<Longrightarrow> t \<le> r"
proof -
  show "occurs (fixed_loc off) cfg r" using ok r by (simp add: occurs_iff)
  fix t assume t: "occurs (fixed_loc off) cfg t" "t \<le> now"
  show "t \<le> r"
  proof (rule ccontr)
    assume "\<not> t \<le> r"
    then have "local_ns off r + schedule_period cfg \<le> local_ns off t"
      using t ok r by (intro same_class_gap) (simp_all add: occurs_iff period_pos local_ns_def)
    then show False using t r by (simp add: local_ns_def)
  qed
qed

lemma next_in_class:
  assumes ok: "schedule_ok cfg"
    and r: "local_ns off r mod schedule_period cfg = schedule_anchor cfg" "now \<le> r" "r - schedule_period cfg < now"
  shows "occurs (fixed_loc off) cfg r" "\<And>t. occurs (fixed_loc off) cfg t \<Longrightarrow> now \<le> t \<Longrightarrow> r \<le> t"
proof -
  show "occurs (fixed_loc off) cfg r" using ok r by (simp add: occurs_iff)
  fix t assume t: "occurs (fixed_loc off) cfg t" "now \<le> t"
  show "r \<le> t"
  proof (rule ccontr)
    assume "\<not> r \<le> t"
    then have "local_ns off t + schedule_period cfg \<le> local_ns off r"
      using t ok r by (intro same_class_gap) (simp_all add: occurs_iff period_pos local_ns_def)
    then show False using t r by (simp add: local_ns_def)
  qed
qed

text \<open>The weekday of a weekly schedule is read in UTC; it is the local one at \<open>now\<close>.\<close>

definition same_weekday :: "int \<Rightarrow> int \<Rightarrow> schedule_config \<Rightarrow> bool" where
  "same_weekday off now cfg =
     (sc_frequency cfg = ''weekly'' \<longrightarrow> local_weekday utc_loc now = local_weekday (fixed_loc off) now)"

lemma on_day_ns:
  "local_ns off (on_day (fixed_loc off) t k h mi) =
     (local_days (fixed_loc off) t + k) * day_ns + (h * 3600 + mi * 60) * sec_ns"
  by (simp add: on_day_fixed local_ns_def ns_units algebra_simps)

lemma local_days_ns: "local_days (fixed_loc off) t = local_ns off t div day_ns"
  unfolding local_days_def local_sec_ns using zdiv_zmult2_eq [of 86400 "local_ns off t" sec_ns]
  by (simp add: ns_units)

lemma local_ns_day: "local_days (fixed_loc off) t * day_ns \<le> local_ns off t"
    "local_ns off t < local_days (fixed_loc off) t * day_ns + day_ns"
proof -
  have "local_ns off t = local_ns off t div day_ns * day_ns + local_ns off t mod day_ns" by simp
  moreover have "0 \<le> local_ns off t mod day_ns" "local_ns off t mod day_ns < day_ns"
    by (simp_all add: ns_units)
  ultimately show "local_days (fixed_loc off) t * day_ns \<le> local_ns off t"
    "local_ns off t < local_days (fixed_loc off) t * day_ns + day_ns"
    unfolding local_days_ns by linarith+
qed

lemma hour_of_day:
  "local_days (fixed_loc off) t * day_ns + local_hour (fixed_loc off) t * hour_ns = local_ns off t div hour_ns * hour_ns"
proof -
  let ?s = "local_sec (fixed_loc off) t"
  have "?s div 86400 * 86400 + ?s mod 86400 div 3600 * 3600 = ?s div 3600 * 3600" by (rule split_day)
  then have "local_days (fixed_loc off) t * 86400 + local_hour (fixed_loc off) t * 3600 = ?s div 3600 * 3600"
    by (simp only: local_days_def local_hour_def)
  moreover have "?s div 3600 = local_ns off t div hour_ns"
    unfolding local_sec_ns using zdiv_zmult2_eq [of 3600 "local_ns off t" sec_ns] by (simp add: ns_units)
  ultimately show ?thesis by (simp add: ns_units)
qed

text \<open>The instant the code starts from lies in the class, less than a period from \<open>now\<close>.\<close>

definition candidate_time :: "schedule_config \<Rightarrow> int \<Rightarrow> int \<Rightarrow> int \<Rightarrow> bool" where
  "candidate_time cfg off now c \<longleftrightarrow>
     local_ns off c mod schedule_period cfg = schedule_anchor cfg \<and>
     now - schedule_period cfg < c \<and> c < now + schedule_period cfg"

lemma hourly_candidate:
  assumes "schedule_ok cfg" "sc_frequency cfg = ''hourly''"
  shows "candidate_time cfg off now
    (on_day (fixed_loc off) now 0 (local_hour (fixed_loc off) now) (sc_minute_of_hour cfg))"
proof -
  let ?c = "on_day (fixed_loc off) now 0 (local_hour (fixed_loc off) now) (sc_minute_of_hour cfg)"
  let ?n = "local_ns off now" let ?a = "schedule_anchor cfg"
  have a: "?a = sc_minute_of_hour cfg * 60 * sec_ns" "schedule_period cfg = hour_ns"
    using assms by (simp_all add: schedule_anchor_def schedule_period_def)
  have c: "local_ns off ?c = ?n div hour_ns * hour_ns + ?a"
    unfolding on_day_ns hour_of_day [symmetric] a by (simp add: ns_units algebra_simps)
  have r: "0 \<le> ?a" "?a < hour_ns" using anchor_range [OF assms(1)] a by simp_all
  have n: "?n div hour_ns * hour_ns \<le> ?n" "?n < ?n div hour_ns * hour_ns + hour_ns"
    using div_mult_mod_eq [of ?n hour_ns] pos_mod_sign [of hour_ns ?n] pos_mod_bound [of hour_ns ?n]
    by (simp_all add: ns_units)
  have "local_ns off ?c mod hour_ns = ?a" unfolding c using r by simp
  moreover have "?n - hour_ns < local_ns off ?c" "local_ns off ?c < ?n + hour_ns" using c n r by linarith+
  ultimately show ?thesis unfolding candidate_time_def a(2) by (simp add: local_ns_def)
qed

lemma daily_candidate:
  assumes "schedule_ok cfg" "sc_frequency cfg = ''daily''" "parse_hhmm (sc_time_of_day cfg) = Some (h, mi)"
  shows "candidate_time cfg off now (on_day (fixed_loc off) now 0 h mi)"
proof -
  let ?c = "on_day (fixed_loc off) now 0 h mi" let ?a = "schedule_anchor cfg"
  have a: "?a = (h * 3600 + mi * 60) * sec_ns" "schedule_period cfg = day_ns"
    using assms by (simp_all add: schedule_anchor_def schedule_period_def)
  have c: "local_ns off ?c = local_days (fixed_loc off) now * day_ns + ?a"
    unfolding on_day_ns a by simp
  have r: "0 \<le> ?a" "?a < day_ns" using anchor_range [OF assms(1)] a by simp_all
  have "local_ns off ?c mod day_ns = ?a" unfolding c using r by simp
  moreover have "local_ns off now - day_ns < local_ns off ?c" "local_ns off ?c < local_ns off now + day_ns"
    using c r local_ns_day [of off now] by linarith+
  ultimately show ?thesis unfolding candidate_time_def a(2) by (simp add: local_ns_def)
qed

lemma weekly_candidate:
  assumes ok: "schedule_ok cfg" and f: "sc_frequency cfg = ''weekly''"
    and p: "parse_hhmm (sc_time_of_day cfg) = Some (h, mi)" and w: "weekday_index (sc_day_of_week cfg) = Inr w"
    and k: "(local_weekday (fixed_loc off) now + k) mod 7 = w" "-7 < k" "k < 7"
  shows "candidate_time cfg off now (on_day (fixed_loc off) now k h mi)"
proof -
  let ?c = "on_day (fixed_loc off) now k h mi" let ?a = "schedule_anchor cfg" let ?d = "local_days (fixed_loc off) now"
  let ?x = "(h * 3600 + mi * 60) * sec_ns"
  have a: "?a = ?x + (w + 3) mod 7 * day_ns" "schedule_period cfg = 7 * day_ns"
    using f p w by (simp_all add: schedule_anchor_def schedule_period_def)
  have wr: "0 \<le> w" "w < 7" using weekday_index_range [OF w] by simp_all
  have hm: "0 \<le> h" "h < 24" "0 \<le> mi" "mi < 60" using parse_hhmm_range [OF p] by auto
  then have x: "0 \<le> ?x" "?x < day_ns" by (simp_all add: ns_units)
  have "((?d + k) + 4) mod 7 = w"
    using k(1) mod_add_left_eq [of "?d + 4" 7 k]
    by (simp add: local_weekday_def weekday_of_days_def ac_simps)
  then obtain j where j: "?d + k = j * 7 + (w + 3) mod 7" using weekday_class [OF wr] by blast
  have c: "local_ns off ?c = j * (7 * day_ns) + ?a"
    unfolding on_day_ns j a by (simp add: algebra_simps)
  have r: "0 \<le> ?a" "?a < 7 * day_ns" using anchor_range [OF ok] a by simp_all
  have "local_ns off ?c mod (7 * day_ns) = ?a" unfolding c using r by simp
  moreover have "-6 * day_ns \<le> k * day_ns" "k * day_ns \<le> 6 * day_ns" using k by (simp_all add: ns_units)
  then have "local_ns off now - 7 * day_ns < local_ns off ?c" "local_ns off ?c < local_ns off now + 7 * day_ns"
    using x local_ns_day [of off now] unfolding on_day_ns distrib_right by linarith+
  ultimately show ?thesis unfolding candidate_time_def a(2) by (simp add: local_ns_def)
qed


text \<open>Both functions shift such a candidate by at most one period.\<close>

lemma weekly_steps:
  fixes a b w :: int
  assumes "a = b" "0 \<le> w" "w < 7"
  shows "(b + - ((a - w + 7) mod 7)) mod 7 = w" "(b + (w - a + 7) mod 7) mod 7 = w"
    "-7 < - ((a - w + 7) mod 7)" "- ((a - w + 7) mod 7) < 7"
    "-7 < (w - a + 7) mod 7" "(w - a + 7) mod 7 < 7"
proof -
  show "(b + - ((a - w + 7) mod 7)) mod 7 = w"
    using assms mod_diff_right_eq [of b "a - w + 7" 7] by simp
  show "(b + (w - a + 7) mod 7) mod 7 = w"
    using assms mod_add_right_eq [of b "w - a + 7" 7] by simp
  show "-7 < - ((a - w + 7) mod 7)" "- ((a - w + 7) mod 7) < 7"
    "-7 < (w - a + 7) mod 7" "(w - a + 7) mod 7 < 7"
    using pos_mod_bound [of 7 "a - w + 7"] pos_mod_sign [of 7 "a - w + 7"]
      pos_mod_bound [of 7 "w - a + 7"] pos_mod_sign [of 7 "w - a + 7"] by linarith+
qed

lemma schedule_candidates:
  assumes z: "zones (sc_timezone cfg) = Some (fixed_loc off)" and ok: "schedule_ok cfg"
    and same: "same_weekday off now cfg"
  shows "\<exists>c. candidate_time cfg off now c \<and>
      next_scheduled_time zones now cfg = Inr (if c > now then c - schedule_period cfg else c)"
    "\<exists>c. candidate_time cfg off now c \<and>
      next_future_time zones now cfg = Inr (if c < now then c + schedule_period cfg else c)"
proof -
  let ?loc = "fixed_loc off"
  have lz: "load_zone zones cfg = Inr ?loc" using z by (simp add: load_zone_def)
  have "(\<exists>c. candidate_time cfg off now c \<and>
      next_scheduled_time zones now cfg = Inr (if c > now then c - schedule_period cfg else c)) \<and>
    (\<exists>c. candidate_time cfg off now c \<and>
      next_future_time zones now cfg = Inr (if c < now then c + schedule_period cfg else c))"
  proof (cases "sc_frequency cfg = ''hourly''")
    case True
    have P: "schedule_period cfg = hour_ns" using True by (simp add: schedule_period_def)
    show ?thesis using hourly_candidate [OF ok True, of off now] True lz P
      by (intro conjI exI) (auto simp: next_scheduled_time_def next_future_time_def Let_def)
  next
    case False
    then obtain h mi where p: "parse_hhmm (sc_time_of_day cfg) = Some (h, mi)"
      using ok by (auto simp: schedule_ok_def)
    then have hh: "schedule_hhmm cfg = Inr (h, mi)" by (simp add: schedule_hhmm_def)
    show ?thesis
    proof (cases "sc_frequency cfg = ''weekly''")
      case True
      obtain w where w: "weekday_index (sc_day_of_week cfg) = Inr w"
        using True ok weekday_index_total by (auto simp: schedule_ok_def)
      have wr: "0 \<le> w" "w < 7" using weekday_index_range [OF w] by simp_all
      have P: "schedule_period cfg = 7 * day_ns" using True by (simp add: schedule_period_def)
      have eq: "local_weekday utc_loc now = local_weekday ?loc now" using same True by (simp add: same_weekday_def)
      note st = weekly_steps [OF eq wr]
      define c1 where "c1 = on_day ?loc now (- ((local_weekday utc_loc now - w + 7) mod 7)) h mi"
      define c2 where "c2 = on_day ?loc now ((w - local_weekday utc_loc now + 7) mod 7) h mi"
      have "candidate_time cfg off now c1" "candidate_time cfg off now c2"
        unfolding c1_def c2_def by (intro weekly_candidate [OF ok True p w] st)+
      moreover have "next_scheduled_time zones now cfg = Inr (if c1 > now then c1 - schedule_period cfg else c1)"
        using True lz P w hh by (simp add: next_scheduled_time_def Let_def add_date_fixed c1_def)
      moreover have "next_future_time zones now cfg = Inr (if c2 < now then c2 + schedule_period cfg else c2)"
        using True lz P w hh by (simp add: next_future_time_def Let_def add_date_fixed c2_def)
      ultimately show ?thesis by blast
    next
      case F: False
      then have d: "sc_frequency cfg = ''daily''" using False ok by (auto simp: schedule_ok_def)
      have P: "schedule_period cfg = day_ns" using d by (simp add: schedule_period_def)
      show ?thesis using daily_candidate [OF ok d p, of off now] d lz P hh
        by (intro conjI exI) (auto simp: next_scheduled_time_def next_future_time_def Let_def add_date_fixed)
    qed
  qed
  then show "\<exists>c. candidate_time cfg off now c \<and>
      next_scheduled_time zones now cfg = Inr (if c > now then c - schedule_period cfg else c)"
    "\<exists>c. candidate_time cfg off now c \<and>
      next_future_time zones now cfg = Inr (if c < now then c + schedule_period cfg else c)" by simp_all
qed

lemma class_shift:
  "local_ns off (c - p) mod p = local_ns off c mod p" "local_ns off (c + p) mod p = local_ns off c mod p"
proof -
  have "local_ns off (c - p) = local_ns off c - p" "local_ns off (c + p) = local_ns off c + p"
    by (simp_all add: local_ns_def)
  then show "local_ns off (c - p) mod p = local_ns off c mod p" "local_ns off (c + p) mod p = local_ns off c mod p"
    by simp_all
qed

lemma next_scheduled_in_class:
  assumes "zones (sc_timezone cfg) = Some (fixed_loc off)" "schedule_ok cfg" "same_weekday off now cfg"
  shows "\<exists>r. next_scheduled_time zones now cfg = Inr r \<and>
    local_ns off r mod schedule_period cfg = schedule_anchor cfg \<and> r \<le> now \<and> now < r + schedule_period cfg"
proof -
  obtain c where c: "candidate_time cfg off now c"
      "next_scheduled_time zones now cfg = Inr (if c > now then c - schedule_period cfg else c)"
    using schedule_candidates(1) [of zones cfg off now] assms by blast
  show ?thesis by (intro exI conjI, rule c(2)) (use c(1) in \<open>auto simp: candidate_time_def class_shift\<close>)
qed

lemma next_scheduled_latest:
  assumes "zones (sc_timezone cfg) = Some (fixed_loc off)" "schedule_ok cfg" "same_weekday off now cfg"
  shows "\<exists>r. next_scheduled_time zones now cfg = Inr r \<and> occurs (fixed_loc off) cfg r \<and> r \<le> now \<and>
    (\<forall>t. occurs (fixed_loc off) cfg t \<longrightarrow> t \<le> now \<longrightarrow> t \<le> r)"
  using next_scheduled_in_class [of zones cfg off now, OF assms] latest_in_class [OF assms(2)] by metis

lemma next_future_least:
  assumes "zones (sc_timezone cfg) = Some (fixed_loc off)" "schedule_ok cfg" "same_weekday off now cfg"
  shows "\<exists>r. next_future_time zones now cfg = Inr r \<and> occurs (fixed_loc off) cfg r \<and> now \<le> r \<and>
    (\<forall>t. occurs (fixed_loc off) cfg t \<longrightarrow> now \<le> t \<longrightarrow> r \<le> t)"
proof -
  obtain c where c: "candidate_time cfg off now c"
      "next_future_time zones now cfg = Inr (if c < now then c + schedule_period cfg else c)"
    using schedule_candidates(2) [of zones cfg off now] assms by blast
  let ?r = "if c < now then c + schedule_period cfg else c"
  have "local_ns off ?r mod schedule_period cfg = schedule_anchor cfg" "now \<le> ?r" "?r - schedule_period cfg < now"
    using c(1) by (auto simp: candidate_time_def class_shift)
  note n = next_in_class [OF assms(2) this]
  show ?thesis using c(2) n \<open>now \<le> ?r\<close> by blast
qed

subsection \<open>Occurrences of a catch-up run\<close>

lemma previous_fixed:
  assumes "zones (sc_timezone cfg) = Some (fixed_loc off)" "schedule_ok cfg"
  shows "previous_scheduled_time zones t cfg = Inr (t - schedule_period cfg)"
proof -
  have "sc_frequency cfg \<noteq> ''monthly''" using assms(2) by (auto simp: schedule_ok_def)
  then show ?thesis using assms
    by (auto simp: previous_scheduled_time_def load_zone_def schedule_period_def add_date_fixed)
qed

text \<open>With steps of a fixed length the loop returns, newest first, the instants of a run of steps that are
  not taken, as many as there is room for.\<close>

definition steps_back :: "int \<Rightarrow> int \<Rightarrow> nat \<Rightarrow> int list" where
  "steps_back p cur n = map (\<lambda>j. cur - int j * p) [0..<n]"

lemma steps_back_Suc: "steps_back p cur (Suc n) = cur # steps_back p (cur - p) n"
proof -
  have "[0..<Suc n] = 0 # map Suc [0..<n]" by (simp only: map_Suc_upt upt_conv_Cons zero_less_Suc)
  then show ?thesis by (simp add: steps_back_def algebra_simps del: upt_Suc)
qed

lemma due_loop_steps:
  assumes "0 < p" "cur \<le> now"
  shows "\<exists>n xs. due_loop (\<lambda>t. Inr (t - p)) existing now room cur = Inr xs \<and>
    xs = filter (\<lambda>t. t \<notin> set existing) (steps_back p cur n) \<and> length xs = room"
  using assms
proof (induction "\<lambda>t. Inr (t - p) :: int res" existing now room cur rule: due_loop.induct)
  case (1 existing now room cur)
  show ?case
  proof (cases "room = 0")
    case True
    then show ?thesis by (intro exI [of _ 0]) (simp add: due_loop.simps steps_back_def)
  next
    case False
    let ?hit = "cur \<in> set existing" let ?room = "if ?hit then room else room - 1"
    have lt: "\<not> \<not> cur - p < cur" "\<not> now < cur - p" "cur - p \<le> now" using 1(2,3) by linarith+
    obtain n xs where r: "due_loop (\<lambda>t. Inr (t - p)) existing now ?room (cur - p) = Inr xs"
      "xs = filter (\<lambda>t. t \<notin> set existing) (steps_back p (cur - p) n)" "length xs = ?room"
      using 1(1) [OF False refl refl refl lt(1,2) 1(2) lt(3)] by blast
    have "due_loop (\<lambda>t. Inr (t - p)) existing now room cur = Inr (if ?hit then xs else cur # xs)"
      using False r(1) lt by (subst due_loop.simps) (simp add: Let_def)
    then show ?thesis using r(2,3) False
      by (intro exI [of _ "Suc n"]) (simp add: steps_back_Suc)
  qed
qed

lemma steps_back_occurs:
  assumes "schedule_ok cfg" "occurs (fixed_loc off) cfg r" "t \<in> set (steps_back (schedule_period cfg) r n)"
  shows "occurs (fixed_loc off) cfg t" "t \<le> r"
proof -
  obtain j where t: "t = r - int j * schedule_period cfg" using assms(3) by (auto simp: steps_back_def)
  have "local_ns off t = local_ns off r - int j * schedule_period cfg" by (simp add: t local_ns_def)
  then have "local_ns off t mod schedule_period cfg = local_ns off r mod schedule_period cfg"
    by (simp add: mod_eq_dvd_iff)
  then show "occurs (fixed_loc off) cfg t" using assms by (simp add: occurs_iff)
  show "t \<le> r" using period_pos [of cfg] by (simp add: t)
qed

lemma steps_back_all:
  assumes "schedule_ok cfg" "occurs (fixed_loc off) cfg r" "occurs (fixed_loc off) cfg t" "t \<le> r"
    "u \<in> set (steps_back (schedule_period cfg) r n)" "u \<le> t"
  shows "t \<in> set (steps_back (schedule_period cfg) r n)"
proof -
  let ?p = "schedule_period cfg"
  have "\<exists>j. u = r - int j * ?p \<and> j < n" using assms(5) by (auto simp: steps_back_def)
  then obtain j where j: "u = r - int j * ?p" "j < n" by blast
  have "local_ns off r mod ?p = local_ns off t mod ?p" using assms by (simp add: occurs_iff)
  then have "?p dvd r - t" by (simp add: mod_eq_dvd_iff local_ns_def)
  then obtain i where i: "r - t = ?p * i" by (auto simp: dvd_def)
  have "0 \<le> ?p * i" "?p * i \<le> int j * ?p" using i assms(4,6) j by linarith+
  then have "0 \<le> i" "i \<le> int j" using period_pos [of cfg] by (simp_all add: zero_le_mult_iff mult.commute)
  then have "t = r - int (nat i) * ?p" "nat i < n" using i j by (auto simp: mult.commute)
  then show ?thesis unfolding steps_back_def by force
qed

lemma steps_back_sorted: "0 < p \<Longrightarrow> sorted_wrt (>) (steps_back p cur n)"
  by (auto simp: steps_back_def sorted_wrt_iff_nth_less)

definition recurring_times :: "scheduled_item list \<Rightarrow> int set" where
  "recurring_times items = {si_scheduled_for x |x. x \<in> set items \<and> si_source x = ''recurring''}"

text \<open>C10. For an hourly, daily or weekly schedule in a zone of fixed offset whose weekday
  at the present is the UTC one, a catch-up run returns, oldest first, exactly as many occurrences
  as the limit (between 1 and 24) allows; each lies in the past, is an occurrence of the schedule
  and has no recurring execution yet, and no occurrence between the oldest of them and the present
  is left out unless it has one.\<close>

theorem due_times_backlog:
  assumes z: "zones (sc_timezone cfg) = Some (fixed_loc off)" and ok: "schedule_ok cfg"
    and same: "same_weekday off now cfg"
  shows "\<exists>due. due_times zones now cfg items limit = Inr due \<and>
    length due = nat (min 24 (max 1 limit)) \<and> sorted_wrt (<) due \<and>
    (\<forall>t \<in> set due. occurs (fixed_loc off) cfg t \<and> t \<le> now \<and> t \<notin> recurring_times items) \<and>
    (\<forall>t. occurs (fixed_loc off) cfg t \<longrightarrow> t \<le> now \<longrightarrow> (\<exists>u \<in> set due. u \<le> t) \<longrightarrow>
       t \<in> set due \<or> t \<in> recurring_times items)"
proof -
  let ?p = "schedule_period cfg" let ?room = "nat (min 24 (max 1 limit))"
  let ?E = "map si_scheduled_for (filter (\<lambda>x. si_source x = ''recurring'') items)"
  have E: "set ?E = recurring_times items" by (auto simp: recurring_times_def)
  obtain r where r: "next_scheduled_time zones now cfg = Inr r"
      "local_ns off r mod ?p = schedule_anchor cfg" "r \<le> now" "now < r + ?p"
    using next_scheduled_in_class [of zones cfg off now, OF assms] by blast
  note L = latest_in_class [OF ok r(2-4)]
  have prev: "(\<lambda>t. previous_scheduled_time zones t cfg) = (\<lambda>t. Inr (t - ?p))"
    using previous_fixed [of zones cfg off, OF z ok] by blast
  obtain n xs where x: "due_loop (\<lambda>t. Inr (t - ?p)) ?E now ?room r = Inr xs"
    "xs = filter (\<lambda>t. t \<notin> set ?E) (steps_back ?p r n)" "length xs = ?room"
    using due_loop_steps [OF period_pos r(3)] by blast
  have sx: "set xs = set (steps_back ?p r n) - recurring_times items" using x(2) E by auto
  have d: "due_times zones now cfg items limit = Inr (rev xs)"
    using r(1) x(1) by (simp add: due_times_def prev)
  have "sorted_wrt (>) xs" unfolding x(2) by (intro sorted_wrt_filter steps_back_sorted period_pos)
  then have "sorted_wrt (<) (rev xs)" by (simp add: sorted_wrt_rev)
  moreover have "\<forall>t \<in> set xs. occurs (fixed_loc off) cfg t \<and> t \<le> now \<and> t \<notin> recurring_times items"
    using steps_back_occurs [OF ok L(1)] r(3) unfolding sx by fastforce
  moreover have "\<forall>t. occurs (fixed_loc off) cfg t \<longrightarrow> t \<le> now \<longrightarrow> (\<exists>u \<in> set xs. u \<le> t) \<longrightarrow>
       t \<in> set xs \<or> t \<in> recurring_times items"
    using steps_back_all [OF ok L(1)] L(2) unfolding sx by blast
  ultimately show ?thesis using d x(3) by simp
qed


subsection \<open>Concrete schedules\<close>

definition demo_zones :: zones where
  "demo_zones z = (if z = ''UTC'' then Some (fixed_loc 0)
     else if z = ''Pacific/Kiritimati'' then Some (fixed_loc 50400) else None)"

definition weekly_demo :: "string \<Rightarrow> schedule_config" where
  "weekly_demo z = empty_schedule\<lparr>sc_enabled := True, sc_frequency := ''weekly'', sc_time_of_day := ''09:30'',
     sc_day_of_week := ''monday'', sc_timezone := z, sc_candidate_limit := 100\<rparr>"

definition monthly_demo :: schedule_config where
  "monthly_demo = empty_schedule\<lparr>sc_enabled := True, sc_frequency := ''monthly'', sc_time_of_day := ''09:30'',
     sc_day_of_month := 31, sc_timezone := ''UTC''\<rparr>"

text \<open>2024-01-03 (a Wednesday) 20:00 UTC, and 2024-03-31 00:30 UTC.\<close>

definition demo_now :: int where "demo_now = 1704312000 * 1000000000"
definition month_end :: int where "month_end = 1711845000 * 1000000000"

lemma weekly_demo_hyps:
  "demo_zones (sc_timezone (weekly_demo ''UTC'')) = Some (fixed_loc 0)" "schedule_ok (weekly_demo ''UTC'')"
  "same_weekday 0 demo_now (weekly_demo ''UTC'')"
  by (simp add: demo_zones_def weekly_demo_def) code_simp+

lemma normalize_schedule_idem_witness:
  "\<exists>c. normalize_schedule demo_zones ((weekly_demo '' UTC '')\<lparr>sc_day_of_week := '' Mon ''\<rparr>) = Inr c \<and>
     sc_day_of_week c = ''monday'' \<and> normalize_schedule demo_zones c = Inr c"
proof -
  have "normalize_schedule demo_zones ((weekly_demo '' UTC '')\<lparr>sc_day_of_week := '' Mon ''\<rparr>) = Inr (weekly_demo ''UTC'')"
    by code_simp
  moreover have "sc_day_of_week (weekly_demo ''UTC'') = ''monday''" by code_simp
  ultimately show ?thesis using normalize_schedule_idem by blast
qed

lemma next_scheduled_latest_witness:
  "\<exists>r. next_scheduled_time demo_zones demo_now (weekly_demo ''UTC'') = Inr r \<and>
     occurs (fixed_loc 0) (weekly_demo ''UTC'') r \<and> r \<le> demo_now"
  using next_scheduled_latest [of demo_zones "weekly_demo ''UTC''" 0 demo_now, OF weekly_demo_hyps] by blast

lemma next_future_least_witness:
  "\<exists>r. next_future_time demo_zones demo_now (weekly_demo ''UTC'') = Inr r \<and>
     occurs (fixed_loc 0) (weekly_demo ''UTC'') r \<and> demo_now \<le> r"
  using next_future_least [of demo_zones "weekly_demo ''UTC''" 0 demo_now, OF weekly_demo_hyps] by blast

lemma due_times_backlog_witness:
  "\<exists>due. due_times demo_zones demo_now (weekly_demo ''UTC'') [] 3 = Inr due \<and> length due = 3"
  using due_times_backlog [of demo_zones "weekly_demo ''UTC''" 0 demo_now "[]" 3, OF weekly_demo_hyps]
  by (auto simp: numeral_eq_Suc)

lemma weekly_schedule_off_by_a_day:
  "\<exists>r. next_scheduled_time demo_zones demo_now (weekly_demo ''Pacific/Kiritimati'') = Inr r \<and>
     local_weekday (fixed_loc 50400) r = 2 \<and> \<not> occurs (fixed_loc 50400) (weekly_demo ''Pacific/Kiritimati'') r"
proof -
  let ?cfg = "weekly_demo ''Pacific/Kiritimati''" let ?r = "1704137400 * 1000000000"
  have h: "schedule_hhmm ?cfg = Inr (9, 30)" "weekday_index (sc_day_of_week ?cfg) = Inr 1"
    "sc_frequency ?cfg = ''weekly''"
    by code_simp+
  have lz: "load_zone demo_zones ?cfg = Inr (fixed_loc 50400)"
    by (simp add: load_zone_def demo_zones_def weekly_demo_def)
  have "next_scheduled_time demo_zones demo_now ?cfg = Inr ?r"
    by (simp add: next_scheduled_time_def h lz Let_def on_day_fixed demo_now_def local_weekday_def
        weekday_of_days_def local_days_def local_sec_def unix_sec_def sec_ns_def)
  moreover have wd: "local_weekday (fixed_loc 50400) ?r = 2"
    by (simp add: local_weekday_def weekday_of_days_def local_days_def local_sec_def unix_sec_def sec_ns_def)
  moreover have "\<not> occurs (fixed_loc 50400) ?cfg ?r" by (simp only: occurs_def h wd) simp
  ultimately show ?thesis by blast
qed

lemma monthly_schedule_in_future:
  "\<exists>r. next_scheduled_time demo_zones month_end monthly_demo = Inr r \<and> month_end < r"
proof -
  have c: "civil_of_days 19813 = (2024, 3, 31)" by code_simp
  have c2: "civil_of_days 19784 = (2024, 3, 2)" by code_simp
  have h: "schedule_hhmm monthly_demo = Inr (9, 30)" "sc_day_of_month monthly_demo = 31"
    "sc_frequency monthly_demo = ''monthly''"
    by code_simp+
  have lz: "load_zone demo_zones monthly_demo = Inr (fixed_loc 0)"
    by (simp add: load_zone_def demo_zones_def monthly_demo_def)
  note local = local_year_def local_month_def local_day_def local_date_def local_days_def local_hour_def
    local_minute_def local_second_def local_nano_def local_sec_def unix_sec_def sec_ns_def
  have now: "local_year (fixed_loc 0) month_end = 2024" "local_month (fixed_loc 0) month_end = 3"
    "local_day (fixed_loc 0) month_end = 31" "local_hour (fixed_loc 0) month_end = 0"
    "local_minute (fixed_loc 0) month_end = 30" "local_second (fixed_loc 0) month_end = 0" "local_nano month_end = 0"
    by (simp_all add: local month_end_def c)
  let ?p = "1709339400 * 1000000000"
  have d: "days_of_civil 2024 3 31 = 19813" "days_of_civil 2024 2 31 = 19784" "days_of_civil 2024 4 0 = 19813"
    by (simp_all add: days_of_civil_def march_days_def)
  have earlier: "add_date (fixed_loc 0) month_end 0 (-1) 0 = ?p"
    by (simp add: add_date_def now go_date_def wall_sec_def d sec_ns_def)
  have prev: "local_year (fixed_loc 0) ?p = 2024" "local_month (fixed_loc 0) ?p = 3"
    by (simp_all add: local c2)
  have len: "days_in_month (fixed_loc 0) 2024 3 = 31"
    by (simp add: days_in_month_def go_date_def wall_sec_def d local c)
  have "on_month (fixed_loc 0) month_end 31 9 30 = 1711877400 * 1000000000"
    "on_month (fixed_loc 0) ?p 31 9 30 = 1711877400 * 1000000000"
    by (simp_all only: on_month_def now prev len Let_def) (simp_all add: go_date_def wall_sec_def d sec_ns_def)
  moreover have "month_end < 1711877400 * 1000000000" by (simp add: month_end_def)
  ultimately show ?thesis
    by (simp add: next_scheduled_time_def h lz earlier)
qed

end
