(* ===== verification/Ast_Validation.thy ===== *)
theory Ast_Validation
  imports Ast_Evidence
begin

text \<open>
  The static check of a formula against the tenant's data model (\<^verbatim>\<open>ast_eval/validation.go\<close>): the type
  \<^verbatim>\<open>ValidateNode\<close> infers and the errors it lists. One definition per case of the switch; each takes the
  model, the name and the entry of the current table, the check for the children and the node.
\<close>

datatype value_type =
  TUnknown | TBool | TString | TNumber | TTimestamp | TIPAddress | TNull | TList | TObject

fun type_name :: "value_type \<Rightarrow> string" where
  "type_name TUnknown = ''unknown''"
| "type_name TBool = ''bool''"
| "type_name TString = ''string''"
| "type_name TNumber = ''number''"
| "type_name TTimestamp = ''timestamp''"
| "type_name TIPAddress = ''ip_address''"
| "type_name TNull = ''null''"
| "type_name TList = ''list''"
| "type_name TObject = ''object''"

type_synonym verdict = "value_type \<times> string list"
type_synonym check = "node \<Rightarrow> verdict"
type_synonym checker = "tenant_model \<Rightarrow> string \<Rightarrow> tm_table \<Rightarrow> check \<Rightarrow> node \<Rightarrow> verdict"

text \<open>\<^verbatim>\<open>if len(errs) > 0 { return unknown, errs }; return result, nil\<close>\<close>

definition conclude :: "value_type \<Rightarrow> string list \<Rightarrow> verdict" where
  "conclude t errs = (if errs \<noteq> [] then (TUnknown, errs) else (t, []))"

definition reject :: "string \<Rightarrow> verdict" where
  "reject e = (TUnknown, [e])"

definition unless :: "bool \<Rightarrow> string \<Rightarrow> string list" where
  "unless ok e = (if ok then [] else [e])"

subsection \<open>Constants and declared types\<close>

text \<open>\<^verbatim>\<open>inferConstantType\<close>\<close>

fun infer_constant_type :: "gval \<Rightarrow> value_type" where
  "infer_constant_type VNil = TNull"
| "infer_constant_type (VBool _) = TBool"
| "infer_constant_type (VStr _) = TString"
| "infer_constant_type (VFloat _) = TNumber"
| "infer_constant_type (VFloat32 _) = TNumber"
| "infer_constant_type (VInt _) = TNumber"
| "infer_constant_type (VInt64 _) = TNumber"
| "infer_constant_type (VList _) = TList"
| "infer_constant_type (VObj _) = TObject"
| "infer_constant_type _ = TUnknown"

text \<open>\<^verbatim>\<open>mapFieldType\<close>\<close>

definition map_field_type :: "string \<Rightarrow> value_type" where
  "map_field_type t =
     (let k = to_lower t in
      if k = ''string'' \<or> k = ''text'' then TString
      else if k \<in> {''int'', ''integer'', ''float'', ''number'', ''numeric''} then TNumber
      else if k = ''bool'' \<or> k = ''boolean'' then TBool
      else if k = ''timestamp'' \<or> k = ''datetime'' then TTimestamp
      else if k = ''ip_address'' \<or> k = ''inet'' \<or> k = ''ip'' then TIPAddress
      else TUnknown)"

text \<open>\<^verbatim>\<open>comparisonTypesCompatible\<close>\<close>

definition comparison_types_compatible :: "value_type \<Rightarrow> value_type \<Rightarrow> bool" where
  "comparison_types_compatible l r =
     (l = r \<or> l = TIPAddress \<and> r = TString \<or> l = TString \<and> r = TIPAddress)"

text \<open>\<^verbatim>\<open>constantStringNode\<close>, and the same on a named child, which is the zero node when absent.\<close>

definition constant_string_node :: "node \<Rightarrow> string option" where
  "constant_string_node n =
     (if \<not> is_constant_fn (nd_fn n) then None
      else case nd_const n of VStr s \<Rightarrow> Some s | _ \<Rightarrow> None)"

definition named_constant :: "node \<Rightarrow> string \<Rightarrow> string option" where
  "named_constant n k = Option.bind (map_of (nd_named n) k) constant_string_node"

text \<open>Validating the zero node: a nil constant.\<close>

definition check_named_or_zero :: "check \<Rightarrow> node \<Rightarrow> string \<Rightarrow> verdict" where
  "check_named_or_zero vv n k = (case map_of (nd_named n) k of None \<Rightarrow> (TNull, []) | Some c \<Rightarrow> vv c)"

definition table_not_found :: "string \<Rightarrow> string" where
  "table_not_found t = ''table '' @ str_quote t @ '' not found in tenant model''"

subsection \<open>Named children\<close>

definition requires_named :: "node \<Rightarrow> string \<Rightarrow> string" where
  "requires_named n k = nd_fn n @ '' requires named child '' @ str_quote k"

definition must_resolve :: "node \<Rightarrow> string \<Rightarrow> string \<Rightarrow> string" where
  "must_resolve n k t = nd_fn n @ '' named child '' @ str_quote k @ '' must resolve to '' @ t"

definition no_positional :: "string \<Rightarrow> string" where
  "no_positional f = f @ '' does not accept positional children''"

text \<open>\<^verbatim>\<open>validateRequiredNamedChildType\<close> and \<^verbatim>\<open>validateRequiredNamedChildPresence\<close>\<close>

definition required_type :: "check \<Rightarrow> node \<Rightarrow> string \<Rightarrow> value_type \<Rightarrow> verdict" where
  "required_type vv n k want = (case map_of (nd_named n) k of
       None \<Rightarrow> reject (requires_named n k)
     | Some c \<Rightarrow> (let (t, errs) = vv c
         in conclude t (errs @ unless (t = want) (must_resolve n k (type_name want)))))"

definition required_presence :: "check \<Rightarrow> node \<Rightarrow> string \<Rightarrow> verdict" where
  "required_presence vv n k = (case map_of (nd_named n) k of
       None \<Rightarrow> reject (requires_named n k)
     | Some c \<Rightarrow> (let (t, errs) = vv c in conclude t errs))"

text \<open>\<^verbatim>\<open>validateNamedStringArgs\<close>\<close>

definition string_arg_errors :: "check \<Rightarrow> node \<Rightarrow> string \<Rightarrow> string list" where
  "string_arg_errors vv n k = (case map_of (nd_named n) k of
       None \<Rightarrow> [requires_named n k]
     | Some c \<Rightarrow> (let (t, errs) = vv c in errs @ unless (t = TString) (must_resolve n k ''string'')))"

definition named_string_args :: "check \<Rightarrow> node \<Rightarrow> value_type \<Rightarrow> string list \<Rightarrow> verdict" where
  "named_string_args vv n result names =
     (if nd_children n \<noteq> [] then reject (no_positional (nd_fn n))
      else conclude result (concat (map (string_arg_errors vv n) names)))"

text \<open>An optional named child whose type, if it is present, has to satisfy a test.\<close>

definition optional_named :: "check \<Rightarrow> node \<Rightarrow> string \<Rightarrow> (value_type \<Rightarrow> bool) \<Rightarrow> string \<Rightarrow> string list" where
  "optional_named vv n k ok msg = (case map_of (nd_named n) k of
       None \<Rightarrow> []
     | Some c \<Rightarrow> (let (t, errs) = vv c in errs @ unless (ok t) msg))"

definition optional_required :: "check \<Rightarrow> node \<Rightarrow> string \<Rightarrow> value_type \<Rightarrow> string list" where
  "optional_required vv n k want =
     (if map_of (nd_named n) k = None then [] else snd (required_type vv n k want))"

text \<open>\<^verbatim>\<open>validateNamedStringListArg\<close>: the path when it is a constant list, else the empty path.\<close>

fun texts_of :: "gval list \<Rightarrow> string list option" where
  "texts_of [] = Some []"
| "texts_of (VStr s # vs) = map_option ((#) s) (texts_of vs)"
| "texts_of (_ # vs) = None"

definition named_string_list_arg :: "check \<Rightarrow> node \<Rightarrow> string \<Rightarrow> string list \<times> string list" where
  "named_string_list_arg vv n k = (case map_of (nd_named n) k of
       None \<Rightarrow> ([], [requires_named n k])
     | Some c \<Rightarrow> (let (t, errs) = vv c; errs' = errs @ unless (t = TList) (must_resolve n k ''list'')
         in if errs' \<noteq> [] then ([], errs')
            else if \<not> is_constant_fn (nd_fn c) then ([], [])
            else (case nd_const c of
                VList items \<Rightarrow> (case texts_of items of
                    None \<Rightarrow> ([], [must_resolve n k ''list of strings''])
                  | Some ss \<Rightarrow> (ss, []))
              | _ \<Rightarrow> ([], []))))"

subsection \<open>Children\<close>

definition children_errors :: "check \<Rightarrow> node \<Rightarrow> (value_type \<Rightarrow> bool) \<Rightarrow> string \<Rightarrow> string list" where
  "children_errors vv n ok msg =
     concat (map (\<lambda>c. let (t, errs) = vv c in errs @ unless (ok t) msg) (nd_children n))"

definition any_type :: "value_type \<Rightarrow> bool" where
  "any_type t = True"

text \<open>Two children: the errors of both, then what the case says of their types.\<close>

definition two_checked ::
  "check \<Rightarrow> node \<Rightarrow> string \<Rightarrow> (value_type \<Rightarrow> value_type \<Rightarrow> string list \<Rightarrow> verdict) \<Rightarrow> verdict" where
  "two_checked vv n label k = (case nd_children n of
       [l, r] \<Rightarrow> (let (lt, le) = vv l; (rt, re) = vv r in k lt rt (le @ re))
     | _ \<Rightarrow> reject (label @ '' requires exactly two children''))"

definition one_checked :: "check \<Rightarrow> node \<Rightarrow> string \<Rightarrow> (value_type \<Rightarrow> string list \<Rightarrow> verdict) \<Rightarrow> verdict" where
  "one_checked vv n msg k = (case nd_children n of
       [c] \<Rightarrow> (let (t, errs) = vv c in k t errs)
     | _ \<Rightarrow> reject msg)"

text \<open>\<^verbatim>\<open>validateListInput\<close>\<close>

definition list_input :: "check \<Rightarrow> node \<Rightarrow> value_type \<Rightarrow> verdict" where
  "list_input vv n result = (case map_of (nd_named n) ''items'' of
       Some c \<Rightarrow> (let (t, errs) = vv c in conclude result (errs @ unless (t = TList) (must_resolve n ''items'' ''list'')))
     | None \<Rightarrow> one_checked vv n (nd_fn n @ '' expects exactly one list child or named child '' @ str_quote ''items'')
         (\<lambda>t errs. conclude result (errs @ unless (t = TList) (nd_fn n @ '' expects list input''))))"

subsection \<open>Related tables\<close>

text \<open>\<^verbatim>\<open>ResolveRelatedPathTable\<close>\<close>

fun resolve_links :: "tenant_model \<Rightarrow> tm_table \<Rightarrow> string list \<Rightarrow> tm_table res" where
  "resolve_links m table [] = Inr table"
| "resolve_links m table (raw # rest) =
     (let segment = trim_space raw in
      if segment = [] then Inl empty_segment_error
      else case map_of (tt_links table) segment of
        None \<Rightarrow> Inl (''link '' @ str_quote segment @ '' not found on related path'')
      | Some link \<Rightarrow> (case map_of (tm_tables m) (tl_parent_table link) of
          None \<Rightarrow> Inl (''related table '' @ str_quote (tl_parent_table link) @ '' not found in tenant model'')
        | Some parent \<Rightarrow> resolve_links m parent rest))"

definition resolve_related_path_table :: "tenant_model \<Rightarrow> string \<Rightarrow> string \<Rightarrow> tm_table res" where
  "resolve_related_path_table m tn path = (case map_of (tm_tables m) tn of
       None \<Rightarrow> Inl (table_not_found tn)
     | Some table \<Rightarrow> resolve_links m table (split_on (CHR ''.'') path))"

text \<open>\<^verbatim>\<open>resolveRelatedPathSegments\<close>\<close>

definition resolve_related_path_segments :: "tenant_model \<Rightarrow> string \<Rightarrow> string list \<Rightarrow> tm_table res" where
  "resolve_related_path_segments m tn path =
     (if path = [] then (case map_of (tm_tables m) tn of None \<Rightarrow> Inl (table_not_found tn) | Some t \<Rightarrow> Inr t)
      else resolve_related_path_table m tn (join_with ''.'' path))"

definition field_on_table :: "tm_table res \<Rightarrow> string \<Rightarrow> verdict" where
  "field_on_table table name = (case table of
       Inl e \<Rightarrow> reject e
     | Inr t \<Rightarrow> (case map_of (tt_fields t) name of
         None \<Rightarrow> reject (''field '' @ str_quote name @ '' not found on related table'')
       | Some f \<Rightarrow> (map_field_type (tf_type f), [])))"

text \<open>\<^verbatim>\<open>validateMarbleFilterOperator\<close>\<close>

definition filter_operator_errors :: "string \<Rightarrow> string \<Rightarrow> string list" where
  "filter_operator_errors fty operator =
     (let p = trim_space (to_lower operator); t = map_field_type fty;
          bad = ''field type '' @ fty @ '' is not valid for operator '' @ operator
      in if p = ''='' \<or> p = ''!='' \<or> p = neq_sign then []
         else if p \<in> {''>'', ''>='', ''<'', ''<=''} then unless (t \<in> {TNumber, TString, TTimestamp}) bad
         else if p \<in> {''isinlist'', ''isnotinlist'', ''stringstartswith'', ''stringendswith''} then unless (t = TString) bad
         else if p = ''isempty'' \<or> p = ''isnotempty'' then []
         else [''operator '' @ operator @ '' is not valid in filter''])"

text \<open>\<^verbatim>\<open>marbleAggregatorResultType\<close>: the exemption of counts compares the name as it was written.\<close>

definition aggregator_result_type :: "string \<Rightarrow> string \<Rightarrow> verdict" where
  "aggregator_result_type fty aggregator =
     (let p = to_upper (trim_space aggregator); t = map_field_type fty;
          bad = ''field type '' @ fty @ '' is not valid for aggregator '' @ aggregator
      in if p \<in> {''COUNT'', ''COUNT_DISTINCT'', ''SUM'', ''AVG'', ''STDDEV'', ''PCTILE'', ''MEDIAN''} then
           (if aggregator = ''COUNT'' \<or> aggregator = ''COUNT_DISTINCT'' then (TNumber, [])
            else if t \<noteq> TNumber then reject bad else (TNumber, []))
         else if p = ''MIN'' \<or> p = ''MAX'' then (if t = TNumber \<or> t = TTimestamp then (t, []) else reject bad)
         else reject (''aggregator '' @ aggregator @ '' is not valid''))"

subsection \<open>Fields, logic and comparisons\<close>

definition check_field_ref :: checker where
  "check_field_ref m tn table vv n = (case map_of (nd_named n) ''field'' of
       None \<Rightarrow> reject (''field_ref requires named child '' @ [CHR 0x27] @ ''field'' @ [CHR 0x27])
     | Some c \<Rightarrow> (case nd_const c of
         VStr name \<Rightarrow>
           if trim_space name = [] then reject ''field_ref field child must be a non-empty string''
           else (case map_of (tt_fields table) name of
               None \<Rightarrow> reject (''unknown field reference '' @ str_quote name)
             | Some f \<Rightarrow> (map_field_type (tf_type f), []))
       | _ \<Rightarrow> reject ''field_ref field child must be a non-empty string''))"

definition check_payload :: checker where
  "check_payload m tn table vv n = (case nd_children n of
       [c] \<Rightarrow> (case constant_string_node c of
           None \<Rightarrow> reject ''payload child must be a constant string''
         | Some name \<Rightarrow> (case map_of (tt_fields table) name of
             None \<Rightarrow> reject (''unknown field reference '' @ str_quote name)
           | Some f \<Rightarrow> (map_field_type (tf_type f), [])))
     | _ \<Rightarrow> reject ''payload requires exactly one child'')"

definition check_logic :: checker where
  "check_logic m tn table vv n =
     conclude TBool (unless (nd_children n \<noteq> []) (nd_fn n @ '' requires at least one child'') @
       children_errors vv n (\<lambda>t. t = TBool) (nd_fn n @ '' expects boolean children''))"

definition check_not :: checker where
  "check_not m tn table vv n = one_checked vv n ''not requires exactly one child'' (\<lambda>t errs.
     conclude TBool (errs @ unless (t = TBool) ''not expects a boolean child''))"

text \<open>The operand test for an ordering compares the name as it was written with \<^verbatim>\<open>eq\<close> and \<^verbatim>\<open>neq\<close>.\<close>

definition check_compare :: checker where
  "check_compare m tn table vv n = two_checked vv n (nd_fn n) (\<lambda>lt rt errs.
     if lt = TUnknown \<or> rt = TUnknown then
       (TUnknown, if errs = [] then [nd_fn n @ '' has unknown operand type''] else errs)
     else conclude TBool (errs
       @ unless (comparison_types_compatible lt rt) (nd_fn n @ '' expects matching operand types'')
       @ unless (nd_fn n = ''eq'' \<or> nd_fn n = ''neq'' \<or> lt \<in> {TNumber, TTimestamp, TString})
           (nd_fn n @ '' does not support operand type '' @ type_name lt)))"

subsection \<open>Text and lists\<close>

definition check_contains :: checker where
  "check_contains m tn table vv n = two_checked vv n ''contains'' (\<lambda>lt rt errs.
     conclude TBool (errs @
       (if lt = TString then unless (rt = TString) ''contains expects string right operand when left operand is string''
        else unless (lt = TList) (''contains does not support left operand type '' @ type_name lt))))"

definition check_string_not_contain :: checker where
  "check_string_not_contain m tn table vv n = two_checked vv n ''string_not_contain'' (\<lambda>lt rt errs.
     conclude TBool (errs @ unless (lt = TString \<and> rt = TString) ''string_not_contain expects string operands''))"

definition list_right_operand :: "check \<Rightarrow> node \<Rightarrow> string \<Rightarrow> verdict" where
  "list_right_operand vv n label = two_checked vv n label (\<lambda>lt rt errs.
     conclude TBool (errs @ unless (rt = TList) (label @ '' expects list right operand'')))"

definition check_in :: checker where
  "check_in m tn table vv n = list_right_operand vv n ''in''"

definition check_is_in_list :: checker where
  "check_is_in_list m tn table vv n = list_right_operand vv n (nd_fn n)"

definition check_contains_any :: checker where
  "check_contains_any m tn table vv n = two_checked vv n (nd_fn n) (\<lambda>lt rt errs.
     conclude TBool (errs @ unless (lt = TString) (nd_fn n @ '' expects string left operand'')
       @ unless (rt = TList) (nd_fn n @ '' expects list right operand'')))"

definition check_affix :: checker where
  "check_affix m tn table vv n = two_checked vv n (nd_fn n) (\<lambda>lt rt errs.
     conclude TBool (errs @ unless (lt = TString \<and> rt = TString) (nd_fn n @ '' expects string operands'')))"

definition check_letter_case :: checker where
  "check_letter_case m tn table vv n = one_checked vv n (nd_fn n @ '' requires exactly one child'') (\<lambda>t errs.
     conclude TString (errs @ unless (t = TString) (nd_fn n @ '' expects a string child'')))"

definition check_is_null :: checker where
  "check_is_null m tn table vv n = one_checked vv n ''is_null requires exactly one child'' (\<lambda>t errs.
     conclude TBool errs)"

definition check_is_empty :: checker where
  "check_is_empty m tn table vv n = one_checked vv n (nd_fn n @ '' requires exactly one child'') (\<lambda>t errs.
     conclude TBool errs)"

text \<open>The loop of \<^verbatim>\<open>coalesce\<close>: the first type that is neither null nor unknown.\<close>

definition coalesce_pick :: "value_type \<Rightarrow> value_type \<Rightarrow> value_type \<times> string list" where
  "coalesce_pick r t =
     (if t = TNull then (r, []) else if r = TUnknown then (t, [])
      else (r, unless (t = TUnknown \<or> t = r) ''coalesce expects children with compatible types''))"

fun coalesce_scan :: "check \<Rightarrow> value_type \<Rightarrow> node list \<Rightarrow> verdict" where
  "coalesce_scan vv r [] = (r, [])"
| "coalesce_scan vv r (c # cs) =
     (let (t, errs) = vv c; (r', e) = coalesce_pick r t; (rf, more) = coalesce_scan vv r' cs
      in (rf, errs @ e @ more))"

definition check_coalesce :: checker where
  "check_coalesce m tn table vv n =
     (if nd_children n = [] then reject ''coalesce requires at least one child''
      else let (r, errs) = coalesce_scan vv TUnknown (nd_children n)
           in conclude (if r = TUnknown then TNull else r) errs)"

definition check_arithmetic :: checker where
  "check_arithmetic m tn table vv n = two_checked vv n (nd_fn n) (\<lambda>lt rt errs.
     conclude TNumber (errs @ unless (lt = TNumber \<and> rt = TNumber) (nd_fn n @ '' expects numeric operands'')))"

definition check_list :: checker where
  "check_list m tn table vv n = conclude TList (children_errors vv n any_type [])"

subsection \<open>Repositories\<close>

definition check_in_custom_list :: checker where
  "check_in_custom_list m tn table vv n = named_string_args vv n TBool [''list'', ''value'']"

definition check_record_has_tag :: checker where
  "check_record_has_tag m tn table vv n = named_string_args vv n TBool [''tag'']"

definition check_custom_list_access :: checker where
  "check_custom_list_access m tn table vv n = named_string_args vv n TList [''customListId'']"

definition check_record_risk_level :: checker where
  "check_record_risk_level m tn table vv n =
     (if nd_children n \<noteq> [] \<or> nd_named n \<noteq> [] then reject ''record_risk_level does not accept children''
      else (TString, []))"

definition check_has_ip_flag :: checker where
  "check_has_ip_flag m tn table vv n =
     (if nd_children n \<noteq> [] then reject (no_positional ''has_ip_flag'')
      else let (t, errs) = required_presence vv n ''ip''
           in conclude TBool (errs
                @ unless (t = TIPAddress \<or> t = TString)
                    (''has_ip_flag named child '' @ str_quote ''ip'' @ '' must resolve to ip_address'')
                @ snd (required_type vv n ''flag'' TString)))"

text \<open>\<^verbatim>\<open>validateGeoIPFunction\<close>\<close>

definition check_geo :: checker where
  "check_geo m tn table vv n = one_checked vv n (nd_fn n @ '' requires exactly one child'') (\<lambda>t errs.
     conclude (if canon n = ''ip_geo_found'' then TBool else TString)
       (errs @ unless (t = TIPAddress) (nd_fn n @ '' expects an ip_address child'')))"

definition check_past_decision_count :: checker where
  "check_past_decision_count m tn table vv n =
     (if nd_children n \<noteq> [] then reject (no_positional ''past_decision_count'')
      else conclude TNumber
        (optional_named vv n ''outcome'' (\<lambda>t. t = TString) ''past_decision_count outcome must be string''))"

text \<open>Errors about a field of a table that are named by constants.\<close>

definition related_column_errors :: "tm_table \<Rightarrow> string \<Rightarrow> string \<Rightarrow> string list" where
  "related_column_errors target object_type field =
     unless (map_of (tt_fields target) field \<noteq> None)
       (''field '' @ str_quote field @ '' not found on related table '' @ str_quote object_type)"

definition check_related_count :: checker where
  "check_related_count m tn table vv n =
     (let (t, errs) = named_string_args vv n TNumber [''object_type'', ''field'']
      in conclude t (errs @ optional_named vv n ''equals'' any_type [] @
           (case named_constant n ''object_type'' of None \<Rightarrow> []
            | Some ty \<Rightarrow> (case map_of (tm_tables m) ty of
                None \<Rightarrow> [table_not_found ty]
              | Some target \<Rightarrow> (case named_constant n ''field'' of None \<Rightarrow> []
                  | Some f \<Rightarrow> related_column_errors target ty f)))))"

text \<open>A field of a named child's constant, the empty text when it is no text.\<close>

definition raw_constant :: "node \<Rightarrow> string \<Rightarrow> string" where
  "raw_constant n k = (case map_of (nd_named n) k of None \<Rightarrow> []
     | Some c \<Rightarrow> (case nd_const c of VStr s \<Rightarrow> s | _ \<Rightarrow> []))"

definition check_related_field :: checker where
  "check_related_field m tn table vv n =
     (let (t, errs) = named_string_args vv n TUnknown [''path'', ''field'']
      in if errs \<noteq> [] then (TUnknown, errs)
         else field_on_table (resolve_related_path_table m tn (raw_constant n ''path'')) (raw_constant n ''field''))"

definition check_database_access :: checker where
  "check_database_access m tn table vv n =
     (let (t, errs) = named_string_args vv n TUnknown [''tableName'', ''fieldName'']
      in if errs \<noteq> [] then (TUnknown, errs)
         else let (path, perrs) = named_string_list_arg vv n ''path''
              in if perrs \<noteq> [] then (TUnknown, perrs)
                 else field_on_table (resolve_related_path_segments m tn path)
                        (case named_constant n ''fieldName'' of None \<Rightarrow> [] | Some f \<Rightarrow> f))"

subsection \<open>Filters and aggregates\<close>

text \<open>What the constants of a filter or an aggregator say of their table and field.\<close>

definition on_table_field ::
  "tenant_model \<Rightarrow> node \<Rightarrow> (tm_field \<Rightarrow> string list) \<Rightarrow> string list" where
  "on_table_field m n k = (case named_constant n ''tableName'' of None \<Rightarrow> []
     | Some t \<Rightarrow> (case map_of (tm_tables m) t of
         None \<Rightarrow> [table_not_found t]
       | Some target \<Rightarrow> (case named_constant n ''fieldName'' of None \<Rightarrow> []
           | Some f \<Rightarrow> (case map_of (tt_fields target) f of
               None \<Rightarrow> [''field '' @ str_quote f @ '' not found on table '' @ str_quote t]
             | Some field \<Rightarrow> k field))))"

definition required_texts :: "check \<Rightarrow> node \<Rightarrow> string list \<Rightarrow> string list" where
  "required_texts vv n ks = concat (map (\<lambda>k. snd (required_type vv n k TString)) ks)"

definition check_filter :: checker where
  "check_filter m tn table vv n =
     (if nd_children n \<noteq> [] then reject (no_positional ''filter'')
      else conclude TObject (required_texts vv n [''tableName'', ''fieldName'', ''operator'']
        @ on_table_field m n (\<lambda>field. case named_constant n ''operator'' of None \<Rightarrow> []
            | Some operator \<Rightarrow> filter_operator_errors (tf_type field) operator)
        @ optional_named vv n ''value'' any_type []))"

text \<open>The type of an aggregator whose names are all constants; unknown otherwise.\<close>

definition aggregator_verdict :: "tenant_model \<Rightarrow> node \<Rightarrow> verdict" where
  "aggregator_verdict m n =
     (case Option.bind (named_constant n ''tableName'') (\<lambda>t. Option.bind (map_of (tm_tables m) t) (\<lambda>target.
         Option.bind (named_constant n ''fieldName'') (\<lambda>f. Option.bind (map_of (tt_fields target) f) (\<lambda>field.
         map_option (\<lambda>a. aggregator_result_type (tf_type field) a) (named_constant n ''aggregator''))))) of
       None \<Rightarrow> (TUnknown, on_table_field m n (\<lambda>_. []))
     | Some v \<Rightarrow> v)"

definition check_aggregator :: checker where
  "check_aggregator m tn table vv n =
     (if nd_children n \<noteq> [] then reject (no_positional ''aggregator'')
      else let (t, errs) = aggregator_verdict m n in
        conclude t (required_texts vv n [''tableName'', ''fieldName'', ''aggregator'']
          @ optional_named vv n ''filters'' (\<lambda>ft. ft = TList)
              (''aggregator named child '' @ str_quote ''filters'' @ '' must resolve to list'') @ errs))"

subsection \<open>Time\<close>

definition check_time_now :: checker where
  "check_time_now m tn table vv n = (TTimestamp, [])"

definition check_parse_time :: checker where
  "check_parse_time m tn table vv n = one_checked vv n ''parse_time requires exactly one child'' (\<lambda>t errs.
     conclude TTimestamp (errs @ unless (t = TString) ''parse_time expects string child''))"

definition check_time_add :: checker where
  "check_time_add m tn table vv n = conclude TTimestamp
     (required_texts vv n [''duration'', ''sign''] @ snd (check_named_or_zero vv n ''timestampField''))"

definition check_timestamp_extract :: checker where
  "check_timestamp_extract m tn table vv n = conclude TNumber
     (required_texts vv n [''part''] @ snd (required_presence vv n ''timestamp'')
      @ (case named_constant n ''part'' of None \<Rightarrow> []
         | Some part \<Rightarrow>
             unless (to_lower part \<in> {''year'', ''month'', ''day_of_month'', ''day_of_week'', ''hour''})
               (''timestamp_extract part '' @ str_quote part @ '' is not supported'')))"

subsection \<open>Fuzzy matching, numbers and text\<close>

definition check_fuzzy_match :: checker where
  "check_fuzzy_match m tn table vv n = two_checked vv n ''fuzzy_match'' (\<lambda>lt rt errs.
     conclude TNumber (errs @ required_texts vv n [''algorithm'']
       @ unless (lt = TString \<and> rt = TString) ''fuzzy_match expects string operands''))"

definition check_fuzzy_match_any_of :: checker where
  "check_fuzzy_match_any_of m tn table vv n = two_checked vv n ''fuzzy_match_any_of'' (\<lambda>lt rt errs.
     conclude TNumber (errs @ required_texts vv n [''algorithm'']
       @ unless (lt = TString \<and> rt = TList)
           ''fuzzy_match_any_of expects string left operand and list right operand''))"

definition check_fuzzy_options :: checker where
  "check_fuzzy_options m tn table vv n = conclude TObject
     (required_texts vv n [''algorithm''] @ snd (required_type vv n ''threshold'' TNumber)
      @ required_texts vv n [''value''])"

definition check_is_multiple_of :: checker where
  "check_is_multiple_of m tn table vv n = conclude TBool
     (snd (required_presence vv n ''value'') @ snd (required_type vv n ''divider'' TNumber))"

definition printable_type :: "value_type \<Rightarrow> bool" where
  "printable_type t = (t \<in> {TString, TNumber, TNull})"

definition check_string_concat :: checker where
  "check_string_concat m tn table vv n = conclude TString
     (children_errors vv n printable_type ''string_concat children must resolve to string, number, or null''
      @ optional_required vv n ''with_separator'' TBool @ optional_required vv n ''separator'' TString)"

definition check_string_template :: checker where
  "check_string_template m tn table vv n = one_checked vv n ''string_template requires exactly one child''
     (\<lambda>t errs. conclude TString (errs @ unless (t = TString) ''string_template expects string template child''
        @ concat (map (\<lambda>(k, c). let (ct, ce) = vv c in ce @ unless (printable_type ct)
            (''string_template variable '' @ str_quote k @ '' must resolve to string, number, or null''))
            (nd_named n))))"

subsection \<open>Scores\<close>

definition check_score_computation :: checker where
  "check_score_computation m tn table vv n =
     one_checked vv n ''score_computation must have exactly one child'' (\<lambda>t errs.
       conclude TObject (errs @ unless (t = TBool) ''score_computation child must resolve to boolean''
         @ snd (required_type vv n ''modifier'' TNumber) @ optional_required vv n ''floor'' TNumber))"

definition check_switch :: checker where
  "check_switch m tn table vv n =
     (if nd_children n = [] then reject ''switch should have at least one branch''
      else conclude TObject (snd (required_presence vv n ''field'')
        @ optional_named vv n ''fallback'' (\<lambda>t. t = TObject) ''switch fallback must resolve to score computation result''
        @ children_errors vv n (\<lambda>t. t = TObject) ''switch branches must resolve to score computation results''))"

subsection \<open>Records and lists\<close>

definition related_records_text :: "string \<Rightarrow> string \<Rightarrow> string" where
  "related_records_text k t = ''related_records named child '' @ str_quote k @ '' must resolve to '' @ t"

definition check_related_records :: checker where
  "check_related_records m tn table vv n =
     (let (t, errs) = named_string_args vv n TList [''object_type''];
          text = (\<lambda>k. optional_named vv n k (\<lambda>t. t = TString) (related_records_text k ''string''));
          number = (\<lambda>k. optional_named vv n k (\<lambda>t. t = TNumber) (related_records_text k ''number''))
      in conclude t (errs @ text ''match_field'' @ optional_named vv n ''equals'' any_type []
        @ text ''timestamp_field'' @ number ''within_hours'' @ number ''limit''
        @ (case named_constant n ''object_type'' of None \<Rightarrow> []
           | Some ty \<Rightarrow> (case map_of (tm_tables m) ty of
               None \<Rightarrow> [table_not_found ty]
             | Some target \<Rightarrow>
                 (case named_constant n ''match_field'' of None \<Rightarrow> []
                  | Some f \<Rightarrow> related_column_errors target ty f)
                 @ (case named_constant n ''timestamp_field'' of None \<Rightarrow> []
                    | Some f \<Rightarrow> (case map_of (tt_fields target) f of
                        None \<Rightarrow> related_column_errors target ty f
                      | Some field \<Rightarrow> unless (map_field_type (tf_type field) = TTimestamp)
                          (''field '' @ str_quote f @ '' on related table '' @ str_quote ty
                            @ '' must be timestamp-compatible'')))))))"

text \<open>The named children of \<^verbatim>\<open>filter_eq\<close> and \<^verbatim>\<open>map_field\<close>; the field is the zero node when absent.\<close>

definition items_and_field :: "check \<Rightarrow> node \<Rightarrow> string \<Rightarrow> (string list \<Rightarrow> verdict) \<Rightarrow> verdict" where
  "items_and_field vv n f k =
     (if nd_children n \<noteq> [] then reject (no_positional f)
      else case map_of (nd_named n) ''items'' of
        None \<Rightarrow> reject (f @ '' requires named child '' @ str_quote ''items'')
      | Some c \<Rightarrow> (let (it, ie) = vv c; (ft, fe) = check_named_or_zero vv n ''field''
          in k (ie @ unless (it = TList) (f @ '' named child '' @ str_quote ''items'' @ '' must resolve to list'')
             @ fe @ unless (ft = TString) (f @ '' named child '' @ str_quote ''field'' @ '' must resolve to string''))))"

definition check_filter_eq :: checker where
  "check_filter_eq m tn table vv n = items_and_field vv n ''filter_eq'' (\<lambda>errs.
     conclude TList (errs @ (case map_of (nd_named n) ''value'' of
         Some c \<Rightarrow> snd (vv c)
       | None \<Rightarrow> [''filter_eq requires named child '' @ str_quote ''value''])))"

definition check_map_field :: checker where
  "check_map_field m tn table vv n = items_and_field vv n ''map_field'' (conclude TList)"

definition check_list_aggregate :: checker where
  "check_list_aggregate m tn table vv n = list_input vv n TNumber"

definition check_group_count :: checker where
  "check_group_count m tn table vv n =
     (if nd_children n \<noteq> [] then reject (no_positional ''group_count'')
      else conclude TObject (snd (required_type vv n ''items'' TList) @ required_texts vv n [''field'']))"

definition check_group_sum :: checker where
  "check_group_sum m tn table vv n =
     (if nd_children n \<noteq> [] then reject (no_positional ''group_sum'')
      else conclude TObject (snd (required_type vv n ''items'' TList)
        @ required_texts vv n [''group_field'', ''value_field'']))"

definition check_object_get :: checker where
  "check_object_get m tn table vv n =
     (if nd_children n \<noteq> [] then reject (no_positional ''object_get'')
      else conclude TUnknown (snd (required_type vv n ''object'' TObject) @ required_texts vv n [''key'']))"

subsection \<open>The switch\<close>

definition check_cases :: "(string \<times> checker) list" where
  "check_cases =
    [(''field_ref'', check_field_ref), (''and'', check_logic), (''or'', check_logic), (''not'', check_not),
     (''eq'', check_compare), (''neq'', check_compare), (''gt'', check_compare), (''gte'', check_compare),
     (''lt'', check_compare), (''lte'', check_compare), (''contains'', check_contains),
     (''string_not_contain'', check_string_not_contain), (''in'', check_in),
     (''contains_any'', check_contains_any), (''contains_none'', check_contains_any),
     (''starts_with'', check_affix), (''ends_with'', check_affix), (''lower'', check_letter_case),
     (''upper'', check_letter_case), (''is_null'', check_is_null), (''is_empty'', check_is_empty),
     (''is_not_empty'', check_is_empty), (''coalesce'', check_coalesce), (''add'', check_arithmetic),
     (''subtract'', check_arithmetic), (''multiply'', check_arithmetic), (''divide'', check_arithmetic),
     (''in_custom_list'', check_in_custom_list), (''record_has_tag'', check_record_has_tag),
     (''record_risk_level'', check_record_risk_level), (''has_ip_flag'', check_has_ip_flag),
     (''ip_country'', check_geo), (''ip_country_code'', check_geo), (''ip_region'', check_geo),
     (''ip_region_code'', check_geo), (''ip_continent_code'', check_geo), (''ip_geo_found'', check_geo),
     (''past_decision_count'', check_past_decision_count), (''related_count'', check_related_count),
     (''related_field'', check_related_field), (''payload'', check_payload), (''list'', check_list),
     (''filter'', check_filter), (''aggregator'', check_aggregator),
     (''database_access'', check_database_access), (''time_now'', check_time_now),
     (''parse_time'', check_parse_time), (''timestamp_extract'', check_timestamp_extract),
     (''time_add'', check_time_add), (''custom_list_access'', check_custom_list_access),
     (''fuzzy_match'', check_fuzzy_match), (''fuzzy_match_any_of'', check_fuzzy_match_any_of),
     (''fuzzy_match_filter_options'', check_fuzzy_options), (''is_in_list'', check_is_in_list),
     (''is_not_in_list'', check_is_in_list), (''is_multiple_of'', check_is_multiple_of),
     (''string_concat'', check_string_concat), (''string_template'', check_string_template),
     (''score_computation'', check_score_computation), (''switch'', check_switch),
     (''related_records'', check_related_records), (''filter_eq'', check_filter_eq),
     (''map_field'', check_map_field), (''list_count'', check_list_aggregate),
     (''sum'', check_list_aggregate), (''avg'', check_list_aggregate), (''min'', check_list_aggregate),
     (''max'', check_list_aggregate), (''group_count'', check_group_count),
     (''group_sum'', check_group_sum), (''object_get'', check_object_get)]"

definition validate_step :: "tenant_model \<Rightarrow> string \<Rightarrow> check \<Rightarrow> node \<Rightarrow> verdict" where
  "validate_step m tn vv n = (case map_of (tm_tables m) tn of
       None \<Rightarrow> reject (table_not_found tn)
     | Some table \<Rightarrow>
         if nd_fn n = [] \<or> canon n = ''constant'' then (infer_constant_type (nd_const n), [])
         else (case map_of check_cases (canon n) of
             None \<Rightarrow> reject (''unsupported AST function '' @ str_quote (nd_fn n))
           | Some h \<Rightarrow> h m tn table vv n))"

subsection \<open>Checks read the children only\<close>

named_theorems check_congs

lemma named_checks_below [check_congs]:
  assumes "agree_below f g n"
  shows "required_type f n k want = required_type g n k want"
    "required_presence f n k = required_presence g n k"
    "string_arg_errors f n = string_arg_errors g n"
    "optional_named f n k ok msg = optional_named g n k ok msg"
    "named_string_list_arg f n k = named_string_list_arg g n k"
    "check_named_or_zero f n k = check_named_or_zero g n k"
  using agree_named [OF assms]
  by (auto simp: fun_eq_iff required_type_def required_presence_def string_arg_errors_def optional_named_def
      named_string_list_arg_def check_named_or_zero_def split: option.splits)

lemma child_checks_below [check_congs]:
  assumes "agree_below f g n"
  shows "children_errors f n ok msg = children_errors g n ok msg"
    "two_checked f n l k2 = two_checked g n l k2" "one_checked f n msg k1 = one_checked g n msg k1"
proof -
  show "children_errors f n ok msg = children_errors g n ok msg"
    using agree_child [OF assms] by (auto simp: children_errors_def intro!: arg_cong [where f = concat])
  show "two_checked f n l k2 = two_checked g n l k2" "one_checked f n msg k1 = one_checked g n msg k1"
    using agree_child [OF assms] by (auto simp: two_checked_def one_checked_def split: list.splits)
qed

lemma derived_checks_below [check_congs]:
  assumes "agree_below f g n"
  shows "named_string_args f n t ks = named_string_args g n t ks"
    "optional_required f n k want = optional_required g n k want"
    "required_texts f n ks = required_texts g n ks" "list_input f n t = list_input g n t"
    "list_right_operand f n l = list_right_operand g n l"
    "items_and_field f n l ke = items_and_field g n l ke"
proof -
  have "map_of (nd_named n) k = Some c \<Longrightarrow> f c = g c" for k c using agree_named [OF assms] .
  then show "list_input f n t = list_input g n t" "items_and_field f n l ke = items_and_field g n l ke"
    by (simp_all add: list_input_def items_and_field_def check_congs [OF assms] split: option.splits)
qed (simp_all only: named_string_args_def optional_required_def required_texts_def list_right_operand_def
    check_congs [OF assms])

lemma coalesce_scan_cong: "(\<And>c. c \<in> set cs \<Longrightarrow> f c = g c) \<Longrightarrow> coalesce_scan f r cs = coalesce_scan g r cs"
  by (induction cs arbitrary: r) (auto split: prod.splits)

lemma template_variables_below:
  assumes "agree_below f g n"
  shows "map (\<lambda>(k, c). let (ct, ce) = f c in ce @ unless (printable_type ct) (msg k)) (nd_named n) =
    map (\<lambda>(k, c). let (ct, ce) = g c in ce @ unless (printable_type ct) (msg k)) (nd_named n)"
proof -
  have "f c = g c" if "(k, c) \<in> set (nd_named n)" for k c
    using assms named_member_size [OF that] by (auto simp: agree_below_def)
  then show ?thesis by auto
qed

lemma validate_step_below:
  assumes a: "agree_below f g n"
  shows "validate_step m tn f n = validate_step m tn g n"
proof -
  have co: "coalesce_scan f r (nd_children n) = coalesce_scan g r (nd_children n)" for r
    using agree_child [OF a] by (intro coalesce_scan_cong)
  have fe: "check_filter_eq m tn table f n = check_filter_eq m tn table g n" for table
    using agree_named [OF a] by (auto simp: check_filter_eq_def check_congs [OF a] split: option.splits)
  have "list_all (\<lambda>(k, h). h m tn table f n = h m tn table g n) check_cases" for table
    unfolding check_cases_def list.pred_inject prod.case fe
      check_field_ref_def check_payload_def check_logic_def check_not_def check_compare_def check_contains_def
      check_string_not_contain_def check_in_def check_is_in_list_def check_contains_any_def check_affix_def
      check_letter_case_def check_is_null_def check_is_empty_def check_coalesce_def check_arithmetic_def
      check_list_def check_in_custom_list_def check_record_has_tag_def check_custom_list_access_def
      check_record_risk_level_def check_has_ip_flag_def check_geo_def check_past_decision_count_def
      check_related_count_def check_related_field_def check_database_access_def check_filter_def
      check_aggregator_def check_time_now_def check_parse_time_def check_time_add_def
      check_timestamp_extract_def check_fuzzy_match_def check_fuzzy_match_any_of_def check_fuzzy_options_def
      check_is_multiple_of_def check_string_concat_def check_string_template_def check_score_computation_def
      check_switch_def check_related_records_def check_map_field_def check_list_aggregate_def
      check_group_count_def check_group_sum_def check_object_get_def
    by (simp only: check_congs [OF a] co template_variables_below [OF a] list.pred_inject simp_thms)
  then have "h m tn table f n = h m tn table g n" if "map_of check_cases k = Some h" for k h table
    using map_of_SomeD [OF that] by (auto simp: list_all_iff)
  then show ?thesis by (simp add: validate_step_def split: option.splits)
qed

lemma validate_step_cong [fundef_cong]:
  "m = m' \<Longrightarrow> tn = tn' \<Longrightarrow> n = n' \<Longrightarrow> (\<And>c. size c < size n' \<Longrightarrow> f c = g c) \<Longrightarrow>
    validate_step m tn f n = validate_step m' tn' g n'"
  by (simp add: validate_step_below agree_below_def)

text \<open>\<^verbatim>\<open>ValidateNode\<close>\<close>

function validate_node :: "tenant_model \<Rightarrow> string \<Rightarrow> node \<Rightarrow> verdict" where
  "validate_node m tn n = validate_step m tn (validate_node m tn) n"
  by pat_completeness auto
termination
  by (relation "measure (\<lambda>(m, tn, n). size n)") auto

declare validate_node.simps [simp del]

end
