(* ===== verification/Validation_Laws.thy ===== *)
theory Validation_Laws
  imports Ast_Validation
begin

text \<open>
  What a successful validation promises: errors and the unknown type go together, every function the
  validator admits is a case of the evaluator, and a formula that was given a type evaluates to null
  or to a value of that type on records that respect the data model.
\<close>

subsection \<open>Errors\<close>

definition clean :: "verdict \<Rightarrow> bool" where
  "clean v = (snd v \<noteq> [] \<longrightarrow> fst v = TUnknown)"

lemma clean_simps [simp]:
  "clean (conclude t errs)" "clean (reject e)" "clean (TUnknown, errs)" "clean (t, [])"
  by (auto simp: clean_def conclude_def reject_def)

lemma clean_two: "(\<And>l r e. clean (k l r e)) \<Longrightarrow> clean (two_checked vv n msg k)"
  by (auto simp: two_checked_def split: list.splits prod.splits)

lemma clean_one: "(\<And>t e. clean (k t e)) \<Longrightarrow> clean (one_checked vv n msg k)"
  by (auto simp: one_checked_def split: list.splits prod.splits)

lemma clean_field_on_table: "clean (field_on_table t f)"
  by (auto simp: field_on_table_def split: sum.splits option.splits)

lemma clean_named_string_args: "clean (named_string_args vv n t ks)"
  by (simp add: named_string_args_def)

lemma clean_items: "(\<And>e. clean (k e)) \<Longrightarrow> clean (items_and_field vv n f k)"
  by (auto simp: items_and_field_def split: option.splits prod.splits)

lemmas clean_combinators = clean_two clean_one clean_field_on_table clean_named_string_args clean_items

lemma clean_cases: "list_all (\<lambda>(k, h). clean (h m tn table vv n)) check_cases"
  unfolding check_cases_def list.pred_inject prod.case
    check_logic_def check_not_def check_compare_def check_contains_def
      check_string_not_contain_def check_in_def check_is_in_list_def check_contains_any_def check_affix_def
      check_letter_case_def check_is_null_def check_is_empty_def check_arithmetic_def
      check_list_def check_in_custom_list_def check_record_has_tag_def check_custom_list_access_def
      check_geo_def list_right_operand_def check_time_now_def check_parse_time_def check_time_add_def
      check_timestamp_extract_def check_fuzzy_match_def check_fuzzy_match_any_of_def check_fuzzy_options_def
      check_is_multiple_of_def check_string_concat_def check_string_template_def check_score_computation_def
      check_filter_eq_def check_map_field_def
  by (intro conjI clean_combinators TrueI clean_simps;
      (auto intro!: clean_combinators split: if_splits
        simp: check_field_ref_def check_payload_def check_coalesce_def check_record_risk_level_def check_has_ip_flag_def
        check_past_decision_count_def check_related_count_def check_related_field_def check_database_access_def
        check_filter_def check_aggregator_def check_switch_def check_related_records_def check_list_aggregate_def
        list_input_def check_group_count_def check_group_sum_def check_object_get_def
        split: option.splits gval.splits list.splits prod.splits)?)


lemma validate_node_case:
  assumes "map_of (tm_tables m) tn = Some table" "map_of check_cases (canon n) = Some h"
  shows "validate_node m tn n = h m tn table (validate_node m tn) n"
proof -
  have e: "map_of check_cases [] = None" "map_of check_cases ''constant'' = None" by code_simp+
  have "canonical_function_name [] = []" by code_simp
  then have "nd_fn n \<noteq> []" "canon n \<noteq> ''constant''" using assms(2) e by (auto simp: canon_def)
  then show ?thesis using assms by (simp add: validate_node.simps [of m tn n] validate_step_def)
qed

lemma validate_node_clean: "clean (validate_node m tn n)"
  using clean_cases [of m tn _ "validate_node m tn" n]
  by (auto simp: validate_node.simps [of m tn n] validate_step_def list_all_iff
      dest!: map_of_SomeD split: option.splits if_splits)

text \<open>How a check that finds no error was reached.\<close>

named_theorems accepted

lemma accepted_results [accepted]:
  "(conclude t errs = (u, [])) = (errs = [] \<and> t = u)" "(reject e = (u, [])) = False"
  by (auto simp: conclude_def reject_def)

lemma unless_nil [accepted]: "(unless ok e = []) = ok"
  by (simp add: unless_def)

lemma two_checked_ok [accepted]:
  "(two_checked vv n l k = (u, [])) =
     (\<exists>a b. nd_children n = [a, b] \<and> k (fst (vv a)) (fst (vv b)) (snd (vv a) @ snd (vv b)) = (u, []))"
  by (auto simp: two_checked_def accepted split: list.splits prod.splits)

lemma one_checked_ok [accepted]:
  "(one_checked vv n msg k = (u, [])) =
     (\<exists>a. nd_children n = [a] \<and> k (fst (vv a)) (snd (vv a)) = (u, []))"
  by (auto simp: one_checked_def accepted split: list.splits prod.splits)

lemma named_string_args_ok [accepted]:
  "(named_string_args vv n t ks = (u, [])) =
     (nd_children n = [] \<and> concat (map (string_arg_errors vv n) ks) = [] \<and> t = u)"
  by (simp add: named_string_args_def accepted)

lemma items_and_field_ok [accepted]:
  "(items_and_field vv n f k = (u, [])) =
     (nd_children n = [] \<and> (\<exists>c. map_of (nd_named n) ''items'' = Some c \<and>
        k (snd (vv c) @ unless (fst (vv c) = TList) (f @ '' named child '' @ str_quote ''items'' @ '' must resolve to list'')
          @ snd (check_named_or_zero vv n ''field'') @ unless (fst (check_named_or_zero vv n ''field'') = TString)
             (f @ '' named child '' @ str_quote ''field'' @ '' must resolve to string'')) = (u, [])))"
  by (auto simp: items_and_field_def accepted split: option.splits prod.splits)

lemma list_input_ok: "list_input vv n t = (u, []) \<Longrightarrow> u = t"
  by (auto simp: list_input_def accepted split: option.splits prod.splits)

subsection \<open>The type a function is given\<close>

definition types :: "checker \<Rightarrow> string \<Rightarrow> value_type \<Rightarrow> bool" where
  "types h k t = (\<forall>m tn table vv n u. canon n = k \<longrightarrow> h m tn table vv n = (u, []) \<longrightarrow> u = t)"

lemma typesI: "(\<And>m tn table vv n u. h m tn table vv n = (u, []) \<Longrightarrow> u = t) \<Longrightarrow> types h k t"
  by (simp add: types_def)

lemma types_bool:
  "types check_logic k TBool" "types check_not k TBool" "types check_compare k TBool" "types check_contains k TBool"
  "types check_string_not_contain k TBool" "types check_in k TBool" "types check_is_in_list k TBool"
  "types check_contains_any k TBool" "types check_affix k TBool" "types check_is_null k TBool"
  "types check_is_empty k TBool" "types check_in_custom_list k TBool" "types check_record_has_tag k TBool"
  "types check_has_ip_flag k TBool" "types check_is_multiple_of k TBool"
  unfolding check_logic_def check_not_def check_compare_def check_contains_def check_string_not_contain_def
    check_in_def check_is_in_list_def list_right_operand_def check_contains_any_def check_affix_def
    check_is_null_def check_is_empty_def check_in_custom_list_def check_record_has_tag_def
    check_has_ip_flag_def check_is_multiple_of_def
  by (rule typesI; auto simp: accepted split: if_splits prod.splits)+

lemma types_number_text:
  "types check_letter_case k TString" "types check_string_concat k TString" "types check_string_template k TString"
  "types check_record_risk_level k TString" "types check_arithmetic k TNumber" "types check_past_decision_count k TNumber"
  "types check_timestamp_extract k TNumber" "types check_fuzzy_match k TNumber"
  "types check_fuzzy_match_any_of k TNumber" "types check_list_aggregate k TNumber"
  "types check_time_now k TTimestamp" "types check_parse_time k TTimestamp" "types check_time_add k TTimestamp"
  unfolding check_letter_case_def check_string_concat_def check_string_template_def check_record_risk_level_def
    check_arithmetic_def check_past_decision_count_def check_timestamp_extract_def check_fuzzy_match_def
    check_fuzzy_match_any_of_def check_list_aggregate_def check_time_now_def check_parse_time_def check_time_add_def
  by (rule typesI; auto simp: accepted dest: list_input_ok split: if_splits prod.splits)+

lemma types_structure:
  "types check_list k TList" "types check_custom_list_access k TList" "types check_filter_eq k TList"
  "types check_map_field k TList" "types check_filter k TObject" "types check_fuzzy_options k TObject"
  "types check_score_computation k TObject" "types check_switch k TObject" "types check_group_count k TObject"
  "types check_group_sum k TObject"
  unfolding check_list_def check_custom_list_access_def check_filter_eq_def check_map_field_def check_filter_def
    check_fuzzy_options_def check_score_computation_def check_switch_def check_group_count_def check_group_sum_def
  by (rule typesI; auto simp: accepted split: if_splits prod.splits)+

lemma types_disabled: "types check_related_count k TNumber" "types check_related_records k TList"
  unfolding check_related_count_def check_related_records_def
  by (rule typesI; auto simp: accepted named_string_args_def Let_def conclude_def reject_def split: if_splits prod.splits)+

lemma types_geo: "types check_geo ''ip_geo_found'' TBool" "k \<noteq> ''ip_geo_found'' \<Longrightarrow> types check_geo k TString"
  by (auto simp: types_def check_geo_def accepted)

lemmas types_facts = types_bool types_number_text types_structure types_disabled types_geo

subsection \<open>Values of a type\<close>

text \<open>Null fits every type. Timestamps and addresses may arrive as text.\<close>

fun is_number :: "gval \<Rightarrow> bool" where
  "is_number (VInt _) = True"
| "is_number (VInt64 _) = True"
| "is_number (VFloat _) = True"
| "is_number (VFloat32 _) = True"
| "is_number (VNum _) = True"
| "is_number _ = False"

definition fits :: "value_type \<Rightarrow> gval \<Rightarrow> bool" where
  "fits t v \<longleftrightarrow> v = VNil \<or> (case t of
       TUnknown \<Rightarrow> True
     | TBool \<Rightarrow> kind_of v = KBool
     | TString \<Rightarrow> kind_of v = KText
     | TNumber \<Rightarrow> is_number v
     | TTimestamp \<Rightarrow> kind_of v = KTime \<or> kind_of v = KText
     | TIPAddress \<Rightarrow> kind_of v = KText
     | TNull \<Rightarrow> False
     | TList \<Rightarrow> kind_of v = KList
     | TObject \<Rightarrow> kind_of v = KObject \<or> kind_of v = KFilter \<or> kind_of v = KScore)"

lemma fits_null [simp]: "fits t VNil" "fits TUnknown v" "fits TNull v \<longleftrightarrow> v = VNil"
  by (simp_all add: fits_def)

lemma fits_constant: "fits (infer_constant_type v) v"
  by (cases v) (simp_all add: fits_def)

fun kind_fits :: "kind \<Rightarrow> value_type \<Rightarrow> bool" where
  "kind_fits KNull t = True"
| "kind_fits KBool t = (t = TBool)"
| "kind_fits KText t = (t = TString)"
| "kind_fits KFloat t = (t = TNumber)"
| "kind_fits KInt t = (t = TNumber)"
| "kind_fits KTime t = (t = TTimestamp)"
| "kind_fits KList t = (t = TList)"
| "kind_fits KObject t = (t = TObject)"
| "kind_fits KFilter t = (t = TObject)"
| "kind_fits KScore t = (t = TObject)"
| "kind_fits KOther t = False"

lemma kind_fits: "kind_fits (kind_of v) t \<Longrightarrow> fits t v"
  by (cases v) (simp_all add: fits_def)


text \<open>The type of every function whose type does not depend on its arguments, in the order of the switch.\<close>

definition static_types :: "(string \<times> value_type) list" where
  "static_types =
    [(''and'', TBool), (''or'', TBool), (''not'', TBool), (''eq'', TBool), (''neq'', TBool),
     (''gt'', TBool), (''gte'', TBool), (''lt'', TBool), (''lte'', TBool), (''contains'', TBool),
     (''string_not_contain'', TBool), (''in'', TBool), (''contains_any'', TBool),
     (''contains_none'', TBool), (''starts_with'', TBool), (''ends_with'', TBool),
     (''lower'', TString), (''upper'', TString), (''is_null'', TBool), (''is_empty'', TBool),
     (''is_not_empty'', TBool), (''add'', TNumber), (''subtract'', TNumber), (''multiply'', TNumber),
     (''divide'', TNumber), (''in_custom_list'', TBool), (''record_has_tag'', TBool),
     (''record_risk_level'', TString), (''has_ip_flag'', TBool), (''ip_country'', TString),
     (''ip_country_code'', TString), (''ip_region'', TString), (''ip_region_code'', TString),
     (''ip_continent_code'', TString), (''ip_geo_found'', TBool), (''past_decision_count'', TNumber),
     (''related_count'', TNumber), (''list'', TList), (''filter'', TObject),
     (''time_now'', TTimestamp), (''parse_time'', TTimestamp), (''timestamp_extract'', TNumber),
     (''time_add'', TTimestamp), (''custom_list_access'', TList), (''fuzzy_match'', TNumber),
     (''fuzzy_match_any_of'', TNumber), (''fuzzy_match_filter_options'', TObject),
     (''is_in_list'', TBool), (''is_not_in_list'', TBool), (''is_multiple_of'', TBool),
     (''string_concat'', TString), (''string_template'', TString), (''score_computation'', TObject),
     (''switch'', TObject), (''related_records'', TList), (''filter_eq'', TList),
     (''map_field'', TList), (''list_count'', TNumber), (''sum'', TNumber), (''avg'', TNumber),
     (''min'', TNumber), (''max'', TNumber), (''group_count'', TObject), (''group_sum'', TObject)]"

lemma static_types_ok: "aligned (\<lambda>k t h. types h k t) static_types check_cases"
  unfolding static_types_def check_cases_def by (simp add: types_facts)

lemma check_cases_names: "map fst check_cases = map fst eval_cases"
  by code_simp

lemma static_kinds: "list_all (\<lambda>(k, ks). case map_of static_types k of None \<Rightarrow> False
    | Some t \<Rightarrow> list_all (\<lambda>d. kind_fits d t) ks) result_kinds"
  by code_simp

lemma validate_node_table: "validate_node m tn n = (u, []) \<Longrightarrow> \<exists>table. map_of (tm_tables m) tn = Some table"
  by (cases "map_of (tm_tables m) tn") (simp_all add: validate_node.simps [of m tn n] validate_step_def reject_def)

lemma static_type:
  assumes "map_of static_types (canon n) = Some t" "validate_node m tn n = (u, [])"
  shows "u = t"
proof -
  have "(canon n, t) \<in> set static_types" using assms(1) by (rule map_of_SomeD)
  then obtain h where h: "map_of check_cases (canon n) = Some h" "types h (canon n) t"
    using aligned_lookup [OF static_types_ok] check_cases_names eval_cases_distinct by metis
  obtain table where "map_of (tm_tables m) tn = Some table" using validate_node_table [OF assms(2)] ..
  then show ?thesis using h assms(2) validate_node_case [OF _ h(1), of m tn] by (auto simp: types_def)
qed

lemma fixed_function_fits:
  assumes "map_of result_kinds (canon n) = Some ks" "validate_node m tn n = (u, [])" "eval_node rt n = Inr v"
  shows "fits u v"
proof -
  have "case map_of static_types (canon n) of None \<Rightarrow> False | Some t \<Rightarrow> list_all (\<lambda>d. kind_fits d t) ks"
    using static_kinds map_of_SomeD [OF assms(1)] by (auto simp: list_all_iff)
  then obtain t where t: "map_of static_types (canon n) = Some t" "list_all (\<lambda>d. kind_fits d t) ks"
    by (auto split: option.splits)
  have "kind_of v \<in> set ks" by (rule eval_node_kind [OF assms(1,3)])
  then show ?thesis using t(2) static_type [OF t(1) assms(2)] kind_fits by (auto simp: list_all_iff)
qed


subsection \<open>Records and answers that respect the data model\<close>

definition record_fits :: "tm_table \<Rightarrow> field_map \<Rightarrow> bool" where
  "record_fits table flds \<longleftrightarrow> (\<forall>name f. map_of (tt_fields table) name = Some f \<longrightarrow>
     fits (map_field_type (tf_type f)) (field_of flds name))"

definition answers_fit :: "tenant_model \<Rightarrow> (agg_query \<Rightarrow> gval res) \<Rightarrow> bool" where
  "answers_fit m answer \<longleftrightarrow> (\<forall>q v table f a u. answer q = Inr v \<longrightarrow>
     map_of (tm_tables m) (aq_object_type q) = Some table \<longrightarrow> map_of (tt_fields table) (aq_field q) = Some f \<longrightarrow>
     normalize_aggregate_name a = aq_aggregate q \<longrightarrow> aggregator_result_type (tf_type f) a = (u, []) \<longrightarrow> fits u v)"

definition reader_fits :: "tenant_model \<Rightarrow> string \<Rightarrow> tenant_reader \<Rightarrow> bool" where
  "reader_fits m tenant rd \<longleftrightarrow>
     (\<forall>t f key rows table. rd_query rd tenant t f key = Inr rows \<longrightarrow> map_of (tm_tables m) t = Some table \<longrightarrow>
        list_all (record_fits table) rows) \<and> answers_fit m (rd_aggregate rd tenant)"

definition well_typed :: "tenant_model \<Rightarrow> string \<Rightarrow> runtime \<Rightarrow> bool" where
  "well_typed m tn rt \<longleftrightarrow> rt_model rt = Some m \<and> rt_object_type rt = tn \<and>
     (\<forall>table. map_of (tm_tables m) tn = Some table \<longrightarrow> record_fits table (rt_fields rt)) \<and>
     (\<forall>rd. rt_reader rt = Some rd \<longrightarrow> reader_fits m (rt_tenant rt) rd)"

text \<open>Formulas whose type does not hinge on an unknown type inside a \<open>coalesce\<close>, on the fallback of
  \<open>database_access\<close> (see \<open>missing_record_divergence\<close>), or on a constant beside a function name.\<close>

fun settled :: "tenant_model \<Rightarrow> string \<Rightarrow> node \<Rightarrow> bool" where
  "settled m tn (Node fn c cs nm) =
     (canonical_function_name fn \<noteq> ''database_access'' \<and>
      (canonical_function_name fn = ''coalesce'' \<longrightarrow>
         list_all (\<lambda>d. settled m tn d \<and> fst (validate_node m tn d) \<noteq> TUnknown) cs) \<and>
      (canonical_function_name fn = ''related_field'' \<longrightarrow>
         list_all (\<lambda>(k, d). is_constant_fn (nd_fn d)) nm))"

lemma named_constant_eval:
  "named_constant n k = Some s \<Longrightarrow> eval_named_string (eval_node rt) n k = Inr s"
  by (auto simp: named_constant_def constant_string_node_def bind_eq_Some_conv eval_named_string_def
      eval_named_any_def eval_node_const split: if_splits gval.splits)

lemma follow_link_fits:
  assumes "follow_link m rd tenant ty fs raw = Inr (Some (fs', ty'))" "reader_fits m tenant rd"
    "map_of (tm_tables m) ty = Some table"
  shows "\<exists>link. trim_space raw \<noteq> [] \<and> map_of (tt_links table) (trim_space raw) = Some link \<and>
    ty' = tl_parent_table link \<and> (\<forall>parent. map_of (tm_tables m) ty' = Some parent \<longrightarrow> record_fits parent fs')"
proof -
  obtain link key rs where l: "trim_space raw \<noteq> []" "map_of (tt_links table) (trim_space raw) = Some link"
    "rd_query rd tenant (tl_parent_table link) (tl_parent_field link) key = Inr (fs' # rs)" "ty' = tl_parent_table link"
    using assms(1,3) by (auto simp: follow_link_def Let_def result_simps neq_Nil_conv split: if_splits list.splits)
  then show ?thesis using assms(2) by (fastforce simp: reader_fits_def)
qed

lemma follow_path_fits:
  "follow_path m rd tenant ty fs ss = Inr (Some (fs', ty')) \<Longrightarrow> reader_fits m tenant rd \<Longrightarrow>
    map_of (tm_tables m) ty = Some table \<Longrightarrow> record_fits table fs \<Longrightarrow> resolve_links m table ss = Inr table' \<Longrightarrow>
    map_of (tm_tables m) ty' = Some table' \<and> record_fits table' fs'"
proof (induction ss arbitrary: ty fs table)
  case (Cons raw ss)
  obtain fs1 ty1 where f: "follow_link m rd tenant ty fs raw = Inr (Some (fs1, ty1))"
    "follow_path m rd tenant ty1 fs1 ss = Inr (Some (fs', ty'))"
    using Cons.prems(1) by (auto simp: result_simps split: option.splits)
  obtain link where l: "trim_space raw \<noteq> []" "map_of (tt_links table) (trim_space raw) = Some link"
    "ty1 = tl_parent_table link" "\<forall>parent. map_of (tm_tables m) ty1 = Some parent \<longrightarrow> record_fits parent fs1"
    using follow_link_fits [OF f(1) Cons.prems(2,3)] by blast
  obtain parent where p: "map_of (tm_tables m) ty1 = Some parent" "resolve_links m parent ss = Inr table'"
    using Cons.prems(5) l(1,2,3) by (auto simp: result_simps)
  show ?case using Cons.IH [OF f(2) Cons.prems(2) p(1) _ p(2)] l(4) p(1) by blast
qed simp

lemma field_on_table_ok:
  "(field_on_table t name = (u, [])) = (\<exists>table f. t = Inr table \<and> map_of (tt_fields table) name = Some f \<and>
     u = map_field_type (tf_type f))"
  by (auto simp: field_on_table_def accepted split: sum.splits option.splits)

lemma named_literal:
  assumes "list_all (\<lambda>(k, d). is_constant_fn (nd_fn d)) (nd_named n)" "eval_named_string (eval_node rt) n k = Inr s"
  shows "raw_constant n k = s"
proof -
  obtain c where c: "map_of (nd_named n) k = Some c" "eval_node rt c = Inr (VStr s)"
    using assms(2) unfolding eval_named_string_def eval_named_any_def named_error_def by (auto simp: result_simps)
  have "is_constant_fn (nd_fn c)" using assms(1) map_of_SomeD [OF c(1)] by (auto simp: list_all_iff)
  then show ?thesis using c by (simp add: raw_constant_def eval_node_const)
qed

lemma related_field_fits:
  assumes w: "well_typed m tn rt" and s: "settled m tn n" and k: "canon n = ''related_field''"
    and v: "validate_node m tn n = (u, [])" and e: "eval_node rt n = Inr x"
  shows "fits u x"
proof (cases "x = VNil")
  case False
  obtain table where t: "map_of (tm_tables m) tn = Some table" using validate_node_table [OF v] ..
  have lit: "list_all (\<lambda>(k, d). is_constant_fn (nd_fn d)) (nd_named n)"
    using s k by (cases n) (simp add: canon_def)
  have h: "map_of check_cases (canon n) = Some check_related_field" by (simp add: k check_cases_def)
  have "check_related_field m tn table (validate_node m tn) n = (u, [])"
    using v validate_node_case [OF t h] by simp
  then obtain target f where f: "resolve_related_path_table m tn (raw_constant n ''path'') = Inr target"
    "map_of (tt_fields target) (raw_constant n ''field'') = Some f" "u = map_field_type (tf_type f)"
    by (auto simp: check_related_field_def field_on_table_ok split: prod.splits if_splits)
  have "eval_related_field rt (eval_node rt) n = Inr x"
    using e by (simp add: eval_node_handler [of n eval_related_field] k dispatch)
  then obtain path name flds ty where r: "eval_named_string (eval_node rt) n ''path'' = Inr path"
    "eval_named_string (eval_node rt) n ''field'' = Inr name"
    "traverse_related_path rt path = Inr (Some (flds, ty))" "read_related rt flds ty name = Inr x"
    using False by (auto simp: eval_related_field_def result_simps option_value_Inr split: if_splits)
  have names: "raw_constant n ''path'' = path" "raw_constant n ''field'' = name"
    using named_literal [OF lit r(1)] named_literal [OF lit r(2)] by simp_all
  obtain rd where rd: "rt_reader rt = Some rd"
    "follow_path m rd (rt_tenant rt) tn (rt_fields rt) (split_on (CHR ''.'') path) = Inr (Some (flds, ty))"
    using r(3) w by (auto simp: traverse_related_path_def well_typed_def result_simps)
  have "reader_fits m (rt_tenant rt) rd" "record_fits table (rt_fields rt)"
    using w rd(1) t by (auto simp: well_typed_def)
  moreover have "resolve_links m table (split_on (CHR ''.'') path) = Inr target"
    using f(1) t names by (simp add: resolve_related_path_table_def)
  ultimately have "map_of (tm_tables m) ty = Some target" "record_fits target flds"
    using follow_path_fits [OF rd(2) _ t] by blast+
  then show ?thesis using r(4) w f(2,3) names
    by (auto simp: read_related_def well_typed_def record_fits_def split: if_splits option.splits)
qed simp


subsection \<open>Aggregators and coalesce\<close>

lemma aggregator_fits:
  assumes w: "well_typed m tn rt" and k: "canon n = ''aggregator''"
    and v: "validate_node m tn n = (u, [])" and e: "eval_node rt n = Inr x"
  shows "fits u x"
proof -
  obtain table where t: "map_of (tm_tables m) tn = Some table" using validate_node_table [OF v] ..
  have h: "map_of check_cases (canon n) = Some check_aggregator" by (simp add: k check_cases_def)
  have "check_aggregator m tn table (validate_node m tn) n = (u, [])"
    using v validate_node_case [OF t h] by simp
  then have av: "aggregator_verdict m n = (u, [])"
    by (auto simp: check_aggregator_def accepted split: if_splits prod.splits)
  show ?thesis
  proof (cases "u = TUnknown")
    case False
    obtain ty target f field a where c: "named_constant n ''tableName'' = Some ty"
      "map_of (tm_tables m) ty = Some target" "named_constant n ''fieldName'' = Some f"
      "map_of (tt_fields target) f = Some field" "named_constant n ''aggregator'' = Some a"
      "aggregator_result_type (tf_type field) a = (u, [])"
      using av False by (auto simp: aggregator_verdict_def bind_eq_Some_conv split: option.splits)
    obtain rd q where q: "rt_reader rt = Some rd" "compile_aggregate_query (eval_node rt) n = Inr (Inr q)"
      "rd_aggregate rd (rt_tenant rt) q = Inr x"
      using aggregator_answer [OF k e] by blast
    have "aq_object_type q = ty" "aq_field q = f" "normalize_aggregate_name a = aq_aggregate q"
      using q(2) by (auto simp: compile_aggregate_query_def named_constant_eval [OF c(1)]
          named_constant_eval [OF c(3)] named_constant_eval [OF c(5)] Let_def result_simps split: if_splits)
    moreover have "answers_fit m (rd_aggregate rd (rt_tenant rt))"
      using w q(1) by (simp add: well_typed_def reader_fits_def)
    ultimately show ?thesis using q(3) c(2,4,6) unfolding answers_fit_def by blast
  qed simp
qed

lemma coalesce_scan_known:
  "coalesce_scan vv r cs = (u, []) \<Longrightarrow> (\<And>c. c \<in> set cs \<Longrightarrow> fst (vv c) \<noteq> TUnknown) \<Longrightarrow>
    (r \<noteq> TUnknown \<longrightarrow> u = r) \<and> (\<forall>c \<in> set cs. snd (vv c) = [] \<and> (fst (vv c) = TNull \<or> fst (vv c) = u))"
proof (induction cs arbitrary: r)
  case (Cons c cs)
  obtain t es where vc: "vv c = (t, es)" by (cases "vv c")
  obtain r' e where p: "coalesce_pick r t = (r', e)" by (cases "coalesce_pick r t")
  have s: "coalesce_scan vv r' cs = (u, [])" "es = []" "e = []"
    using Cons.prems(1) vc p by (auto split: prod.splits)
  have t: "t \<noteq> TUnknown" using Cons.prems(2) [of c] vc by simp
  have ih: "(r' \<noteq> TUnknown \<longrightarrow> u = r') \<and> (\<forall>c \<in> set cs. snd (vv c) = [] \<and> (fst (vv c) = TNull \<or> fst (vv c) = u))"
    using Cons.IH [OF s(1)] Cons.prems(2) by simp
  show ?case using ih p s t vc by (auto simp: coalesce_pick_def unless_def split: if_splits)
qed simp

lemma coalesce_loop_child:
  "coalesce_loop ev cs = Inr v \<Longrightarrow> v \<noteq> VNil \<Longrightarrow> \<exists>c \<in> set cs. ev c = Inr v"
  by (induction cs) (auto simp: result_simps split: if_splits)

lemma coalesce_fits:
  assumes k: "canon n = ''coalesce''" and s: "settled m tn n"
    and v: "validate_node m tn n = (u, [])" and e: "eval_node rt n = Inr x"
    and ih: "\<And>c t y. c \<in> set (nd_children n) \<Longrightarrow> settled m tn c \<Longrightarrow> validate_node m tn c = (t, []) \<Longrightarrow>
      eval_node rt c = Inr y \<Longrightarrow> fits t y"
  shows "fits u x"
proof (cases "x = VNil")
  case False
  obtain table where t: "map_of (tm_tables m) tn = Some table" using validate_node_table [OF v] ..
  have h: "map_of check_cases (canon n) = Some check_coalesce" by (simp add: k check_cases_def)
  have "check_coalesce m tn table (validate_node m tn) n = (u, [])"
    using v validate_node_case [OF t h] by simp
  then obtain r where r: "coalesce_scan (validate_node m tn) TUnknown (nd_children n) = (r, [])"
    "u = (if r = TUnknown then TNull else r)"
    by (auto simp: check_coalesce_def accepted split: if_splits prod.splits)
  have st: "settled m tn c \<and> fst (validate_node m tn c) \<noteq> TUnknown" if "c \<in> set (nd_children n)" for c
    using s k that by (cases n) (auto simp: canon_def list_all_iff)
  note known = coalesce_scan_known [OF r(1)]
  have "eval_coalesce rt (eval_node rt) n = Inr x" using e by (simp add: eval_node_handler k dispatch)
  then obtain c where c: "c \<in> set (nd_children n)" "eval_node rt c = Inr x"
    using coalesce_loop_child False by (fastforce simp: eval_coalesce_def split: if_splits)
  obtain tc where tc: "validate_node m tn c = (tc, [])" "tc = TNull \<or> tc = r" "tc \<noteq> TUnknown"
    using known st c(1) by (metis prod.collapse)
  have "fits tc x" using ih [OF c(1) _ tc(1) c(2)] st c(1) by blast
  then show ?thesis using tc r(2) False by auto
qed simp

subsection \<open>Soundness\<close>

lemma field_fits:
  assumes "well_typed m tn rt" "map_of (tm_tables m) tn = Some table" "map_of (tt_fields table) name = Some f"
  shows "fits (map_field_type (tf_type f)) (field_of (rt_fields rt) name)"
  using assms by (auto simp: well_typed_def record_fits_def)

lemma field_ref_fits:
  assumes w: "well_typed m tn rt" and k: "canon n = ''field_ref''"
    and v: "validate_node m tn n = (u, [])" and e: "eval_node rt n = Inr x"
  shows "fits u x"
proof -
  obtain table where t: "map_of (tm_tables m) tn = Some table" using validate_node_table [OF v] ..
  have h: "map_of check_cases (canon n) = Some check_field_ref" by (simp add: k check_cases_def)
  have "check_field_ref m tn table (validate_node m tn) n = (u, [])" "eval_field_ref rt (eval_node rt) n = Inr x"
    using v validate_node_case [OF t h] e by (simp_all add: eval_node_handler k dispatch)
  then show ?thesis using field_fits [OF w t]
    by (auto simp: check_field_ref_def eval_field_ref_def accepted split: option.splits gval.splits if_splits)
qed

lemma payload_fits:
  assumes w: "well_typed m tn rt" and k: "canon n = ''payload''"
    and v: "validate_node m tn n = (u, [])" and e: "eval_node rt n = Inr x"
  shows "fits u x"
proof -
  obtain table where t: "map_of (tm_tables m) tn = Some table" using validate_node_table [OF v] ..
  have h: "map_of check_cases (canon n) = Some check_payload" by (simp add: k check_cases_def)
  have "check_payload m tn table (validate_node m tn) n = (u, [])"
    using v validate_node_case [OF t h] by simp
  then obtain c name f where c: "nd_children n = [c]" "constant_string_node c = Some name"
    "map_of (tt_fields table) name = Some f" "u = map_field_type (tf_type f)"
    by (auto simp: check_payload_def accepted split: list.splits option.splits)
  have "eval_node rt c = Inr (VStr name)"
    using c(2) by (auto simp: constant_string_node_def eval_node_const split: if_splits gval.splits)
  then have "x = field_of (rt_fields rt) name"
    using e c(1) by (simp add: eval_node_handler k dispatch eval_payload_def one_child_def)
  then show ?thesis using field_fits [OF w t c(3)] c(4) by simp
qed

lemma other_functions:
  assumes "map_of eval_cases k = Some h" "map_of result_kinds k = None"
  shows "k \<in> {''field_ref'', ''coalesce'', ''related_field'', ''payload'', ''aggregator'',
    ''database_access'', ''object_get''}"
proof -
  have "list_all (\<lambda>k. map_of result_kinds k = None \<longrightarrow> k \<in> {''field_ref'', ''coalesce'', ''related_field'',
      ''payload'', ''aggregator'', ''database_access'', ''object_get''}) (map fst eval_cases)"
    by code_simp
  then show ?thesis using map_of_SomeD [OF assms(1)] assms(2) by (force simp: list_all_iff)
qed

lemma nonempty_name: "is_constant_fn fn \<Longrightarrow> fn \<noteq> [] \<Longrightarrow> canonical_function_name fn = ''constant''"
proof -
  have t: "to_lower ''constant'' = ''constant''" "trim_space ''constant'' = ''constant''"
    "map_of canonical_table ''constant'' = None"
    by code_simp+
  show "is_constant_fn fn \<Longrightarrow> fn \<noteq> [] \<Longrightarrow> canonical_function_name fn = ''constant''"
    using t by (auto simp: is_constant_fn_def equal_fold_def canonical_function_name_def Let_def)
qed

lemma object_get_unknown: "canon n = ''object_get'' \<Longrightarrow> validate_node m tn n = (u, []) \<Longrightarrow> u = TUnknown"
proof -
  assume k: "canon n = ''object_get''" and v: "validate_node m tn n = (u, [])"
  obtain table where t: "map_of (tm_tables m) tn = Some table" using validate_node_table [OF v] ..
  have h: "map_of check_cases (canon n) = Some check_object_get" by (simp add: k check_cases_def)
  show "u = TUnknown" using v validate_node_case [OF t h] by (auto simp: check_object_get_def accepted split: if_splits)
qed

lemma validated_value_fits:
  assumes w: "well_typed m tn rt"
  shows "settled m tn n \<Longrightarrow> validate_node m tn n = (u, []) \<Longrightarrow> eval_node rt n = Inr x \<Longrightarrow> fits u x"
proof (induction n arbitrary: u x rule: measure_induct_rule [of size])
  case (less n)
  note v = \<open>validate_node m tn n = (u, [])\<close> and e = \<open>eval_node rt n = Inr x\<close>
  show ?case
  proof (cases "is_constant_fn (nd_fn n)")
    case True
    then have "nd_fn n = [] \<or> canon n = ''constant''" using canonical_constant [OF True] nonempty_name [of "nd_fn n"]
      by (auto simp: canon_def)
    then have "u = infer_constant_type (nd_const n)"
      using v validate_node_table [OF v] by (auto simp: validate_node.simps [of m tn n] validate_step_def)
    then show ?thesis using e True by (simp add: eval_node_const fits_constant)
  next
    case False
    obtain h where h: "map_of eval_cases (canon n) = Some h"
      using e False by (auto simp: eval_node.simps [of rt n] eval_uncached_def unsupported_function_def
          split: option.splits)
    show ?thesis
    proof (cases "map_of result_kinds (canon n)")
      case (Some ks)
      then show ?thesis using fixed_function_fits v e by blast
    next
      case None
      have "canon n \<noteq> ''database_access''" using less.prems(1) by (cases n) (simp add: canon_def)
      then consider "canon n = ''field_ref''" | "canon n = ''coalesce''" | "canon n = ''related_field''"
        | "canon n = ''payload''" | "canon n = ''aggregator''" | "canon n = ''object_get''"
        using other_functions [OF h None] by blast
      then show ?thesis
      proof cases
        case 2
        then show ?thesis using coalesce_fits [OF _ less.prems] less.IH child_size by blast
      next
        case 6
        then have "u = TUnknown" using object_get_unknown v by blast
        then show ?thesis by simp
      next
        case 5
        then show ?thesis using aggregator_fits [OF w _ v e] by blast
      qed (use field_ref_fits related_field_fits payload_fits w less.prems in blast)+
    qed
  qed
qed

subsection \<open>Properties\<close>

text \<open>C11. Type soundness of the rule language: when the validator gives a formula a type
  without errors, evaluating it on a record that respects the data model, with repositories that
  do, gives null or a value of that type (for formulas whose type does not rest on an unknown type
  inside a coalesce, on the fallback of database_access, or on a constant beside a function name).\<close>

theorem validate_sound:
  assumes "well_typed m tn rt" "settled m tn n" "validate_node m tn n = (u, [])" "eval_node rt n = Inr x"
  shows "fits u x"
  using assms by (rule validated_value_fits)


lemma validated_function_implemented:
  assumes "validate_node m tn n = (u, [])" "nd_fn n \<noteq> []" "canon n \<noteq> ''constant''"
  shows "canon n \<in> fst ` set eval_cases"
proof -
  have "canon n \<in> fst ` set check_cases"
    using assms by (force simp: validate_node.simps [of m tn n] validate_step_def reject_def
        split: option.splits dest: map_of_SomeD)
  then show ?thesis using check_cases_names by (metis list.set_map)
qed

lemma validate_error_unknown:
  assumes "snd (validate_node m tn n) \<noteq> []"
  shows "fst (validate_node m tn n) = TUnknown"
  using assms validate_node_clean [of m tn n] by (simp add: clean_def)

subsection \<open>Concrete formulas\<close>

definition frozen_account :: node where
  "frozen_account = Node ''='' VNil [demo_related, text_node ''frozen''] []"

lemma demo_types: "map_field_type ''string'' = TString" "map_field_type ''int'' = TNumber"
  by code_simp+

lemma record_fits_list:
  "list_all (\<lambda>(k, f). fits (map_field_type (tf_type f)) (field_of flds k)) (tt_fields table) \<Longrightarrow> record_fits table flds"
  by (auto simp: record_fits_def list_all_iff dest!: map_of_SomeD)

lemma demo_well_typed: "well_typed demo_model ''transactions'' (demo_runtime ''a1'')"
proof -
  have r: "record_fits \<lparr>tt_id = i, tt_name = nm, tt_archived = a, tt_fields = [demo_field ''status'' ''string''],
      tt_links = ls\<rparr> [(''status'', VStr s)]" for i nm a ls s
    by (simp add: record_fits_def demo_field_def field_of_def demo_types fits_def)
  have q: "list_all (record_fits table) rows"
    if "rd_query demo_reader tenant t f key = Inr rows" "map_of (tm_tables demo_model) t = Some table"
    for tenant t f key rows table
    using that r by (auto simp: demo_reader_def demo_model_def split: if_splits)
  have f: "tf_type f = ''int'' \<or> tf_type f = ''string''"
    if "map_of (tm_tables demo_model) t = Some table" "map_of (tt_fields table) name = Some f" for t table name f
    using that by (auto simp: demo_model_def demo_field_def split: if_splits)
  have u: "u = TNumber" if "aggregator_result_type ty a = (u, [])" "ty = ''int'' \<or> ty = ''string''" for ty a u
    using that by (auto simp: aggregator_result_type_def demo_types reject_def Let_def split: if_splits)
  have ans: "fits t v" if "rd_aggregate demo_reader tenant q = Inr v" "map_of (tm_tables demo_model) ty = Some table"
      "map_of (tt_fields table) name = Some fd" "aggregator_result_type (tf_type fd) a = (t, [])"
    for tenant q v ty table name fd a t
    using u [OF that(4) f [OF that(2,3)]] that(1) by (auto simp: demo_reader_def fits_def)
  have ok: "answers_fit demo_model (rd_aggregate demo_reader tenant)" for tenant
    unfolding answers_fit_def by (intro allI impI) (rule ans)
  have reader: "reader_fits demo_model tenant demo_reader" for tenant
    unfolding reader_fits_def by (rule conjI [OF _ ok]) (intro allI impI, erule q)
  have rec: "record_fits table (rt_fields (demo_runtime ''a1''))"
    if "map_of (tm_tables demo_model) ''transactions'' = Some table" for table
  proof (rule record_fits_list)
    have "case map_of (tm_tables demo_model) ''transactions'' of None \<Rightarrow> True | Some table \<Rightarrow>
      list_all (\<lambda>(k, f). fits (map_field_type (tf_type f)) (field_of (rt_fields (demo_runtime ''a1'')) k)) (tt_fields table)"
      by code_simp
    then show "list_all (\<lambda>(k, f). fits (map_field_type (tf_type f)) (field_of (rt_fields (demo_runtime ''a1'')) k))
      (tt_fields table)" using that by simp
  qed
  have "rt_model (demo_runtime ''a1'') = Some demo_model" "rt_object_type (demo_runtime ''a1'') = ''transactions''"
    "rt_reader (demo_runtime ''a1'') = Some demo_reader"
    by (simp_all add: demo_runtime_def blank_runtime_def)
  then show ?thesis unfolding well_typed_def using rec reader by simp
qed

lemma demo_accepted:
  "settled demo_model ''transactions'' frozen_account"
  "validate_node demo_model ''transactions'' frozen_account = (TBool, [])"
  "eval_node (demo_runtime ''a1'') frozen_account = Inr (VBool True)"
  by code_simp+

lemma validate_sound_witness: "fits TBool (VBool True)"
  using validate_sound [OF demo_well_typed demo_accepted] .


lemma validated_function_implemented_witness: "''eq'' \<in> fst ` set eval_cases"
proof -
  have c: "canon frozen_account = ''eq''" "nd_fn frozen_account \<noteq> []" by code_simp+
  show ?thesis using validated_function_implemented [OF demo_accepted(2) c(2)] c(1) by simp
qed

definition broken_conjunction :: node where
  "broken_conjunction = Node ''and'' VNil [const_node (VBool True), text_node ''yes''] []"

lemma broken_errors: "validate_node demo_model ''transactions'' broken_conjunction =
    (TUnknown, [''and expects boolean children''])"
  by code_simp

lemma validate_error_unknown_witness:
  "fst (validate_node demo_model ''transactions'' broken_conjunction) = TUnknown"
  by (rule validate_error_unknown) (simp add: broken_errors)

lemma alias_equality_rejected:
  "validate_node demo_model ''transactions'' (Node ''eq'' VNil [const_node (VBool True), const_node (VBool True)] []) =
     (TBool, []) \<and>
   validate_node demo_model ''transactions'' (Node ''='' VNil [const_node (VBool True), const_node (VBool True)] []) =
     (TUnknown, [''= does not support operand type bool'']) \<and>
   eval_node rt (Node ''='' VNil [const_node (VBool True), const_node (VBool True)] []) = Inr (VBool True)"
  by code_simp

lemma lower_case_count_rejected:
  "aggregator_result_type ''string'' ''COUNT'' = (TNumber, []) \<and>
   aggregator_result_type ''string'' ''count'' = (TUnknown, [''field type string is not valid for aggregator count'']) \<and>
   normalize_aggregate_name ''COUNT'' = normalize_aggregate_name ''count''"
  by code_simp

definition guessed_text :: node where
  "guessed_text = Node ''coalesce'' VNil
     [Node ''object_get'' VNil [] [(''object'', const_node (VObj [(''k'', VBool True)])), (''key'', text_node ''k'')],
      text_node ''none''] []"

lemma coalesce_unknown_escapes:
  "validate_node demo_model ''transactions'' guessed_text = (TString, []) \<and>
   eval_node (demo_runtime ''a1'') guessed_text = Inr (VBool True)"
  by code_simp

definition counted_accounts :: node where
  "counted_accounts = Node ''related_count'' VNil []
     [(''object_type'', text_node ''accounts''), (''field'', text_node ''status'')]"

lemma disabled_function_accepted:
  "validate_node demo_model ''transactions'' counted_accounts = (TNumber, []) \<and>
   (\<exists>e. eval_node rt counted_accounts = Inl e)"
proof -
  have "validate_node demo_model ''transactions'' counted_accounts = (TNumber, [])" by code_simp
  moreover have "canon counted_accounts = ''related_count''" by code_simp
  then have "eval_node rt counted_accounts = Inr v \<Longrightarrow> False" for v
    using eval_node_kind [of counted_accounts "[]" rt v] by (simp add: result_kinds_def)
  then have "\<exists>e. eval_node rt counted_accounts = Inl e" by (cases "eval_node rt counted_accounts") auto
  ultimately show ?thesis by blast
qed

end
