(* ===== verification/Go_Parse.thy ===== *)
theory Go_Parse
  imports Ast_Value
begin

text \<open>
  The readers of Go's standard library the payload check relies on: \<^verbatim>\<open>strconv.ParseInt\<close> and
  \<^verbatim>\<open>strconv.ParseFloat\<close> for 64 bits, and \<^verbatim>\<open>netip.ParseAddr\<close>.
\<close>

subsection \<open>Numbers in text\<close>

text \<open>\<^verbatim>\<open>strconv.ParseInt(s, 10, 64)\<close>\<close>

definition split_sign :: "string \<Rightarrow> bool \<times> string" where
  "split_sign s = (case s of
       [] \<Rightarrow> (False, [])
     | c # r \<Rightarrow> if c = CHR ''-'' then (True, r) else if c = CHR ''+'' then (False, r) else (False, s))"

definition parse_int64 :: "string \<Rightarrow> int option" where
  "parse_int64 s = (let (neg, ds) = split_sign s; i = (if neg then - digits_val ds else digits_val ds)
     in if ds \<noteq> [] \<and> list_all is_digit ds \<and> in_int64 i then Some i else None)"

text \<open>\<^verbatim>\<open>strconv.ParseFloat(s, 64)\<close>: underscores only between digits, decimal and hexadecimal mantissas,
  no value for an overflow; infinities and NaN parse but are rejected by the only caller.\<close>

fun underscores_ok :: "bool \<Rightarrow> char \<Rightarrow> string \<Rightarrow> bool" where
  "underscores_ok hex saw [] = (saw \<noteq> CHR ''_'')"
| "underscores_ok hex saw (c # s) =
     (if is_digit c \<or> (hex \<and> lower_char c \<in> set ''abcdef'') then underscores_ok hex (CHR ''0'') s
      else if c = CHR ''_'' then saw = CHR ''0'' \<and> underscores_ok hex (CHR ''_'') s
      else saw \<noteq> CHR ''_'' \<and> underscores_ok hex (CHR ''!'') s)"

definition hex_val :: "char \<Rightarrow> int" where
  "hex_val c = (if is_digit c then digit_val c else of_char (lower_char c) - 87)"

definition hex_digits_val :: "string \<Rightarrow> int" where
  "hex_digits_val s = foldl (\<lambda>acc c. acc * 16 + hex_val c) 0 s"

definition is_hex :: "char \<Rightarrow> bool" where
  "is_hex c = (is_digit c \<or> lower_char c \<in> set ''abcdef'')"

text \<open>Digits, an optional point and more digits, and the rest of the text.\<close>

definition split_mantissa :: "(char \<Rightarrow> bool) \<Rightarrow> string \<Rightarrow> string \<times> string \<times> string" where
  "split_mantissa dig s =
     (let ip = takeWhile dig s; r = dropWhile dig s in
      case r of c # t \<Rightarrow> if c = CHR ''.'' then (ip, takeWhile dig t, dropWhile dig t) else (ip, [], r)
      | [] \<Rightarrow> (ip, [], []))"

definition split_exponent :: "char \<Rightarrow> string \<Rightarrow> int option option" where
  "split_exponent e s = (case s of
       [] \<Rightarrow> Some None
     | c # r \<Rightarrow> if lower_char c \<noteq> e then None
         else (let (neg, ds) = split_sign r in
           if ds \<noteq> [] \<and> list_all is_digit ds then Some (Some (if neg then - digits_val ds else digits_val ds)) else None))"

definition parse_float_body :: "string \<Rightarrow> rat option" where
  "parse_float_body s =
     (let hex = has_prefix (to_lower s) ''0x'' in
      if hex then
        (let (ip, fp, rest) = split_mantissa is_hex (drop 2 s)
         in if ip @ fp = [] then None
            else (case split_exponent (CHR ''p'') rest of
                Some (Some e) \<Rightarrow> Some (of_int (hex_digits_val (ip @ fp)) * pow2 (e - 4 * int (length fp)))
              | _ \<Rightarrow> None))
      else
        (let (ip, fp, rest) = split_mantissa is_digit s
         in if ip @ fp = [] then None
            else (case split_exponent (CHR ''e'') rest of
                None \<Rightarrow> None
              | Some e \<Rightarrow> Some (of_int (digits_val (ip @ fp)) *
                   pow10 ((case e of None \<Rightarrow> 0 | Some k \<Rightarrow> k) - int (length fp))))))"

definition parse_float_finite :: "string \<Rightarrow> f64 option" where
  "parse_float_finite s =
     (let (neg, body) = split_sign s; hex = has_prefix (to_lower body) ''0x'';
          saw = (if hex then CHR ''0'' else CHR ''^''); proper = (if hex then drop 2 body else body) in
      if CHR ''_'' \<in> set body \<and> \<not> underscores_ok hex saw proper then None
      else case parse_float_body (filter (\<lambda>c. c \<noteq> CHR ''_'') body) of
        None \<Rightarrow> None
      | Some q \<Rightarrow> (case f64_of_rat neg (if neg then - q else q) of FRat x \<Rightarrow> Some (FRat x) | FNegZero \<Rightarrow> Some FNegZero | _ \<Rightarrow> None))"

subsection \<open>Addresses\<close>

text \<open>\<^verbatim>\<open>netip.ParseAddr\<close>: the first point, colon or percent sign decides. Four decimal fields without
  leading zeros, or up to eight hexadecimal groups of which one run may be left out.\<close>

definition ipv4_field :: "string \<Rightarrow> bool" where
  "ipv4_field s = (s \<noteq> [] \<and> list_all is_digit s \<and> digits_val s \<le> 255 \<and> (length s = 1 \<or> hd s \<noteq> CHR ''0''))"

definition ipv4_ok :: "string \<Rightarrow> bool" where
  "ipv4_ok s = (let ps = split_on (CHR ''.'') s in length ps = 4 \<and> list_all ipv4_field ps)"

definition v6_complete :: "nat \<Rightarrow> bool \<Rightarrow> bool" where
  "v6_complete left ellipsis = (if left = 0 then \<not> ellipsis else ellipsis)"

text \<open>The loop over the groups: \<open>left\<close> groups of the eight are not filled yet.\<close>

fun v6_groups :: "nat \<Rightarrow> string \<Rightarrow> bool \<Rightarrow> bool" where
  "v6_groups 0 s ellipsis = (s = [] \<and> \<not> ellipsis)"
| "v6_groups (Suc left) s ellipsis =
     (let g = takeWhile is_hex s; r = dropWhile is_hex s in
      if g = [] \<or> 4 < length g then False
      else if r = [] then v6_complete left ellipsis
      else if hd r = CHR ''.'' then
        (ellipsis \<or> left = 1) \<and> 0 < left \<and> ipv4_ok s \<and> v6_complete (left - 1) ellipsis
      else if hd r \<noteq> CHR '':'' \<or> tl r = [] then False
      else if hd (tl r) = CHR '':'' then
        (if ellipsis then False
         else if tl (tl r) = [] then v6_complete left True else v6_groups left (tl (tl r)) True)
      else v6_groups left (tl r) ellipsis)"

definition ipv6_ok :: "string \<Rightarrow> bool" where
  "ipv6_ok text =
     (let s = takeWhile (\<lambda>c. c \<noteq> CHR ''%'') text; zone = dropWhile (\<lambda>c. c \<noteq> CHR ''%'') text in
      if zone \<noteq> [] \<and> tl zone = [] then False
      else if has_prefix s ''::'' then (drop 2 s = [] \<or> v6_groups 8 (drop 2 s) True)
      else v6_groups 8 s False)"

definition parse_addr_ok :: "string \<Rightarrow> bool" where
  "parse_addr_ok s = (case dropWhile (\<lambda>c. c \<noteq> CHR ''.'' \<and> c \<noteq> CHR '':'' \<and> c \<noteq> CHR ''%'') s of
       [] \<Rightarrow> False
     | c # _ \<Rightarrow> if c = CHR ''.'' then ipv4_ok s else if c = CHR '':'' then ipv6_ok s else False)"

lemma parse_addr_examples:
  "parse_addr_ok ''10.0.0.255''" "\<not> parse_addr_ok ''10.0.0.256''" "\<not> parse_addr_ok ''10.0.00.1''"
  "parse_addr_ok ''fe80::1%eth0''" "parse_addr_ok ''::''" "parse_addr_ok ''::ffff:1.2.3.4''"
  "parse_addr_ok ''1:2:3:4:5:6:7:8''" "\<not> parse_addr_ok ''1:2:3:4:5:6:7''" "\<not> parse_addr_ok ''1::2::3''"
  "\<not> parse_addr_ok ''1:2:3:4:5:6:7:8::''" "parse_addr_ok ''1:2:3:4:5:6:1.2.3.4''" "\<not> parse_addr_ok ''::12345''"
  by code_simp+

lemma parse_number_examples:
  "parse_int64 ''-42'' = Some (- 42)" "parse_int64 ''9223372036854775808'' = None" "parse_int64 ''+'' = None"
  "parse_float_finite ''_1'' = None" "parse_float_finite ''0x1p4'' = Some (FRat 16)"
  "parse_float_finite ''-0'' = Some FNegZero"
  by code_simp+

end
