(* ===== verification/Payload_Validation.thy ===== *)
theory Payload_Validation
  imports Validation_Laws Go_Parse "HOL-Library.AList" "HOL-Library.Char_ord" "HOL-Library.List_Lexorder" "HOL-Library.Product_Lexorder"
begin

text \<open>
  Checking an evaluation object against the data model (\<^verbatim>\<open>domain/payload/validation.go\<close>): the compiled
  schema of a table, the normal form of each value, the report of at most one hundred issues. Go maps
  are association lists with distinct keys; the order of the list stands for the iteration order,
  which Go leaves open.
\<close>

subsection \<open>Schemas\<close>

record issue =
  is_field :: string
  is_code :: string
  is_message :: string

text \<open>\<^verbatim>\<open>*Error\<close>, \<^verbatim>\<open>*ModelContractError\<close>, and the errors of the reader.\<close>

datatype prep_error =
    PayloadError (pe_category: string) (pe_revision: string) (pe_issues: "issue list") (pe_truncated: bool)
  | ContractError
  | OtherError string

record payload_field =
  pf_definition :: tm_field
  pf_enum :: "string list option"

record payload_schema =
  ps_fields :: "(string \<times> payload_field) list"
  ps_ordered :: "string list"
  ps_managed :: "string list"
  ps_lookup :: string

definition physical_columns :: "string list" where
  "physical_columns = [''id'', ''updated_at'', ''valid_from'', ''valid_until'']"

definition known_kinds :: "string list" where
  "known_kinds = [''bool'', ''int'', ''float'', ''timestamp'', ''ip_address'', ''string'']"

definition schema_field :: "tm_field \<Rightarrow> payload_field" where
  "schema_field d = \<lparr>pf_definition = d, pf_enum = (if tf_is_enum d then Some (tf_enum_values d) else None)\<rparr>"

definition active_fields :: "tm_table \<Rightarrow> (string \<times> tm_field) list" where
  "active_fields table = filter (\<lambda>(k, d). \<not> tf_archived d) (tt_fields table)"

text \<open>\<^verbatim>\<open>compiled\<close>, without its cache (theory Payload_Cache).\<close>

definition compile_schema :: "string \<Rightarrow> tenant_model \<Rightarrow> prep_error + payload_schema" where
  "compile_schema object_type m =
     (case map_of (tm_tables m) object_type of
        None \<Rightarrow> Inl (PayloadError ''payload_validation_failed'' (tm_revision m)
          [\<lparr>is_field = ''object_type'', is_code = ''unknown_object_type'', is_message = ''object type is not active in the tenant model''\<rparr>] False)
      | Some table \<Rightarrow>
          if tt_archived table then Inl (PayloadError ''payload_validation_failed'' (tm_revision m)
            [\<lparr>is_field = ''object_type'', is_code = ''unknown_object_type'', is_message = ''object type is not active in the tenant model''\<rparr>] False)
          else if list_ex (\<lambda>(k, d). tf_type d \<notin> set known_kinds) (active_fields table) then Inl ContractError
          else Inr \<lparr>ps_fields = map (\<lambda>(k, d). (k, schema_field d)) (active_fields table),
                    ps_ordered = sort (map fst (active_fields table)),
                    ps_managed = tm_system_fields m @ physical_columns,
                    ps_lookup = (if tm_lookup_field m = [] then ''object_id'' else tm_lookup_field m)\<rparr>)"

subsection \<open>The normal form of a value\<close>

text \<open>\<^verbatim>\<open>math.Trunc(n) == n\<close> and the bounds of the integers a float64 holds exactly.\<close>

definition exact_integer :: "f64 \<Rightarrow> int option" where
  "exact_integer x = (case f64_rat x of None \<Rightarrow> None
     | Some q \<Rightarrow> if of_int (rat_trunc q) = q \<and> - 9007199254740991 \<le> q \<and> q \<le> 9007199254740991
                then Some (rat_trunc q) else None)"

definition finite_float :: "f64 \<Rightarrow> gval option" where
  "finite_float x = (case f64_rat x of None \<Rightarrow> None | Some _ \<Rightarrow> Some (VFloat x))"

fun normalize_text :: "gval \<Rightarrow> gval option" where
  "normalize_text (VStr s) = Some (VStr s)"
| "normalize_text _ = None"

fun normalize_bool :: "gval \<Rightarrow> gval option" where
  "normalize_bool (VBool b) = Some (VBool b)"
| "normalize_bool (VStr s) = (let t = to_lower (trim_space s) in
     if t = ''true'' then Some (VBool True) else if t = ''false'' then Some (VBool False) else None)"
| "normalize_bool _ = None"

fun normalize_int :: "gval \<Rightarrow> gval option" where
  "normalize_int (VInt i) = Some (VInt64 i)"
| "normalize_int (VInt64 i) = Some (VInt64 i)"
| "normalize_int (VNum s) = map_option VInt64 (parse_int64 s)"
| "normalize_int (VStr s) = map_option VInt64 (parse_int64 (trim_space s))"
| "normalize_int (VFloat x) = map_option VInt64 (exact_integer x)"
| "normalize_int _ = None"

fun normalize_float :: "gval \<Rightarrow> gval option" where
  "normalize_float (VFloat x) = finite_float x"
| "normalize_float (VFloat32 x) = finite_float x"
| "normalize_float (VInt i) = finite_float (f64_of_int i)"
| "normalize_float (VInt64 i) = finite_float (f64_of_int i)"
| "normalize_float (VNum s) = map_option VFloat (parse_float_finite s)"
| "normalize_float (VStr s) = map_option VFloat (parse_float_finite (trim_space s))"
| "normalize_float _ = None"

fun normalize_time :: "gval \<Rightarrow> gval option" where
  "normalize_time (VTime t) = Some (VTime t)"
| "normalize_time (VStr s) = map_option VTime (parse_rfc3339 s)"
| "normalize_time _ = None"

fun normalize_addr :: "gval \<Rightarrow> gval option" where
  "normalize_addr (VStr s) = (if parse_addr_ok (trim_space s) then Some (VStr (trim_space s)) else None)"
| "normalize_addr _ = None"

definition normalize_value :: "string \<Rightarrow> gval \<Rightarrow> gval option" where
  "normalize_value kind v =
     (if kind = ''string'' then normalize_text v
      else if kind = ''bool'' then normalize_bool v
      else if kind = ''int'' then normalize_int v
      else if kind = ''float'' then normalize_float v
      else if kind = ''timestamp'' then normalize_time v
      else if kind = ''ip_address'' then normalize_addr v
      else None)"

subsection \<open>The report\<close>

type_synonym report = "issue list \<times> bool"

definition max_issues :: nat where "max_issues = 100"

definition issue_key :: "issue \<Rightarrow> string \<times> string" where
  "issue_key i = (is_field i, is_code i)"

text \<open>\<^verbatim>\<open>add\<close>. The search is for the first issue whose key is not smaller.\<close>

definition issue_index :: "string \<Rightarrow> string \<Rightarrow> issue list \<Rightarrow> nat" where
  "issue_index name code is =
     length (takeWhile (\<lambda>c. \<not> (is_field c > name \<or> is_field c = name \<and> is_code c \<ge> code)) is)"

definition insert_at :: "nat \<Rightarrow> 'a \<Rightarrow> 'a list \<Rightarrow> 'a list" where
  "insert_at n x xs = take n xs @ x # drop n xs"

definition add_issue :: "string \<Rightarrow> string \<Rightarrow> string \<Rightarrow> report \<Rightarrow> report" where
  "add_issue name code message r =
     (let i = \<lparr>is_field = name, is_code = code, is_message = message\<rparr>; (is, truncated) = r;
          index = issue_index name code is
      in if length is = max_issues then
           (if index = max_issues then (is, True) else (insert_at index i (take (max_issues - 1) is), True))
         else (insert_at index i is, truncated))"

subsection \<open>The check\<close>

text \<open>The body of the loop over the supplied values: an issue, or the value to store.\<close>

definition physical_field :: "string \<Rightarrow> payload_field" where
  "physical_field name =
     \<lparr>pf_definition = \<lparr>tf_name = [], tf_type = (if name = ''id'' then ''string'' else ''timestamp''),
        tf_nullable = (name = ''valid_until''), tf_archived = False, tf_is_enum = False, tf_enum_values = []\<rparr>,
      pf_enum = None\<rparr>"

definition field_contract :: "payload_schema \<Rightarrow> string \<Rightarrow> payload_field option" where
  "field_contract s name = (case map_of (ps_fields s) name of
       Some f \<Rightarrow> Some f
     | None \<Rightarrow> if name \<in> set physical_columns \<and> name \<in> set (ps_managed s) then Some (physical_field name) else None)"

definition check_supplied :: "payload_schema \<Rightarrow> string \<Rightarrow> gval \<Rightarrow> (string \<times> string) + gval" where
  "check_supplied s name v = (case field_contract s name of
       None \<Rightarrow> Inl (''unknown_field'', ''field is not active in the object model'')
     | Some f \<Rightarrow>
         if v = VNil then
           (if \<not> tf_nullable (pf_definition f) then Inl (''null_not_allowed'', ''field does not allow NULL'') else Inr VNil)
         else (case normalize_value (tf_type (pf_definition f)) v of
             None \<Rightarrow> Inl (''invalid_type'', ''value does not satisfy field type '' @ tf_type (pf_definition f))
           | Some w \<Rightarrow> (case pf_enum f of
                 None \<Rightarrow> Inr w
               | Some cat \<Rightarrow> if go_sprint w \<in> set cat then Inr w
                   else Inl (''invalid_enum'', ''value is not in the field enum catalog''))))"

text \<open>The body of the loop over the declared fields; None when the field is left alone.\<close>

definition check_absent :: "payload_schema \<Rightarrow> field_map \<Rightarrow> string \<Rightarrow> ((string \<times> string) + gval) option" where
  "check_absent s values name =
     (if name = ps_lookup s \<or> name \<in> set (ps_managed s) \<or> name \<in> fst ` set values then None
      else case map_of (ps_fields s) name of
        Some f \<Rightarrow> if \<not> tf_nullable (pf_definition f)
           then Some (Inl (''missing_required'', ''field is required for a full evaluation object'')) else Some (Inr VNil)
      | None \<Rightarrow> None)"

definition note_result :: "string \<Rightarrow> (string \<times> string) + gval \<Rightarrow> field_map \<times> report \<Rightarrow> field_map \<times> report" where
  "note_result name c st = (case c of
       Inl (code, message) \<Rightarrow> (fst st, add_issue name code message (snd st))
     | Inr v \<Rightarrow> (AList.update name v (fst st), snd st))"

definition identity_report :: "payload_schema \<Rightarrow> string \<Rightarrow> field_map \<Rightarrow> report" where
  "identity_report s object_id values =
     (let r = (if trim_space object_id = [] then add_issue ''object_id'' ''missing_required'' ''object ID is required'' ([], False)
               else ([], False))
      in case map_of values (ps_lookup s) of
           None \<Rightarrow> r
         | Some v \<Rightarrow> (case v of VStr text \<Rightarrow>
               if trim_space text \<noteq> object_id
               then add_issue (ps_lookup s) ''identity_mismatch'' ''payload identity must match object ID'' r else r
             | _ \<Rightarrow> add_issue (ps_lookup s) ''identity_mismatch'' ''payload identity must match object ID'' r))"

definition supplied_step :: "payload_schema \<Rightarrow> string \<times> gval \<Rightarrow> field_map \<times> report \<Rightarrow> field_map \<times> report" where
  "supplied_step s p st = (if fst p = ps_lookup s then st else note_result (fst p) (check_supplied s (fst p) (snd p)) st)"

definition absent_step :: "payload_schema \<Rightarrow> field_map \<Rightarrow> string \<Rightarrow> field_map \<times> report \<Rightarrow> field_map \<times> report" where
  "absent_step s values name st = (case check_absent s values name of None \<Rightarrow> st | Some c \<Rightarrow> note_result name c st)"

definition finish_report :: "string \<Rightarrow> string \<Rightarrow> field_map \<times> report \<Rightarrow> prep_error + field_map" where
  "finish_report category revision st =
     (let (out, is, truncated) = st in
      if is \<noteq> [] then
        (let sorted = sort_key issue_key is in
         Inl (if max_issues < length sorted then PayloadError category revision (take max_issues sorted) True
              else PayloadError category revision sorted truncated))
      else Inr out)"

definition validate_values :: "payload_schema \<Rightarrow> string \<Rightarrow> string \<Rightarrow> string \<Rightarrow> field_map \<Rightarrow> prep_error + field_map" where
  "validate_values s category revision object_id values =
     finish_report category revision
       (fold (absent_step s values) (ps_ordered s)
         (fold (supplied_step s) values
           ([(ps_lookup s, VStr object_id)], identity_report s object_id values)))"

definition validate_payload :: "string \<Rightarrow> string \<Rightarrow> field_map \<Rightarrow> tenant_model \<Rightarrow> bool \<Rightarrow> prep_error + field_map" where
  "validate_payload object_type object_id values m stored =
     bind_r (compile_schema object_type m) (\<lambda>s.
       validate_values s (if stored then ''stored_record_invalid'' else ''payload_validation_failed'') (tm_revision m)
         object_id values)"

end
