(* ===== verification/Payload_Laws.thy ===== *)
theory Payload_Laws
  imports Payload_Validation "HOL-Library.Multiset"
begin

text \<open>
  What the payload check promises: the specification \<open>payload_issues\<close> and \<open>payload_value\<close> say which
  issues an object has and which record it becomes, and the loops of the code refine it whatever the
  iteration order is.
\<close>

subsection \<open>The bounded report\<close>

lemma issue_position:
  "insert_at (issue_index name code is) i is = insort_key issue_key i is"
  if "is_field i = name" "is_code i = code"
  using that by (induction "is") (auto simp: issue_index_def insert_at_def issue_key_def less_eq_prod_def)

lemma issue_index_le: "issue_index name code is \<le> length is"
  by (simp add: issue_index_def length_takeWhile_le)

lemma take_insort: "take n (insort_key f x (take n xs)) = take n (insort_key f x xs)"
proof (induction xs arbitrary: n)
  case (Cons y xs)
  then show ?case by (cases n) (auto simp: take_Cons')
qed simp

lemma issue_index_take: "issue_index name code is < k \<Longrightarrow> issue_index name code (take k is) = issue_index name code is"
  by (induction "is" arbitrary: k) (auto simp: issue_index_def take_Cons' split: if_splits)

lemma add_issue_insort:
  assumes "length is \<le> max_issues" "i = \<lparr>is_field = name, is_code = code, is_message = msg\<rparr>"
  shows "add_issue name code msg (is, tr) =
    (take max_issues (insort_key issue_key i is), tr \<or> length is = max_issues)"
proof -
  have p: "insert_at (issue_index name code is) i is = insort_key issue_key i is"
    by (rule issue_position) (simp_all add: assms(2))
  show ?thesis
  proof (cases "length is = max_issues")
    case False
    then have "take max_issues (insort_key issue_key i is) = insort_key issue_key i is"
      using assms(1) by (simp add: length_insort)
    then show ?thesis using False p assms(2) by (simp add: add_issue_def Let_def)
  next
    case full: True
    show ?thesis
    proof (cases "issue_index name code is = max_issues")
      case True
      then have "insort_key issue_key i is = is @ [i]" using p full by (simp add: insert_at_def)
      then show ?thesis using True full by (simp add: add_issue_def Let_def)
    next
      case False
      let ?k = "issue_index name code is"
      have k: "?k < max_issues" "?k \<le> max_issues - Suc 0"
        using False issue_index_le [of name code "is"] full by simp_all
      have "take max_issues (insort_key issue_key i is) = take ?k is @ i # take (max_issues - Suc ?k) (drop ?k is)"
        using k full by (simp add: p [symmetric] insert_at_def take_Cons')
      also have "\<dots> = insert_at ?k i (take (max_issues - 1) is)"
        using k by (simp add: insert_at_def drop_take min_def)
      finally show ?thesis using False full assms(2) by (simp add: add_issue_def Let_def)
    qed
  qed
qed

definition put_issue :: "issue \<Rightarrow> report \<Rightarrow> report" where
  "put_issue i = add_issue (is_field i) (is_code i) (is_message i)"

definition report_of :: "issue list \<Rightarrow> report" where
  "report_of js = (take max_issues (sort_key issue_key (rev js)), max_issues < length js)"

lemma report_of_nil [simp]: "report_of [] = ([], False)"
  by (simp add: report_of_def)

lemma put_report_of: "put_issue i (report_of js) = report_of (js @ [i])"
proof -
  have len: "length (take max_issues (sort_key issue_key (rev js))) = min max_issues (length js)" by simp
  have "put_issue i (report_of js) =
      (take max_issues (insort_key issue_key i (take max_issues (sort_key issue_key (rev js)))),
       max_issues < length js \<or> min max_issues (length js) = max_issues)"
    unfolding put_issue_def report_of_def by (subst add_issue_insort [where i = i]) auto
  then show ?thesis by (auto simp: report_of_def take_insort)
qed


subsection \<open>What the loops compute\<close>

type_synonym finding = "string \<times> ((string \<times> string) + gval)"

definition supplied_notes :: "payload_schema \<Rightarrow> field_map \<Rightarrow> finding list" where
  "supplied_notes s values = map (\<lambda>(k, v). (k, check_supplied s k v)) (filter (\<lambda>(k, v). k \<noteq> ps_lookup s) values)"

definition absent_notes :: "payload_schema \<Rightarrow> field_map \<Rightarrow> finding list" where
  "absent_notes s values = List.map_filter (\<lambda>k. map_option (Pair k) (check_absent s values k)) (ps_ordered s)"

fun note_issues :: "finding list \<Rightarrow> issue list" where
  "note_issues [] = []"
| "note_issues ((k, Inl (code, message)) # ns) =
     \<lparr>is_field = k, is_code = code, is_message = message\<rparr> # note_issues ns"
| "note_issues ((k, Inr v) # ns) = note_issues ns"

fun note_values :: "finding list \<Rightarrow> field_map" where
  "note_values [] = []"
| "note_values ((k, Inl e) # ns) = note_values ns"
| "note_values ((k, Inr v) # ns) = (k, v) # note_values ns"

lemma supplied_loop:
  "fold (supplied_step s) values st = fold (\<lambda>(k, c). note_result k c) (supplied_notes s values) st"
  by (induction "values" arbitrary: st) (auto simp: supplied_notes_def supplied_step_def)

lemma absent_loop:
  "fold (absent_step s values) names st =
    fold (\<lambda>(k, c). note_result k c) (List.map_filter (\<lambda>k. map_option (Pair k) (check_absent s values k)) names) st"
  by (induction names arbitrary: st) (auto simp: absent_step_def List.map_filter_simps split: option.split)

lemma notes_loop:
  "fold (\<lambda>(k, c). note_result k c) ns (out, report_of js) =
     (fold (\<lambda>(k, v). AList.update k v) (note_values ns) out, report_of (js @ note_issues ns))"
proof (induction ns arbitrary: out js rule: note_issues.induct)
  case (2 k code message ns)
  have "add_issue k code message (report_of js) =
      report_of (js @ [\<lparr>is_field = k, is_code = code, is_message = message\<rparr>])"
    using put_report_of [of "\<lparr>is_field = k, is_code = code, is_message = message\<rparr>" js] by (simp add: put_issue_def)
  then show ?case using "2.IH" by (simp add: note_result_def)
qed (simp_all add: note_result_def)

fun names_object :: "gval \<Rightarrow> string \<Rightarrow> bool" where
  "names_object (VStr t) object_id = (trim_space t = object_id)"
| "names_object _ object_id = False"

definition identity_issues :: "payload_schema \<Rightarrow> string \<Rightarrow> field_map \<Rightarrow> issue list" where
  "identity_issues s object_id values =
     (if trim_space object_id = [] then
        [\<lparr>is_field = ''object_id'', is_code = ''missing_required'', is_message = ''object ID is required''\<rparr>] else []) @
     (case map_of values (ps_lookup s) of
        None \<Rightarrow> []
      | Some v \<Rightarrow> if names_object v object_id then []
          else [\<lparr>is_field = ps_lookup s, is_code = ''identity_mismatch'',
                 is_message = ''payload identity must match object ID''\<rparr>])"

lemma identity_report_of: "identity_report s object_id values = report_of (identity_issues s object_id values)"
proof -
  let ?a = "\<lparr>is_field = ''object_id'', is_code = ''missing_required'', is_message = ''object ID is required''\<rparr>"
  let ?b = "\<lparr>is_field = ps_lookup s, is_code = ''identity_mismatch'', is_message = ''payload identity must match object ID''\<rparr>"
  have add: "add_issue (is_field i) (is_code i) (is_message i) (report_of js) = report_of (js @ [i])" for i js
    using put_report_of by (simp add: put_issue_def)
  have nil: "([], False) = report_of []" by simp
  show ?thesis
    unfolding identity_report_def identity_issues_def Let_def nil
    using add [of ?a] add [of ?b] by (auto split: option.split gval.split simp del: report_of_nil)
qed

definition payload_notes :: "payload_schema \<Rightarrow> field_map \<Rightarrow> finding list" where
  "payload_notes s values = supplied_notes s values @ absent_notes s values"

definition payload_issues :: "payload_schema \<Rightarrow> string \<Rightarrow> field_map \<Rightarrow> issue list" where
  "payload_issues s object_id values = identity_issues s object_id values @ note_issues (payload_notes s values)"

definition payload_record :: "payload_schema \<Rightarrow> string \<Rightarrow> field_map \<Rightarrow> field_map" where
  "payload_record s object_id values =
     fold (\<lambda>(k, v). AList.update k v) (note_values (payload_notes s values)) [(ps_lookup s, VStr object_id)]"

lemma note_issues_append: "note_issues (a @ b) = note_issues a @ note_issues b"
  by (induction a rule: note_issues.induct) auto

lemma note_values_append: "note_values (a @ b) = note_values a @ note_values b"
  by (induction a rule: note_values.induct) auto

lemma sorted_report: "sort_key issue_key (take n (sort_key issue_key js)) = take n (sort_key issue_key js)"
  by (rule sort_key_id_if_sorted) (simp add: sorted_wrt_take take_map [symmetric])

lemma sort_key_Nil [simp]: "(sort_key f xs = []) = (xs = [])"
  by (metis length_0_conv length_sort)

lemma validate_values_spec:
  "validate_values s category revision object_id values =
    (if payload_issues s object_id values = [] then Inr (payload_record s object_id values)
     else Inl (PayloadError category revision
       (take max_issues (sort_key issue_key (rev (payload_issues s object_id values))))
       (max_issues < length (payload_issues s object_id values))))"
proof -
  have "fold (absent_step s values) (ps_ordered s) (fold (supplied_step s) values
      ([(ps_lookup s, VStr object_id)], identity_report s object_id values)) =
    (payload_record s object_id values, report_of (payload_issues s object_id values))"
    unfolding supplied_loop absent_loop identity_report_of absent_notes_def [symmetric] notes_loop
    by (simp add: payload_record_def payload_issues_def payload_notes_def note_issues_append note_values_append)
  then show ?thesis
    by (simp add: validate_values_def finish_report_def report_of_def Let_def sorted_report max_issues_def)
qed


subsection \<open>The record that comes out\<close>

definition payload_value :: "payload_schema \<Rightarrow> string \<Rightarrow> field_map \<Rightarrow> string \<Rightarrow> gval option" where
  "payload_value s object_id values k =
     (if k = ps_lookup s then Some (VStr object_id)
      else case map_of values k of
        Some v \<Rightarrow> (case check_supplied s k v of Inr w \<Rightarrow> Some w | Inl _ \<Rightarrow> None)
      | None \<Rightarrow> if k \<in> set (ps_ordered s)
          then (case check_absent s values k of Some (Inr w) \<Rightarrow> Some w | _ \<Rightarrow> None) else None)"

lemma map_of_updates:
  "map_of (fold (\<lambda>(k, v). AList.update k v) xs m) = map_of m ++ map_of (rev xs)"
  by (induction xs arbitrary: m) (auto simp: update_conv' map_add_assoc [symmetric] fun_eq_iff map_add_def split: option.split)

lemma distinct_updates: "distinct (map fst m) \<Longrightarrow> distinct (map fst (fold (\<lambda>(k, v). AList.update k v) xs m))"
  by (induction xs arbitrary: m) (auto simp: distinct_update)

lemma map_of_rev: "distinct (map fst xs) \<Longrightarrow> map_of (rev xs) = map_of xs"
  by (rule map_of_inject_set [THEN iffD2]) (auto simp: rev_map [symmetric])

lemma note_values_keys: "fst ` set (note_values ns) \<subseteq> fst ` set ns"
  by (induction ns rule: note_values.induct) auto

lemma note_values_distinct: "distinct (map fst ns) \<Longrightarrow> distinct (map fst (note_values ns))"
proof (induction ns rule: note_values.induct)
  case (3 k v ns)
  then show ?case using note_values_keys [of ns] by auto
qed auto

lemma map_of_note_values: "distinct (map fst ns) \<Longrightarrow>
    map_of (note_values ns) k = (case map_of ns k of Some (Inr v) \<Rightarrow> Some v | _ \<Rightarrow> None)"
proof (induction ns rule: note_values.induct)
  case (2 k' e ns)
  then have "map_of ns k' = None" by (simp add: map_of_eq_None_iff)
  then show ?case using 2 by auto
qed auto

lemma absent_keys: "map fst (absent_notes s values) = filter (\<lambda>k. check_absent s values k \<noteq> None) (ps_ordered s)"
proof -
  have "map fst (List.map_filter (\<lambda>k. map_option (Pair k) (f k)) ns) = filter (\<lambda>k. f k \<noteq> None) ns"
    for f :: "string \<Rightarrow> ((string \<times> string) + gval) option" and ns
    by (induction ns) (auto simp: List.map_filter_simps split: option.split)
  then show ?thesis by (simp add: absent_notes_def)
qed

lemma supplied_keys: "map fst (supplied_notes s values) = filter (\<lambda>k. k \<noteq> ps_lookup s) (map fst values)"
  by (induction "values") (auto simp: supplied_notes_def)

lemma absent_not_supplied: "check_absent s values k \<noteq> None \<Longrightarrow> k \<notin> fst ` set values \<and> k \<noteq> ps_lookup s"
  by (auto simp: check_absent_def split: if_splits)

lemma payload_notes_distinct:
  "distinct (map fst values) \<Longrightarrow> distinct (ps_ordered s) \<Longrightarrow> distinct (map fst (payload_notes s values))"
  using absent_not_supplied [of s "values"]
  by (auto simp: payload_notes_def absent_keys supplied_keys)

lemma map_of_supplied: "map_of (supplied_notes s values) k =
    (if k = ps_lookup s then None else map_option (check_supplied s k) (map_of values k))"
  by (induction "values") (auto simp: supplied_notes_def)

lemma map_of_absent: "map_of (absent_notes s values) k =
    (if k \<in> set (ps_ordered s) then check_absent s values k else None)"
proof -
  have "map_of (List.map_filter (\<lambda>k. map_option (Pair k) (check_absent s values k)) ns) k =
      (if k \<in> set ns then check_absent s values k else None)" for ns
    by (induction ns) (auto simp: List.map_filter_simps split: option.split)
  then show ?thesis by (simp add: absent_notes_def)
qed

lemma map_of_payload_notes: "map_of (payload_notes s values) k =
    (if k = ps_lookup s then None else case map_of values k of Some v \<Rightarrow> Some (check_supplied s k v)
     | None \<Rightarrow> if k \<in> set (ps_ordered s) then check_absent s values k else None)"
proof -
  have "map_of values k \<noteq> None \<Longrightarrow> check_absent s values k = None" "check_absent s values (ps_lookup s) = None"
    using absent_not_supplied by (metis map_of_eq_None_iff)+
  then show ?thesis
    by (auto simp: payload_notes_def map_add_def map_of_supplied map_of_absent split: option.split)
qed

lemma payload_record_value:
  assumes "distinct (map fst values)" "distinct (ps_ordered s)"
  shows "map_of (payload_record s object_id values) = payload_value s object_id values"
proof
  fix k
  note d = payload_notes_distinct [OF assms]
  have "map_of (payload_record s object_id values) k =
      (map_of [(ps_lookup s, VStr object_id)] ++ map_of (note_values (payload_notes s values))) k"
    by (simp add: payload_record_def map_of_updates map_of_rev note_values_distinct [OF d])
  then show "map_of (payload_record s object_id values) k = payload_value s object_id values k"
    by (auto simp: payload_value_def map_of_note_values [OF d] map_of_payload_notes map_add_def
        split: option.split sum.split)
qed

lemma payload_record_distinct: "distinct (map fst (payload_record s object_id values))"
  by (simp add: payload_record_def distinct_updates)

subsection \<open>The iteration order\<close>

lemma sort_key_unique:
  assumes "mset xs = mset ys" "\<And>k. filter (\<lambda>x. f x = k) xs = filter (\<lambda>x. f x = k) ys"
  shows "sort_key f xs = sort_key f ys"
proof (rule properties_for_sort_key)
  show "filter (\<lambda>x. f k = f x) (sort_key f ys) = filter (\<lambda>x. f k = f x) xs" for k
    using sort_key_stable [of f "f k" ys] assms(2) [of "f k"] by (simp add: eq_commute)
qed (simp_all add: assms(1))

lemma note_issues_map: "note_issues ns =
    map (\<lambda>(k, c). \<lparr>is_field = k, is_code = fst (projl c), is_message = snd (projl c)\<rparr>) (filter (\<lambda>(k, c). isl c) ns)"
  by (induction ns rule: note_issues.induct) auto

lemma note_issues_fields: "is_field ` set (note_issues ns) \<subseteq> fst ` set ns"
  by (induction ns rule: note_issues.induct) auto

lemma note_issues_distinct: "distinct (map fst ns) \<Longrightarrow> distinct (map is_field (note_issues ns))"
proof (induction ns rule: note_issues.induct)
  case (2 k code message ns)
  then show ?case using note_issues_fields [of ns] by auto
qed auto

lemma filter_distinct_key: "distinct (map f xs) \<Longrightarrow> length (filter (\<lambda>x. f x = k) xs) \<le> 1"
proof (induction xs)
  case (Cons x xs)
  show ?case
  proof (cases "f x = k")
    case True
    then have "filter (\<lambda>x. f x = k) xs = []" using Cons.prems by (metis (mono_tags, lifting) filter_False distinct.simps(2) image_eqI list.simps(9) set_map)
    then show ?thesis by simp
  qed (use Cons in simp)
qed simp

lemma filter_perm_key:
  assumes "mset xs = mset ys" "distinct (map f xs)"
  shows "filter (\<lambda>x. f x = k) xs = filter (\<lambda>x. f x = k) ys"
proof -
  have m: "mset (filter (\<lambda>x. f x = k) xs) = mset (filter (\<lambda>x. f x = k) ys)" using assms(1) by simp
  have "length (filter (\<lambda>x. f x = k) xs) \<le> 1" using filter_distinct_key assms(2) .
  then consider "filter (\<lambda>x. f x = k) xs = []" | x where "filter (\<lambda>x. f x = k) xs = [x]"
    by (cases "filter (\<lambda>x. f x = k) xs") auto
  then show ?thesis
  proof cases
    case (2 x)
    then have "mset (filter (\<lambda>x. f x = k) ys) = {#x#}" using m by simp
    then show ?thesis using 2 by (simp only: mset_single_iff)
  qed (use m in simp)
qed

lemma payload_report_perm:
  assumes p: "mset values = mset values'" and d: "distinct (map fst values)" "distinct (ps_ordered s)"
  shows "sort_key issue_key (rev (payload_issues s object_id values)) = sort_key issue_key (rev (payload_issues s object_id values'))"
    and "length (payload_issues s object_id values) = length (payload_issues s object_id values')"
proof -
  have st: "set values = set values'" using p by (rule mset_eq_setD)
  have d': "distinct (map fst values')" using p d(1) by (metis mset_eq_imp_distinct_iff mset_map)
  have m: "map_of values = map_of values'" using st d(1) d' map_of_inject_set by blast
  have i: "identity_issues s object_id values = identity_issues s object_id values'" by (simp add: identity_issues_def m)
  have "check_absent s values = check_absent s values'" by (simp add: fun_eq_iff check_absent_def st)
  then have a: "absent_notes s values = absent_notes s values'" by (simp add: absent_notes_def)
  let ?n = "note_issues (supplied_notes s values)" and ?n' = "note_issues (supplied_notes s values')"
  have n: "mset ?n = mset ?n'" by (simp add: note_issues_map supplied_notes_def p)
  have ds: "distinct (map fst (supplied_notes s values))" using d(1) by (simp add: supplied_keys)
  have dk: "distinct (map issue_key ?n)"
    using note_issues_distinct [OF ds] by (auto simp: distinct_map inj_on_def issue_key_def)
  have e: "payload_issues s object_id values = identity_issues s object_id values @ ?n @ note_issues (absent_notes s values)"
    "payload_issues s object_id values' = identity_issues s object_id values @ ?n' @ note_issues (absent_notes s values)"
    by (simp_all add: payload_issues_def payload_notes_def note_issues_append i a)
  show "sort_key issue_key (rev (payload_issues s object_id values)) = sort_key issue_key (rev (payload_issues s object_id values'))"
  proof (rule sort_key_unique)
    show "filter (\<lambda>x. issue_key x = k) (rev (payload_issues s object_id values)) =
        filter (\<lambda>x. issue_key x = k) (rev (payload_issues s object_id values'))" for k
      unfolding e rev_filter [symmetric] filter_append filter_perm_key [OF n dk] ..
  qed (simp add: e n)
  show "length (payload_issues s object_id values) = length (payload_issues s object_id values')"
    using mset_eq_length [OF n] by (simp add: e)
qed

lemma payload_perm:
  assumes p: "mset values = mset values'" and d: "distinct (map fst values)" "distinct (ps_ordered s)"
  shows "map_sum id map_of (validate_values s category revision object_id values) =
    map_sum id map_of (validate_values s category revision object_id values')"
proof -
  have d': "distinct (map fst values')" using p d(1) by (metis mset_eq_imp_distinct_iff mset_map)
  have st: "set values = set values'" using p by (rule mset_eq_setD)
  have m: "map_of values = map_of values'" using st d(1) d' map_of_inject_set by blast
  have c: "check_absent s values = check_absent s values'" by (simp add: fun_eq_iff check_absent_def st)
  have "payload_value s object_id values = payload_value s object_id values'"
    by (rule ext) (simp only: payload_value_def m c)
  then have "map_of (payload_record s object_id values) = map_of (payload_record s object_id values')"
    by (simp add: payload_record_value [OF d] payload_record_value [OF d' d(2)])
  then show ?thesis
    using payload_report_perm [OF p d, of object_id]
    by (auto simp: validate_values_spec)
qed

subsection \<open>Checking the outcome again\<close>

lemma parse_float_finite_ok: "parse_float_finite s = Some x \<Longrightarrow> f64_rat x \<noteq> None"
  by (auto simp: parse_float_finite_def Let_def split: prod.splits option.splits f64.splits if_splits)

lemma finite_float_idem: "finite_float x = Some w \<Longrightarrow> w = VFloat x \<and> finite_float x = Some (VFloat x)"
  by (auto simp: finite_float_def split: option.splits)

lemma normalize_float_fixed:
  assumes "normalize_float v = Some w"
  shows "\<exists>x. w = VFloat x \<and> finite_float x = Some (VFloat x)"
proof -
  have parsed: "map_option VFloat (parse_float_finite s) = Some w \<Longrightarrow> ?thesis" for s
    using parse_float_finite_ok by (fastforce simp: finite_float_def split: option.splits)
  have num: "finite_float y = Some w \<Longrightarrow> ?thesis" for y using finite_float_idem by blast
  show ?thesis using assms parsed num by (cases v) auto
qed

lemma normalize_value_idem:
  "normalize_value kind v = Some w \<Longrightarrow> normalize_value kind w = Some w \<and> w \<noteq> VNil"
proof -
  assume a: "normalize_value kind v = Some w"
  have "normalize_text v = Some w \<Longrightarrow> normalize_text w = Some w \<and> w \<noteq> VNil" by (cases v) auto
  moreover have "normalize_bool v = Some w \<Longrightarrow> normalize_bool w = Some w \<and> w \<noteq> VNil"
    by (cases v) (auto simp: Let_def split: if_splits)
  moreover have "normalize_int v = Some w \<Longrightarrow> normalize_int w = Some w \<and> w \<noteq> VNil" by (cases v) auto
  moreover have "normalize_float v = Some w \<Longrightarrow> normalize_float w = Some w \<and> w \<noteq> VNil"
    using normalize_float_fixed by fastforce
  moreover have "normalize_time v = Some w \<Longrightarrow> normalize_time w = Some w \<and> w \<noteq> VNil" by (cases v) auto
  moreover have "normalize_addr v = Some w \<Longrightarrow> normalize_addr w = Some w \<and> w \<noteq> VNil"
    by (cases v) (auto simp: trim_space_idem split: if_splits)
  ultimately show ?thesis using a by (simp add: normalize_value_def split: if_splits)
qed

lemma check_supplied_idem: "check_supplied s k v = Inr w \<Longrightarrow> check_supplied s k w = Inr w"
  using normalize_value_idem by (fastforce simp: check_supplied_def split: option.splits if_splits)

lemma check_absent_null: "check_absent s values k = Some (Inr w) \<Longrightarrow> check_supplied s k w = Inr w \<and> w = VNil"
  by (auto simp: check_absent_def check_supplied_def field_contract_def split: option.splits if_splits)

lemma note_issues_nil: "(note_issues ns = []) = (\<forall>(k, c) \<in> set ns. \<not> isl c)"
  by (induction ns rule: note_issues.induct) auto

lemma notes_clean:
  assumes "payload_issues s oid values = []" "distinct (map fst values)" "distinct (ps_ordered s)"
    "map_of (payload_notes s values) k = Some c"
  shows "\<exists>v. c = Inr v"
  using assms(1) map_of_SomeD [OF assms(4)]
  by (cases c) (fastforce simp: payload_issues_def note_issues_nil)+

lemma accepted_value:
  assumes "payload_issues s oid values = []" "distinct (map fst values)" "distinct (ps_ordered s)"
    "payload_value s oid values k = Some w" "k \<noteq> ps_lookup s"
  shows "check_supplied s k w = Inr w"
  using assms(4,5) check_supplied_idem check_absent_null
  by (auto simp: payload_value_def split: option.splits sum.splits if_splits)

lemma payload_again:
  assumes ok: "payload_issues s oid values = []" and d: "distinct (map fst values)" "distinct (ps_ordered s)"
    and t: "trim_space oid = oid"
  defines "out \<equiv> payload_record s oid values"
  shows "payload_issues s oid out = []" "payload_value s oid out = payload_value s oid values"
proof -
  have m: "map_of out = payload_value s oid values" unfolding out_def by (rule payload_record_value [OF d])
  have dout: "distinct (map fst out)" unfolding out_def by (rule payload_record_distinct)
  have id: "identity_issues s oid values = []" using ok by (simp add: payload_issues_def)
  have lk: "map_of out (ps_lookup s) = Some (VStr oid)" by (simp add: m payload_value_def)
  have id': "identity_issues s oid out = []"
    using id t by (auto simp: identity_issues_def lk split: if_splits)
  have covered: "payload_value s oid values k \<noteq> None" if ab: "check_absent s out k \<noteq> None" and mem: "k \<in> set (ps_ordered s)" for k
  proof -
    have k: "k \<noteq> ps_lookup s" using absent_not_supplied [OF ab] by simp
    show ?thesis
    proof (cases "map_of values k")
      case None
      then have "k \<notin> fst ` set values" by (simp add: map_of_eq_None_iff)
      then have "check_absent s values k = check_absent s out k"
        using ab absent_not_supplied [OF ab] by (auto simp: check_absent_def split: if_splits)
      then obtain c where c: "check_absent s values k = Some c" using ab by auto
      have "map_of (payload_notes s values) k = Some c" using None k mem c by (simp add: map_of_payload_notes)
      then obtain v where "c = Inr v" using notes_clean [OF ok d] by blast
      then show ?thesis using None k mem c by (simp add: payload_value_def)
    next
      case (Some v)
      have "map_of (payload_notes s values) k = Some (check_supplied s k v)" using Some k by (simp add: map_of_payload_notes)
      then obtain w where "check_supplied s k v = Inr w" using notes_clean [OF ok d] by blast
      then show ?thesis using Some k by (simp add: payload_value_def)
    qed
  qed
  have none: "check_absent s out k = None" if "k \<in> set (ps_ordered s)" for k
    using covered [OF _ that] absent_not_supplied [of s out k] m by (metis map_of_eq_None_iff)
  have "\<not> isl c" if "(k, c) \<in> set (payload_notes s out)" for k c
  proof -
    have "map_of (payload_notes s out) k = Some c"
      using that payload_notes_distinct [OF dout d(2)] by simp
    then obtain w where w: "map_of out k = Some w" "c = check_supplied s k w" "k \<noteq> ps_lookup s"
      using none by (auto simp: map_of_payload_notes split: if_splits option.splits)
    then show ?thesis using accepted_value [OF ok d] by (simp add: m)
  qed
  then show "payload_issues s oid out = []" using id' by (auto simp: payload_issues_def note_issues_nil)
  show "payload_value s oid out = payload_value s oid values"
  proof
    fix k
    show "payload_value s oid out k = payload_value s oid values k"
    proof (cases "k = ps_lookup s")
      case False
      then show ?thesis
        using accepted_value [OF ok d _ False] none [of k]
        by (auto simp: payload_value_def [of s oid out] m split: option.split)
    qed (simp add: payload_value_def)
  qed
qed

end
