(* ===== verification/Payload_Cache.thy ===== *)
theory Payload_Cache
  imports Payload_Laws Eval_Caches
begin

text \<open>
  The validator's cache of compiled schemas (\<^verbatim>\<open>domain/payload/validation.go\<close>, \<^verbatim>\<open>compiled\<close>): at most 128
  entries that live thirty seconds, the least recently used one making room. Times are nanoseconds;
  the counter of uses is a natural number, where the code's \<^verbatim>\<open>uint64\<close> would wrap after 2^64 calls.
\<close>

datatype schema_key = SchemaKey (sk_tenant: string) (sk_object_type: string) (sk_revision: string)

record cache_entry =
  ce_schema :: payload_schema
  ce_expires :: int
  ce_used :: nat

record schema_cache =
  sc_entries :: "(schema_key \<times> cache_entry) list"
  sc_sequence :: nat
  sc_hits :: nat
  sc_builds :: nat

definition cache_capacity :: nat where "cache_capacity = 128"
definition cache_ttl :: int where "cache_ttl = 30 * sec_ns"

definition empty_cache :: schema_cache where
  "empty_cache = \<lparr>sc_entries = [], sc_sequence = 0, sc_hits = 0, sc_builds = 0\<rparr>"

text \<open>The loop that looks for the entry with the least use.\<close>

fun least_used :: "(schema_key \<times> cache_entry) list \<Rightarrow> (schema_key \<times> nat) option \<Rightarrow> schema_key option" where
  "least_used [] best = map_option fst best"
| "least_used ((k, e) # es) best =
     (case best of
        None \<Rightarrow> least_used es (Some (k, ce_used e))
      | Some (_, minimum) \<Rightarrow> least_used es (if ce_used e < minimum then Some (k, ce_used e) else best))"

definition make_room :: "(schema_key \<times> cache_entry) list \<Rightarrow> (schema_key \<times> cache_entry) list" where
  "make_room es =
     (if length es \<ge> cache_capacity then (case least_used es None of None \<Rightarrow> es | Some k \<Rightarrow> AList.delete k es) else es)"

definition live :: "int \<Rightarrow> cache_entry \<Rightarrow> bool" where
  "live now e = (now < ce_expires e)"

definition compiled :: "string \<Rightarrow> string \<Rightarrow> tenant_model \<Rightarrow> int \<Rightarrow> schema_cache \<Rightarrow> (prep_error + payload_schema) \<times> schema_cache" where
  "compiled tenant object_type m now c =
     (let key = SchemaKey tenant object_type (tm_revision m); n = Suc (sc_sequence c); c1 = c\<lparr>sc_sequence := n\<rparr>;
          build = (case compile_schema object_type m of
              Inl e \<Rightarrow> (Inl e, c1)
            | Inr s \<Rightarrow> (Inr s, c1\<lparr>sc_builds := Suc (sc_builds c),
                sc_entries := AList.update key \<lparr>ce_schema = s, ce_expires = now + cache_ttl, ce_used = n\<rparr>
                  (make_room (filter (\<lambda>(k, e). live now e) (sc_entries c)))\<rparr>))
      in case map_of (sc_entries c) key of
           None \<Rightarrow> build
         | Some e \<Rightarrow> if live now e
             then (Inr (ce_schema e), c1\<lparr>sc_hits := Suc (sc_hits c), sc_entries := AList.update key (e\<lparr>ce_used := n\<rparr>) (sc_entries c)\<rparr>)
             else build)"

subsection \<open>Reachable caches\<close>

text \<open>One call of the validator by a tenant whose model of that revision is \<open>model_of tenant revision\<close>;
  the clock may do anything between two calls.\<close>

inductive cache_step :: "(string \<Rightarrow> string \<Rightarrow> tenant_model) \<Rightarrow> schema_cache \<Rightarrow> schema_cache \<Rightarrow> bool" for model_of where
  call: "tm_revision (model_of tenant revision) = revision \<Longrightarrow>
    c' = snd (compiled tenant object_type (model_of tenant revision) now c) \<Longrightarrow> cache_step model_of c c'"

inductive_cases cache_stepE: "cache_step model_of c c'"

definition reachable_cache :: "(string \<Rightarrow> string \<Rightarrow> tenant_model) \<Rightarrow> schema_cache \<Rightarrow> bool" where
  "reachable_cache model_of c = (cache_step model_of)\<^sup>*\<^sup>* empty_cache c"

definition schema_query :: "schema_key \<Rightarrow> schema_key option" where
  "schema_query q = Some q"

definition schema_answer :: "(string \<Rightarrow> string \<Rightarrow> tenant_model) \<Rightarrow> schema_key \<Rightarrow> prep_error + payload_schema" where
  "schema_answer model_of q = compile_schema (sk_object_type q) (model_of (sk_tenant q) (sk_revision q))"

interpretation schema_memo: memo schema_query "schema_answer model_of" for model_of
  by unfold_locales (simp add: schema_query_def)

definition cache_ok :: "(string \<Rightarrow> string \<Rightarrow> tenant_model) \<Rightarrow> schema_cache \<Rightarrow> bool" where
  "cache_ok model_of c \<longleftrightarrow>
     distinct (map fst (sc_entries c)) \<and> length (sc_entries c) \<le> cache_capacity \<and>
     schema_memo.valid model_of (map (\<lambda>(k, e). (k, ce_schema e)) (sc_entries c))"

text \<open>The validity of the store, read entry by entry.\<close>

lemma valid_entries: "distinct (map fst es) \<Longrightarrow>
  schema_memo.valid model_of (map (\<lambda>(k, e). (k, ce_schema e)) es) \<longleftrightarrow>
    (\<forall>(k, e) \<in> set es. schema_answer model_of k = Inr (ce_schema e))"
proof -
  assume d: "distinct (map fst es)"
  have "map_of (map (\<lambda>(k, e). (k, ce_schema e)) es) k = map_option ce_schema (map_of es k)" for k
    by (induction es) auto
  then have "schema_memo.valid model_of (map (\<lambda>(k, e). (k, ce_schema e)) es) \<longleftrightarrow>
      (\<forall>k e. map_of es k = Some e \<longrightarrow> schema_answer model_of k = Inr (ce_schema e))"
    by (auto simp: schema_memo.valid_def schema_query_def)
  then show ?thesis using d by fastforce
qed

lemma least_used_key: "(\<forall>p. best = Some p \<longrightarrow> fst p \<in> K) \<Longrightarrow> fst ` set es \<subseteq> K \<Longrightarrow> es \<noteq> [] \<or> best \<noteq> None \<Longrightarrow>
    \<exists>k \<in> K. least_used es best = Some k"
proof (induction es best rule: least_used.induct)
  case (2 k e es best)
  show ?case
  proof (cases best)
    case None
    then show ?thesis using 2 by simp
  next
    case (Some p)
    then show ?thesis using 2 by (cases p) auto
  qed
qed auto

lemma length_delete: "distinct (map fst es) \<Longrightarrow> k \<in> fst ` set es \<Longrightarrow> length (AList.delete k es) < length es"
  by (auto simp: AList.delete_eq intro!: length_filter_less)

lemma make_room_length: "distinct (map fst es) \<Longrightarrow> length es \<le> cache_capacity \<Longrightarrow> length (make_room es) < cache_capacity"
proof -
  assume d: "distinct (map fst es)" and l: "length es \<le> cache_capacity"
  show ?thesis
  proof (cases "length es \<ge> cache_capacity")
    case True
    then have "es \<noteq> []" by (auto simp: cache_capacity_def)
    then obtain k where "k \<in> fst ` set es" "least_used es None = Some k"
      using least_used_key [of None "fst ` set es" es] by blast
    then show ?thesis using length_delete [OF d] l True by (fastforce simp: make_room_def)
  qed (simp add: make_room_def)
qed

lemma make_room_sub: "set (make_room es) \<subseteq> set es"
  by (auto simp: make_room_def AList.delete_eq split: option.splits)

lemma make_room_distinct: "distinct (map fst es) \<Longrightarrow> distinct (map fst (make_room es))"
  by (auto simp: make_room_def distinct_delete split: option.splits)

lemma update_length: "length (AList.update k v es) \<le> Suc (length es)"
  by (induction es) auto

lemma update_length_in: "k \<in> fst ` set es \<Longrightarrow> length (AList.update k v es) = length es"
  by (induction es) auto

lemma update_set: "distinct (map fst es) \<Longrightarrow> set (AList.update k v es) \<subseteq> insert (k, v) (set es)"
  by (induction es) auto

lemma cache_ok_step:
  assumes ok: "cache_ok model_of c" and r: "tm_revision (model_of tenant revision) = revision"
  shows "cache_ok model_of (snd (compiled tenant object_type (model_of tenant revision) now c))"
    and "fst (compiled tenant object_type (model_of tenant revision) now c) = compile_schema object_type (model_of tenant revision)"
proof -
  let ?m = "model_of tenant revision" and ?key = "SchemaKey tenant object_type revision"
  have d: "distinct (map fst (sc_entries c))" and l: "length (sc_entries c) \<le> cache_capacity"
    and v: "\<forall>(k, e) \<in> set (sc_entries c). schema_answer model_of k = Inr (ce_schema e)"
    using ok valid_entries [of "sc_entries c" model_of] by (simp_all add: cache_ok_def)
  let ?es = "filter (\<lambda>(k, e). live now e) (sc_entries c)"
  have de: "distinct (map fst ?es)" "length ?es \<le> cache_capacity" using d l
    by (auto simp: distinct_map_filter intro: order_trans [OF length_filter_le])
  have build: "cache_ok model_of (c\<lparr>sc_sequence := n, sc_builds := b,
      sc_entries := AList.update ?key \<lparr>ce_schema = s, ce_expires = x, ce_used = u\<rparr> (make_room ?es)\<rparr>)"
    if "compile_schema object_type ?m = Inr s" for s n b x u
  proof -
    have "distinct (map fst (AList.update ?key e (make_room ?es)))" for e
      by (simp add: distinct_update make_room_distinct de(1))
    moreover have "length (AList.update ?key e (make_room ?es)) \<le> cache_capacity" for e
      using make_room_length [OF de] update_length [of ?key e "make_room ?es"] by simp
    moreover have "\<forall>(k, e) \<in> set (AList.update ?key \<lparr>ce_schema = s, ce_expires = x, ce_used = u\<rparr> (make_room ?es)).
        schema_answer model_of k = Inr (ce_schema e)"
    proof -
      have "schema_answer model_of ?key = Inr s" using that by (simp add: schema_answer_def)
      then show ?thesis
        using update_set [OF make_room_distinct [OF de(1)], of ?key] make_room_sub [of ?es] v by fastforce
    qed
    ultimately show ?thesis by (simp add: cache_ok_def valid_entries)
  qed
  have hit: "cache_ok model_of (c\<lparr>sc_sequence := n, sc_hits := h, sc_entries := AList.update ?key (e\<lparr>ce_used := u\<rparr>) (sc_entries c)\<rparr>)"
    if "map_of (sc_entries c) ?key = Some e" for e n h u
  proof -
    have "?key \<in> fst ` set (sc_entries c)" using that by (metis map_of_eq_None_iff option.distinct(1))
    then have "length (AList.update ?key x (sc_entries c)) \<le> cache_capacity" for x using l by (simp add: update_length_in)
    moreover have "\<forall>(k, x) \<in> set (AList.update ?key (e\<lparr>ce_used := u\<rparr>) (sc_entries c)). schema_answer model_of k = Inr (ce_schema x)"
      using update_set [OF d, of ?key "e\<lparr>ce_used := u\<rparr>"] v map_of_SomeD [OF that] by fastforce
    ultimately show ?thesis using d by (simp add: cache_ok_def valid_entries distinct_update)
  qed
  have seq: "cache_ok model_of (c\<lparr>sc_sequence := n\<rparr>)" for n using ok by (simp add: cache_ok_def)
  show "cache_ok model_of (snd (compiled tenant object_type ?m now c))"
    using build hit seq by (auto simp: compiled_def Let_def r split: option.split sum.split)
  have "schema_answer model_of ?key = Inr (ce_schema e)" if "map_of (sc_entries c) ?key = Some e" for e
    using v map_of_SomeD [OF that] by auto
  then show "fst (compiled tenant object_type ?m now c) = compile_schema object_type ?m"
    by (auto simp: compiled_def Let_def r schema_answer_def split: option.split sum.split)
qed

lemma reachable_cache_ok: "reachable_cache model_of c \<Longrightarrow> cache_ok model_of c"
  unfolding reachable_cache_def
proof (induction rule: rtranclp_induct)
  case base
  then show ?case by (simp add: cache_ok_def empty_cache_def schema_memo.valid_empty)
next
  case (step c c')
  then show ?case using cache_ok_step(1) by (blast elim: cache_stepE)
qed

text \<open>C17. Every reachable state of the schema cache holds at most 128 entries, and a call
  through it answers exactly what compiling the schema would, when a revision determines the model
  of a tenant; expiry, eviction and the clock do not matter.\<close>

theorem schema_cache_transparent:
  assumes "reachable_cache model_of c" "tm_revision (model_of tenant revision) = revision"
  shows "length (sc_entries c) \<le> 128 \<and>
    fst (compiled tenant object_type (model_of tenant revision) now c) = compile_schema object_type (model_of tenant revision)"
  using reachable_cache_ok [OF assms(1)] cache_ok_step(2) [where model_of = model_of, OF _ assms(2)] by (simp add: cache_ok_def cache_capacity_def)


definition demo_cache :: schema_cache where
  "demo_cache = snd (compiled ''t'' ''transactions'' demo_model 0 empty_cache)"

lemma schema_cache_transparent_witness:
  "length (sc_entries demo_cache) \<le> 128 \<and>
    fst (compiled ''t'' ''transactions'' demo_model 5 demo_cache) = compile_schema ''transactions'' demo_model"
proof -
  have r: "tm_revision demo_model = ''r1''" by (simp add: demo_model_def)
  have "cache_step (\<lambda>_ _. demo_model) empty_cache demo_cache"
    unfolding demo_cache_def by (rule cache_step.call [OF r]) simp
  then have "reachable_cache (\<lambda>_ _. demo_model) demo_cache" by (auto simp: reachable_cache_def)
  from schema_cache_transparent [OF this r] show ?thesis by simp
qed

end
