(* ===== verification/Scenario_Model.thy ===== *)
theory Scenario_Model
  imports Ast_Node
begin

text \<open>
  Scenarios, their iterations and rules (\<^verbatim>\<open>domain/scenario/model.go\<close>) with the checks made before one is
  stored. The raw JSON of a formula is given by what decoding it yields: nothing is there, it is no formula
  (with the decoder's error), or a node.
\<close>

datatype formula = NoFormula | BadFormula string | AstFormula node

definition parse_formula :: "formula \<Rightarrow> node res" where
  "parse_formula f = (case f of
      NoFormula \<Rightarrow> Inl ''unexpected end of JSON input''
    | BadFormula e \<Rightarrow> Inl e
    | AstFormula n \<Rightarrow> Inr n)"

lemma parse_formula_simps [simp]: "parse_formula (AstFormula n) = Inr n" "parse_formula NoFormula = Inl ''unexpected end of JSON input''"
  by (simp_all add: parse_formula_def)

record scenario =
  sn_id :: string
  sn_tenant :: string
  sn_name :: string
  sn_description :: string
  sn_trigger_type :: string
  sn_live :: "string option"
  sn_created :: int
  sn_updated :: int

record iteration =
  it_id :: string
  it_scenario :: string
  it_tenant :: string
  it_version :: int
  it_status :: string
  it_trigger :: formula
  it_review :: "int option"
  it_block :: "int option"
  it_decline :: "int option"
  it_schedule :: string
  it_created :: int
  it_committed :: "int option"

record rule =
  ru_id :: string
  ru_iteration :: string
  ru_tenant :: string
  ru_order :: int
  ru_name :: string
  ru_description :: string
  ru_formula :: formula
  ru_modifier :: int
  ru_group :: string
  ru_snooze_group :: "string option"
  ru_stable :: string
  ru_created :: int
  ru_updated :: int

abbreviation "is_blank s \<equiv> trim_space s = []"

definition scenario_error :: "scenario \<Rightarrow> string option" where
  "scenario_error s =
     (if is_blank (sn_tenant s) then Some ''tenant_id is required''
      else if is_blank (sn_name s) then Some ''name is required''
      else if is_blank (sn_trigger_type s) then Some ''trigger_object_type is required''
      else None)"

text \<open>\<^verbatim>\<open>hasThresholds\<close>: the order of the thresholds is only checked when all three are set.\<close>

definition has_thresholds :: "iteration \<Rightarrow> bool" where
  "has_thresholds i = (it_review i \<noteq> None \<and> it_block i \<noteq> None \<and> it_decline i \<noteq> None)"

definition iteration_error :: "iteration \<Rightarrow> string option" where
  "iteration_error i =
     (if is_blank (it_scenario i) then Some ''scenario_id is required''
      else if is_blank (it_tenant i) then Some ''tenant_id is required''
      else if it_status i \<noteq> ''draft'' \<and> it_status i \<noteq> ''committed'' then Some (''invalid iteration status '' @ str_quote (it_status i))
      else if has_thresholds i \<and> (the (it_block i) < the (it_review i) \<or> the (it_decline i) < the (it_block i))
        then Some ''thresholds must satisfy review <= block_and_review <= decline''
      else None)"

definition rule_error :: "rule \<Rightarrow> string option" where
  "rule_error r =
     (if is_blank (ru_iteration r) then Some ''iteration_id is required''
      else if is_blank (ru_tenant r) then Some ''tenant_id is required''
      else if is_blank (ru_name r) then Some ''name is required''
      else None)"

lemma iteration_error_thresholds:
  "iteration_error i = None \<Longrightarrow> it_review i = Some a \<Longrightarrow> it_block i = Some b \<Longrightarrow> it_decline i = Some c \<Longrightarrow> a \<le> b \<and> b \<le> c"
  by (auto simp: iteration_error_def has_thresholds_def split: if_splits)

end
