(* ===== verification/Condition_Tree.thy ===== *)
theory Condition_Tree
  imports Ast_Node
begin

text \<open>
  Condition trees of workflows (\<^verbatim>\<open>domain/workflow/condition_tree.go\<close>): the bounded form an editor may
  store, and what a stored tree matches. A \<^verbatim>\<open>json.RawMessage\<close> is given by its length in bytes and the
  value the decoder reads from it with numbers kept as literals, absent when it is not JSON.
\<close>

record raw_value =
  rv_length :: nat
  rv_json :: "gval option"

datatype cond_tree =
  CondTree (ct_kind: string) (ct_children: "cond_tree list") (ct_outcomes: "string list")
    (ct_field: string) (ct_operator: string) (ct_value: raw_value)

subsection \<open>\<^verbatim>\<open>Validate\<close>\<close>

definition outcome_names :: "string list" where
  "outcome_names = [''approve'', ''review'', ''block_and_review'', ''decline'']"

text \<open>The loop over the outcomes with the map of those seen.\<close>

fun outcomes_ok :: "string list \<Rightarrow> string list \<Rightarrow> bool" where
  "outcomes_ok seen [] = True"
| "outcomes_ok seen (v # vs) = (v \<in> set outcome_names \<and> v \<notin> set seen \<and> outcomes_ok (v # seen) vs)"

fun scalar_value :: "gval \<Rightarrow> bool" where
  "scalar_value VNil = True"
| "scalar_value (VBool _) = True"
| "scalar_value (VStr _) = True"
| "scalar_value (VNum s) = (to_float (VNum s) \<noteq> None)"
| "scalar_value _ = False"

definition comparison_value_error :: "string \<Rightarrow> raw_value \<Rightarrow> string option" where
  "comparison_value_error opr v =
     (case rv_json v of
        None \<Rightarrow> Some ''invalid payload value''
      | Some w \<Rightarrow>
          if 2000 < rv_length v \<or> (case w of VNum _ \<Rightarrow> to_float w = None | _ \<Rightarrow> False) then Some ''invalid payload value''
          else if \<not> scalar_value w then Some ''payload value must be a scalar''
          else if opr \<in> {''gt'', ''gte'', ''lt'', ''lte''} \<and> (case w of VNum _ \<Rightarrow> False | _ \<Rightarrow> True)
            then Some ''numeric comparison requires a number''
          else if opr = ''contains'' \<and> (case w of VStr _ \<Rightarrow> False | _ \<Rightarrow> True) then Some ''contains requires text''
          else None)"

definition payload_error :: "string \<Rightarrow> string \<Rightarrow> raw_value \<Rightarrow> string option" where
  "payload_error field opr v =
     (if trim_space field = [] \<or> 200 < length field then Some ''payload field is required (maximum 200 bytes)''
      else if opr = ''exists'' \<or> opr = ''not_exists'' then
        (if rv_length v \<noteq> 0 then Some ''existence conditions do not accept a value'' else None)
      else if opr \<notin> {''eq'', ''neq'', ''gt'', ''gte'', ''lt'', ''lte'', ''contains''} then Some ''invalid payload operator''
      else comparison_value_error opr v)"

definition is_group :: "string \<Rightarrow> bool" where
  "is_group kind = (kind = ''all'' \<or> kind = ''any'')"

text \<open>What \<open>visit\<close> checks of one node, the bounds and the children apart.\<close>

definition node_error :: "cond_tree \<Rightarrow> string option" where
  "node_error n =
     (if \<not> is_group (ct_kind n) \<and> ct_children n \<noteq> [] then Some ''only groups may have children''
      else if ct_kind n \<noteq> ''outcome_in'' \<and> ct_outcomes n \<noteq> [] then Some ''unexpected outcomes''
      else if ct_kind n \<noteq> ''payload'' \<and> (ct_field n \<noteq> [] \<or> ct_operator n \<noteq> [] \<or> rv_length (ct_value n) \<noteq> 0)
        then Some ''unexpected payload parameters''
      else if is_group (ct_kind n) then (if ct_children n = [] then Some ''condition groups cannot be empty'' else None)
      else if ct_kind n = ''always'' \<or> ct_kind n = ''never'' then None
      else if ct_kind n = ''outcome_in'' then
        (if ct_outcomes n = [] \<or> 4 < length (ct_outcomes n) then Some ''select decision outcomes''
         else if \<not> outcomes_ok [] (ct_outcomes n) then Some ''invalid or duplicate outcome'' else None)
      else if ct_kind n = ''payload'' then payload_error (ct_field n) (ct_operator n) (ct_value n)
      else Some (''unknown condition kind '' @ str_quote (ct_kind n)))"

fun visit_tree :: "cond_tree \<Rightarrow> nat \<Rightarrow> nat \<Rightarrow> nat res"
  and visit_trees :: "cond_tree list \<Rightarrow> nat \<Rightarrow> nat \<Rightarrow> nat res" where
  "visit_tree (CondTree k cs os f opr v) depth count =
     (if 64 < Suc count \<or> 4 < depth then Inl ''conditions allow at most 64 nodes and 4 levels''
      else case node_error (CondTree k cs os f opr v) of
          Some e \<Rightarrow> Inl e
        | None \<Rightarrow> visit_trees cs (Suc depth) (Suc count))"
| "visit_trees [] depth count = Inr count"
| "visit_trees (t # ts) depth count = bind_r (visit_tree t depth count) (\<lambda>c. visit_trees ts depth c)"

definition validate_tree :: "cond_tree \<Rightarrow> unit res" where
  "validate_tree t = bind_r (visit_tree t 1 0) (\<lambda>_. Inr ())"

subsection \<open>\<^verbatim>\<open>Matches\<close>\<close>

text \<open>A field value after \<^verbatim>\<open>json.Marshal\<close> and decoding with literals; a number is its decimal value, for a
  float that of the shortest decimal that reads back.\<close>

datatype json_view = JNull | JBool bool | JText string | JNumber rat | JOther

definition shortest_decimal :: "(rat \<Rightarrow> rat \<Rightarrow> bool) \<Rightarrow> rat \<Rightarrow> rat" where
  "shortest_decimal reads q =
     (if q = 0 then 0 else let (c, k) = shortest_from (reads \<bar>q\<bar>) 16 1 \<bar>q\<bar>; d = of_int c * pow10 k
      in if q < 0 then - d else d)"

definition format_rfc3339_nano :: "int \<Rightarrow> string" where
  "format_rfc3339_nano t =
     pad_to 4 (local_year utc_loc t) @ ''-'' @ pad2 (local_month utc_loc t) @ ''-'' @ pad2 (local_day utc_loc t) @ ''T'' @
     pad2 (local_hour utc_loc t) @ '':'' @ pad2 (local_minute utc_loc t) @ '':'' @ pad2 (local_second utc_loc t) @
     strip_frac (local_nano t) @ ''Z''"

fun view_json :: "gval \<Rightarrow> json_view option" where
  "view_json VNil = Some JNull"
| "view_json (VBool b) = Some (JBool b)"
| "view_json (VStr s) = Some (JText s)"
| "view_json (VInt i) = Some (JNumber (of_int i))"
| "view_json (VInt64 i) = Some (JNumber (of_int i))"
| "view_json (VFloat x) = map_option (\<lambda>q. JNumber (shortest_decimal (\<lambda>q r. f64_of_rat False r = FRat q) q)) (f64_rat x)"
| "view_json (VFloat32 x) = map_option (\<lambda>q. JNumber (shortest_decimal (\<lambda>q r. f32_round r = q) q)) (f64_rat x)"
| "view_json (VNum s) = (if s = [] then Some (JNumber 0) else map_option (\<lambda>p. JNumber (snd p)) (parse_number s))"
| "view_json (VTime t) = (if 0 \<le> local_year utc_loc t \<and> local_year utc_loc t \<le> 9999 then Some (JText (format_rfc3339_nano t)) else None)"
| "view_json (VList xs) = (if list_all (\<lambda>x. view_json x \<noteq> None) xs then Some JOther else None)"
| "view_json (VObj m) = (if list_all (\<lambda>(k, x). view_json x \<noteq> None) m then Some JOther else None)"
| "view_json (VFilter t f opr v) = Some JOther"
| "view_json (VScore s) = Some JOther"

definition json_equal :: "json_view \<Rightarrow> json_view \<Rightarrow> bool" where
  "json_equal l r = (case l of JOther \<Rightarrow> False | _ \<Rightarrow> l = r)"

fun json_order :: "json_view \<Rightarrow> json_view \<Rightarrow> int option" where
  "json_order (JNumber x) (JNumber y) = Some (three_way x y)"
| "json_order _ _ = None"

fun json_contains :: "json_view \<Rightarrow> json_view \<Rightarrow> bool" where
  "json_contains (JText a) (JText b) = str_contains a b"
| "json_contains _ _ = False"

definition compare_json :: "string \<Rightarrow> json_view \<Rightarrow> json_view \<Rightarrow> bool" where
  "compare_json opr l r =
     (if opr = ''eq'' then json_equal l r
      else if opr = ''neq'' then \<not> json_equal l r
      else if opr = ''contains'' then json_contains l r
      else if opr \<in> {''gt'', ''gte'', ''lt'', ''lte''} then
        (case json_order l r of None \<Rightarrow> False | Some c \<Rightarrow> cmp_result opr c = Some True)
      else False)"

definition payload_matches :: "field_map \<Rightarrow> string \<Rightarrow> string \<Rightarrow> raw_value \<Rightarrow> bool" where
  "payload_matches flds field opr v =
     (case map_of flds field of
        None \<Rightarrow> opr = ''not_exists''
      | Some w \<Rightarrow>
          if opr = ''exists'' then True else if opr = ''not_exists'' then False
          else case view_json w of None \<Rightarrow> False
             | Some l \<Rightarrow> (case Option.bind (rv_json v) view_json of None \<Rightarrow> False | Some r \<Rightarrow> compare_json opr l r))"

fun tree_matches :: "string \<Rightarrow> field_map \<Rightarrow> cond_tree \<Rightarrow> bool"
  and group_matches :: "string \<Rightarrow> field_map \<Rightarrow> string \<Rightarrow> cond_tree list \<Rightarrow> bool" where
  "tree_matches outcome flds (CondTree k cs os f opr v) =
     (if k = ''always'' then True
      else if k = ''never'' then False
      else if is_group k then group_matches outcome flds k cs
      else if k = ''outcome_in'' then outcome \<in> set os
      else if k = ''payload'' then payload_matches flds f opr v
      else False)"
| "group_matches outcome flds k [] = (k = ''all'')"
| "group_matches outcome flds k (t # ts) =
     (let matched = tree_matches outcome flds t in
      if k = ''all'' \<and> \<not> matched then False
      else if k = ''any'' \<and> matched then True
      else group_matches outcome flds k ts)"

subsection \<open>The bounds\<close>

fun tree_nodes :: "cond_tree \<Rightarrow> nat" where
  "tree_nodes (CondTree k cs os f opr v) = Suc (sum_list (map tree_nodes cs))"

fun tree_levels :: "cond_tree \<Rightarrow> nat" where
  "tree_levels (CondTree k cs os f opr v) = Suc (foldr max (map tree_levels cs) 0)"

fun all_nodes :: "(cond_tree \<Rightarrow> bool) \<Rightarrow> cond_tree \<Rightarrow> bool" where
  "all_nodes P (CondTree k cs os f opr v) = (P (CondTree k cs os f opr v) \<and> list_all (all_nodes P) cs)"

abbreviation "sound_nodes \<equiv> all_nodes (\<lambda>n. node_error n = None)"

lemma foldr_max_le: "foldr max ns 0 \<le> (d :: nat) \<longleftrightarrow> (\<forall>n \<in> set ns. n \<le> d)"
  by (induction ns) auto

lemma tree_nodes_pos: "0 < tree_nodes t"
  by (cases t) simp

lemma visit_tree_iff:
  "(visit_tree t depth count = Inr c) = (c = count + tree_nodes t \<and> c \<le> 64 \<and> depth + tree_levels t \<le> 5 \<and> sound_nodes t)"
  and visit_trees_iff: "(visit_trees ts depth count = Inr c) =
    (c = count + sum_list (map tree_nodes ts) \<and> (ts \<noteq> [] \<longrightarrow> c \<le> 64) \<and> (\<forall>t \<in> set ts. depth + tree_levels t \<le> 5) \<and> list_all sound_nodes ts)"
proof (induction t depth count and ts depth count arbitrary: c and c rule: visit_tree_visit_trees.induct)
  case (1 k cs os f opr v depth count)
  let ?t = "CondTree k cs os f opr v"
  have lev: "Suc depth + foldr max (map tree_levels cs) 0 \<le> 5 \<longleftrightarrow> Suc depth \<le> 5 \<and> (\<forall>t \<in> set cs. Suc depth + tree_levels t \<le> 5)"
    using foldr_max_le [of "map tree_levels cs" "4 - depth"] by auto
  show ?case
  proof (cases "64 < Suc count \<or> 4 < depth \<or> node_error ?t \<noteq> None")
    case True
    then show ?thesis using lev by (auto split: option.split)
  next
    case False
    then have vt: "visit_tree ?t depth count = visit_trees cs (Suc depth) (Suc count)" by simp
    have it: "(visit_trees cs (Suc depth) (Suc count) = Inr c) = (c = Suc count + sum_list (map tree_nodes cs) \<and>
        (cs \<noteq> [] \<longrightarrow> c \<le> 64) \<and> (\<forall>t \<in> set cs. Suc depth + tree_levels t \<le> 5) \<and> list_all sound_nodes cs)"
      using 1 False by blast
    have sn: "sound_nodes ?t = list_all sound_nodes cs" and tn: "tree_nodes ?t = Suc (sum_list (map tree_nodes cs))"
      using False by simp_all
    have "Suc depth \<le> 5" "cs = [] \<Longrightarrow> Suc count + sum_list (map tree_nodes cs) \<le> 64" using False by simp_all
    then have "depth + tree_levels ?t \<le> 5 \<longleftrightarrow> (\<forall>t \<in> set cs. Suc depth + tree_levels t \<le> 5)"
      using lev by simp
    then show ?thesis unfolding vt it sn tn
      using \<open>cs = [] \<Longrightarrow> Suc count + sum_list (map tree_nodes cs) \<le> 64\<close> by (metis add_Suc add_Suc_right)
  qed
next
  case (3 t ts depth count)
  let ?x = "count + tree_nodes t"
  have "visit_trees (t # ts) depth count = Inr c \<longleftrightarrow>
      visit_tree t depth count = Inr ?x \<and> visit_trees ts depth ?x = Inr c"
    using "3.IH"(1) by (auto simp: result_simps)
  moreover have "visit_tree t depth count = Inr ?x \<longleftrightarrow> ?x \<le> 64 \<and> depth + tree_levels t \<le> 5 \<and> sound_nodes t"
    using "3.IH"(1) by simp
  moreover have "visit_trees ts depth ?x = Inr c \<longleftrightarrow> c = ?x + sum_list (map tree_nodes ts) \<and> (ts \<noteq> [] \<longrightarrow> c \<le> 64) \<and>
      (\<forall>t \<in> set ts. depth + tree_levels t \<le> 5) \<and> list_all sound_nodes ts" if "visit_tree t depth count = Inr ?x"
    using "3.IH"(2) that by blast
  ultimately show ?case by (cases "ts = []") auto
qed auto


lemma validate_tree_iff:
  "(validate_tree t = Inr ()) = (tree_nodes t \<le> 64 \<and> tree_levels t \<le> 4 \<and> sound_nodes t)"
  by (auto simp: validate_tree_def result_simps visit_tree_iff)

subsection \<open>What a tree means\<close>

text \<open>The tree as a propositional formula over its leaves.\<close>

fun tree_holds :: "(cond_tree \<Rightarrow> bool) \<Rightarrow> cond_tree \<Rightarrow> bool" where
  "tree_holds leaf (CondTree k cs os f opr v) =
     (if k = ''all'' then list_all (tree_holds leaf) cs
      else if k = ''any'' then list_ex (tree_holds leaf) cs
      else leaf (CondTree k cs os f opr v))"

fun leaf_matches :: "string \<Rightarrow> field_map \<Rightarrow> cond_tree \<Rightarrow> bool" where
  "leaf_matches outcome flds (CondTree k cs os f opr v) =
     (k = ''always'' \<or> k = ''outcome_in'' \<and> outcome \<in> set os \<or> k = ''payload'' \<and> payload_matches flds f opr v)"

lemma tree_matches_holds: "tree_matches outcome flds t = tree_holds (leaf_matches outcome flds) t"
  and group_matches_holds: "k = ''all'' \<or> k = ''any'' \<Longrightarrow> group_matches outcome flds k ts =
    (if k = ''all'' then list_all (tree_holds (leaf_matches outcome flds)) ts else list_ex (tree_holds (leaf_matches outcome flds)) ts)"
proof (induction outcome flds t and outcome flds k ts rule: tree_matches_group_matches.induct)
  case (1 outcome flds k cs os f opr v)
  consider "k = ''all''" | "k = ''any''" | "\<not> is_group k" by (auto simp: is_group_def)
  then show ?case
  proof cases
    case 3
    then have "k \<noteq> ''all''" "k \<noteq> ''any''" by (auto simp: is_group_def)
    then show ?thesis using 3 by simp
  qed (use 1 in \<open>simp add: is_group_def\<close>)+
next
  case (3 outcome flds k t ts)
  then show ?case by (cases "tree_matches outcome flds t") (auto simp: Let_def)
qed auto

text \<open>Two numbers: exactly one of less, equal and greater.\<close>

lemma compare_numbers:
  assumes "view_json w = Some (JNumber x)" "map_of flds f = Some w" "Option.bind (rv_json v) view_json = Some (JNumber y)"
  shows "payload_matches flds f ''lt'' v = (x < y)" "payload_matches flds f ''lte'' v = (x \<le> y)"
    "payload_matches flds f ''gt'' v = (x > y)" "payload_matches flds f ''gte'' v = (x \<ge> y)"
    "payload_matches flds f ''eq'' v = (x = y)" "payload_matches flds f ''neq'' v = (x \<noteq> y)"
proof -
  have "payload_matches flds f opr v = compare_json opr (JNumber x) (JNumber y)"
    if "opr \<noteq> ''exists''" "opr \<noteq> ''not_exists''" for opr
    using assms that by (simp add: payload_matches_def)
  then show "payload_matches flds f ''lt'' v = (x < y)" "payload_matches flds f ''lte'' v = (x \<le> y)"
    "payload_matches flds f ''gt'' v = (x > y)" "payload_matches flds f ''gte'' v = (x \<ge> y)"
    "payload_matches flds f ''eq'' v = (x = y)" "payload_matches flds f ''neq'' v = (x \<noteq> y)"
    by (simp_all add: compare_json_def cmp_result_def three_way_def json_equal_def)
qed

lemma missing_field_matches: "map_of flds f = None \<Longrightarrow> payload_matches flds f opr v = (opr = ''not_exists'')"
  by (simp add: payload_matches_def)

lemma neq_not_eq: "map_of flds f = Some w \<Longrightarrow> view_json w \<noteq> None \<Longrightarrow> Option.bind (rv_json v) view_json \<noteq> None \<Longrightarrow>
    payload_matches flds f ''neq'' v = (\<not> payload_matches flds f ''eq'' v)"
  by (auto simp: payload_matches_def compare_json_def)

text \<open>A valid leaf always has a value to compare with.\<close>

lemma scalar_view: "scalar_value w \<Longrightarrow> view_json w \<noteq> None"
  by (cases w) (auto simp del: to_float.simps simp: to_float.simps(1) split: option.splits)

lemma payload_error_value:
  assumes "payload_error f opr v = None" "opr \<noteq> ''exists''" "opr \<noteq> ''not_exists''"
  shows "\<exists>r. Option.bind (rv_json v) view_json = Some r"
  using assms scalar_view
  by (fastforce simp: payload_error_def comparison_value_error_def split: if_splits option.splits)

end
