(* ===== verification/Workflow.thy ===== *)
theory Workflow
  imports Condition_Tree Ast_Evidence "HOL-Library.Multiset"
begin

text \<open>
  Workflows of a scenario: titles of cases (\<^verbatim>\<open>domain/workflow/title.go\<close>, \<^verbatim>\<open>service/workflow_title.go\<close>), conditions
  and the executions a decision starts (\<^verbatim>\<open>service/decision_service.go\<close>, \<^verbatim>\<open>buildWorkflowExecutions\<close> on), and
  the order of rules (\<^verbatim>\<open>service/workflow_rule_service.go\<close>, \<^verbatim>\<open>service/workflow_service.go\<close>). Action
  configurations are JSON values, absent when empty; the parameters of a condition are given in the Go
  type the code decodes them into.
\<close>

subsection \<open>UTF-8\<close>

text \<open>\<^verbatim>\<open>utf8.ValidString\<close>\<close>

definition byte_in :: "nat \<Rightarrow> nat \<Rightarrow> char \<Rightarrow> bool" where
  "byte_in lo hi c = (lo \<le> (of_char c :: nat) \<and> (of_char c :: nat) \<le> hi)"

abbreviation "utf8_cont \<equiv> byte_in 0x80 0xBF"

definition utf8_second :: "char \<Rightarrow> char \<Rightarrow> bool" where
  "utf8_second a b =
     (if a = CHR 0xE0 then byte_in 0xA0 0xBF b else if a = CHR 0xED then byte_in 0x80 0x9F b
      else if a = CHR 0xF0 then byte_in 0x90 0xBF b else if a = CHR 0xF4 then byte_in 0x80 0x8F b else utf8_cont b)"

fun valid_utf8 :: "string \<Rightarrow> bool" where
  "valid_utf8 [] = True"
| "valid_utf8 (a # s) =
     (if byte_in 0 0x7F a then valid_utf8 s
      else if byte_in 0xC2 0xDF a then (case s of b # r \<Rightarrow> utf8_cont b \<and> valid_utf8 r | [] \<Rightarrow> False)
      else if byte_in 0xE0 0xEF a then (case s of b # c # r \<Rightarrow> utf8_second a b \<and> utf8_cont c \<and> valid_utf8 r | _ \<Rightarrow> False)
      else if byte_in 0xF0 0xF4 a then
        (case s of b # c # d # r \<Rightarrow> utf8_second a b \<and> utf8_cont c \<and> utf8_cont d \<and> valid_utf8 r | _ \<Rightarrow> False)
      else False)"

subsection \<open>Titles\<close>

definition title_keys :: "string list" where
  "title_keys = [''object_id'', ''object_type'', ''decision_id'', ''scenario_id'', ''outcome'', ''score'']"

abbreviation "percent \<equiv> CHR ''%''"

text \<open>The loop of \<^verbatim>\<open>ExpandTitle\<close>; \<open>vals\<close> is None for a check without values.\<close>

function title_loop :: "(string \<Rightarrow> string) option \<Rightarrow> string \<Rightarrow> string res" where
  "title_loop vals t =
     (let before = takeWhile (\<lambda>c. c \<noteq> percent) t; rest = dropWhile (\<lambda>c. c \<noteq> percent) t in
      if rest = [] then Inr t
      else (let key = takeWhile (\<lambda>c. c \<noteq> percent) (tl rest); after = dropWhile (\<lambda>c. c \<noteq> percent) (tl rest) in
        if after = [] then Inl ''unclosed title placeholder; use %% for a literal percent sign''
        else if key = [] then bind_r (title_loop vals (tl after)) (\<lambda>r. Inr (before @ percent # r))
        else if key \<notin> set title_keys then Inl (''unknown title placeholder %'' @ key @ ''%'')
        else bind_r (title_loop vals (tl after)) (\<lambda>r. Inr (before @ (case vals of None \<Rightarrow> [] | Some v \<Rightarrow> v key) @ r))))"
  by pat_completeness auto

lemma dropWhile_shorter: "dropWhile P xs \<noteq> [] \<Longrightarrow> length (tl (dropWhile P xs)) < length xs"
  using length_dropWhile_le [of P xs] by (cases "dropWhile P xs") auto

lemma title_rest_shorter:
  assumes "dropWhile P t \<noteq> []" "dropWhile P (tl (dropWhile P t)) \<noteq> []"
  shows "length (tl (dropWhile P (tl (dropWhile P t)))) < length t"
  using dropWhile_shorter [OF assms(1)] dropWhile_shorter [OF assms(2)] by simp

termination title_loop
  by (relation "measure (\<lambda>(vals, t). length t)")
    (simp, (simp only: in_measure prod.case, metis title_rest_shorter)+)

declare title_loop.simps [simp del]

text \<open>The loop that drops bytes until the rest is valid.\<close>

function cut_valid :: "string \<Rightarrow> string" where
  "cut_valid s = (if valid_utf8 s then s else cut_valid (butlast s))"
  by pat_completeness auto

termination cut_valid
proof (relation "measure length")
  show "(butlast s, s) \<in> measure length" if "\<not> valid_utf8 s" for s
    using that by (cases s) auto
qed simp

declare cut_valid.simps [simp del]

definition ellipsis_text :: string where
  "ellipsis_text = [CHR 0xE2, CHR 0x80, CHR 0xA6]"

definition limit_title :: "string \<Rightarrow> string" where
  "limit_title s = (if 200 < length s then cut_valid (take 197 s) @ ellipsis_text else s)"

definition expand_title :: "string \<Rightarrow> (string \<Rightarrow> string) option \<Rightarrow> string res" where
  "expand_title template vals = bind_r (title_loop vals template) (\<lambda>s. Inr (limit_title (trim_space s)))"

subsection \<open>Action configurations\<close>

record decision =
  dn_id :: string
  dn_tenant :: string
  dn_scenario :: string
  dn_iteration :: string
  dn_object_id :: string
  dn_object_type :: string
  dn_outcome :: string
  dn_score :: int
  dn_triggered :: bool
  dn_created :: int
  dn_request :: field_map

definition is_case_action :: "string \<Rightarrow> bool" where
  "is_case_action kind = (kind = ''create_case'' \<or> kind = ''add_to_case'' \<or> kind = ''add_to_case_if_possible'')"

definition title_values :: "decision \<Rightarrow> string \<Rightarrow> string" where
  "title_values d k =
     (if k = ''object_id'' then dn_object_id d else if k = ''object_type'' then dn_object_type d
      else if k = ''decision_id'' then dn_id d else if k = ''scenario_id'' then dn_scenario d
      else if k = ''outcome'' then dn_outcome d else if k = ''score'' then itoa (dn_score d) else [])"

text \<open>\<^verbatim>\<open>json.Unmarshal\<close> into a string: null leaves it empty.\<close>

fun json_string :: "gval \<Rightarrow> string res" where
  "json_string (VStr s) = Inr s"
| "json_string VNil = Inr []"
| "json_string _ = Inl ''json: cannot unmarshal value into Go value of type string''"

fun json_object :: "gval \<Rightarrow> field_map res" where
  "json_object (VObj m) = Inr m"
| "json_object VNil = Inr []"
| "json_object _ = Inl ''json: cannot unmarshal value into Go value of type map''"

definition workflow_action_config :: "string \<Rightarrow> gval option \<Rightarrow> decision \<Rightarrow> gval option res" where
  "workflow_action_config kind raw d =
     (case raw of
        None \<Rightarrow> Inr raw
      | Some cfg \<Rightarrow>
          if \<not> is_case_action kind then Inr raw
          else bind_r (json_object cfg) (\<lambda>m.
               bind_r (case map_of m ''title_mode'' of None \<Rightarrow> Inr [] | Some v \<Rightarrow> json_string v) (\<lambda>mode.
               if mode = [] then Inr raw
               else if mode \<noteq> ''template'' then Inl ''invalid workflow title mode''
               else bind_r (case map_of m ''name'' of None \<Rightarrow> Inl ''unexpected end of JSON input'' | Some v \<Rightarrow> json_string v) (\<lambda>template.
                    bind_r (expand_title template (Some (title_values d))) (\<lambda>title.
                    if title = [] then Inl ''workflow title resolves to an empty value''
                    else Inr (Some (VObj (filter (\<lambda>(k, v). k \<noteq> ''title_mode'') (obj_put ''name'' (VStr title) m)))))))))"

subsection \<open>Conditions\<close>

datatype cond_params =
    NoParams
  | TreeParams cond_tree
  | OutcomeParams "string list"
  | RuleHitParams (rh_rule_id: "string list") (rh_rule_ids: "string list")
  | ExpressionParams node
  | OtherParams

record wf_condition =
  wc_id :: string
  wc_tenant :: string
  wc_rule :: string
  wc_function :: string
  wc_params :: cond_params
  wc_created :: int
  wc_updated :: int

record rule_exec =
  re_id :: string
  re_decision :: string
  re_rule :: string
  re_name :: string
  re_outcome :: string
  re_modifier :: int
  re_evaluation :: "evidence option"
  re_created :: int

text \<open>\<^verbatim>\<open>ruleHitParams.IDs\<close>\<close>

definition rule_hit_ids :: "string list \<Rightarrow> string list \<Rightarrow> string list" where
  "rule_hit_ids rule_id rule_ids = (if rule_ids \<noteq> [] then rule_ids else rule_id)"

definition decode_failed :: "'a res" where
  "decode_failed = Inl ''json: cannot unmarshal params''"

definition evaluate_condition :: "wf_condition \<Rightarrow> decision \<Rightarrow> rule_exec list \<Rightarrow> runtime \<Rightarrow> bool res" where
  "evaluate_condition c d execs rt =
     (if wc_function c = ''condition_tree'' then
        (case wc_params c of TreeParams t \<Rightarrow> bind_r (validate_tree t) (\<lambda>_. Inr (tree_matches (dn_outcome d) (rt_fields rt) t))
         | _ \<Rightarrow> decode_failed)
      else if wc_function c = ''always'' then Inr True
      else if wc_function c = ''never'' then Inr False
      else if wc_function c = ''outcome_in'' then
        (case wc_params c of OutcomeParams os \<Rightarrow> Inr (dn_outcome d \<in> set os) | _ \<Rightarrow> decode_failed)
      else if wc_function c = ''rule_hit'' then
        (case wc_params c of RuleHitParams a b \<Rightarrow>
             Inr (list_ex (\<lambda>e. re_outcome e = ''hit'' \<and> re_rule e \<in> set (rule_hit_ids a b)) execs)
         | _ \<Rightarrow> decode_failed)
      else if wc_function c = ''payload_evaluates'' then
        (case wc_params c of ExpressionParams n \<Rightarrow> evaluate_formula rt n | _ \<Rightarrow> decode_failed)
      else Inl (''unknown workflow condition '' @ str_quote (wc_function c)))"

subsection \<open>Executions\<close>

record wf_action =
  wa_id :: string
  wa_tenant :: string
  wa_rule :: string
  wa_type :: string
  wa_config :: "gval option"
  wa_created :: int
  wa_updated :: int

record wf_rule =
  wr_id :: string
  wr_tenant :: string
  wr_scenario :: string
  wr_name :: string
  wr_priority :: int
  wr_fallthrough :: bool
  wr_created :: int
  wr_updated :: int
  wr_conditions :: "wf_condition list"
  wr_actions :: "wf_action list"

record wf_definition =
  wd_id :: string
  wd_tenant :: string
  wd_scenario :: string
  wd_order :: int
  wd_name :: string
  wd_description :: string
  wd_allowed :: "string list"
  wd_action_type :: string
  wd_config :: "gval option"
  wd_active :: bool
  wd_created :: int
  wd_updated :: int

record wf_execution =
  we_id :: string
  we_tenant :: string
  we_workflow :: "string option"
  we_rule :: "string option"
  we_action :: "string option"
  we_decision :: string
  we_scenario :: string
  we_action_type :: string
  we_status :: string
  we_config :: "gval option"
  we_created :: int

text \<open>All conditions, in order, up to the first that does not match or fails.\<close>

fun all_match :: "(wf_condition \<Rightarrow> bool res) \<Rightarrow> wf_condition list \<Rightarrow> bool res" where
  "all_match ev [] = Inr True"
| "all_match ev (c # cs) = bind_r (ev c) (\<lambda>m. if \<not> m then Inr False else all_match ev cs)"

text \<open>The identifiers come from a generator; the state is the number drawn so far.\<close>

fun action_executions :: "(nat \<Rightarrow> string) \<Rightarrow> int \<Rightarrow> decision \<Rightarrow> string \<Rightarrow> wf_action list \<Rightarrow> nat \<Rightarrow> (wf_execution list \<times> nat) res" where
  "action_executions gen now d rule [] n = Inr ([], n)"
| "action_executions gen now d rule (a # as) n =
     (if wa_type a = ''do_nothing'' then action_executions gen now d rule as n
      else bind_r (workflow_action_config (wa_type a) (wa_config a) d) (\<lambda>config.
           bind_r (action_executions gen now d rule as (Suc n)) (\<lambda>(out, n').
           Inr (\<lparr>we_id = gen n, we_tenant = dn_tenant d, we_workflow = None, we_rule = Some rule, we_action = Some (wa_id a),
                 we_decision = dn_id d, we_scenario = dn_scenario d, we_action_type = wa_type a,
                 we_status = ''pending_dispatch'', we_config = config, we_created = now\<rparr> # out, n'))))"

fun structured_executions ::
    "(nat \<Rightarrow> string) \<Rightarrow> int \<Rightarrow> decision \<Rightarrow> (wf_condition \<Rightarrow> bool res) \<Rightarrow> wf_rule list \<Rightarrow> nat \<Rightarrow> (wf_execution list \<times> nat) res" where
  "structured_executions gen now d ev [] n = Inr ([], n)"
| "structured_executions gen now d ev (r # rs) n =
     (if wr_actions r = [] then structured_executions gen now d ev rs n
      else bind_r (all_match ev (wr_conditions r)) (\<lambda>matched.
        if \<not> matched then structured_executions gen now d ev rs n
        else bind_r (action_executions gen now d (wr_id r) (wr_actions r) n) (\<lambda>(out, n').
          if \<not> wr_fallthrough r then Inr (out, n')
          else bind_r (structured_executions gen now d ev rs n') (\<lambda>(out', n''). Inr (out @ out', n'')))))"

definition matches_outcome :: "wf_definition \<Rightarrow> string \<Rightarrow> bool" where
  "matches_outcome w outcome = list_ex (\<lambda>allowed. allowed = outcome) (wd_allowed w)"

fun legacy_executions :: "(nat \<Rightarrow> string) \<Rightarrow> int \<Rightarrow> decision \<Rightarrow> wf_definition list \<Rightarrow> nat \<Rightarrow> (wf_execution list \<times> nat) res" where
  "legacy_executions gen now d [] n = Inr ([], n)"
| "legacy_executions gen now d (w # ws) n =
     (if \<not> matches_outcome w (dn_outcome d) then legacy_executions gen now d ws n
      else bind_r (workflow_action_config (wd_action_type w) (wd_config w) d) (\<lambda>config.
           bind_r (legacy_executions gen now d ws (Suc n)) (\<lambda>(out, n').
           Inr (\<lparr>we_id = gen n, we_tenant = dn_tenant d, we_workflow = Some (wd_id w), we_rule = None, we_action = None,
                 we_decision = dn_id d, we_scenario = dn_scenario d, we_action_type = wd_action_type w,
                 we_status = ''pending_dispatch'', we_config = config, we_created = now\<rparr> # out, n'))))"

text \<open>\<^verbatim>\<open>buildWorkflowExecutions\<close>: the structured rules of the scenario, or else its active workflows.\<close>

definition workflow_executions ::
    "(nat \<Rightarrow> string) \<Rightarrow> int \<Rightarrow> decision \<Rightarrow> rule_exec list \<Rightarrow> runtime \<Rightarrow> wf_rule list res \<Rightarrow> wf_definition list res \<Rightarrow> nat \<Rightarrow>
      (wf_execution list \<times> nat) res" where
  "workflow_executions gen now d execs rt rules workflows n =
     bind_r rules (\<lambda>rs.
       if rs \<noteq> [] then structured_executions gen now d (\<lambda>c. evaluate_condition c d execs rt) rs n
       else bind_r workflows (\<lambda>ws. legacy_executions gen now d ws n))"

subsection \<open>The order of rules\<close>

text \<open>\<^verbatim>\<open>ReorderRules\<close> removes each name from the expected ones; \<^verbatim>\<open>WorkflowService.Reorder\<close> keeps the names seen.\<close>

fun remove_expected :: "string list \<Rightarrow> string list \<Rightarrow> string list res" where
  "remove_expected expected [] = Inr expected"
| "remove_expected expected (i # is) =
     (if i \<notin> set expected then Inl (''workflow rule '' @ str_quote i @ '' does not belong to scenario'')
      else remove_expected (filter (\<lambda>j. j \<noteq> i) expected) is)"

definition check_rule_order :: "string list \<Rightarrow> string list \<Rightarrow> unit res" where
  "check_rule_order existing ordered =
     (if length existing \<noteq> length ordered then Inl ''workflow_rule_ids must include every workflow rule exactly once''
      else bind_r (remove_expected existing ordered) (\<lambda>expected.
           if expected \<noteq> [] then Inl ''workflow_rule_ids must include every workflow rule exactly once'' else Inr ()))"

fun see_all :: "string list \<Rightarrow> string list \<Rightarrow> string list \<Rightarrow> unit res" where
  "see_all existing seen [] = Inr ()"
| "see_all existing seen (i # is) =
     (if i \<notin> set existing then Inl (''workflow '' @ str_quote i @ '' does not belong to scenario'')
      else if i \<in> set seen then Inl (''workflow '' @ str_quote i @ '' is duplicated'')
      else see_all existing (i # seen) is)"

definition check_workflow_order :: "string list \<Rightarrow> string list \<Rightarrow> unit res" where
  "check_workflow_order existing ordered =
     (if length existing \<noteq> length ordered then Inl ''workflow_ids must include every workflow exactly once''
      else see_all existing [] ordered)"

text \<open>The priority of a new rule.\<close>

definition next_priority :: "int list \<Rightarrow> int" where
  "next_priority existing = fold (\<lambda>p best. if p \<ge> best then p + 1 else best) existing 0"


subsection \<open>Facts about titles\<close>

lemma valid_utf8_append: "valid_utf8 a \<Longrightarrow> valid_utf8 b \<Longrightarrow> valid_utf8 (a @ b)"
  by (induction a rule: valid_utf8.induct) (auto split: if_splits list.splits)

lemma cut_valid_valid: "valid_utf8 (cut_valid s) \<and> (\<exists>r. s = cut_valid s @ r)"
proof (induction s rule: cut_valid.induct)
  case (1 s)
  show ?case
  proof (cases "valid_utf8 s")
    case False
    then have "s \<noteq> []" by auto
    then have "s = butlast s @ [last s]" by simp
    then show ?thesis using 1 False by (metis append.assoc cut_valid.simps)
  qed (simp add: cut_valid.simps)
qed

lemma limit_title_length: "length (limit_title s) \<le> 200"
proof -
  obtain r where "take 197 s = cut_valid (take 197 s) @ r" using cut_valid_valid by blast
  then have "length (cut_valid (take 197 s)) \<le> length (take 197 s)" by (metis le_add1 length_append)
  then show ?thesis by (simp add: limit_title_def ellipsis_text_def)
qed

lemma limit_title_valid: "length s > 200 \<or> valid_utf8 s \<Longrightarrow> valid_utf8 (limit_title s)"
proof -
  have "valid_utf8 ellipsis_text" by code_simp
  then show "length s > 200 \<or> valid_utf8 s \<Longrightarrow> valid_utf8 (limit_title s)"
    using cut_valid_valid valid_utf8_append by (auto simp: limit_title_def)
qed

text \<open>Doubling every percent sign makes a title literal.\<close>

definition escape_title :: "string \<Rightarrow> string" where
  "escape_title s = concat (map (\<lambda>c. if c = percent then ''%%'' else [c]) s)"

lemma escape_no_percent: "percent \<notin> set a \<Longrightarrow> escape_title a = a"
  by (induction a) (auto simp: escape_title_def)

lemma escape_append: "escape_title (a @ b) = escape_title a @ escape_title b"
  by (simp add: escape_title_def)

lemma title_loop_plain: "percent \<notin> set a \<Longrightarrow> title_loop vals a = Inr a"
proof -
  assume "percent \<notin> set a"
  then have "dropWhile (\<lambda>c. c \<noteq> percent) a = []" by (simp add: dropWhile_eq_Nil_conv) blast
  then show ?thesis by (simp add: title_loop.simps [of vals a] Let_def)
qed

lemma title_loop_escaped: "percent \<notin> set a \<Longrightarrow>
    title_loop vals (a @ percent # percent # t) = bind_r (title_loop vals t) (\<lambda>r. Inr (a @ percent # r))"
proof -
  assume "percent \<notin> set a"
  then have "takeWhile (\<lambda>c. c \<noteq> percent) (a @ percent # u) = a" "dropWhile (\<lambda>c. c \<noteq> percent) (a @ percent # u) = percent # u" for u
    by (auto simp: takeWhile_append dropWhile_append)
  then show ?thesis by (simp add: title_loop.simps [of vals "a @ percent # percent # t"] Let_def)
qed

lemma title_loop_escape: "title_loop vals (escape_title s) = Inr s"
proof (induction s rule: measure_induct_rule [of length])
  case (less s)
  show ?case
  proof (cases "percent \<in> set s")
    case True
    then obtain a t where s: "s = a @ percent # t" "percent \<notin> set a" by (meson split_list_first)
    then have "escape_title s = a @ percent # percent # escape_title t"
      by (simp add: escape_append escape_no_percent) (simp add: escape_title_def)
    then show ?thesis using title_loop_escaped [OF s(2), of vals "escape_title t"] less [of t] s(1) by simp
  next
    case False
    then show ?thesis by (simp add: escape_no_percent title_loop_plain)
  qed
qed

subsection \<open>Facts about workflows\<close>

lemma all_match_iff: "(all_match ev cs = Inr True) = (\<forall>c \<in> set cs. ev c = Inr True)"
  by (induction cs) (auto simp: result_simps split: if_splits)

lemma action_executions_ok:
  "action_executions gen now d rule as n = Inr (out, n') \<Longrightarrow>
    map we_action out = map (Some \<circ> wa_id) (filter (\<lambda>a. wa_type a \<noteq> ''do_nothing'') as) \<and>
    map we_id out = map gen [n..<n'] \<and> n \<le> n' \<and>
    list_all (\<lambda>e. we_rule e = Some rule \<and> we_decision e = dn_id d \<and> we_status e = ''pending_dispatch'') out"
proof (induction "as" arbitrary: n out n')
  case (Cons a "as")
  show ?case
  proof (cases "wa_type a = ''do_nothing''")
    case False
    then obtain c out0 where o: "action_executions gen now d rule as (Suc n) = Inr (out0, n')"
      "out = \<lparr>we_id = gen n, we_tenant = dn_tenant d, we_workflow = None, we_rule = Some rule, we_action = Some (wa_id a),
         we_decision = dn_id d, we_scenario = dn_scenario d, we_action_type = wa_type a,
         we_status = ''pending_dispatch'', we_config = c, we_created = now\<rparr> # out0"
      using Cons.prems by (auto simp: result_simps)
    then show ?thesis using Cons.IH [OF o(1)] False by (auto simp: upt_conv_Cons)
  qed (use Cons in simp)
qed simp

definition rule_fires :: "(wf_condition \<Rightarrow> bool res) \<Rightarrow> wf_rule \<Rightarrow> bool" where
  "rule_fires ev r = (wr_actions r \<noteq> [] \<and> (\<forall>c \<in> set (wr_conditions r). ev c = Inr True))"

definition rule_actions :: "wf_rule \<Rightarrow> (string option \<times> string option) list" where
  "rule_actions r = map (\<lambda>a. (Some (wr_id r), Some (wa_id a))) (filter (\<lambda>a. wa_type a \<noteq> ''do_nothing'') (wr_actions r))"

text \<open>The rules a decision reads: up to the first that fires without passing on.\<close>

fun rules_read :: "(wf_condition \<Rightarrow> bool res) \<Rightarrow> wf_rule list \<Rightarrow> wf_rule list" where
  "rules_read ev [] = []"
| "rules_read ev (r # rs) = r # (if rule_fires ev r \<and> \<not> wr_fallthrough r then [] else rules_read ev rs)"

lemma structured_executions_ok:
  "structured_executions gen now d ev rs n = Inr (out, n') \<Longrightarrow>
    map (\<lambda>e. (we_rule e, we_action e)) out = concat (map rule_actions (filter (rule_fires ev) (rules_read ev rs))) \<and>
    map we_id out = map gen [n..<n'] \<and> n \<le> n' \<and>
    list_all (\<lambda>e. we_decision e = dn_id d \<and> we_status e = ''pending_dispatch'') out"
proof (induction rs arbitrary: n out n')
  case (Cons r rs)
  show ?case
  proof (cases "rule_fires ev r")
    case False
    then have "structured_executions gen now d ev rs n = Inr (out, n')"
      using Cons.prems by (auto simp: rule_fires_def result_simps all_match_iff split: if_splits)
    then show ?thesis using Cons.IH False by simp
  next
    case True
    then have m: "all_match ev (wr_conditions r) = Inr True" "wr_actions r \<noteq> []" by (simp_all add: rule_fires_def all_match_iff)
    obtain o1 n1 where a: "action_executions gen now d (wr_id r) (wr_actions r) n = Inr (o1, n1)"
      using Cons.prems m by (auto simp: result_simps)
    note f = action_executions_ok [OF a]
    have pairs: "map (\<lambda>e. (we_rule e, we_action e)) o1 = rule_actions r"
    proof -
      have "map (\<lambda>e. (we_rule e, we_action e)) o1 = map (\<lambda>e. (Some (wr_id r), we_action e)) o1"
        using f by (intro map_cong) (auto simp: list_all_iff)
      also have "\<dots> = map (Pair (Some (wr_id r))) (map we_action o1)" by simp
      also have "\<dots> = rule_actions r" unfolding conjunct1 [OF f] by (simp add: rule_actions_def)
      finally show ?thesis .
    qed
    show ?thesis
    proof (cases "wr_fallthrough r")
      case False
      then have "out = o1" "n' = n1" using Cons.prems m a by auto
      then show ?thesis using f pairs True False by (auto simp: list_all_iff)
    next
      case fall: True
      then obtain o2 where b: "structured_executions gen now d ev rs n1 = Inr (o2, n')" "out = o1 @ o2"
        using Cons.prems m a by (auto simp: result_simps)
      have "n \<le> n1" "n1 \<le> n'" using f Cons.IH [OF b(1)] by auto
      then have u: "map gen [n..<n'] = map gen [n..<n1] @ map gen [n1..<n']"
        by (metis le_iff_add map_append upt_add_eq_append)
      then show ?thesis
        using f Cons.IH [OF b(1)] b(2) pairs True fall u by (auto simp: list_all_iff)
    qed
  qed
qed simp


subsection \<open>Facts about the order\<close>

lemma remove_expected_iff:
  "distinct expected \<Longrightarrow> (remove_expected expected is = Inr rest) =
     (distinct is \<and> set is \<subseteq> set expected \<and> rest = filter (\<lambda>j. j \<notin> set is) expected)"
proof (induction "is" arbitrary: expected)
  case (Cons i "is")
  show ?case
  proof (cases "i \<in> set expected")
    case True
    have "(remove_expected (filter (\<lambda>j. j \<noteq> i) expected) is = Inr rest) =
        (distinct is \<and> set is \<subseteq> set expected - {i} \<and> rest = filter (\<lambda>j. j \<notin> set is) (filter (\<lambda>j. j \<noteq> i) expected))"
      using Cons.IH [of "filter (\<lambda>j. j \<noteq> i) expected"] Cons.prems by auto
    moreover have "filter (\<lambda>j. j \<notin> set is) (filter (\<lambda>j. j \<noteq> i) expected) = filter (\<lambda>j. j \<notin> set (i # is)) expected"
      by (auto intro: filter_cong)
    ultimately show ?thesis using True by auto
  qed simp
qed (auto simp: filter_id_conv)

lemma see_all_iff: "(see_all existing seen is = Inr ()) = (distinct is \<and> set is \<subseteq> set existing \<and> set is \<inter> set seen = {})"
  by (induction "is" arbitrary: seen) auto

lemma permutation_iff:
  assumes "distinct xs" "length xs = length ys"
  shows "(mset xs = mset ys) = (distinct ys \<and> set ys \<subseteq> set xs)"
proof
  assume m: "mset xs = mset ys"
  then have "distinct ys" using assms(1) by (metis mset_eq_imp_distinct_iff)
  moreover have "set ys \<subseteq> set xs" using m by (metis mset_eq_setD order_refl)
  ultimately show "distinct ys \<and> set ys \<subseteq> set xs" ..
next
  assume d: "distinct ys \<and> set ys \<subseteq> set xs"
  then have "card (set ys) = card (set xs)" using assms by (metis distinct_card)
  then have "set ys = set xs" using d by (metis card_subset_eq finite_set)
  then show "mset xs = mset ys" using assms(1) d by (metis set_eq_iff_mset_eq_distinct)
qed

lemma check_rule_order_iff:
  assumes "distinct existing"
  shows "(check_rule_order existing ordered = Inr ()) = (mset existing = mset ordered)"
proof (cases "length existing = length ordered")
  case True
  have "(check_rule_order existing ordered = Inr ()) =
      (distinct ordered \<and> set ordered \<subseteq> set existing \<and> filter (\<lambda>j. j \<notin> set ordered) existing = [])"
    using True remove_expected_iff [OF assms] by (auto simp: check_rule_order_def result_simps split: if_splits)
  moreover have "distinct ordered \<Longrightarrow> set ordered \<subseteq> set existing \<Longrightarrow> filter (\<lambda>j. j \<notin> set ordered) existing = []"
    using permutation_iff [OF assms True] by (auto simp: filter_empty_conv dest: mset_eq_setD)
  ultimately show ?thesis using permutation_iff [OF assms True] by blast
next
  case False
  then show ?thesis by (auto simp: check_rule_order_def dest: mset_eq_length)
qed

lemma check_workflow_order_iff:
  assumes "distinct existing"
  shows "(check_workflow_order existing ordered = Inr ()) = (mset existing = mset ordered)"
  using permutation_iff [OF assms, of ordered] mset_eq_length
  by (auto simp: check_workflow_order_def see_all_iff)

lemma next_priority_greater: "(\<forall>p \<in> set ps. p < next_priority ps) \<and> 0 \<le> next_priority ps"
proof -
  have "(\<forall>p \<in> set ps. p < fold (\<lambda>p b. if p \<ge> b then p + 1 else b) ps m) \<and> m \<le> fold (\<lambda>p b. if p \<ge> b then p + 1 else b) ps m" for m :: int
  proof (induction ps arbitrary: m)
    case (Cons p ps)
    show ?case using Cons.IH [of "p + 1"] Cons.IH [of m] by (cases "m \<le> p") auto
  qed simp
  then show ?thesis by (simp add: next_priority_def)
qed


subsection \<open>Properties\<close>

lemma condition_tree_bounds:
  "(validate_tree t = Inr ()) = (tree_nodes t \<le> 64 \<and> tree_levels t \<le> 4 \<and> sound_nodes t)"
  by (rule validate_tree_iff)

text \<open>C18. The executions a decision dispatches are, in order, the actions other than
  do_nothing of the rules that fire, among the rules read up to the first that fires without
  falling through; their identifiers are drawn in order and each belongs to the decision and waits
  for dispatch.\<close>

theorem workflow_dispatches:
  assumes "structured_executions gen now d ev rs n = Inr (out, n')"
  shows "map (\<lambda>e. (we_rule e, we_action e)) out = concat (map rule_actions (filter (rule_fires ev) (rules_read ev rs)))
    \<and> map we_id out = map gen [n..<n'] \<and> list_all (\<lambda>e. we_decision e = dn_id d \<and> we_status e = ''pending_dispatch'') out"
  using structured_executions_ok [OF assms] by simp

definition demo_decision :: decision where
  "demo_decision = \<lparr>dn_id = ''d1'', dn_tenant = ''t'', dn_scenario = ''s1'', dn_iteration = ''i1'', dn_object_id = ''o1'',
     dn_object_type = ''transactions'', dn_outcome = ''decline'', dn_score = 80, dn_triggered = True, dn_created = 0, dn_request = []\<rparr>"

definition demo_action :: "string \<Rightarrow> string \<Rightarrow> wf_action" where
  "demo_action i ty = \<lparr>wa_id = i, wa_tenant = ''t'', wa_rule = ''r'', wa_type = ty,
     wa_config = Some (VObj [(''title_mode'', VStr ''template''), (''name'', VStr ''Case %object_id% (100%%)'')]),
     wa_created = 0, wa_updated = 0\<rparr>"

definition demo_rule :: "string \<Rightarrow> bool \<Rightarrow> string list \<Rightarrow> wf_action list \<Rightarrow> wf_rule" where
  "demo_rule i fall outcomes actions = \<lparr>wr_id = i, wr_tenant = ''t'', wr_scenario = ''s1'', wr_name = i, wr_priority = 0, wr_fallthrough = fall,
     wr_created = 0, wr_updated = 0,
     wr_conditions = [\<lparr>wc_id = ''c'', wc_tenant = ''t'', wc_rule = i, wc_function = ''outcome_in'', wc_params = OutcomeParams outcomes,
       wc_created = 0, wc_updated = 0\<rparr>], wr_actions = actions\<rparr>"

definition demo_rules :: "wf_rule list" where
  "demo_rules =
    [demo_rule ''r1'' True [''decline''] [demo_action ''a1'' ''create_case'', demo_action ''a2'' ''do_nothing''],
     demo_rule ''r2'' True [''review''] [demo_action ''a3'' ''create_case''],
     demo_rule ''r3'' False [''decline''] [demo_action ''a4'' ''add_to_case''],
     demo_rule ''r4'' False [''decline''] [demo_action ''a5'' ''create_case'']]"

definition demo_conditions :: "wf_condition \<Rightarrow> bool res" where
  "demo_conditions c = evaluate_condition c demo_decision [] blank_runtime"

definition demo_gen :: "nat \<Rightarrow> string" where
  "demo_gen n = ''x'' @ itoa (int n)"

lemma demo_dispatch:
  "case structured_executions demo_gen 5 demo_decision demo_conditions demo_rules 0 of
     Inl _ \<Rightarrow> False
   | Inr (out, n) \<Rightarrow> map (\<lambda>e. (we_id e, we_config e)) out =
       [(''x0'', Some (VObj [(''name'', VStr ''Case o1 (100%)'')])), (''x1'', Some (VObj [(''name'', VStr ''Case o1 (100%)'')]))] \<and> n = 2"
  by code_simp

lemma workflow_dispatches_witness:
  "\<exists>out. structured_executions demo_gen 5 demo_decision demo_conditions demo_rules 0 = Inr (out, 2) \<and>
    map (\<lambda>e. (we_rule e, we_action e)) out = [(Some ''r1'', Some ''a1''), (Some ''r3'', Some ''a4'')]"
proof -
  obtain out where o: "structured_executions demo_gen 5 demo_decision demo_conditions demo_rules 0 = Inr (out, 2)"
    using demo_dispatch by (auto split: sum.splits prod.splits)
  have "concat (map rule_actions (filter (rule_fires demo_conditions) (rules_read demo_conditions demo_rules))) =
      [(Some ''r1'', Some ''a1''), (Some ''r3'', Some ''a4'')]"
    by code_simp
  then show ?thesis using o workflow_dispatches [OF o] by auto
qed

lemma orders_agree:
  assumes "distinct existing"
  shows "(check_rule_order existing ordered = Inr ()) = (mset existing = mset ordered) \<and>
    (check_workflow_order existing ordered = Inr ()) = (mset existing = mset ordered)"
  using check_rule_order_iff [OF assms] check_workflow_order_iff [OF assms] by simp

lemma orders_agree_witness: "check_rule_order [''a'', ''b'', ''c''] [''c'', ''a'', ''b''] = Inr ()"
  using orders_agree [of "[''a'', ''b'', ''c'']" "[''c'', ''a'', ''b'']"] by (simp add: add_mset_commute)

lemma literal_title: "expand_title (escape_title s) vals = Inr (limit_title (trim_space s)) \<and> length (limit_title (trim_space s)) \<le> 200"
  by (simp add: expand_title_def title_loop_escape limit_title_length)

end
