(* ===== verification/Task_Group.thy ===== *)
theory Task_Group
  imports Prelude "HOL-Library.Multiset"
begin

text \<open>
  A group of goroutines under \<^verbatim>\<open>errgroup\<close> that write their results to their own slots
  (\<^verbatim>\<open>evaluateRules\<close> in \<^verbatim>\<open>service/rule_evaluation.go\<close>, \<^verbatim>\<open>EvaluateAllLiveScenarios\<close> in
  \<^verbatim>\<open>service/decision_service.go\<close>). The order in which the tasks finish is a permutation of their
  indices; the limit on concurrency only restricts which permutations occur. The group's error is the
  first one, and what a task does after the group was cancelled no longer matters for it.
\<close>

fun group_steps :: "('a \<Rightarrow> 'e + 'b) \<Rightarrow> 'a list \<Rightarrow> nat list \<Rightarrow> 'b list \<Rightarrow> 'e + 'b list" where
  "group_steps task xs [] slots = Inr slots"
| "group_steps task xs (i # is) slots =
     (case task (xs ! i) of Inl e \<Rightarrow> Inl e | Inr y \<Rightarrow> group_steps task xs is (slots[i := y]))"

definition run_group :: "('a \<Rightarrow> 'e + 'b) \<Rightarrow> 'b \<Rightarrow> 'a list \<Rightarrow> nat list \<Rightarrow> 'e + 'b list" where
  "run_group task blank xs finish = group_steps task xs finish (replicate (length xs) blank)"

text \<open>What a caller relies on: the results do not depend on the order, and an error is the error of one
  of the tasks.\<close>

locale task_group =
  fixes run :: "('a \<Rightarrow> 'e + 'b) \<Rightarrow> 'a list \<Rightarrow> nat list \<Rightarrow> 'e + 'b list"
  assumes run_results: "mset finish = mset [0..<length xs] \<Longrightarrow> (\<And>x. x \<in> set xs \<Longrightarrow> task x = Inr (f x)) \<Longrightarrow> run task xs finish = Inr (map f xs)"
    and run_fails: "mset finish = mset [0..<length xs] \<Longrightarrow> x \<in> set xs \<Longrightarrow> task x = Inl e \<Longrightarrow> \<exists>e'. run task xs finish = Inl e'"
    and run_error: "mset finish = mset [0..<length xs] \<Longrightarrow> run task xs finish = Inl e \<Longrightarrow> \<exists>x \<in> set xs. task x = Inl e"
begin

lemma run_Inr_iff:
  assumes "mset finish = mset [0..<length xs]"
  shows "(run task xs finish = Inr ys) = list_all2 (\<lambda>x y. task x = Inr y) xs ys"
proof (cases "\<exists>x e. x \<in> set xs \<and> task x = Inl e")
  case True
  then obtain x e where x: "x \<in> set xs" "task x = Inl e" by blast
  then have "\<not> list_all2 (\<lambda>x y. task x = Inr y) xs ys" by (fastforce simp: list_all2_conv_all_nth in_set_conv_nth)
  then show ?thesis using run_fails [where task = task, OF assms x] by auto
next
  case False
  then have t: "task x = Inr (projr (task x))" if "x \<in> set xs" for x using that by (cases "task x") auto
  have "run task xs finish = Inr (map (\<lambda>x. projr (task x)) xs)" by (rule run_results [OF assms t])
  moreover have "list_all2 (\<lambda>x y. task x = Inr y) xs ys = (ys = map (\<lambda>x. projr (task x)) xs)"
    using t by (fastforce simp: list_all2_conv_all_nth list_eq_iff_nth_eq)
  ultimately show ?thesis by auto
qed

text \<open>Any two orders give the same results.\<close>

lemma run_order_free:
  assumes "mset finish = mset [0..<length xs]" "mset finish' = mset [0..<length xs]"
  shows "(run task xs finish = Inr ys) = (run task xs finish' = Inr ys)"
  by (simp add: run_Inr_iff assms)

text \<open>Running the tasks one after the other gives the results of every order.\<close>

lemma run_sequential:
  assumes "mset finish = mset [0..<length xs]"
  shows "(run task xs finish = Inr ys) = (mapM_r task xs = Inr ys)"
  by (simp add: run_Inr_iff [OF assms] mapM_r_Inr_iff)

end

lemma group_steps_results:
  "(\<And>i. i \<in> set is \<Longrightarrow> task (xs ! i) = Inr (f (xs ! i))) \<Longrightarrow> \<forall>i \<in> set is. i < length slots \<Longrightarrow>
    \<exists>ys. group_steps task xs is slots = Inr ys \<and> length ys = length slots \<and>
      (\<forall>j < length slots. ys ! j = (if j \<in> set is then f (xs ! j) else slots ! j))"
proof (induction "is" arbitrary: slots)
  case (Cons i "is")
  then have "task (xs ! i) = Inr (f (xs ! i))" by simp
  moreover obtain ys where y: "group_steps task xs is (slots[i := f (xs ! i)]) = Inr ys" "length ys = length slots"
      "\<forall>j < length slots. ys ! j = (if j \<in> set is then f (xs ! j) else slots[i := f (xs ! i)] ! j)"
    using Cons.IH [of "slots[i := f (xs ! i)]"] Cons.prems by auto
  ultimately show ?case using Cons.prems by (auto simp: nth_list_update)
qed simp

lemma group_steps_error: "group_steps task xs is slots = Inl e \<Longrightarrow> \<exists>i \<in> set is. task (xs ! i) = Inl e"
  by (induction "is" arbitrary: slots) (auto split: sum.splits)

lemma group_steps_fails: "i \<in> set is \<Longrightarrow> task (xs ! i) = Inl e \<Longrightarrow> \<exists>e'. group_steps task xs is slots = Inl e'"
  by (induction "is" arbitrary: slots) (auto split: sum.split)

lemma finish_set: "mset finish = mset [0..<n] \<Longrightarrow> set finish = {0..<n}"
  by (metis mset_eq_setD set_upt)

lemma run_group_results:
  assumes m: "mset finish = mset [0..<length xs]" and t: "\<And>x. x \<in> set xs \<Longrightarrow> task x = Inr (f x)"
  shows "run_group task blank xs finish = Inr (map f xs)"
proof -
  let ?slots = "replicate (length xs) blank"
  have "\<exists>ys. group_steps task xs finish ?slots = Inr ys \<and> length ys = length ?slots \<and>
      (\<forall>j < length ?slots. ys ! j = (if j \<in> set finish then f (xs ! j) else ?slots ! j))"
    by (rule group_steps_results) (use finish_set [OF m] t in auto)
  then obtain ys where "group_steps task xs finish ?slots = Inr ys" "length ys = length xs"
      "\<forall>j < length xs. ys ! j = f (xs ! j)"
    using finish_set [OF m] by auto
  then show ?thesis by (auto simp: run_group_def intro: nth_equalityI)
qed

lemma run_group_fails:
  assumes m: "mset finish = mset [0..<length xs]" and x: "x \<in> set xs" "task x = Inl e"
  shows "\<exists>e'. run_group task blank xs finish = Inl e'"
proof -
  obtain i where "i \<in> set finish" "task (xs ! i) = Inl e" using finish_set [OF m] x by (auto simp: in_set_conv_nth)
  then show ?thesis unfolding run_group_def by (rule group_steps_fails)
qed

lemma run_group_error:
  assumes m: "mset finish = mset [0..<length xs]" and r: "run_group task blank xs finish = Inl e"
  shows "\<exists>x \<in> set xs. task x = Inl e"
proof -
  obtain i where "i \<in> set finish" "task (xs ! i) = Inl e" using group_steps_error [OF r [unfolded run_group_def]] by blast
  then show ?thesis using finish_set [OF m] by auto
qed

interpretation errgroup: task_group "\<lambda>task. run_group task blank" for blank
  by unfold_locales (rule run_group_results run_group_fails run_group_error; assumption)+

end
