(* ===== verification/Object_Preparation.thy ===== *)
theory Object_Preparation
  imports Payload_Laws
begin

text \<open>
  Preparing the object of a decision (\<^verbatim>\<open>service/object_preparation.go\<close>, \<^verbatim>\<open>prepareObject\<close>): the request is
  trimmed, the record is read from the tenant's data when the request brings no fields, and the fields
  are checked. The reader is a service outside the program; one that can be bound to a model is asked
  with the model.
\<close>

record stored_record =
  sr_object_id :: string
  sr_object_type :: string
  sr_fields :: field_map

record object_reader =
  or_scoped :: bool
  or_get :: "(string \<times> tenant_model) option \<Rightarrow> string \<Rightarrow> string \<Rightarrow> string \<Rightarrow> string + stored_record"

record eval_request =
  er_object_id :: string
  er_object_type :: string
  er_fields :: field_map
  er_stored_source :: bool
  er_prepared :: "(string \<times> tenant_model) option"

definition single_issue :: "string \<Rightarrow> tenant_model \<Rightarrow> string \<Rightarrow> string \<Rightarrow> string \<Rightarrow> prep_error" where
  "single_issue category m name code message =
     PayloadError category (tm_revision m) [\<lparr>is_field = name, is_code = code, is_message = message\<rparr>] False"

text \<open>The fields of the request, or those of the stored record, and whether they were stored.\<close>

definition object_fields :: "string \<Rightarrow> string \<Rightarrow> string \<Rightarrow> field_map \<Rightarrow> tenant_model \<Rightarrow> object_reader option \<Rightarrow> prep_error + field_map" where
  "object_fields tenant object_type object_id supplied m reader =
     (if supplied \<noteq> [] then Inr supplied
      else case reader of None \<Rightarrow> Inl (OtherError ''tenant data reader is not configured'')
        | Some rd \<Rightarrow> (case or_get rd (if or_scoped rd then Some (tenant, m) else None) tenant object_type object_id of
              Inl e \<Rightarrow> Inl (OtherError e)
            | Inr r \<Rightarrow> if sr_object_id r \<noteq> object_id \<or> sr_object_type r \<noteq> object_type
                then Inl (single_issue ''stored_record_invalid'' m ''object_id'' ''identity_mismatch''
                       ''stored record identity does not match the requested object'')
                else Inr (sr_fields r)))"

definition prepare_object :: "string \<Rightarrow> eval_request \<Rightarrow> tenant_model \<Rightarrow> object_reader option \<Rightarrow> prep_error + eval_request" where
  "prepare_object tenant req m reader =
     (let object_id = trim_space (er_object_id req); object_type = trim_space (er_object_type req) in
      if object_id = [] \<or> object_type = [] then
        Inl (single_issue ''payload_validation_failed'' m ''object_id/object_type'' ''missing_required''
          ''object ID and object type are required'')
      else if (case map_of (tm_tables m) object_type of None \<Rightarrow> True | Some table \<Rightarrow> tt_archived table) then
        Inl (single_issue ''payload_validation_failed'' m ''object_type'' ''unknown_object_type''
          ''object type is not active in the tenant model'')
      else bind_r (object_fields tenant object_type object_id (er_fields req) m reader) (\<lambda>supplied.
           bind_r (validate_payload object_type object_id supplied m (er_fields req = [] \<or> er_stored_source req)) (\<lambda>checked.
           Inr \<lparr>er_object_id = object_id, er_object_type = object_type, er_fields = checked,
                er_stored_source = er_stored_source req, er_prepared = Some (tenant, m)\<rparr>)))"

text \<open>\<^verbatim>\<open>DecisionService.prepare\<close>: an object that is prepared already must belong to the tenant.\<close>

definition prepare_request :: "string \<Rightarrow> eval_request \<Rightarrow> (string \<Rightarrow> string + tenant_model) \<Rightarrow> object_reader option \<Rightarrow> prep_error + eval_request" where
  "prepare_request tenant req get_model reader =
     (case er_prepared req of
        Some (owner, m) \<Rightarrow> if owner \<noteq> tenant then Inl (OtherError ''prepared object tenant mismatch'') else Inr req
      | None \<Rightarrow> (case get_model tenant of Inl e \<Rightarrow> Inl (OtherError e) | Inr m \<Rightarrow> prepare_object tenant req m reader))"

subsection \<open>A prepared record respects the data model\<close>

lemma normalize_value_fits: "normalize_value kind v = Some w \<Longrightarrow> fits (map_field_type kind) w"
proof -
  assume a: "normalize_value kind v = Some w"
  have t: "map_field_type ''string'' = TString" "map_field_type ''bool'' = TBool" "map_field_type ''int'' = TNumber"
    "map_field_type ''float'' = TNumber" "map_field_type ''timestamp'' = TTimestamp" "map_field_type ''ip_address'' = TIPAddress"
    by code_simp+
  have "normalize_text v = Some w \<Longrightarrow> fits TString w" by (cases v) (auto simp: fits_def)
  moreover have "normalize_bool v = Some w \<Longrightarrow> fits TBool w"
    by (cases v) (auto simp: fits_def Let_def split: if_splits)
  moreover have "normalize_int v = Some w \<Longrightarrow> fits TNumber w" by (cases v) (auto simp: fits_def)
  moreover have "normalize_float v = Some w \<Longrightarrow> fits TNumber w"
    using normalize_float_fixed by (fastforce simp: fits_def)
  moreover have "normalize_time v = Some w \<Longrightarrow> fits TTimestamp w" by (cases v) (auto simp: fits_def)
  moreover have "normalize_addr v = Some w \<Longrightarrow> fits TIPAddress w"
    by (cases v) (auto simp: fits_def split: if_splits)
  ultimately show ?thesis using a t by (auto simp: normalize_value_def split: if_splits)
qed

text \<open>Tables as the data model service delivers them: one entry per name, the identity field is text,
  and no column of the platform was archived.\<close>

definition table_ok :: "tenant_model \<Rightarrow> tm_table \<Rightarrow> bool" where
  "table_ok m table \<longleftrightarrow> distinct (map fst (tt_fields table)) \<and>
     list_all (\<lambda>(k, d). (k = (if tm_lookup_field m = [] then ''object_id'' else tm_lookup_field m) \<longrightarrow> tf_type d = ''string'') \<and>
       (k \<in> set physical_columns \<longrightarrow> \<not> tf_archived d)) (tt_fields table)"

lemma compiled_schema:
  assumes "compile_schema object_type m = Inr s"
  obtains table where "map_of (tm_tables m) object_type = Some table"
    "ps_fields s = map (\<lambda>(k, d). (k, schema_field d)) (active_fields table)"
    "ps_ordered s = sort (map fst (active_fields table))"
    "ps_lookup s = (if tm_lookup_field m = [] then ''object_id'' else tm_lookup_field m)"
  using assms by (auto simp: compile_schema_def split: option.splits if_splits)

lemma active_distinct: "distinct (map fst (tt_fields table)) \<Longrightarrow> distinct (map fst (active_fields table))"
  by (simp add: active_fields_def distinct_map_filter)

lemma map_of_filter_value: "distinct (map fst xs) \<Longrightarrow> map_of xs k = Some f \<Longrightarrow>
    map_of (filter (\<lambda>(k, d). P d) xs) k = (if P f then Some f else None)"
  by (induction xs) (auto simp: map_of_eq_None_iff dest: map_of_SomeD)

lemma payload_record_fits:
  assumes c: "compile_schema object_type m = Inr s" "map_of (tm_tables m) object_type = Some table" "table_ok m table"
    and d: "distinct (map fst values)" and v: "validate_values s category revision oid values = Inr out"
  shows "record_fits table out"
proof -
  have s: "ps_fields s = map (\<lambda>(k, d). (k, schema_field d)) (active_fields table)"
    "ps_ordered s = sort (map fst (active_fields table))"
    "ps_lookup s = (if tm_lookup_field m = [] then ''object_id'' else tm_lookup_field m)"
    using c(2) by (auto intro: compiled_schema [OF c(1)])
  have dt: "distinct (map fst (tt_fields table))" using c(3) by (simp add: table_ok_def)
  have do: "distinct (ps_ordered s)" using active_distinct [OF dt] by (simp add: s)
  have ok: "payload_issues s oid values = []" "out = payload_record s oid values"
    using v by (auto simp: validate_values_spec split: if_splits)
  have m: "map_of out = payload_value s oid values" using payload_record_value [OF d do] ok(2) by simp
  have "fits (map_field_type (tf_type f)) (field_of out name)" if f: "map_of (tt_fields table) name = Some f" for name f
  proof (cases "payload_value s oid values name")
    case None
    then show ?thesis by (simp add: field_of_def m)
  next
    case (Some w)
    have spec: "(name = ps_lookup s \<longrightarrow> tf_type f = ''string'') \<and> (name \<in> set physical_columns \<longrightarrow> \<not> tf_archived f)"
      using c(3) map_of_SomeD [OF f] by (auto simp: table_ok_def s(3) list_all_iff)
    have "fits (map_field_type (tf_type f)) w"
    proof (cases "name = ps_lookup s")
      case True
      then have "w = VStr oid" "tf_type f = ''string''" using Some spec by (auto simp: payload_value_def)
      then show ?thesis by (simp add: demo_types fits_def)
    next
      case False
      then have w: "check_supplied s name w = Inr w" using accepted_value [OF ok(1) d do Some] by simp
      have mf: "map_of (ps_fields s) name = (if tf_archived f then None else Some (schema_field f))"
        using f dt by (simp add: s(1) map_of_map active_fields_def map_of_filter_value [OF dt f])
      then have "field_contract s name = Some (schema_field f)"
        using w spec by (auto simp: check_supplied_def field_contract_def split: option.splits if_splits)
      then show ?thesis
        using w normalize_value_fits by (fastforce simp: check_supplied_def schema_field_def split: if_splits option.splits)
    qed
    then show ?thesis by (simp add: field_of_def m Some)
  qed
  then show ?thesis by (simp add: record_fits_def)
qed


definition model_ok :: "tenant_model \<Rightarrow> bool" where
  "model_ok m = list_all (\<lambda>(k, table). table_ok m table) (tm_tables m)"

text \<open>Keys of a Go map occur once.\<close>

definition reader_ok :: "object_reader option \<Rightarrow> bool" where
  "reader_ok reader \<longleftrightarrow> (\<forall>rd scope t ty i r. reader = Some rd \<longrightarrow> or_get rd scope t ty i = Inr r \<longrightarrow> distinct (map fst (sr_fields r)))"

lemma prepared_object:
  assumes "prepare_object tenant req m reader = Inr req'" "distinct (map fst (er_fields req))" "reader_ok reader"
  obtains s supplied category table where
    "map_of (tm_tables m) (er_object_type req') = Some table" "\<not> tt_archived table"
    "compile_schema (er_object_type req') m = Inr s" "distinct (map fst supplied)"
    "validate_values s category (tm_revision m) (er_object_id req') supplied = Inr (er_fields req')"
    "er_prepared req' = Some (tenant, m)" "trim_space (er_object_id req') = er_object_id req'"
proof -
  let ?id = "trim_space (er_object_id req)" and ?ty = "trim_space (er_object_type req)"
  obtain supplied checked where o: "object_fields tenant ?ty ?id (er_fields req) m reader = Inr supplied"
    "validate_payload ?ty ?id supplied m (er_fields req = [] \<or> er_stored_source req) = Inr checked"
    "\<not> (case map_of (tm_tables m) ?ty of None \<Rightarrow> True | Some table \<Rightarrow> tt_archived table)"
    "req' = \<lparr>er_object_id = ?id, er_object_type = ?ty, er_fields = checked, er_stored_source = er_stored_source req,
       er_prepared = Some (tenant, m)\<rparr>"
    using assms(1) by (auto simp: prepare_object_def Let_def result_simps split: if_splits)
  have "distinct (map fst supplied)"
    using o(1) assms(2,3) by (auto simp: object_fields_def reader_ok_def split: if_splits option.splits sum.splits)
  then show thesis using o(2-4) that by (auto simp: validate_payload_def result_simps trim_space_idem split: option.splits)
qed

lemma prepared_record_fits:
  assumes p: "prepare_object tenant req m reader = Inr req'" "distinct (map fst (er_fields req))" "reader_ok reader"
    and m: "model_ok m" and t: "map_of (tm_tables m) (er_object_type req') = Some table"
  shows "record_fits table (er_fields req')"
proof (rule prepared_object [OF p])
  fix s supplied category tb
  assume a: "compile_schema (er_object_type req') m = Inr s" "distinct (map fst supplied)"
    "validate_values s category (tm_revision m) (er_object_id req') supplied = Inr (er_fields req')"
  have "table_ok m table" using m map_of_SomeD [OF t] by (auto simp: model_ok_def list_all_iff)
  then show ?thesis using payload_record_fits [OF a(1) t _ a(2,3)] by simp
qed

subsection \<open>Properties\<close>

text \<open>C0.\<close>

text \<open>C13. The check of an evaluation object refines its specification: it gives the record
  the specification describes, field by field, when no issue exists, and otherwise the hundred
  least issues in the order of field and code, marked as truncated exactly when there are more.\<close>

theorem payload_outcome:
  assumes "distinct (map fst values)" "distinct (ps_ordered s)"
  shows "(if payload_issues s object_id values = []
      then \<exists>out. validate_values s category revision object_id values = Inr out \<and> distinct (map fst out) \<and>
        map_of out = payload_value s object_id values
      else validate_values s category revision object_id values = Inl (PayloadError category revision
        (take 100 (sort_key issue_key (rev (payload_issues s object_id values))))
        (100 < length (payload_issues s object_id values))))"
  by (simp add: validate_values_spec payload_record_distinct payload_record_value [OF assms] max_issues_def)

text \<open>C14. The outcome of the check does not depend on the order in which Go iterates over
  the supplied values: the same report, entry by entry, or the same record.\<close>

theorem payload_order_free:
  assumes "mset values = mset values'" "distinct (map fst values)" "distinct (ps_ordered s)"
  shows "map_sum id map_of (validate_values s category revision object_id values) =
    map_sum id map_of (validate_values s category revision object_id values')"
  using assms by (rule payload_perm)

text \<open>C15. A record that the check produced is accepted by the check and unchanged, so an
  object can be read back from the store and checked again.\<close>

theorem payload_checked_twice:
  assumes "validate_values s category revision oid values = Inr out"
    "distinct (map fst values)" "distinct (ps_ordered s)" "trim_space oid = oid"
  shows "\<exists>out'. validate_values s category' revision' oid out = Inr out' \<and> map_of out' = map_of out"
proof -
  have ok: "payload_issues s oid values = []" "out = payload_record s oid values"
    using assms(1) by (auto simp: validate_values_spec split: if_splits)
  have "map_of (payload_record s oid out) = map_of out"
    using payload_again(2) [OF ok(1) assms(2-4)] payload_record_value [OF payload_record_distinct assms(3)]
      payload_record_value [OF assms(2,3)] by (simp add: ok(2))
  then show ?thesis using payload_again(1) [OF ok(1) assms(2-4)] by (simp add: validate_values_spec ok(2))
qed


subsection \<open>A prepared transaction\<close>

definition demo_request :: eval_request where
  "demo_request = \<lparr>er_object_id = '' o1 '', er_object_type = ''transactions'',
     er_fields = [(''status'', VStr ''ok''), (''amount'', VStr '' 250'')], er_stored_source = False, er_prepared = None\<rparr>"

definition demo_prepared :: eval_request where
  "demo_prepared = \<lparr>er_object_id = ''o1'', er_object_type = ''transactions'',
     er_fields = [(''object_id'', VStr ''o1''), (''status'', VStr ''ok''), (''amount'', VInt64 250)],
     er_stored_source = False, er_prepared = Some (''t'', demo_model)\<rparr>"

lemma demo_prepares: "prepare_object ''t'' demo_request demo_model None = Inr demo_prepared"
  by code_simp

definition large_amount :: node where
  "large_amount = Node ''>'' VNil [Node ''payload'' VNil [text_node ''amount''] [], const_node (VInt 100)] []"

definition prepared_runtime :: runtime where
  "prepared_runtime = (demo_runtime ''a1'')\<lparr>rt_fields := er_fields demo_prepared\<rparr>"

lemma demo_checks:
  "model_ok demo_model" "settled demo_model ''transactions'' large_amount"
  "validate_node demo_model ''transactions'' large_amount = (TBool, [])"
  "eval_node prepared_runtime large_amount = Inr (VBool True)"
  by code_simp+



subsection \<open>A rejected transaction\<close>

definition demo_schema :: payload_schema where
  "demo_schema = projr (compile_schema ''transactions'' demo_model)"

definition demo_values :: field_map where
  "demo_values = [(''ghost'', VInt 1), (''amount'', VStr ''x''), (''status'', VStr ''ok'')]"

definition demo_issues :: "issue list" where
  "demo_issues =
    [\<lparr>is_field = ''amount'', is_code = ''invalid_type'', is_message = ''value does not satisfy field type int''\<rparr>,
     \<lparr>is_field = ''ghost'', is_code = ''unknown_field'', is_message = ''field is not active in the object model''\<rparr>]"

lemma demo_report:
  "distinct (map fst demo_values)" "distinct (ps_ordered demo_schema)"
  "payload_issues demo_schema ''o1'' demo_values \<noteq> []"
  "take 100 (sort_key issue_key (rev (payload_issues demo_schema ''o1'' demo_values))) = demo_issues"
  "\<not> 100 < length (payload_issues demo_schema ''o1'' demo_values)"
  by code_simp+

lemma payload_outcome_witness:
  "validate_values demo_schema ''payload_validation_failed'' ''r1'' ''o1'' demo_values =
    Inl (PayloadError ''payload_validation_failed'' ''r1'' demo_issues False)"
  using payload_outcome [OF demo_report(1,2), of "''o1''" "''payload_validation_failed''" "''r1''"] demo_report by simp

lemma payload_order_free_witness:
  "map_sum id map_of (validate_values demo_schema ''c'' ''r1'' ''o1'' demo_values) =
    map_sum id map_of (validate_values demo_schema ''c'' ''r1'' ''o1''
      [(''status'', VStr ''ok''), (''amount'', VStr ''x''), (''ghost'', VInt 1)])"
  using payload_order_free [OF _ demo_report(1,2), of "[(''status'', VStr ''ok''), (''amount'', VStr ''x''), (''ghost'', VInt 1)]"]
  by (simp add: demo_values_def)

lemma demo_accepts: "validate_values demo_schema ''c'' ''r1'' ''o1'' (er_fields demo_request) = Inr (er_fields demo_prepared)"
  by code_simp

lemma payload_checked_twice_witness:
  "\<exists>out. validate_values demo_schema ''stored_record_invalid'' ''r2'' ''o1'' (er_fields demo_prepared) = Inr out \<and>
    map_of out = map_of (er_fields demo_prepared)"
proof (rule payload_checked_twice [OF demo_accepts])
  show "trim_space ''o1'' = ''o1''" by code_simp
qed (simp_all add: demo_report demo_request_def)

end
