(* ===== verification/Decision_Build.thy ===== *)
theory Decision_Build
  imports Scenario_Model Workflow Task_Group Object_Preparation
begin

text \<open>
  What a decision consists of (\<^verbatim>\<open>service/evaluator.go\<close>, \<^verbatim>\<open>service/rule_evaluation.go\<close>,
  \<^verbatim>\<open>service/screening_dispatch_request.go\<close> and the builders at the end of \<^verbatim>\<open>service/decision_service.go\<close>):
  the outcome of a score, the evaluated rules, the screening and scoring requests and the outbox events.
  Formulas are given parsed, JSON configurations in the Go type they are decoded into.
\<close>

subsection \<open>Outcomes\<close>

definition reaches :: "int \<Rightarrow> int option \<Rightarrow> bool" where
  "reaches score threshold = (case threshold of None \<Rightarrow> False | Some t \<Rightarrow> score \<ge> t)"

definition outcome_from_score :: "int \<Rightarrow> iteration \<Rightarrow> string" where
  "outcome_from_score score i =
     (if reaches score (it_decline i) then ''decline''
      else if reaches score (it_block i) then ''block_and_review''
      else if reaches score (it_review i) then ''review''
      else ''approve'')"

subsection \<open>Rules\<close>

record evaluated_rule =
  ev_rule :: rule
  ev_matched :: bool
  ev_snoozed :: bool
  ev_evidence :: "evidence option"

definition is_snoozed :: "string list \<Rightarrow> rule \<Rightarrow> bool" where
  "is_snoozed groups r = (case ru_snooze_group r of None \<Rightarrow> False | Some g \<Rightarrow> g \<in> set groups)"

definition evaluate_rule :: "runtime \<Rightarrow> string list \<Rightarrow> rule \<Rightarrow> evaluated_rule res" where
  "evaluate_rule rt groups r =
     (if is_snoozed groups r then Inr \<lparr>ev_rule = r, ev_matched = False, ev_snoozed = True, ev_evidence = None\<rparr>
      else case bind_r (parse_formula (ru_formula r)) (evaluate_formula_with_evidence rt) of
          Inl e \<Rightarrow> Inl (''evaluate rule '' @ str_quote (ru_name r) @ '': '' @ e)
        | Inr (matched, ev) \<Rightarrow> Inr \<lparr>ev_rule = r, ev_matched = matched, ev_snoozed = False, ev_evidence = Some ev\<rparr>)"

definition zero_evaluated :: evaluated_rule where
  "zero_evaluated = \<lparr>ev_rule = \<lparr>ru_id = [], ru_iteration = [], ru_tenant = [], ru_order = 0, ru_name = [], ru_description = [],
       ru_formula = NoFormula, ru_modifier = 0, ru_group = [], ru_snooze_group = None, ru_stable = [],
       ru_created = 0, ru_updated = 0\<rparr>,
     ev_matched = False, ev_snoozed = False, ev_evidence = None\<rparr>"

text \<open>\<^verbatim>\<open>evaluateRules\<close>; \<open>finish\<close> is the order in which the goroutines end.\<close>

definition evaluate_rules :: "rule list \<Rightarrow> runtime \<Rightarrow> string list \<Rightarrow> nat list \<Rightarrow> evaluated_rule list res" where
  "evaluate_rules rules rt groups finish =
     (if rules = [] then Inr [] else run_group (evaluate_rule rt groups) zero_evaluated rules finish)"

text \<open>\<^verbatim>\<open>resolveRuleEvaluationConcurrency\<close> and \<^verbatim>\<open>resolveScenarioEvaluationConcurrency\<close> with the default limit.\<close>

definition resolve_concurrency :: "int \<Rightarrow> int \<Rightarrow> int \<Rightarrow> int \<Rightarrow> int" where
  "resolve_concurrency default_limit cpus configured tasks =
     (if tasks \<le> 0 then 1
      else if configured > 0 then (if configured > tasks then tasks else configured)
      else (let l = (if cpus > 0 \<and> cpus < default_limit then cpus else default_limit); l = (if l > tasks then tasks else l)
            in if l < 1 then 1 else l))"

definition new_rule_execution :: "string \<Rightarrow> int \<Rightarrow> string \<Rightarrow> evaluated_rule \<Rightarrow> rule_exec" where
  "new_rule_execution i now decision_id e =
     \<lparr>re_id = i, re_decision = decision_id, re_rule = ru_id (ev_rule e), re_name = ru_name (ev_rule e),
      re_outcome = (if ev_matched e then ''hit'' else ''no_hit''), re_modifier = ru_modifier (ev_rule e),
      re_evaluation = ev_evidence e, re_created = now\<rparr>"

text \<open>The loop over the evaluated rules: the score, wrapping at 64 bits, and the executions.\<close>

fun score_rules :: "(nat \<Rightarrow> string) \<Rightarrow> int \<Rightarrow> string \<Rightarrow> evaluated_rule list \<Rightarrow> nat \<Rightarrow> int \<Rightarrow> int \<times> rule_exec list \<times> nat" where
  "score_rules gen now decision_id [] n score = (score, [], n)"
| "score_rules gen now decision_id (e # es) n score =
     (let exec = new_rule_execution (gen n) now decision_id e;
          exec = (if ev_snoozed e then exec\<lparr>re_outcome := ''snoozed''\<rparr> else exec);
          score = (if \<not> ev_snoozed e \<and> ev_matched e then wrap64 (score + ru_modifier (ev_rule e)) else score);
          (total, execs, n') = score_rules gen now decision_id es (Suc n) score
      in (total, exec # execs, n'))"

subsection \<open>Screening\<close>

text \<open>\<^verbatim>\<open>screeningDispatchConfig\<close>; a configuration carries the outcome of decoding its JSON.\<close>

record dispatch_config =
  dc_entity_type :: string
  dc_queries :: "(string \<times> string) list"
  dc_query :: field_map
  dc_query_fields :: "(string \<times> string) list"
  dc_provider_config :: "gval option"
  dc_limit :: "int option"
  dc_counterparty :: "string option"
  dc_counterparty_field :: string

record screening_config =
  sg_id :: string
  sg_tenant :: string
  sg_scenario :: string
  sg_name :: string
  sg_allowed :: "string list"
  sg_provider :: string
  sg_config :: "dispatch_config res"
  sg_active :: bool
  sg_inbox :: "string option"
  sg_created :: int
  sg_updated :: int

record screening_request =
  sq_provider :: string
  sq_decision :: string
  sq_scenario :: string
  sq_config :: string
  sq_key :: string
  sq_object_type :: string
  sq_object_id :: string
  sq_queries :: "(string \<times> string) list"
  sq_provider_config :: "gval option"
  sq_limit :: "int option"
  sq_counterparty :: "string option"

record screening_execution =
  se_id :: string
  se_tenant :: string
  se_config :: string
  se_decision :: string
  se_scenario :: string
  se_status :: string
  se_request :: screening_request
  se_response :: "gval option"
  se_reference :: string
  se_last_error :: string
  se_created :: int
  se_updated :: int
  se_sent :: "int option"
  se_completed :: "int option"
  se_failed :: "int option"

definition lookup_string_field :: "field_map \<Rightarrow> string \<Rightarrow> string" where
  "lookup_string_field flds name = (case map_of flds name of
       None \<Rightarrow> [] | Some VNil \<Rightarrow> [] | Some (VStr s) \<Rightarrow> trim_space s | Some v \<Rightarrow> trim_space (go_sprint v))"

definition resolve_query_name :: "dispatch_config \<Rightarrow> field_map \<Rightarrow> string res" where
  "resolve_query_name c flds =
     (let field_name = trim_space (case map_of (dc_query_fields c) ''name'' of None \<Rightarrow> [] | Some s \<Rightarrow> s) in
      if field_name \<noteq> [] then
        (let v = lookup_string_field flds field_name in
         if v = [] then Inl (''screening query field '' @ str_quote field_name @ '' is missing or empty'') else Inr v)
      else case map_of (dc_query c) ''name'' of
          None \<Rightarrow> Inr []
        | Some (VStr s) \<Rightarrow>
            (let t = trim_space s in
             if t = [] then Inr []
             else if lookup_string_field flds t \<noteq> [] then Inr (lookup_string_field flds t) else Inr t)
        | Some _ \<Rightarrow> Inl ''screening query name must be a string'')"

definition dispatch_queries :: "dispatch_config \<Rightarrow> (string \<times> string) list" where
  "dispatch_queries c =
     map (\<lambda>(name, ty). (trim_space name, if trim_space ty = [] then trim_space (dc_entity_type c) else trim_space ty))
       (filter (\<lambda>(name, ty). trim_space name \<noteq> []) (dc_queries c))"

definition screening_dispatch_request :: "string \<Rightarrow> screening_config \<Rightarrow> decision \<Rightarrow> field_map \<Rightarrow> screening_request res" where
  "screening_dispatch_request exec_id c d flds =
     bind_r (case sg_config c of Inl e \<Rightarrow> Inl (''parse screening config '' @ sg_id c @ '': '' @ e) | Inr config \<Rightarrow> Inr config) (\<lambda>config.
     bind_r (if dispatch_queries config \<noteq> [] then Inr (dispatch_queries config)
             else bind_r (resolve_query_name config flds) (\<lambda>name. Inr (if name \<noteq> [] then [(name, trim_space (dc_entity_type config))] else [])))
       (\<lambda>queries.
        if queries = [] then Inl (''screening config '' @ sg_id c @ '' does not define a usable screening query'')
        else Inr \<lparr>sq_provider = sg_provider c, sq_decision = dn_id d, sq_scenario = dn_scenario d, sq_config = sg_id c,
               sq_key = exec_id, sq_object_type = dn_object_type d, sq_object_id = dn_object_id d, sq_queries = queries,
               sq_provider_config = dc_provider_config config, sq_limit = dc_limit config,
               sq_counterparty =
                 (if dc_counterparty config = None \<and> dc_counterparty_field config \<noteq> [] then
                    (let v = lookup_string_field flds (dc_counterparty_field config) in if v \<noteq> [] then Some v else None)
                  else dc_counterparty config)\<rparr>))"

definition string_allowed :: "string list \<Rightarrow> string \<Rightarrow> bool" where
  "string_allowed allowed want = list_ex (\<lambda>item. item = want) allowed"

fun screening_executions :: "(nat \<Rightarrow> string) \<Rightarrow> int \<Rightarrow> decision \<Rightarrow> field_map \<Rightarrow> screening_config list \<Rightarrow> nat \<Rightarrow>
    (screening_execution list \<times> nat) res" where
  "screening_executions gen now d flds [] n = Inr ([], n)"
| "screening_executions gen now d flds (c # cs) n =
     (if \<not> string_allowed (sg_allowed c) (dn_outcome d) then screening_executions gen now d flds cs n
      else bind_r (screening_dispatch_request (gen n) c d flds) (\<lambda>req.
           bind_r (screening_executions gen now d flds cs (Suc n)) (\<lambda>(out, n').
           Inr (\<lparr>se_id = gen n, se_tenant = dn_tenant d, se_config = sg_id c, se_decision = dn_id d, se_scenario = dn_scenario d,
                 se_status = ''pending'', se_request = req, se_response = None, se_reference = [], se_last_error = [],
                 se_created = now, se_updated = now, se_sent = None, se_completed = None, se_failed = None\<rparr> # out, n'))))"

subsection \<open>Scoring\<close>

record scoring_config =
  sf_id :: string
  sf_tenant :: string
  sf_scenario :: string
  sf_name :: string
  sf_allowed :: "string list"
  sf_ruleset :: string
  sf_config :: "gval option"
  sf_active :: bool
  sf_created :: int
  sf_updated :: int

record scoring_request =
  sx_id :: string
  sx_tenant :: string
  sx_config :: string
  sx_decision :: string
  sx_scenario :: string
  sx_status :: string
  sx_request :: field_map
  sx_response :: "gval option"
  sx_reference :: string
  sx_last_error :: string
  sx_created :: int
  sx_updated :: int
  sx_sent :: "int option"
  sx_completed :: "int option"
  sx_failed :: "int option"

fun scoring_requests :: "(nat \<Rightarrow> string) \<Rightarrow> int \<Rightarrow> decision \<Rightarrow> scoring_config list \<Rightarrow> nat \<Rightarrow> scoring_request list \<times> nat" where
  "scoring_requests gen now d [] n = ([], n)"
| "scoring_requests gen now d (c # cs) n =
     (if \<not> string_allowed (sf_allowed c) (dn_outcome d) then scoring_requests gen now d cs n
      else (let (out, n') = scoring_requests gen now d cs (Suc n) in
        (\<lparr>sx_id = gen n, sx_tenant = dn_tenant d, sx_config = sf_id c, sx_decision = dn_id d, sx_scenario = dn_scenario d,
          sx_status = ''pending'',
          sx_request = [(''decision_id'', VStr (dn_id d)), (''ruleset_ref'', VStr (sf_ruleset c)), (''object_id'', VStr (dn_object_id d)),
            (''object_type'', VStr (dn_object_type d)), (''config_id'', VStr (sf_id c))],
          sx_response = None, sx_reference = [], sx_last_error = [],
          sx_created = now, sx_updated = now, sx_sent = None, sx_completed = None, sx_failed = None\<rparr> # out, n')))"

subsection \<open>Outbox events\<close>

datatype event_payload =
    DecisionPayload decision
  | WorkflowPayload wf_execution
  | ScreeningPayload screening_request
  | ScoringPayload field_map

record outbox_event =
  ob_id :: string
  ob_tenant :: string
  ob_aggregate_type :: string
  ob_aggregate_id :: string
  ob_event_type :: string
  ob_payload :: event_payload
  ob_status :: string
  ob_created :: int

definition outbox_event_of :: "string \<Rightarrow> string \<Rightarrow> string \<Rightarrow> string \<Rightarrow> string \<Rightarrow> event_payload \<Rightarrow> int \<Rightarrow> outbox_event" where
  "outbox_event_of i tenant aggregate aggregate_id event payload now =
     \<lparr>ob_id = i, ob_tenant = tenant, ob_aggregate_type = aggregate, ob_aggregate_id = aggregate_id, ob_event_type = event,
      ob_payload = payload, ob_status = ''pending'', ob_created = now\<rparr>"

definition numbered :: "(nat \<Rightarrow> string) \<Rightarrow> nat \<Rightarrow> 'a list \<Rightarrow> (string \<times> 'a) list" where
  "numbered gen n xs = zip (map gen [n..<n + length xs]) xs"

definition outbox_events :: "(nat \<Rightarrow> string) \<Rightarrow> int \<Rightarrow> decision \<Rightarrow> wf_execution list \<Rightarrow> screening_execution list \<Rightarrow>
    scoring_request list \<Rightarrow> nat \<Rightarrow> outbox_event list" where
  "outbox_events gen now d ws ss rs n =
     outbox_event_of (gen n) (dn_tenant d) ''decision'' (dn_id d) ''decision.created'' (DecisionPayload d) now #
     map (\<lambda>(i, e). outbox_event_of i (we_tenant e) ''workflow_execution'' (we_id e) ''workflow.execution.created'' (WorkflowPayload e) now)
       (numbered gen (n + 1) ws) @
     map (\<lambda>(i, e). outbox_event_of i (se_tenant e) ''screening_execution'' (se_id e) ''screening.execution.created'' (ScreeningPayload (se_request e)) now)
       (numbered gen (n + 1 + length ws) ss) @
     map (\<lambda>(i, r). outbox_event_of i (sx_tenant r) ''scoring_request'' (sx_id r) ''scoring.request.created'' (ScoringPayload (sx_request r)) now)
       (numbered gen (n + 1 + length ws + length ss) rs)"

end
