(* ===== verification/Decision_Service.thy ===== *)
theory Decision_Service
  imports Decision_Build
begin

text \<open>
  Evaluating a scenario on an object and storing the decision (\<^verbatim>\<open>service/decision_service.go\<close>:
  \<^verbatim>\<open>evaluateScenario\<close>, \<^verbatim>\<open>EvaluateAllLiveScenarios\<close>). Repositories, clock, identifiers and the outcome of each
  database statement are parameters; the store the transaction writes is explicit. Timing logs and
  metrics are left out.
\<close>

subsection \<open>The store\<close>

record store =
  st_decisions :: "decision list"
  st_rule_execs :: "rule_exec list"
  st_workflows :: "wf_execution list"
  st_screenings :: "screening_execution list"
  st_scorings :: "scoring_request list"
  st_outbox :: "outbox_event list"
  st_jobs :: "(string \<times> string) list"

definition empty_store :: store where
  "empty_store = \<lparr>st_decisions = [], st_rule_execs = [], st_workflows = [], st_screenings = [], st_scorings = [],
     st_outbox = [], st_jobs = []\<rparr>"

text \<open>One statement: \<open>works\<close> tells whether the database executes it.\<close>

definition statement :: "(string \<Rightarrow> bool) \<Rightarrow> string \<Rightarrow> (store \<Rightarrow> store) \<Rightarrow> store \<Rightarrow> store res" where
  "statement works stage f st = (if works stage then Inr (f st) else Inl stage)"

fun enqueue_all :: "(string \<Rightarrow> bool) \<Rightarrow> string \<Rightarrow> string list \<Rightarrow> store \<Rightarrow> store res" where
  "enqueue_all works queue [] st = Inr st"
| "enqueue_all works queue (i # is) st =
     bind_r (statement works (''enqueue '' @ queue @ '' '' @ i) (\<lambda>st. st\<lparr>st_jobs := st_jobs st @ [(queue, i)]\<rparr>) st)
       (enqueue_all works queue is)"

text \<open>\<^verbatim>\<open>txManager.Run\<close>: the writes of the body take effect together or not at all.\<close>

definition run_tx :: "(store \<Rightarrow> store res) \<Rightarrow> (string \<Rightarrow> bool) \<Rightarrow> store \<Rightarrow> unit res \<times> store" where
  "run_tx body works st = (case body st of Inl e \<Rightarrow> (Inl e, st)
     | Inr st' \<Rightarrow> if works ''commit'' then (Inr (), st') else (Inl ''commit'', st))"

text \<open>The body of the transaction in \<^verbatim>\<open>evaluateScenario\<close>.\<close>

record decision_plan =
  dp_decision :: decision
  dp_rules :: "rule_exec list"
  dp_workflows :: "wf_execution list"
  dp_screenings :: "screening_execution list"
  dp_scorings :: "scoring_request list"
  dp_outbox :: "outbox_event list"

definition store_plan :: "(string \<Rightarrow> bool) \<Rightarrow> decision_plan \<Rightarrow> store \<Rightarrow> store res" where
  "store_plan works p st =
     bind_r (statement works ''tx_decision_insert'' (\<lambda>st. st\<lparr>st_decisions := st_decisions st @ [dp_decision p]\<rparr>) st) (\<lambda>st.
     bind_r (statement works ''tx_rule_exec_insert'' (\<lambda>st. st\<lparr>st_rule_execs := st_rule_execs st @ dp_rules p\<rparr>) st) (\<lambda>st.
     bind_r (statement works ''tx_workflow_insert'' (\<lambda>st. st\<lparr>st_workflows := st_workflows st @ dp_workflows p\<rparr>) st) (\<lambda>st.
     bind_r (enqueue_all works ''workflow'' (map we_id (dp_workflows p)) st) (\<lambda>st.
     bind_r (statement works ''tx_screening_insert'' (\<lambda>st. st\<lparr>st_screenings := st_screenings st @ dp_screenings p\<rparr>) st) (\<lambda>st.
     bind_r (enqueue_all works ''screening'' (map se_id (dp_screenings p)) st) (\<lambda>st.
     bind_r (statement works ''tx_scoring_insert'' (\<lambda>st. st\<lparr>st_scorings := st_scorings st @ dp_scorings p\<rparr>) st) (\<lambda>st.
     bind_r (enqueue_all works ''scoring'' (map sx_id (dp_scorings p)) st) (\<lambda>st.
     bind_r (statement works ''tx_outbox_insert'' (\<lambda>st. st\<lparr>st_outbox := st_outbox st @ dp_outbox p\<rparr>) st) (\<lambda>st.
     enqueue_all works ''outbox'' (map ob_id (dp_outbox p)) st)))))))))"

subsection \<open>Evaluating a scenario\<close>

record services =
  sv_model :: "string \<Rightarrow> tenant_model res"
  sv_reader :: "object_reader option"
  sv_runtime :: "tenant_model \<Rightarrow> runtime"
  sv_scenario :: "string \<Rightarrow> string \<Rightarrow> scenario res"
  sv_live :: "string \<Rightarrow> string \<Rightarrow> scenario list res"
  sv_iteration :: "string \<Rightarrow> string \<Rightarrow> string \<Rightarrow> iteration res"
  sv_rules :: "string \<Rightarrow> string \<Rightarrow> string \<Rightarrow> rule list res"
  sv_snoozes :: "string \<Rightarrow> string \<Rightarrow> string \<Rightarrow> string \<Rightarrow> int \<Rightarrow> string list res"
  sv_workflow_rules :: "string \<Rightarrow> string \<Rightarrow> wf_rule list res"
  sv_workflows :: "string \<Rightarrow> string \<Rightarrow> wf_definition list res"
  sv_screenings :: "string \<Rightarrow> string \<Rightarrow> screening_config list res"
  sv_scorings :: "string \<Rightarrow> string \<Rightarrow> scoring_config list res"
  sv_clock :: "string \<Rightarrow> int"
  sv_gen :: "string \<Rightarrow> nat \<Rightarrow> string"
  sv_finish :: "nat \<Rightarrow> nat list"
  sv_works :: "string \<Rightarrow> bool"

record eval_result =
  rs_revision :: string
  rs_triggered :: bool
  rs_decision :: "decision option"
  rs_execs :: "rule_exec list"

definition lift_error :: "'a res \<Rightarrow> prep_error + 'a" where
  "lift_error r = (case r of Inl e \<Rightarrow> Inl (OtherError e) | Inr x \<Rightarrow> Inr x)"

definition scenario_runtime :: "services \<Rightarrow> string \<Rightarrow> eval_request \<Rightarrow> tenant_model \<Rightarrow> int \<Rightarrow> runtime" where
  "scenario_runtime sv tenant req m now =
     (sv_runtime sv m)\<lparr>rt_tenant := tenant, rt_object_id := er_object_id req, rt_object_type := er_object_type req,
        rt_fields := er_fields req, rt_now := Some now, rt_model := Some m\<rparr>"

definition request_body :: "eval_request \<Rightarrow> tenant_model \<Rightarrow> field_map res" where
  "request_body req m =
     (if list_all (\<lambda>(k, v). view_json v \<noteq> None) (er_fields req) then
        Inr [(''object_id'', VStr (er_object_id req)), (''object_type'', VStr (er_object_type req)),
             (''fields'', VObj (er_fields req)), (''model_revision'', VStr (tm_revision m))]
      else Inl ''json: unsupported value'')"

text \<open>From the scored rules to what is stored. The identifiers are drawn in the order of the code.\<close>

definition new_decision :: "services \<Rightarrow> string \<Rightarrow> string \<Rightarrow> eval_request \<Rightarrow> iteration \<Rightarrow> int \<Rightarrow> field_map \<Rightarrow> decision" where
  "new_decision sv tenant scenario_id req it score body =
     \<lparr>dn_id = sv_gen sv scenario_id 0, dn_tenant = tenant, dn_scenario = scenario_id, dn_iteration = it_id it,
      dn_object_id = er_object_id req, dn_object_type = er_object_type req, dn_outcome = outcome_from_score score it,
      dn_score = score, dn_triggered = True, dn_created = sv_clock sv ''decision'', dn_request = body\<rparr>"

definition assemble_plan :: "services \<Rightarrow> string \<Rightarrow> string \<Rightarrow> eval_request \<Rightarrow> runtime \<Rightarrow> decision \<Rightarrow> rule_exec list \<Rightarrow> nat \<Rightarrow> decision_plan res" where
  "assemble_plan sv tenant scenario_id req rt d execs n =
     bind_r (workflow_executions (sv_gen sv scenario_id) (sv_clock sv ''workflow'') d execs rt
         (sv_workflow_rules sv tenant scenario_id) (sv_workflows sv tenant scenario_id) n) (\<lambda>(ws, n).
     bind_r (bind_r (sv_screenings sv tenant scenario_id)
         (\<lambda>cs. screening_executions (sv_gen sv scenario_id) (sv_clock sv ''screening'') d (er_fields req) cs n)) (\<lambda>(ss, n).
     bind_r (sv_scorings sv tenant scenario_id) (\<lambda>cs.
     (let (rs, n) = scoring_requests (sv_gen sv scenario_id) (sv_clock sv ''scoring'') d cs n in
      Inr \<lparr>dp_decision = d, dp_rules = execs, dp_workflows = ws, dp_screenings = ss, dp_scorings = rs,
            dp_outbox = outbox_events (sv_gen sv scenario_id) (sv_clock sv ''outbox'') d ws ss rs n\<rparr>))))"

definition plan_decision :: "services \<Rightarrow> string \<Rightarrow> string \<Rightarrow> eval_request \<Rightarrow> tenant_model \<Rightarrow> runtime \<Rightarrow> iteration \<Rightarrow> decision_plan res" where
  "plan_decision sv tenant scenario_id req m rt it =
     bind_r (sv_rules sv tenant scenario_id (it_id it)) (\<lambda>rules.
     bind_r (sv_snoozes sv tenant scenario_id (er_object_type req) (er_object_id req) (sv_clock sv ''decision'')) (\<lambda>groups.
     bind_r (evaluate_rules rules rt groups (sv_finish sv (length rules))) (\<lambda>evaluated.
     case score_rules (sv_gen sv scenario_id) (sv_clock sv ''decision'') (sv_gen sv scenario_id 0) evaluated 1 0 of
       (score, execs, n) \<Rightarrow>
         bind_r (request_body req m) (\<lambda>body.
         assemble_plan sv tenant scenario_id req rt (new_decision sv tenant scenario_id req it score body) execs n))))"

text \<open>Everything before the transaction: the model the object was prepared with and, when the trigger
  fires, what to store.\<close>

definition scenario_plan :: "services \<Rightarrow> string \<Rightarrow> string \<Rightarrow> eval_request \<Rightarrow> int \<Rightarrow> prep_error + tenant_model \<times> decision_plan option" where
  "scenario_plan sv tenant scenario_id req now =
     bind_r (prepare_request tenant req (sv_model sv) (sv_reader sv)) (\<lambda>req.
     bind_r (lift_error (sv_scenario sv tenant scenario_id)) (\<lambda>scn.
     bind_r (case sn_live scn of None \<Rightarrow> Inl (OtherError ''scenario has no live iteration'')
             | Some i \<Rightarrow> lift_error (sv_iteration sv tenant scenario_id i)) (\<lambda>it.
     if er_object_type req \<noteq> sn_trigger_type scn
     then Inl (OtherError ''object_type does not match scenario trigger object type'')
     else case er_prepared req of None \<Rightarrow> Inl (OtherError ''object is not prepared'')
       | Some (owner, m) \<Rightarrow>
           (let rt = scenario_runtime sv tenant req m now in
            bind_r (lift_error (bind_r (parse_formula (it_trigger it)) (evaluate_formula rt))) (\<lambda>triggered.
            if \<not> triggered then Inr (m, None)
            else bind_r (lift_error (plan_decision sv tenant scenario_id req m rt it)) (\<lambda>p. Inr (m, Some p)))))))"

definition evaluate_scenario :: "services \<Rightarrow> string \<Rightarrow> string \<Rightarrow> eval_request \<Rightarrow> int \<Rightarrow> store \<Rightarrow> (prep_error + eval_result) \<times> store" where
  "evaluate_scenario sv tenant scenario_id req now st =
     (case scenario_plan sv tenant scenario_id req now of
        Inl e \<Rightarrow> (Inl e, st)
      | Inr (m, None) \<Rightarrow> (Inr \<lparr>rs_revision = tm_revision m, rs_triggered = False, rs_decision = None, rs_execs = []\<rparr>, st)
      | Inr (m, Some p) \<Rightarrow> (case run_tx (store_plan (sv_works sv) p) (sv_works sv) st of
             (Inl e, st') \<Rightarrow> (Inl (OtherError e), st')
           | (Inr _, st') \<Rightarrow> (Inr \<lparr>rs_revision = tm_revision m, rs_triggered = True, rs_decision = Some (dp_decision p),
                                  rs_execs = dp_rules p\<rparr>, st')))"

subsection \<open>All live scenarios\<close>

text \<open>\<^verbatim>\<open>EvaluateAllLiveScenarios\<close>: the scenarios run as a group, each in its own transaction; \<open>finish\<close> is the
  order in which they end. The first error is the error of the call and cancels the group; \<open>survives\<close>
  tells which of the scenarios still running get through all the same.\<close>

fun run_scenarios :: "services \<Rightarrow> string \<Rightarrow> eval_request \<Rightarrow> int \<Rightarrow> scenario list \<Rightarrow> (nat \<Rightarrow> bool) \<Rightarrow> nat list \<Rightarrow> prep_error option \<Rightarrow>
    eval_result list \<Rightarrow> store \<Rightarrow> (prep_error + eval_result list) \<times> store" where
  "run_scenarios sv tenant req now scns survives [] failed slots st =
     (case failed of Some e \<Rightarrow> Inl e | None \<Rightarrow> Inr slots, st)"
| "run_scenarios sv tenant req now scns survives (i # is) failed slots st =
     (if failed \<noteq> None \<and> \<not> survives i then run_scenarios sv tenant req now scns survives is failed slots st
      else let (r, st') = evaluate_scenario sv tenant (sn_id (scns ! i)) req now st in
        case r of
          Inl e \<Rightarrow> run_scenarios sv tenant req now scns survives is (if failed = None then Some e else failed) slots st'
        | Inr x \<Rightarrow> run_scenarios sv tenant req now scns survives is failed (slots[i := x]) st')"

definition zero_result :: eval_result where
  "zero_result = \<lparr>rs_revision = [], rs_triggered = False, rs_decision = None, rs_execs = []\<rparr>"

definition evaluate_all :: "services \<Rightarrow> string \<Rightarrow> eval_request \<Rightarrow> int \<Rightarrow> (nat \<Rightarrow> bool) \<Rightarrow> (nat \<Rightarrow> nat list) \<Rightarrow> store \<Rightarrow>
    (prep_error + eval_result list) \<times> store" where
  "evaluate_all sv tenant req now survives finish st =
     (case bind_r (prepare_request tenant req (sv_model sv) (sv_reader sv)) (\<lambda>req.
           bind_r (lift_error (sv_live sv tenant (er_object_type req))) (\<lambda>scns. Inr (req, scns)))
      of Inl e \<Rightarrow> (Inl e, st)
       | Inr (req, scns) \<Rightarrow> run_scenarios sv tenant req now scns survives (finish (length scns)) None
           (replicate (length scns) zero_result) st)"

subsection \<open>Outcomes and scores\<close>

definition severity :: "string \<Rightarrow> nat" where
  "severity outcome = (if outcome = ''decline'' then 3 else if outcome = ''block_and_review'' then 2
     else if outcome = ''review'' then 1 else 0)"

lemma severity_outcome: "severity (outcome_from_score s it) =
    (if reaches s (it_decline it) then 3 else if reaches s (it_block it) then 2 else if reaches s (it_review it) then 1 else 0)"
  by (simp add: outcome_from_score_def severity_def)

lemma reaches_mono: "s \<le> s' \<Longrightarrow> reaches s t \<Longrightarrow> reaches s' t"
  by (auto simp: reaches_def split: option.splits)

lemma severity_mono: "s \<le> s' \<Longrightarrow> severity (outcome_from_score s it) \<le> severity (outcome_from_score s' it)"
  unfolding severity_outcome using reaches_mono by auto

lemma wrap64_add: "wrap64 (wrap64 a + b) = wrap64 (a + b)"
proof -
  have "(a + 2 ^ 63) mod 2 ^ 64 - 2 ^ 63 + b + 2 ^ 63 = (a + 2 ^ 63) mod 2 ^ 64 + b" by simp
  then show ?thesis unfolding wrap64_def by (simp only: mod_add_left_eq) (simp add: ac_simps)
qed

lemma wrap64_id: "in_int64 i \<Longrightarrow> wrap64 i = i"
  by (auto simp: wrap64_def in_int64_def min_int64_def max_int64_def)

definition hit_points :: "evaluated_rule \<Rightarrow> int" where
  "hit_points e = (if \<not> ev_snoozed e \<and> ev_matched e then ru_modifier (ev_rule e) else 0)"

definition rule_outcome :: "evaluated_rule \<Rightarrow> string" where
  "rule_outcome e = (if ev_snoozed e then ''snoozed'' else if ev_matched e then ''hit'' else ''no_hit'')"

lemma score_rules_spec:
  "score_rules gen now did es n s = (tot, execs, n') \<Longrightarrow> wrap64 s = s \<Longrightarrow>
    tot = wrap64 (s + sum_list (map hit_points es)) \<and> n' = n + length es \<and>
    map (\<lambda>x. (re_rule x, re_outcome x, re_decision x)) execs = map (\<lambda>e. (ru_id (ev_rule e), rule_outcome e, did)) es"
proof (induction es arbitrary: n s tot execs n')
  case (Cons e es)
  let ?s = "if \<not> ev_snoozed e \<and> ev_matched e then wrap64 (s + ru_modifier (ev_rule e)) else s"
  obtain rest where r: "score_rules gen now did es (Suc n) ?s = (tot, rest, n')"
    "execs = (if ev_snoozed e then (new_rule_execution (gen n) now did e)\<lparr>re_outcome := ''snoozed''\<rparr>
       else new_rule_execution (gen n) now did e) # rest"
    using Cons.prems(1) by (auto simp: Let_def split: prod.splits if_splits)
  have w: "?s = wrap64 (s + hit_points e)" "wrap64 ?s = ?s"
    using Cons.prems(2) wrap64_add [of "s + ru_modifier (ev_rule e)" 0] by (auto simp: hit_points_def)
  note ih = Cons.IH [OF r(1) w(2)]
  have "tot = wrap64 (wrap64 (s + hit_points e) + sum_list (map hit_points es))" using ih w(1) by simp
  then have "tot = wrap64 (s + (hit_points e + sum_list (map hit_points es)))"
    unfolding wrap64_add by (simp only: add.assoc)
  then show ?case using ih r(2) by (simp add: new_rule_execution_def rule_outcome_def)
qed simp

subsection \<open>The evaluated rules\<close>

definition rule_hits :: "runtime \<Rightarrow> string list \<Rightarrow> rule \<Rightarrow> bool" where
  "rule_hits rt groups r = (\<not> is_snoozed groups r \<and>
     (case bind_r (parse_formula (ru_formula r)) (evaluate_formula_with_evidence rt) of Inr (b, _) \<Rightarrow> b | Inl _ \<Rightarrow> False))"

definition verdict_of :: "runtime \<Rightarrow> string list \<Rightarrow> rule \<Rightarrow> string" where
  "verdict_of rt groups r = (if is_snoozed groups r then ''snoozed'' else if rule_hits rt groups r then ''hit'' else ''no_hit'')"

lemma evaluate_rule_ok:
  "evaluate_rule rt groups r = Inr e \<Longrightarrow> ev_rule e = r \<and> hit_points e = (if rule_hits rt groups r then ru_modifier r else 0) \<and>
    rule_outcome e = verdict_of rt groups r"
  by (auto simp: evaluate_rule_def hit_points_def rule_hits_def rule_outcome_def verdict_of_def
      split: if_splits sum.splits prod.splits)

lemma evaluate_rules_ok:
  assumes "mset finish = mset [0..<length rules]"
  shows "(evaluate_rules rules rt groups finish = Inr es) = list_all2 (\<lambda>r e. evaluate_rule rt groups r = Inr e) rules es"
  by (auto simp: evaluate_rules_def errgroup.run_Inr_iff [OF assms])

lemma evaluate_rules_points:
  assumes "mset finish = mset [0..<length rules]" "evaluate_rules rules rt groups finish = Inr es"
  shows "map hit_points es = map (\<lambda>r. if rule_hits rt groups r then ru_modifier r else 0) rules"
    "map (\<lambda>e. (ru_id (ev_rule e), rule_outcome e, d)) es = map (\<lambda>r. (ru_id r, verdict_of rt groups r, d)) rules"
proof -
  have "list_all2 (\<lambda>r e. evaluate_rule rt groups r = Inr e) rules es" using assms evaluate_rules_ok by blast
  then show "map hit_points es = map (\<lambda>r. if rule_hits rt groups r then ru_modifier r else 0) rules"
    "map (\<lambda>e. (ru_id (ev_rule e), rule_outcome e, d)) es = map (\<lambda>r. (ru_id r, verdict_of rt groups r, d)) rules"
    by (induction rule: list_all2_induct) (use evaluate_rule_ok in auto)
qed


subsection \<open>What a decision is\<close>

lemma assemble_plan_ok:
  assumes "assemble_plan sv tenant sid req rt d execs n = Inr p"
  obtains n' where "dp_decision p = d" "dp_rules p = execs"
    "dp_outbox p = outbox_events (sv_gen sv sid) (sv_clock sv ''outbox'') d (dp_workflows p) (dp_screenings p) (dp_scorings p) n'"
proof -
  obtain ws n1 ss n2 cs where
    "(case scoring_requests (sv_gen sv sid) (sv_clock sv ''scoring'') d cs n2 of (rs, n) \<Rightarrow>
      Inr \<lparr>dp_decision = d, dp_rules = execs, dp_workflows = ws, dp_screenings = ss, dp_scorings = rs,
            dp_outbox = outbox_events (sv_gen sv sid) (sv_clock sv ''outbox'') d ws ss rs n\<rparr>) = (Inr p :: decision_plan res)"
    using assms by (auto simp: assemble_plan_def result_simps)
  then show thesis by (auto split: prod.splits intro!: that)
qed

lemma plan_decision_ok:
  assumes p: "plan_decision sv tenant sid req m rt it = Inr p" and f: "\<And>n. mset (sv_finish sv n) = mset [0..<n]"
  obtains rules groups where
    "sv_rules sv tenant sid (it_id it) = Inr rules"
    "sv_snoozes sv tenant sid (er_object_type req) (er_object_id req) (sv_clock sv ''decision'') = Inr groups"
    "dn_score (dp_decision p) = wrap64 (sum_list (map (\<lambda>r. if rule_hits rt groups r then ru_modifier r else 0) rules))"
    "dn_outcome (dp_decision p) = outcome_from_score (dn_score (dp_decision p)) it"
    "map (\<lambda>x. (re_rule x, re_outcome x, re_decision x)) (dp_rules p) =
       map (\<lambda>r. (ru_id r, verdict_of rt groups r, dn_id (dp_decision p))) rules"
    "dn_object_id (dp_decision p) = er_object_id req" "dn_scenario (dp_decision p) = sid" "dn_iteration (dp_decision p) = it_id it"
proof -
  let ?gen = "sv_gen sv sid" and ?now = "sv_clock sv ''decision''"
  obtain rules groups es where a: "sv_rules sv tenant sid (it_id it) = Inr rules"
    "sv_snoozes sv tenant sid (er_object_type req) (er_object_id req) ?now = Inr groups"
    "evaluate_rules rules rt groups (sv_finish sv (length rules)) = Inr es"
    "(case score_rules ?gen ?now (?gen 0) es 1 0 of (score, execs, n) \<Rightarrow> bind_r (request_body req m) (\<lambda>body.
       assemble_plan sv tenant sid req rt (new_decision sv tenant sid req it score body) execs n)) = Inr p"
    using p by (auto simp: plan_decision_def result_simps)
  obtain score execs n where s: "score_rules ?gen ?now (?gen 0) es 1 0 = (score, execs, n)" by (metis prod_cases3)
  obtain body where b: "assemble_plan sv tenant sid req rt (new_decision sv tenant sid req it score body) execs n = Inr p"
    using a(4) s by (auto simp: result_simps)
  have d: "dp_decision p = new_decision sv tenant sid req it score body" "dp_rules p = execs"
    using assemble_plan_ok [OF b] by metis+
  have "wrap64 0 = 0" by (simp add: wrap64_def)
  note sc = score_rules_spec [OF s this]
  note pts = evaluate_rules_points(1) [OF f a(3)] evaluate_rules_points(2) [OF f a(3), of "sv_gen sv sid 0"]
  show thesis by (rule that [OF a(1,2)]) (use sc pts d in \<open>simp_all add: new_decision_def\<close>)
qed

lemma scenario_plan_ok:
  assumes "scenario_plan sv tenant sid req now = Inr (m, Some p)"
  obtains req' owner it where
    "prepare_request tenant req (sv_model sv) (sv_reader sv) = Inr req'" "er_prepared req' = Some (owner, m)"
    "bind_r (parse_formula (it_trigger it)) (evaluate_formula (scenario_runtime sv tenant req' m now)) = Inr True"
    "plan_decision sv tenant sid req' m (scenario_runtime sv tenant req' m now) it = Inr p"
proof -
  have "\<exists>req' owner it. prepare_request tenant req (sv_model sv) (sv_reader sv) = Inr req' \<and> er_prepared req' = Some (owner, m) \<and>
    bind_r (parse_formula (it_trigger it)) (evaluate_formula (scenario_runtime sv tenant req' m now)) = Inr True \<and>
    plan_decision sv tenant sid req' m (scenario_runtime sv tenant req' m now) it = Inr p"
    using assms by (fastforce simp: scenario_plan_def Let_def result_simps lift_error_def split: sum.splits option.splits if_splits)
  then show thesis using that by blast
qed

lemma evaluate_scenario_Inr:
  assumes "evaluate_scenario sv tenant sid req now st = (Inr r, st')"
  obtains m where "scenario_plan sv tenant sid req now = Inr (m, None)" "st' = st" "\<not> rs_triggered r" "rs_decision r = None"
  | m p where "scenario_plan sv tenant sid req now = Inr (m, Some p)"
      "store_plan (sv_works sv) p st = Inr st'" "rs_triggered r" "rs_decision r = Some (dp_decision p)" "rs_execs r = dp_rules p"
  using assms by (auto simp: evaluate_scenario_def run_tx_def split: sum.splits option.splits prod.splits if_splits)

lemma evaluate_scenario_Inl: "evaluate_scenario sv tenant sid req now st = (Inl e, st') \<Longrightarrow> st' = st"
  by (auto simp: evaluate_scenario_def run_tx_def split: sum.splits option.splits prod.splits if_splits)

subsection \<open>The store stays consistent\<close>

text \<open>Everything queued has exactly one job, everything created exactly one event, and nothing is without
  its decision.\<close>

definition expected_jobs :: "store \<Rightarrow> (string \<times> string) list" where
  "expected_jobs st = map (\<lambda>e. (''workflow'', we_id e)) (st_workflows st) @ map (\<lambda>e. (''screening'', se_id e)) (st_screenings st) @
     map (\<lambda>r. (''scoring'', sx_id r)) (st_scorings st) @ map (\<lambda>e. (''outbox'', ob_id e)) (st_outbox st)"

definition expected_events :: "store \<Rightarrow> (string \<times> string) list" where
  "expected_events st = map (\<lambda>d. (''decision'', dn_id d)) (st_decisions st) @
     map (\<lambda>e. (''workflow_execution'', we_id e)) (st_workflows st) @
     map (\<lambda>e. (''screening_execution'', se_id e)) (st_screenings st) @
     map (\<lambda>r. (''scoring_request'', sx_id r)) (st_scorings st)"

definition owned :: "store \<Rightarrow> string set" where
  "owned st = set (map re_decision (st_rule_execs st)) \<union> set (map we_decision (st_workflows st)) \<union>
     set (map se_decision (st_screenings st)) \<union> set (map sx_decision (st_scorings st))"

definition store_ok :: "store \<Rightarrow> bool" where
  "store_ok st \<longleftrightarrow> mset (st_jobs st) = mset (expected_jobs st) \<and>
     mset (map (\<lambda>e. (ob_aggregate_type e, ob_aggregate_id e)) (st_outbox st)) = mset (expected_events st) \<and>
     owned st \<subseteq> set (map dn_id (st_decisions st))"

lemma enqueue_all_ok:
  "enqueue_all works queue is st = Inr st' \<Longrightarrow> st' = st\<lparr>st_jobs := st_jobs st @ map (Pair queue) is\<rparr>"
proof (induction "is" arbitrary: st)
  case (Cons i "is")
  then have "enqueue_all works queue is (st\<lparr>st_jobs := st_jobs st @ [(queue, i)]\<rparr>) = Inr st'"
    by (auto simp: statement_def split: if_splits)
  from Cons.IH [OF this] show ?case by simp
qed simp

lemma store_plan_ok:
  assumes "store_plan works p st = Inr st'"
  shows "st' = \<lparr>st_decisions = st_decisions st @ [dp_decision p], st_rule_execs = st_rule_execs st @ dp_rules p,
    st_workflows = st_workflows st @ dp_workflows p, st_screenings = st_screenings st @ dp_screenings p,
    st_scorings = st_scorings st @ dp_scorings p, st_outbox = st_outbox st @ dp_outbox p,
    st_jobs = st_jobs st @ map (Pair ''workflow'') (map we_id (dp_workflows p)) @ map (Pair ''screening'') (map se_id (dp_screenings p)) @
      map (Pair ''scoring'') (map sx_id (dp_scorings p)) @ map (Pair ''outbox'') (map ob_id (dp_outbox p))\<rparr>"
  using assms unfolding store_plan_def statement_def
  by (auto simp: result_simps dest!: enqueue_all_ok split: if_splits)

lemma numbered_snd: "map (\<lambda>(i, x). f x) (numbered gen n xs) = map f xs"
proof -
  have "map (\<lambda>(i, x). f x) (zip as xs) = map f xs" if "length as = length xs" for as :: "string list"
    using that by (induction "as" xs rule: list_induct2) auto
  then show ?thesis by (simp add: numbered_def)
qed

lemma event_aggregates:
  "map (\<lambda>e. (ob_aggregate_type e, ob_aggregate_id e))
     (map (\<lambda>(i, x). outbox_event_of i (t x) ty (g x) evt (pl x) now) (numbered gen k xs)) = map (\<lambda>x. (ty, g x)) xs"
proof -
  have "map (\<lambda>e. (ob_aggregate_type e, ob_aggregate_id e))
      (map (\<lambda>(i, x). outbox_event_of i (t x) ty (g x) evt (pl x) now) (numbered gen k xs)) =
      map (\<lambda>(i, x). (ty, g x)) (numbered gen k xs)"
    by (auto simp: outbox_event_of_def)
  then show ?thesis by (simp only: numbered_snd)
qed

lemma outbox_events_aggregates:
  "map (\<lambda>e. (ob_aggregate_type e, ob_aggregate_id e)) (outbox_events gen now d ws ss rs n) =
    (''decision'', dn_id d) # map (\<lambda>e. (''workflow_execution'', we_id e)) ws @
    map (\<lambda>e. (''screening_execution'', se_id e)) ss @ map (\<lambda>r. (''scoring_request'', sx_id r)) rs"
  unfolding outbox_events_def list.map(2) map_append event_aggregates by (simp add: outbox_event_of_def)

lemma legacy_executions_owner:
  "legacy_executions gen now d ws n = Inr (out, n') \<Longrightarrow> \<forall>e \<in> set out. we_decision e = dn_id d"
  by (induction ws arbitrary: n out n') (fastforce simp: result_simps split: if_splits)+

lemma workflow_executions_owner:
  "workflow_executions gen now d execs rt rules ws n = Inr (out, n') \<Longrightarrow> \<forall>e \<in> set out. we_decision e = dn_id d"
  using structured_executions_ok legacy_executions_owner
  by (fastforce simp: workflow_executions_def result_simps list_all_iff split: if_splits)

lemma screening_executions_owner:
  "screening_executions gen now d flds cs n = Inr (out, n') \<Longrightarrow> \<forall>e \<in> set out. se_decision e = dn_id d"
  by (induction cs arbitrary: n out n') (fastforce simp: result_simps split: if_splits)+

lemma scoring_requests_owner:
  "scoring_requests gen now d cs n = (out, n') \<Longrightarrow> \<forall>r \<in> set out. sx_decision r = dn_id d"
  by (induction cs arbitrary: n out n') (fastforce simp: Let_def split: if_splits prod.splits)+

lemma assemble_plan_owner:
  assumes "assemble_plan sv tenant sid req rt d execs n = Inr p"
  shows "(\<forall>e \<in> set (dp_workflows p). we_decision e = dn_id d) \<and> (\<forall>e \<in> set (dp_screenings p). se_decision e = dn_id d) \<and>
    (\<forall>r \<in> set (dp_scorings p). sx_decision r = dn_id d)"
proof -
  obtain ws n1 ss n2 cs scs where a:
    "workflow_executions (sv_gen sv sid) (sv_clock sv ''workflow'') d execs rt (sv_workflow_rules sv tenant sid) (sv_workflows sv tenant sid) n = Inr (ws, n1)"
    "screening_executions (sv_gen sv sid) (sv_clock sv ''screening'') d (er_fields req) scs n1 = Inr (ss, n2)"
    "(case scoring_requests (sv_gen sv sid) (sv_clock sv ''scoring'') d cs n2 of (rs, n) \<Rightarrow>
      Inr \<lparr>dp_decision = d, dp_rules = execs, dp_workflows = ws, dp_screenings = ss, dp_scorings = rs,
            dp_outbox = outbox_events (sv_gen sv sid) (sv_clock sv ''outbox'') d ws ss rs n\<rparr>) = (Inr p :: decision_plan res)"
    using assms by (auto simp: assemble_plan_def result_simps)
  obtain rs n3 where r: "scoring_requests (sv_gen sv sid) (sv_clock sv ''scoring'') d cs n2 = (rs, n3)" by fastforce
  then have "dp_workflows p = ws" "dp_screenings p = ss" "dp_scorings p = rs" using a(3) by auto
  then show ?thesis
    using workflow_executions_owner [OF a(1)] screening_executions_owner [OF a(2)] scoring_requests_owner [OF r] by simp
qed

lemma score_rules_owner: "score_rules gen now did es n s = (tot, execs, n') \<Longrightarrow> \<forall>x \<in> set execs. re_decision x = did"
  by (induction es arbitrary: n s tot execs n')
    (fastforce simp: Let_def new_rule_execution_def split: prod.splits if_splits)+

lemma plan_owner:
  assumes "plan_decision sv tenant sid req m rt it = Inr p"
  shows "(\<forall>x \<in> set (dp_rules p). re_decision x = dn_id (dp_decision p)) \<and>
    (\<forall>e \<in> set (dp_workflows p). we_decision e = dn_id (dp_decision p)) \<and>
    (\<forall>e \<in> set (dp_screenings p). se_decision e = dn_id (dp_decision p)) \<and>
    (\<forall>r \<in> set (dp_scorings p). sx_decision r = dn_id (dp_decision p)) \<and>
    map (\<lambda>e. (ob_aggregate_type e, ob_aggregate_id e)) (dp_outbox p) =
      (''decision'', dn_id (dp_decision p)) # map (\<lambda>e. (''workflow_execution'', we_id e)) (dp_workflows p) @
      map (\<lambda>e. (''screening_execution'', se_id e)) (dp_screenings p) @ map (\<lambda>r. (''scoring_request'', sx_id r)) (dp_scorings p)"
proof -
  obtain es where a: "(case score_rules (sv_gen sv sid) (sv_clock sv ''decision'') (sv_gen sv sid 0) es 1 0 of (score, execs, n) \<Rightarrow>
      bind_r (request_body req m) (\<lambda>body.
        assemble_plan sv tenant sid req rt (new_decision sv tenant sid req it score body) execs n)) = Inr p"
    using assms by (auto simp: plan_decision_def result_simps)
  obtain score execs n where s: "score_rules (sv_gen sv sid) (sv_clock sv ''decision'') (sv_gen sv sid 0) es 1 0 = (score, execs, n)"
    by (metis prod_cases3)
  obtain body where b: "assemble_plan sv tenant sid req rt (new_decision sv tenant sid req it score body) execs n = Inr p"
    using a s by (auto simp: result_simps)
  obtain n' where d: "dp_decision p = new_decision sv tenant sid req it score body" "dp_rules p = execs"
    "dp_outbox p = outbox_events (sv_gen sv sid) (sv_clock sv ''outbox'') (new_decision sv tenant sid req it score body)
      (dp_workflows p) (dp_screenings p) (dp_scorings p) n'"
    using assemble_plan_ok [OF b] by blast
  have i: "dn_id (dp_decision p) = sv_gen sv sid 0" by (simp add: d(1) new_decision_def)
  show ?thesis
    using score_rules_owner [OF s] assemble_plan_owner [OF b] d i
    by (simp add: outbox_events_aggregates d(3))
qed

lemma store_ok_plan:
  assumes "store_ok st" "store_plan works p st = Inr st'" "plan_decision sv tenant sid req m rt it = Inr p"
  shows "store_ok st'"
  using assms(1) plan_owner [OF assms(3)]
  by (auto simp: store_plan_ok [OF assms(2)] store_ok_def expected_jobs_def expected_events_def owned_def o_def ac_simps)


inductive store_step :: "store \<Rightarrow> store \<Rightarrow> bool" where
  evaluated: "st' = snd (evaluate_scenario sv tenant sid req now st) \<Longrightarrow> store_step st st'"

inductive_cases store_stepE: "store_step st st'"

lemma store_step_ok:
  assumes "store_step st st'" "store_ok st"
  shows "store_ok st'"
  using assms(1)
proof (elim store_stepE)
  fix sv tenant sid req now
  assume st': "st' = snd (evaluate_scenario sv tenant sid req now st)"
  show "store_ok st'"
  proof (cases "fst (evaluate_scenario sv tenant sid req now st)")
    case (Inl e)
    then show ?thesis using st' assms(2) evaluate_scenario_Inl by (metis prod.collapse)
  next
    case (Inr r)
    then have e: "evaluate_scenario sv tenant sid req now st = (Inr r, st')" using st' by (metis prod.collapse)
    show ?thesis
    proof (rule evaluate_scenario_Inr [OF e])
      fix m p
      assume "scenario_plan sv tenant sid req now = Inr (m, Some p)" "store_plan (sv_works sv) p st = Inr st'"
      then show ?thesis using store_ok_plan [OF assms(2)] by (blast elim: scenario_plan_ok)
    qed (use assms(2) in simp)
  qed
qed

lemma reachable_store_ok: "store_step\<^sup>*\<^sup>* empty_store st \<Longrightarrow> store_ok st"
proof (induction rule: rtranclp_induct)
  case base
  then show ?case by (simp add: store_ok_def empty_store_def expected_jobs_def expected_events_def owned_def)
next
  case (step st st')
  then show ?case using store_step_ok by blast
qed

end
