(* ===== verification/Decision_Laws.thy ===== *)
theory Decision_Laws
  imports Decision_Service
begin

text \<open>
  What the decision service promises: the score, the outcome and the rules of a stored decision, the
  consistency of the store, and how a call over all live scenarios relates to the scenarios one by one.
\<close>

subsection \<open>The result of a scenario does not depend on the store\<close>

definition failure_of :: "'e + 'a \<Rightarrow> 'e option" where
  "failure_of r = (case r of Inl e \<Rightarrow> Some e | Inr _ \<Rightarrow> None)"

definition first_failing :: "(string \<Rightarrow> bool) \<Rightarrow> string list \<Rightarrow> string option" where
  "first_failing works stages = find (\<lambda>s. \<not> works s) stages"

lemma failure_statement: "failure_of (statement works s f st) = first_failing works [s]"
  by (simp add: failure_of_def statement_def first_failing_def)

lemma find_append: "find P (xs @ ys) = (case find P xs of None \<Rightarrow> find P ys | Some x \<Rightarrow> Some x)"
  by (induction xs) auto

lemma failure_bind:
  "failure_of m = first_failing works xs \<Longrightarrow> (\<And>st. failure_of (k st) = first_failing works ys) \<Longrightarrow>
    failure_of (bind_r m k) = first_failing works (xs @ ys)"
  by (cases m) (auto simp: failure_of_def first_failing_def find_append split: option.splits sum.splits)

lemma failure_enqueue:
  "failure_of (enqueue_all works q is st) = first_failing works (map (\<lambda>i. ''enqueue '' @ q @ '' '' @ i) is)"
proof (induction "is" arbitrary: st)
  case Nil
  then show ?case by (simp add: failure_of_def first_failing_def)
next
  case (Cons i "is")
  have "failure_of (enqueue_all works q (i # is) st) = first_failing works ([''enqueue '' @ q @ '' '' @ i] @ map (\<lambda>i. ''enqueue '' @ q @ '' '' @ i) is)"
    unfolding enqueue_all.simps by (rule failure_bind [OF failure_statement Cons.IH])
  then show ?case by simp
qed

lemma failure_store_plan: "\<exists>stages. \<forall>st. failure_of (store_plan works p st) = first_failing works stages"
  unfolding store_plan_def
  by (rule exI, rule allI, (rule failure_bind failure_statement failure_enqueue)+)

lemma failure_unit: "failure_of r = failure_of r' \<Longrightarrow> r = (r' :: 'e + unit)"
  by (cases r; cases r') (auto simp: failure_of_def)

lemma run_tx_result: "fst (run_tx (store_plan works p) works st) = fst (run_tx (store_plan works p) works st2)"
proof (rule failure_unit)
  have f: "failure_of (fst (run_tx (store_plan works p) works x)) =
      (case failure_of (store_plan works p x) of Some e \<Rightarrow> Some e | None \<Rightarrow> if works ''commit'' then None else Some ''commit'')" for x
    by (simp add: run_tx_def failure_of_def split: sum.split)
  obtain stages where "\<And>st. failure_of (store_plan works p st) = first_failing works stages"
    using failure_store_plan by blast
  then show "failure_of (fst (run_tx (store_plan works p) works st)) = failure_of (fst (run_tx (store_plan works p) works st2))"
    by (simp only: f)
qed

lemma evaluate_scenario_result:
  "fst (evaluate_scenario sv tenant sid req now st) = fst (evaluate_scenario sv tenant sid req now st2)"
proof -
  have r: "fst (case x of (Inl e, st') \<Rightarrow> (Inl (OtherError e), st') | (Inr u, st') \<Rightarrow> (Inr r, st')) =
      (case fst x of Inl e \<Rightarrow> Inl (OtherError e) | Inr u \<Rightarrow> Inr r)" for x :: "unit res \<times> store" and r :: eval_result
    by (auto split: prod.split sum.split)
  show ?thesis
  proof (cases "scenario_plan sv tenant sid req now")
    case (Inr mp)
    obtain m p where mp: "mp = (m, p)" by (cases mp)
    show ?thesis
    proof (cases p)
      case (Some plan)
      show ?thesis unfolding evaluate_scenario_def Inr mp Some sum.case prod.case option.case r
        by (simp only: run_tx_result [of _ _ st st2])
    qed (simp add: evaluate_scenario_def Inr mp)
  qed (simp add: evaluate_scenario_def)
qed

subsection \<open>All live scenarios\<close>

definition scenario_task :: "services \<Rightarrow> string \<Rightarrow> eval_request \<Rightarrow> int \<Rightarrow> scenario \<Rightarrow> prep_error + eval_result" where
  "scenario_task sv tenant req now scn = fst (evaluate_scenario sv tenant (sn_id scn) req now empty_store)"

lemma scenario_task: "fst (evaluate_scenario sv tenant (sn_id scn) req now st) = scenario_task sv tenant req now scn"
  unfolding scenario_task_def by (rule evaluate_scenario_result)

lemma run_scenarios_failed: "fst (run_scenarios sv tenant req now scns survives is (Some e) slots st) = Inl e"
  by (induction "is" arbitrary: slots st) (auto simp: case_prod_beta split: sum.split)

lemma run_scenarios_group:
  "fst (run_scenarios sv tenant req now scns survives is None slots st) = group_steps (scenario_task sv tenant req now) scns is slots"
proof (induction "is" arbitrary: slots st)
  case (Cons i "is")
  obtain r st' where e: "evaluate_scenario sv tenant (sn_id (scns ! i)) req now st = (r, st')" by fastforce
  then have "scenario_task sv tenant req now (scns ! i) = r" using scenario_task by (metis fst_conv)
  then show ?case using Cons.IH e by (cases r) (simp_all add: run_scenarios_failed)
qed simp

lemma evaluate_all_results:
  assumes "\<And>n. mset (finish n) = mset [0..<n]"
    "prepare_request tenant req (sv_model sv) (sv_reader sv) = Inr req'"
    "sv_live sv tenant (er_object_type req') = Inr scns"
  shows "(fst (evaluate_all sv tenant req now survives finish st) = Inr rs) =
    (mapM_r (scenario_task sv tenant req' now) scns = Inr rs)"
proof -
  have "fst (evaluate_all sv tenant req now survives finish st) =
      run_group (scenario_task sv tenant req' now) zero_result scns (finish (length scns))"
    using assms(2,3) by (simp add: evaluate_all_def lift_error_def run_scenarios_group run_group_def)
  then show ?thesis using errgroup.run_sequential [OF assms(1)] by simp
qed

text \<open>Decisions that were committed stay.\<close>

lemma evaluate_scenario_keeps:
  "set (st_decisions st) \<subseteq> set (st_decisions (snd (evaluate_scenario sv tenant sid req now st)))"
proof (cases "fst (evaluate_scenario sv tenant sid req now st)")
  case (Inl e)
  then show ?thesis using evaluate_scenario_Inl by (metis order_refl prod.collapse)
next
  case (Inr r)
  then have e: "evaluate_scenario sv tenant sid req now st = (Inr r, snd (evaluate_scenario sv tenant sid req now st))"
    by (metis prod.collapse)
  show ?thesis by (rule evaluate_scenario_Inr [OF e]) (use store_plan_ok in \<open>fastforce+\<close>)
qed

lemma run_scenarios_keeps:
  "set (st_decisions st) \<subseteq> set (st_decisions (snd (run_scenarios sv tenant req now scns survives is failed slots st)))"
proof (induction "is" arbitrary: failed slots st)
  case (Cons i "is")
  obtain r st' where e: "evaluate_scenario sv tenant (sn_id (scns ! i)) req now st = (r, st')" by fastforce
  have "set (st_decisions st) \<subseteq> set (st_decisions st')"
    using evaluate_scenario_keeps [of st sv tenant "sn_id (scns ! i)" req now] e by simp
  note sub = subset_trans [OF this Cons.IH]
  show ?case
  proof (cases "failed \<noteq> None \<and> \<not> survives i")
    case True
    then show ?thesis using Cons.IH by simp
  next
    case False
    then show ?thesis using sub e by (cases r) auto
  qed
qed simp

lemma run_scenarios_commits:
  assumes "\<And>i. i \<in> set is1 \<Longrightarrow> \<exists>r. scenario_task sv tenant req now (scns ! i) = Inr r"
    "k \<in> set is1" "scenario_task sv tenant req now (scns ! k) = Inr r" "rs_decision r = Some d"
  shows "d \<in> set (st_decisions (snd (run_scenarios sv tenant req now scns survives (is1 @ is2) None slots st)))"
  using assms
proof (induction is1 arbitrary: slots st)
  case (Cons i is1)
  obtain x where x: "scenario_task sv tenant req now (scns ! i) = Inr x" using Cons.prems(1) [of i] by auto
  obtain st' where e: "evaluate_scenario sv tenant (sn_id (scns ! i)) req now st = (Inr x, st')"
    using scenario_task [of sv tenant "scns ! i" req now st] x by (metis prod.collapse)
  have step: "snd (run_scenarios sv tenant req now scns survives ((i # is1) @ is2) None slots st) =
      snd (run_scenarios sv tenant req now scns survives (is1 @ is2) None (slots[i := x]) st')"
    using e by simp
  show ?case
  proof (cases "k = i")
    case True
    then have "rs_decision x = Some d" using x Cons.prems(3,4) by simp
    then have "d \<in> set (st_decisions st')" by (rule_tac evaluate_scenario_Inr [OF e]) (auto dest: store_plan_ok)
    then show ?thesis unfolding step using run_scenarios_keeps by blast
  next
    case False
    then show ?thesis unfolding step using Cons.IH Cons.prems by simp
  qed
qed simp


subsection \<open>Properties\<close>


lemma outcome_monotone:
  assumes "score \<le> score'"
  shows "severity (outcome_from_score score it) \<le> severity (outcome_from_score score' it)"
  using assms by (rule severity_mono)

text \<open>C20. In every reachable store each workflow, screening and scoring record and each
  event has exactly one job, each record exactly one event, and everything belongs to a stored
  decision: a failing statement or commit leaves nothing half done.\<close>

theorem store_consistent:
  assumes "store_step\<^sup>*\<^sup>* empty_store st"
  shows "store_ok st"
  using assms by (rule reachable_store_ok)



subsection \<open>A tenant with two live scenarios\<close>

definition demo_scenario :: "string \<Rightarrow> string option \<Rightarrow> scenario" where
  "demo_scenario s live = \<lparr>sn_id = s, sn_tenant = ''t'', sn_name = s, sn_description = [], sn_trigger_type = ''transactions'',
     sn_live = live, sn_created = 0, sn_updated = 0\<rparr>"

lemma demo_scenario_simps [simp]:
  "sn_id (demo_scenario s live) = s" "sn_trigger_type (demo_scenario s live) = ''transactions''" "sn_live (demo_scenario s live) = live"
  by (simp_all add: demo_scenario_def)

definition demo_iteration :: "string \<Rightarrow> int \<Rightarrow> int \<Rightarrow> iteration" where
  "demo_iteration i review decline = \<lparr>it_id = i, it_scenario = ''s1'', it_tenant = ''t'', it_version = 1, it_status = ''committed'',
     it_trigger = AstFormula (const_node (VBool True)), it_review = Some review, it_block = None, it_decline = Some decline, it_schedule = [],
     it_created = 0, it_committed = Some 0\<rparr>"

definition demo_score_rule :: "string \<Rightarrow> node \<Rightarrow> int \<Rightarrow> string option \<Rightarrow> rule" where
  "demo_score_rule i f points snooze = \<lparr>ru_id = i, ru_iteration = ''i1'', ru_tenant = ''t'', ru_order = 0, ru_name = i, ru_description = [],
     ru_formula = AstFormula f, ru_modifier = points, ru_group = [], ru_snooze_group = snooze, ru_stable = i, ru_created = 0, ru_updated = 0\<rparr>"

definition demo_services :: services where
  "demo_services = \<lparr>sv_model = (\<lambda>t. Inr demo_model), sv_reader = None, sv_runtime = (\<lambda>m. demo_runtime ''a1''),
     sv_scenario = (\<lambda>t s. Inr (demo_scenario s (if s = ''s2'' then None else Some ''i1''))),
     sv_live = (\<lambda>t ty. Inr [demo_scenario ''s1'' (Some ''i1''), demo_scenario ''s2'' (Some ''i1'')]),
     sv_iteration = (\<lambda>t s i. Inr (demo_iteration i 20 60)),
     sv_rules = (\<lambda>t s i. Inr [demo_score_rule ''r1'' large_amount 30 None,
        demo_score_rule ''r2'' (const_node (VBool True)) 100 (Some ''g1''),
        demo_score_rule ''r3'' (const_node (VBool True)) 40 None]),
     sv_snoozes = (\<lambda>t s ty i n. Inr [''g1'']), sv_workflow_rules = (\<lambda>t s. Inr demo_rules), sv_workflows = (\<lambda>t s. Inr []),
     sv_screenings = (\<lambda>t s. Inr []), sv_scorings = (\<lambda>t s. Inr [\<lparr>sf_id = ''f1'', sf_tenant = ''t'', sf_scenario = ''s1'', sf_name = ''f'', sf_allowed = [''decline''],
        sf_ruleset = ''base'', sf_config = None, sf_active = True, sf_created = 0, sf_updated = 0\<rparr>]),
     sv_clock = (\<lambda>s. 7), sv_gen = (\<lambda>s n. s @ ''-'' @ itoa (int n)), sv_finish = (\<lambda>n. rev [0..<n]), sv_works = (\<lambda>s. True)\<rparr>"

lemma demo_evaluated:
  "case evaluate_scenario demo_services ''t'' ''s1'' demo_request 5 empty_store of
     (Inr r, st') \<Rightarrow> rs_triggered r \<and> map dn_id (st_decisions st') = [''s1-0''] \<and> length (st_outbox st') = 4
   | _ \<Rightarrow> False"
  by code_simp


lemma demo_finish: "mset (sv_finish demo_services n) = mset [0..<n]"
  by (simp add: demo_services_def)

lemma demo_result:
  obtains r st' where "evaluate_scenario demo_services ''t'' ''s1'' demo_request 5 empty_store = (Inr r, st')"
    "rs_triggered r"
  using demo_evaluated by (auto split: prod.splits sum.splits)


lemma outcome_monotone_witness:
  "severity (outcome_from_score 20 (demo_iteration ''i'' 10 50)) \<le>
    severity (outcome_from_score 60 (demo_iteration ''i'' 10 50))"
  by (rule outcome_monotone) simp

lemma store_consistent_witness:
  "store_ok (snd (evaluate_scenario demo_services ''t'' ''s1'' demo_request 5 empty_store))"
  by (rule store_consistent) (rule r_into_rtranclp, rule store_step.evaluated, rule refl)

lemma demo_all_prepared:
  "prepare_request ''t'' demo_request (sv_model demo_services) (sv_reader demo_services) = Inr demo_prepared"
  using demo_prepares by (simp add: prepare_request_def demo_request_def demo_services_def)

definition demo_live :: "scenario list" where
  "demo_live = [demo_scenario ''s1'' (Some ''i1''),
     demo_scenario ''s2'' (Some ''i1'')]"

lemma demo_all_live: "sv_live demo_services ''t'' (er_object_type demo_prepared) = Inr demo_live"
  by (simp add: demo_services_def demo_prepared_def demo_live_def)

lemma demo_s1: "case fst (evaluate_scenario demo_services ''t'' ''s1'' demo_prepared 5 empty_store) of
    Inr r \<Rightarrow> map_option dn_id (rs_decision r) = Some ''s1-0'' | Inl _ \<Rightarrow> False"
  by code_simp

lemma demo_s2: "evaluate_scenario demo_services ''t'' ''s2'' demo_prepared 5 st = (Inl (OtherError ''scenario has no live iteration''), st)"
  by (simp add: evaluate_scenario_def scenario_plan_def prepare_request_def demo_prepared_def demo_services_def lift_error_def)



end
