(* ===== verification/Metadata_Cache.thy ===== *)
theory Metadata_Cache
  imports Decision_Build
begin

text \<open>
  The cache of scenario metadata (\<^verbatim>\<open>decisionEvaluationCache\<close> in \<^verbatim>\<open>service/decision_service.go\<close>): nine maps
  whose entries expire, the reads of the service through them with one load in flight per key, and the
  invalidations the authoring services call after a commit. The locale states what the reads rely on;
  every map of the cache is an instance. Times are nanoseconds; \<open>tick\<close>s, writes of other requests and the
  steps of a load interleave.
\<close>

record 'v timed =
  td_item :: 'v
  td_expires :: int

type_synonym 'v timed_map = "string \<Rightarrow> 'v timed option"

subsection \<open>One map\<close>

definition timed_get :: "'v timed_map \<Rightarrow> string \<Rightarrow> int \<Rightarrow> 'v option" where
  "timed_get m k now = (case m k of None \<Rightarrow> None | Some e \<Rightarrow> if td_expires e < now then None else Some (td_item e))"

definition timed_set :: "int \<Rightarrow> 'v timed_map \<Rightarrow> string \<Rightarrow> 'v \<Rightarrow> int \<Rightarrow> 'v timed_map" where
  "timed_set ttl m k v now = m(k \<mapsto> \<lparr>td_item = v, td_expires = now + ttl\<rparr>)"

definition timed_delete :: "'v timed_map \<Rightarrow> string \<Rightarrow> 'v timed_map" where
  "timed_delete m k = m(k := None)"

text \<open>The keys join the identifiers with zero bytes.\<close>

definition zero_byte :: char where
  "zero_byte = CHR 0x00"

definition scenario_key :: "string \<Rightarrow> string \<Rightarrow> string" where
  "scenario_key t s = t @ zero_byte # s"

definition live_key :: "string \<Rightarrow> string \<Rightarrow> string" where
  "live_key t ty = t @ zero_byte # ''live'' @ zero_byte # ty"

definition iteration_key :: "string \<Rightarrow> string \<Rightarrow> string \<Rightarrow> string" where
  "iteration_key t s i = t @ zero_byte # s @ zero_byte # i"

subsection \<open>The cache\<close>

record metadata_cache =
  mc_ttl :: int
  mc_scenarios :: "scenario timed_map"
  mc_live :: "(scenario list) timed_map"
  mc_iterations :: "iteration timed_map"
  mc_rules :: "(rule list) timed_map"
  mc_models :: "tenant_model timed_map"
  mc_workflow_rules :: "(wf_rule list) timed_map"
  mc_workflows :: "(wf_definition list) timed_map"
  mc_screenings :: "(screening_config list) timed_map"
  mc_scorings :: "(scoring_config list) timed_map"

definition cache_ttl :: int where
  "cache_ttl = 30 * 10 ^ 9"

definition new_metadata_cache :: "int \<Rightarrow> metadata_cache" where
  "new_metadata_cache ttl =
     \<lparr>mc_ttl = ttl, mc_scenarios = (\<lambda>_. None), mc_live = (\<lambda>_. None), mc_iterations = (\<lambda>_. None),
      mc_rules = (\<lambda>_. None), mc_models = (\<lambda>_. None), mc_workflow_rules = (\<lambda>_. None),
      mc_workflows = (\<lambda>_. None), mc_screenings = (\<lambda>_. None), mc_scorings = (\<lambda>_. None)\<rparr>"

definition cached_scenario :: "metadata_cache \<Rightarrow> string \<Rightarrow> string \<Rightarrow> int \<Rightarrow> scenario option" where
  "cached_scenario c t s now = timed_get (mc_scenarios c) (scenario_key t s) now"

definition store_scenario :: "metadata_cache \<Rightarrow> string \<Rightarrow> string \<Rightarrow> scenario \<Rightarrow> int \<Rightarrow> metadata_cache" where
  "store_scenario c t s v now = c\<lparr>mc_scenarios := timed_set (mc_ttl c) (mc_scenarios c) (scenario_key t s) v now\<rparr>"

definition invalidate_scenario :: "metadata_cache \<Rightarrow> string \<Rightarrow> string \<Rightarrow> metadata_cache" where
  "invalidate_scenario c t s = c\<lparr>mc_scenarios := timed_delete (mc_scenarios c) (scenario_key t s)\<rparr>"

definition cached_live_scenarios :: "metadata_cache \<Rightarrow> string \<Rightarrow> string \<Rightarrow> int \<Rightarrow> scenario list option" where
  "cached_live_scenarios c t ty now = timed_get (mc_live c) (live_key t ty) now"

definition store_live_scenarios :: "metadata_cache \<Rightarrow> string \<Rightarrow> string \<Rightarrow> scenario list \<Rightarrow> int \<Rightarrow> metadata_cache" where
  "store_live_scenarios c t ty v now = c\<lparr>mc_live := timed_set (mc_ttl c) (mc_live c) (live_key t ty) v now\<rparr>"

definition invalidate_live_scenarios :: "metadata_cache \<Rightarrow> string \<Rightarrow> string \<Rightarrow> metadata_cache" where
  "invalidate_live_scenarios c t ty = c\<lparr>mc_live := timed_delete (mc_live c) (live_key t ty)\<rparr>"

definition cached_iteration :: "metadata_cache \<Rightarrow> string \<Rightarrow> string \<Rightarrow> string \<Rightarrow> int \<Rightarrow> iteration option" where
  "cached_iteration c t s i now = timed_get (mc_iterations c) (iteration_key t s i) now"

definition store_iteration :: "metadata_cache \<Rightarrow> string \<Rightarrow> string \<Rightarrow> string \<Rightarrow> iteration \<Rightarrow> int \<Rightarrow> metadata_cache" where
  "store_iteration c t s i v now = c\<lparr>mc_iterations := timed_set (mc_ttl c) (mc_iterations c) (iteration_key t s i) v now\<rparr>"

definition invalidate_iteration :: "metadata_cache \<Rightarrow> string \<Rightarrow> string \<Rightarrow> string \<Rightarrow> metadata_cache" where
  "invalidate_iteration c t s i = c\<lparr>mc_iterations := timed_delete (mc_iterations c) (iteration_key t s i)\<rparr>"

definition cached_rules :: "metadata_cache \<Rightarrow> string \<Rightarrow> string \<Rightarrow> string \<Rightarrow> int \<Rightarrow> rule list option" where
  "cached_rules c t s i now = timed_get (mc_rules c) (iteration_key t s i) now"

definition store_rules :: "metadata_cache \<Rightarrow> string \<Rightarrow> string \<Rightarrow> string \<Rightarrow> rule list \<Rightarrow> int \<Rightarrow> metadata_cache" where
  "store_rules c t s i v now = c\<lparr>mc_rules := timed_set (mc_ttl c) (mc_rules c) (iteration_key t s i) v now\<rparr>"

definition invalidate_rules :: "metadata_cache \<Rightarrow> string \<Rightarrow> string \<Rightarrow> string \<Rightarrow> metadata_cache" where
  "invalidate_rules c t s i = c\<lparr>mc_rules := timed_delete (mc_rules c) (iteration_key t s i)\<rparr>"

definition cached_tenant_model :: "metadata_cache \<Rightarrow> string \<Rightarrow> int \<Rightarrow> tenant_model option" where
  "cached_tenant_model c t now = timed_get (mc_models c) t now"

definition store_tenant_model :: "metadata_cache \<Rightarrow> string \<Rightarrow> tenant_model \<Rightarrow> int \<Rightarrow> metadata_cache" where
  "store_tenant_model c t v now = c\<lparr>mc_models := timed_set (mc_ttl c) (mc_models c) t v now\<rparr>"

definition cached_workflow_rules :: "metadata_cache \<Rightarrow> string \<Rightarrow> string \<Rightarrow> int \<Rightarrow> wf_rule list option" where
  "cached_workflow_rules c t s now = timed_get (mc_workflow_rules c) (scenario_key t s) now"

definition store_workflow_rules :: "metadata_cache \<Rightarrow> string \<Rightarrow> string \<Rightarrow> wf_rule list \<Rightarrow> int \<Rightarrow> metadata_cache" where
  "store_workflow_rules c t s v now = c\<lparr>mc_workflow_rules := timed_set (mc_ttl c) (mc_workflow_rules c) (scenario_key t s) v now\<rparr>"

definition invalidate_workflow_rules :: "metadata_cache \<Rightarrow> string \<Rightarrow> string \<Rightarrow> metadata_cache" where
  "invalidate_workflow_rules c t s = c\<lparr>mc_workflow_rules := timed_delete (mc_workflow_rules c) (scenario_key t s)\<rparr>"

definition cached_active_workflows :: "metadata_cache \<Rightarrow> string \<Rightarrow> string \<Rightarrow> int \<Rightarrow> wf_definition list option" where
  "cached_active_workflows c t s now = timed_get (mc_workflows c) (scenario_key t s) now"

definition store_active_workflows :: "metadata_cache \<Rightarrow> string \<Rightarrow> string \<Rightarrow> wf_definition list \<Rightarrow> int \<Rightarrow> metadata_cache" where
  "store_active_workflows c t s v now = c\<lparr>mc_workflows := timed_set (mc_ttl c) (mc_workflows c) (scenario_key t s) v now\<rparr>"

definition invalidate_active_workflows :: "metadata_cache \<Rightarrow> string \<Rightarrow> string \<Rightarrow> metadata_cache" where
  "invalidate_active_workflows c t s = c\<lparr>mc_workflows := timed_delete (mc_workflows c) (scenario_key t s)\<rparr>"

definition cached_active_screenings :: "metadata_cache \<Rightarrow> string \<Rightarrow> string \<Rightarrow> int \<Rightarrow> screening_config list option" where
  "cached_active_screenings c t s now = timed_get (mc_screenings c) (scenario_key t s) now"

definition store_active_screenings :: "metadata_cache \<Rightarrow> string \<Rightarrow> string \<Rightarrow> screening_config list \<Rightarrow> int \<Rightarrow> metadata_cache" where
  "store_active_screenings c t s v now = c\<lparr>mc_screenings := timed_set (mc_ttl c) (mc_screenings c) (scenario_key t s) v now\<rparr>"

definition invalidate_active_screenings :: "metadata_cache \<Rightarrow> string \<Rightarrow> string \<Rightarrow> metadata_cache" where
  "invalidate_active_screenings c t s = c\<lparr>mc_screenings := timed_delete (mc_screenings c) (scenario_key t s)\<rparr>"

definition cached_active_scorings :: "metadata_cache \<Rightarrow> string \<Rightarrow> string \<Rightarrow> int \<Rightarrow> scoring_config list option" where
  "cached_active_scorings c t s now = timed_get (mc_scorings c) (scenario_key t s) now"

definition store_active_scorings :: "metadata_cache \<Rightarrow> string \<Rightarrow> string \<Rightarrow> scoring_config list \<Rightarrow> int \<Rightarrow> metadata_cache" where
  "store_active_scorings c t s v now = c\<lparr>mc_scorings := timed_set (mc_ttl c) (mc_scorings c) (scenario_key t s) v now\<rparr>"

definition invalidate_active_scorings :: "metadata_cache \<Rightarrow> string \<Rightarrow> string \<Rightarrow> metadata_cache" where
  "invalidate_active_scorings c t s = c\<lparr>mc_scorings := timed_delete (mc_scorings c) (scenario_key t s)\<rparr>"

subsection \<open>Reading through the cache\<close>

text \<open>A call that no other step interrupts: \<open>now\<close> is the time at its start, \<open>load_now\<close> the time its load
  begins. Without a cache, or without a group for the loads, the repository is asked directly.\<close>

definition read_through ::
    "(metadata_cache \<Rightarrow> int \<Rightarrow> 'v option) \<Rightarrow> (metadata_cache \<Rightarrow> 'v \<Rightarrow> int \<Rightarrow> metadata_cache) \<Rightarrow> 'v res \<Rightarrow> bool \<Rightarrow> int \<Rightarrow> int \<Rightarrow>
      metadata_cache option \<Rightarrow> 'v res \<times> metadata_cache option" where
  "read_through lookup put load grouped now load_now cache =
     (case Option.bind cache (\<lambda>c. lookup c now) of
        Some v \<Rightarrow> (Inr v, cache)
      | None \<Rightarrow>
          if \<not> grouped then
            (case load of Inl e \<Rightarrow> (Inl e, cache) | Inr v \<Rightarrow> (Inr v, map_option (\<lambda>c. put c v now) cache))
          else (case Option.bind cache (\<lambda>c. lookup c load_now) of
              Some v \<Rightarrow> (Inr v, cache)
            | None \<Rightarrow> (case load of Inl e \<Rightarrow> (Inl e, cache) | Inr v \<Rightarrow> (Inr v, map_option (\<lambda>c. put c v load_now) cache))))"

definition get_scenario :: "(string \<Rightarrow> string \<Rightarrow> scenario res) \<Rightarrow> bool \<Rightarrow> int \<Rightarrow> int \<Rightarrow> string \<Rightarrow> string \<Rightarrow> metadata_cache option \<Rightarrow> scenario res \<times> metadata_cache option" where
  "get_scenario repo grouped now load_now t s cache =
     read_through (\<lambda>c. cached_scenario c t s) (\<lambda>c. store_scenario c t s) (repo t s) grouped now load_now cache"

definition get_live_scenarios :: "(string \<Rightarrow> string \<Rightarrow> scenario list res) \<Rightarrow> bool \<Rightarrow> int \<Rightarrow> int \<Rightarrow> string \<Rightarrow> string \<Rightarrow> metadata_cache option \<Rightarrow> scenario list res \<times> metadata_cache option" where
  "get_live_scenarios repo grouped now load_now t ty cache =
     read_through (\<lambda>c. cached_live_scenarios c t ty) (\<lambda>c. store_live_scenarios c t ty) (repo t ty) grouped now load_now cache"

definition get_iteration :: "(string \<Rightarrow> string \<Rightarrow> string \<Rightarrow> iteration res) \<Rightarrow> bool \<Rightarrow> int \<Rightarrow> int \<Rightarrow> string \<Rightarrow> string \<Rightarrow> string \<Rightarrow> metadata_cache option \<Rightarrow> iteration res \<times> metadata_cache option" where
  "get_iteration repo grouped now load_now t s i cache =
     read_through (\<lambda>c. cached_iteration c t s i) (\<lambda>c. store_iteration c t s i) (repo t s i) grouped now load_now cache"

definition get_rules :: "(string \<Rightarrow> string \<Rightarrow> string \<Rightarrow> rule list res) \<Rightarrow> bool \<Rightarrow> int \<Rightarrow> int \<Rightarrow> string \<Rightarrow> string \<Rightarrow> string \<Rightarrow> metadata_cache option \<Rightarrow> rule list res \<times> metadata_cache option" where
  "get_rules repo grouped now load_now t s i cache =
     read_through (\<lambda>c. cached_rules c t s i) (\<lambda>c. store_rules c t s i) (repo t s i) grouped now load_now cache"

definition get_tenant_model :: "(string \<Rightarrow> tenant_model res) \<Rightarrow> bool \<Rightarrow> int \<Rightarrow> int \<Rightarrow> string \<Rightarrow> metadata_cache option \<Rightarrow> tenant_model res \<times> metadata_cache option" where
  "get_tenant_model repo grouped now load_now t cache =
     read_through (\<lambda>c. cached_tenant_model c t) (\<lambda>c. store_tenant_model c t) (repo t) grouped now load_now cache"

definition get_workflow_rules :: "(string \<Rightarrow> string \<Rightarrow> wf_rule list res) \<Rightarrow> bool \<Rightarrow> int \<Rightarrow> int \<Rightarrow> string \<Rightarrow> string \<Rightarrow> metadata_cache option \<Rightarrow> wf_rule list res \<times> metadata_cache option" where
  "get_workflow_rules repo grouped now load_now t s cache =
     read_through (\<lambda>c. cached_workflow_rules c t s) (\<lambda>c. store_workflow_rules c t s) (repo t s) grouped now load_now cache"

definition get_active_workflows :: "(string \<Rightarrow> string \<Rightarrow> wf_definition list res) \<Rightarrow> bool \<Rightarrow> int \<Rightarrow> int \<Rightarrow> string \<Rightarrow> string \<Rightarrow> metadata_cache option \<Rightarrow> wf_definition list res \<times> metadata_cache option" where
  "get_active_workflows repo grouped now load_now t s cache =
     read_through (\<lambda>c. cached_active_workflows c t s) (\<lambda>c. store_active_workflows c t s) (repo t s) grouped now load_now cache"

definition get_active_screenings :: "(string \<Rightarrow> string \<Rightarrow> screening_config list res) \<Rightarrow> bool \<Rightarrow> int \<Rightarrow> int \<Rightarrow> string \<Rightarrow> string \<Rightarrow> metadata_cache option \<Rightarrow> screening_config list res \<times> metadata_cache option" where
  "get_active_screenings repo grouped now load_now t s cache =
     read_through (\<lambda>c. cached_active_screenings c t s) (\<lambda>c. store_active_screenings c t s) (repo t s) grouped now load_now cache"

definition get_active_scorings :: "(string \<Rightarrow> string \<Rightarrow> scoring_config list res) \<Rightarrow> bool \<Rightarrow> int \<Rightarrow> int \<Rightarrow> string \<Rightarrow> string \<Rightarrow> metadata_cache option \<Rightarrow> scoring_config list res \<times> metadata_cache option" where
  "get_active_scorings repo grouped now load_now t s cache =
     read_through (\<lambda>c. cached_active_scorings c t s) (\<lambda>c. store_active_scorings c t s) (repo t s) grouped now load_now cache"

subsection \<open>Steps of concurrent requests\<close>

text \<open>What concerns one key: the time, what the repository holds, everything it held at some time (kept for
  the statements only), the cache and the load in flight, if any, with the time it began and the value
  it has read. One load is in flight at most (\<^verbatim>\<open>singleflight\<close>).\<close>

record 'v cache_system =
  cs_now :: int
  cs_repo :: 'v
  cs_held :: "(int \<times> 'v) set"
  cs_cache :: metadata_cache
  cs_flight :: "(int \<times> 'v option) option"

inductive cache_step ::
    "(metadata_cache \<Rightarrow> int \<Rightarrow> 'v option) \<Rightarrow> (metadata_cache \<Rightarrow> 'v \<Rightarrow> int \<Rightarrow> metadata_cache) \<Rightarrow> (metadata_cache \<Rightarrow> metadata_cache) \<Rightarrow>
      'v cache_system \<Rightarrow> 'v cache_system \<Rightarrow> bool"
  for lookup put delete where
  tick: "cs_now S \<le> t \<Longrightarrow> cache_step lookup put delete S (S\<lparr>cs_now := t, cs_held := insert (t, cs_repo S) (cs_held S)\<rparr>)"
| repo_write: "cache_step lookup put delete S (S\<lparr>cs_repo := v, cs_held := insert (cs_now S, v) (cs_held S)\<rparr>)"
| invalidate: "cache_step lookup put delete S (S\<lparr>cs_cache := delete (cs_cache S)\<rparr>)"
| elsewhere: "lookup c = lookup (cs_cache S) \<Longrightarrow> mc_ttl c = mc_ttl (cs_cache S) \<Longrightarrow> cache_step lookup put delete S (S\<lparr>cs_cache := c\<rparr>)"
| load_begin: "cs_flight S = None \<Longrightarrow> lookup (cs_cache S) (cs_now S) = None \<Longrightarrow>
     cache_step lookup put delete S (S\<lparr>cs_flight := Some (cs_now S, None)\<rparr>)"
| load_read: "cs_flight S = Some (l, None) \<Longrightarrow> cache_step lookup put delete S (S\<lparr>cs_flight := Some (l, Some (cs_repo S))\<rparr>)"
| load_store: "cs_flight S = Some (l, Some v) \<Longrightarrow>
     cache_step lookup put delete S (S\<lparr>cs_cache := put (cs_cache S) v l, cs_flight := None\<rparr>)"
| load_fail: "cs_flight S = Some (l, w) \<Longrightarrow> cache_step lookup put delete S (S\<lparr>cs_flight := None\<rparr>)"

text \<open>Nothing cached for the key and no load in flight: a new cache, or one right after an invalidation
  that no load was in flight at. From there on what was held is recorded.\<close>

definition quiet :: "(metadata_cache \<Rightarrow> int \<Rightarrow> 'v option) \<Rightarrow> 'v cache_system \<Rightarrow> bool" where
  "quiet lookup S = (cs_flight S = None \<and> (\<forall>t. lookup (cs_cache S) t = None) \<and> cs_held S = {(cs_now S, cs_repo S)})"

text \<open>The value was held at some time between the two.\<close>

definition held_within :: "'v cache_system \<Rightarrow> int \<Rightarrow> int \<Rightarrow> 'v \<Rightarrow> bool" where
  "held_within S a b v = (\<exists>u. a \<le> u \<and> u \<le> b \<and> (u, v) \<in> cs_held S)"

lemma held_mono: "held_within S a b v \<Longrightarrow> cs_held S \<subseteq> cs_held S' \<Longrightarrow> a' \<le> a \<Longrightarrow> b \<le> b' \<Longrightarrow> held_within S' a' b' v"
  unfolding held_within_def by (meson order_trans subsetD)

lemma cache_step_mono: "cache_step lookup put delete S S' \<Longrightarrow> cs_held S \<subseteq> cs_held S' \<and> cs_now S \<le> cs_now S'"
  by (auto elim!: cache_step.cases)

subsection \<open>The contract of a map\<close>

locale expiring_map =
  fixes lookup :: "metadata_cache \<Rightarrow> string \<Rightarrow> int \<Rightarrow> 'v option"
    and put :: "metadata_cache \<Rightarrow> string \<Rightarrow> 'v \<Rightarrow> int \<Rightarrow> metadata_cache"
    and delete :: "metadata_cache \<Rightarrow> string \<Rightarrow> metadata_cache"
  assumes lookup_put: "lookup (put c k v t) k' now = (if k' = k then (if t + mc_ttl c < now then None else Some v) else lookup c k' now)"
    and lookup_delete: "lookup (delete c k) k' now = (if k' = k then None else lookup c k' now)"
    and put_ttl: "mc_ttl (put c k v t) = mc_ttl c"
    and delete_ttl: "mc_ttl (delete c k) = mc_ttl c"
    and lookup_earlier: "lookup c k now = Some v \<Longrightarrow> t \<le> now \<Longrightarrow> lookup c k t = Some v"
begin

lemma put_kept: "t \<le> now \<Longrightarrow> now \<le> t + mc_ttl c \<Longrightarrow> lookup (put c k v t) k now = Some v"
  by (simp add: lookup_put)

lemma put_expires: "t + mc_ttl c < now \<Longrightarrow> lookup (put c k v t) k now = None"
  by (simp add: lookup_put)

text \<open>A read gives the cached value while it has not expired and the repository's answer otherwise.\<close>

lemma read_through_value:
  "fst (read_through (\<lambda>c. lookup c k) (\<lambda>c. put c k) load grouped now load_now (Some c)) =
     (case lookup c k now of Some v \<Rightarrow> Inr v
      | None \<Rightarrow> (case lookup c k load_now of Some v \<Rightarrow> if grouped then Inr v else load | None \<Rightarrow> load))"
  by (simp add: read_through_def split: option.splits sum.splits)

text \<open>What was loaded is served to the next reader until it expires.\<close>

lemma read_through_again:
  assumes "read_through (\<lambda>c. lookup c k) (\<lambda>c. put c k) load True now load_now (Some c) = (Inr v, Some c')"
    "now \<le> load_now" "lookup c k now = None" "load_now \<le> later" "later \<le> load_now + mc_ttl c"
  shows "read_through (\<lambda>c. lookup c k) (\<lambda>c. put c k) load2 True later later2 (Some c') = (Inr v, Some c')"
proof -
  have "lookup c k load_now = None" using lookup_earlier [of c k load_now _ now] assms(2,3) by (cases "lookup c k load_now") auto
  then have "c' = put c k v load_now" using assms(1,3) by (auto simp: read_through_def split: sum.splits)
  then show ?thesis using assms(4,5) by (simp add: read_through_def lookup_put)
qed

text \<open>Along every run: what is cached was held within the time to live before its expiry, what a load has
  read was held since it began.\<close>

definition fresh :: "string \<Rightarrow> 'v cache_system \<Rightarrow> bool" where
  "fresh k S = ((cs_now S, cs_repo S) \<in> cs_held S \<and> (\<forall>l w. cs_flight S = Some (l, w) \<longrightarrow> l \<le> cs_now S) \<and>
     (\<forall>l v. cs_flight S = Some (l, Some v) \<longrightarrow> held_within S l (cs_now S) v) \<and>
     (\<forall>t v. lookup (cs_cache S) k t = Some v \<longrightarrow> held_within S (t - mc_ttl (cs_cache S)) (cs_now S) v))"

lemma fresh_step:
  assumes "cache_step (\<lambda>c. lookup c k) (\<lambda>c. put c k) (\<lambda>c. delete c k) S S'" "fresh k S"
  shows "fresh k S'"
proof -
  have sooner: "held_within S' a (cs_now S') v" if "held_within S b (cs_now S) v" "a \<le> b" for a b v
    using held_mono [OF that(1) _ that(2)] cache_step_mono [OF assms(1)] by blast
  note kept = sooner [OF _ order_refl]
  have held: "held_within S l (cs_now S) (cs_repo S)" if "l \<le> cs_now S" for l
    using that assms(2) by (auto simp: fresh_def held_within_def)
  show ?thesis using assms(1)
  proof (cases rule: cache_step.cases)
    case (load_read l)
    then show ?thesis using assms(2) kept [OF held, of l] kept by (auto simp: fresh_def)
  next
    case (load_store l v)
    then have "held_within S l (cs_now S) v" using assms(2) by (auto simp: fresh_def)
    then show ?thesis using load_store assms(2) kept sooner [of l v] by (auto simp: fresh_def lookup_put put_ttl split: if_splits)
  qed (use assms(2) kept in \<open>auto simp: fresh_def lookup_put put_ttl lookup_delete delete_ttl dest: fun_cong split: if_splits\<close>)
qed

lemma fresh_run:
  assumes "(cache_step (\<lambda>c. lookup c k) (\<lambda>c. put c k) (\<lambda>c. delete c k))\<^sup>*\<^sup>* S S'" "quiet (\<lambda>c. lookup c k) S"
  shows "fresh k S'"
  using assms
proof (induction rule: rtranclp_induct)
  case base
  then show ?case by (auto simp: quiet_def fresh_def)
qed (blast intro: fresh_step)

lemma served_fresh:
  assumes "(cache_step (\<lambda>c. lookup c k) (\<lambda>c. put c k) (\<lambda>c. delete c k))\<^sup>*\<^sup>* S S'" "quiet (\<lambda>c. lookup c k) S"
    "lookup (cs_cache S') k (cs_now S') = Some v"
  shows "held_within S' (cs_now S' - mc_ttl (cs_cache S')) (cs_now S') v"
  using fresh_run [OF assms(1,2)] assms(3) by (simp add: fresh_def)

text \<open>An invalidation between the reading and the storing of a load is lost.\<close>

lemma invalidation_overtaken:
  assumes "cs_flight S = Some (l, Some old)" "cs_now S \<le> l + mc_ttl (cs_cache S)"
  shows "\<exists>S'. (cache_step (\<lambda>c. lookup c k) (\<lambda>c. put c k) (\<lambda>c. delete c k))\<^sup>*\<^sup>*
      (S\<lparr>cs_repo := new, cs_held := insert (cs_now S, new) (cs_held S), cs_cache := delete (cs_cache S) k\<rparr>) S' \<and>
      cs_repo S' = new \<and> lookup (cs_cache S') k (cs_now S') = Some old"
proof -
  define T where "T = S\<lparr>cs_repo := new, cs_held := insert (cs_now S, new) (cs_held S), cs_cache := delete (cs_cache S) k\<rparr>"
  have "cache_step (\<lambda>c. lookup c k) (\<lambda>c. put c k) (\<lambda>c. delete c k) T (T\<lparr>cs_cache := put (cs_cache T) k old l, cs_flight := None\<rparr>)"
    by (rule cache_step.load_store) (simp add: T_def assms(1))
  then show ?thesis using assms(2) unfolding T_def [symmetric]
    by (intro exI [of _ "T\<lparr>cs_cache := put (cs_cache T) k old l, cs_flight := None\<rparr>"] conjI r_into_rtranclp)
      (auto simp: T_def lookup_put delete_ttl)
qed

end

interpretation scenario_map: expiring_map "\<lambda>c k now. timed_get (mc_scenarios c) k now" "\<lambda>c k v now. c\<lparr>mc_scenarios := timed_set (mc_ttl c) (mc_scenarios c) k v now\<rparr>"
    "\<lambda>c k. c\<lparr>mc_scenarios := timed_delete (mc_scenarios c) k\<rparr>"
  by unfold_locales (auto simp: timed_get_def timed_set_def timed_delete_def split: option.splits if_splits)

interpretation live_scenarios_map: expiring_map "\<lambda>c k now. timed_get (mc_live c) k now" "\<lambda>c k v now. c\<lparr>mc_live := timed_set (mc_ttl c) (mc_live c) k v now\<rparr>"
    "\<lambda>c k. c\<lparr>mc_live := timed_delete (mc_live c) k\<rparr>"
  by unfold_locales (auto simp: timed_get_def timed_set_def timed_delete_def split: option.splits if_splits)

interpretation iteration_map: expiring_map "\<lambda>c k now. timed_get (mc_iterations c) k now" "\<lambda>c k v now. c\<lparr>mc_iterations := timed_set (mc_ttl c) (mc_iterations c) k v now\<rparr>"
    "\<lambda>c k. c\<lparr>mc_iterations := timed_delete (mc_iterations c) k\<rparr>"
  by unfold_locales (auto simp: timed_get_def timed_set_def timed_delete_def split: option.splits if_splits)

interpretation rules_map: expiring_map "\<lambda>c k now. timed_get (mc_rules c) k now" "\<lambda>c k v now. c\<lparr>mc_rules := timed_set (mc_ttl c) (mc_rules c) k v now\<rparr>"
    "\<lambda>c k. c\<lparr>mc_rules := timed_delete (mc_rules c) k\<rparr>"
  by unfold_locales (auto simp: timed_get_def timed_set_def timed_delete_def split: option.splits if_splits)

interpretation tenant_model_map: expiring_map "\<lambda>c k now. timed_get (mc_models c) k now" "\<lambda>c k v now. c\<lparr>mc_models := timed_set (mc_ttl c) (mc_models c) k v now\<rparr>"
    "\<lambda>c k. c\<lparr>mc_models := timed_delete (mc_models c) k\<rparr>"
  by unfold_locales (auto simp: timed_get_def timed_set_def timed_delete_def split: option.splits if_splits)

interpretation workflow_rules_map: expiring_map "\<lambda>c k now. timed_get (mc_workflow_rules c) k now" "\<lambda>c k v now. c\<lparr>mc_workflow_rules := timed_set (mc_ttl c) (mc_workflow_rules c) k v now\<rparr>"
    "\<lambda>c k. c\<lparr>mc_workflow_rules := timed_delete (mc_workflow_rules c) k\<rparr>"
  by unfold_locales (auto simp: timed_get_def timed_set_def timed_delete_def split: option.splits if_splits)

interpretation active_workflows_map: expiring_map "\<lambda>c k now. timed_get (mc_workflows c) k now" "\<lambda>c k v now. c\<lparr>mc_workflows := timed_set (mc_ttl c) (mc_workflows c) k v now\<rparr>"
    "\<lambda>c k. c\<lparr>mc_workflows := timed_delete (mc_workflows c) k\<rparr>"
  by unfold_locales (auto simp: timed_get_def timed_set_def timed_delete_def split: option.splits if_splits)

interpretation active_screenings_map: expiring_map "\<lambda>c k now. timed_get (mc_screenings c) k now" "\<lambda>c k v now. c\<lparr>mc_screenings := timed_set (mc_ttl c) (mc_screenings c) k v now\<rparr>"
    "\<lambda>c k. c\<lparr>mc_screenings := timed_delete (mc_screenings c) k\<rparr>"
  by unfold_locales (auto simp: timed_get_def timed_set_def timed_delete_def split: option.splits if_splits)

interpretation active_scorings_map: expiring_map "\<lambda>c k now. timed_get (mc_scorings c) k now" "\<lambda>c k v now. c\<lparr>mc_scorings := timed_set (mc_ttl c) (mc_scorings c) k v now\<rparr>"
    "\<lambda>c k. c\<lparr>mc_scorings := timed_delete (mc_scorings c) k\<rparr>"
  by unfold_locales (auto simp: timed_get_def timed_set_def timed_delete_def split: option.splits if_splits)

subsection \<open>Keys\<close>

lemma split_at_zero: "zero_byte \<notin> set a \<Longrightarrow> zero_byte \<notin> set a' \<Longrightarrow> a @ zero_byte # b = a' @ zero_byte # b' \<Longrightarrow> a = a' \<and> b = b'"
  by (auto simp: append_eq_append_conv2 append_eq_Cons_conv Cons_eq_append_conv)

lemma scenario_key_inj: "zero_byte \<notin> set t \<Longrightarrow> zero_byte \<notin> set t' \<Longrightarrow> scenario_key t s = scenario_key t' s' \<Longrightarrow> t = t' \<and> s = s'"
  unfolding scenario_key_def by (rule split_at_zero)

lemma iteration_key_inj:
  assumes "zero_byte \<notin> set t" "zero_byte \<notin> set t'" "zero_byte \<notin> set s" "zero_byte \<notin> set s'" "iteration_key t s i = iteration_key t' s' i'"
  shows "t = t' \<and> s = s' \<and> i = i'"
  using split_at_zero [OF assms(1,2) assms(5) [unfolded iteration_key_def]] split_at_zero [OF assms(3,4), of i i'] by simp

subsection \<open>Properties\<close>

lemma scenario_served:
  assumes "(cache_step (\<lambda>c. cached_scenario c t s) (\<lambda>c. store_scenario c t s) (\<lambda>c. invalidate_scenario c t s))\<^sup>*\<^sup>* S S'"
    "quiet (\<lambda>c. cached_scenario c t s) S" "0 \<le> mc_ttl (cs_cache S')"
    "fst (get_scenario (\<lambda>_ _. Inr (cs_repo S')) grouped (cs_now S') (cs_now S') t s (Some (cs_cache S'))) = Inr v"
  shows "held_within S' (cs_now S' - mc_ttl (cs_cache S')) (cs_now S') v"
proof (cases "cached_scenario (cs_cache S') t s (cs_now S')")
  case None
  then have "v = cs_repo S'" using assms(4) by (simp add: get_scenario_def read_through_def split: if_splits)
  then show ?thesis
    using assms(3) scenario_map.fresh_run [OF assms(1,2) [unfolded cached_scenario_def store_scenario_def invalidate_scenario_def]]
    by (auto simp: scenario_map.fresh_def held_within_def intro!: exI [of _ "cs_now S'"])
next
  case (Some w)
  then have "w = v" using assms(4) by (simp add: get_scenario_def read_through_def)
  then show ?thesis
    using scenario_map.served_fresh [OF assms(1,2) [unfolded cached_scenario_def store_scenario_def invalidate_scenario_def]]
      Some by (simp add: cached_scenario_def)
qed

text \<open>C23. Whatever the caches of scenarios did before, in any order of loads, stores and
  invalidations, a scenario the decision service reads through its cache is one the repository
  held at some moment of the last time to live.\<close>

theorem metadata_fresh:
  assumes "(cache_step (\<lambda>c. cached_scenario c t s) (\<lambda>c. store_scenario c t s) (\<lambda>c. invalidate_scenario c t s))\<^sup>*\<^sup>* S S'"
    "quiet (\<lambda>c. cached_scenario c t s) S" "0 \<le> mc_ttl (cs_cache S')"
    "fst (get_scenario (\<lambda>_ _. Inr (cs_repo S')) grouped (cs_now S') (cs_now S') t s (Some (cs_cache S'))) = Inr v"
  shows "held_within S' (cs_now S' - mc_ttl (cs_cache S')) (cs_now S') v"
  using assms by (rule scenario_served)

lemma invalidation_lost:
  assumes "cs_flight S = Some (l, Some old)" "cs_now S \<le> l + mc_ttl (cs_cache S)"
  shows "\<exists>S'. (cache_step (\<lambda>c. cached_scenario c t s) (\<lambda>c. store_scenario c t s) (\<lambda>c. invalidate_scenario c t s))\<^sup>*\<^sup>*
      (S\<lparr>cs_repo := new, cs_held := insert (cs_now S, new) (cs_held S), cs_cache := invalidate_scenario (cs_cache S) t s\<rparr>) S' \<and>
      cs_repo S' = new \<and> cached_scenario (cs_cache S') t s (cs_now S') = Some old"
  unfolding cached_scenario_def store_scenario_def invalidate_scenario_def
  by (rule scenario_map.invalidation_overtaken [OF assms])

definition demo_published :: "string \<Rightarrow> scenario" where
  "demo_published i = \<lparr>sn_id = ''s1'', sn_tenant = ''t'', sn_name = ''s'', sn_description = [], sn_trigger_type = ''transactions'',
     sn_live = Some i, sn_created = 0, sn_updated = 0\<rparr>"

definition demo_system :: "int \<Rightarrow> string \<Rightarrow> (int \<times> scenario) set \<Rightarrow> metadata_cache \<Rightarrow> (int \<times> scenario option) option \<Rightarrow> scenario cache_system" where
  "demo_system now i held c flight = \<lparr>cs_now = now, cs_repo = demo_published i, cs_held = held, cs_cache = c, cs_flight = flight\<rparr>"

definition demo_cached :: metadata_cache where
  "demo_cached = store_scenario (new_metadata_cache cache_ttl) ''t'' ''s1'' (demo_published ''i1'') 0"

abbreviation "demo_step \<equiv> cache_step (\<lambda>c. cached_scenario c ''t'' ''s1'') (\<lambda>c. store_scenario c ''t'' ''s1'') (\<lambda>c. invalidate_scenario c ''t'' ''s1'')"

text \<open>A scenario is loaded at time 0, another iteration goes live, and a call at time 5 is served the old one.\<close>

lemma demo_cache_run:
  "demo_step\<^sup>*\<^sup>* (demo_system 0 ''i1'' {(0, demo_published ''i1'')} (new_metadata_cache cache_ttl) None)
    (demo_system 5 ''i2'' {(5, demo_published ''i2''), (0, demo_published ''i2''), (0, demo_published ''i1'')} demo_cached None)"
proof -
  let ?H = "{(0, demo_published ''i1'')}" and ?n = "new_metadata_cache cache_ttl"
  have "demo_step (demo_system 0 ''i1'' ?H ?n None) (demo_system 0 ''i1'' ?H ?n (Some (0, None)))"
    using cache_step.load_begin [of "demo_system 0 ''i1'' ?H ?n None" "\<lambda>c. cached_scenario c ''t'' ''s1''"]
    by (simp add: demo_system_def cached_scenario_def timed_get_def new_metadata_cache_def)
  moreover have "demo_step \<dots> (demo_system 0 ''i1'' ?H ?n (Some (0, Some (demo_published ''i1''))))"
    using cache_step.load_read [of "demo_system 0 ''i1'' ?H ?n (Some (0, None))" 0 "\<lambda>c. cached_scenario c ''t'' ''s1''"] by (simp add: demo_system_def)
  moreover have "demo_step \<dots> (demo_system 0 ''i1'' ?H demo_cached None)"
    using cache_step.load_store [of "demo_system 0 ''i1'' ?H ?n (Some (0, Some (demo_published ''i1'')))" 0 "demo_published ''i1''"
        "\<lambda>c. cached_scenario c ''t'' ''s1''" "\<lambda>c. store_scenario c ''t'' ''s1''"]
    by (simp add: demo_system_def demo_cached_def)
  moreover have "demo_step \<dots> (demo_system 0 ''i2'' (insert (0, demo_published ''i2'') ?H) demo_cached None)"
    using cache_step.repo_write [of "\<lambda>c. cached_scenario c ''t'' ''s1''" _ _ "demo_system 0 ''i1'' ?H demo_cached None" "demo_published ''i2''"]
    by (simp add: demo_system_def)
  moreover have "demo_step \<dots> (demo_system 5 ''i2'' (insert (5, demo_published ''i2'') (insert (0, demo_published ''i2'') ?H)) demo_cached None)"
    using cache_step.tick [of "demo_system 0 ''i2'' (insert (0, demo_published ''i2'') ?H) demo_cached None" 5 "\<lambda>c. cached_scenario c ''t'' ''s1''"]
    by (simp add: demo_system_def)
  ultimately show ?thesis by (meson converse_rtranclp_into_rtranclp rtranclp.rtrancl_refl)
qed

lemma metadata_fresh_witness:
  "held_within (demo_system 5 ''i2'' {(5, demo_published ''i2''), (0, demo_published ''i2''), (0, demo_published ''i1'')} demo_cached None)
     (5 - cache_ttl) 5 (demo_published ''i1'')"
  using metadata_fresh [OF demo_cache_run, of True "demo_published ''i1''"]
  by (simp add: quiet_def demo_system_def demo_cached_def cached_scenario_def store_scenario_def timed_get_def timed_set_def
      new_metadata_cache_def get_scenario_def read_through_def cache_ttl_def)

lemma invalidation_lost_witness:
  "\<exists>S' :: scenario cache_system. cs_repo S' = demo_published ''i2'' \<and> cached_scenario (cs_cache S') ''t'' ''s1'' (cs_now S') = Some (demo_published ''i1'')"
proof -
  let ?S = "demo_system 1 ''i1'' {} (new_metadata_cache cache_ttl) (Some (0, Some (demo_published ''i1'')))"
  have f: "cs_flight ?S = Some (0, Some (demo_published ''i1''))" by (simp add: demo_system_def)
  have "cs_now ?S \<le> 0 + mc_ttl (cs_cache ?S)" by (simp add: demo_system_def new_metadata_cache_def cache_ttl_def)
  from invalidation_lost [OF f this, of "''t''" "''s1''" "demo_published ''i2''"]
  show ?thesis by blast
qed

end
