(* ===== verification/State_Steps.thy ===== *)
theory State_Steps
  imports Prelude
begin

text \<open>
  Handlers that change a state and may fail. A failing statement keeps what was written before it; a
  transaction takes it back. \<open>works\<close> tells which statements the database executes.
\<close>

type_synonym ('w, 'e, 'a) step = "'w \<Rightarrow> ('e + 'a) \<times> 'w"

definition then_do :: "('w, 'e, 'a) step \<Rightarrow> ('a \<Rightarrow> ('w, 'e, 'b) step) \<Rightarrow> ('w, 'e, 'b) step" where
  "then_do m k w = (case m w of (Inl e, w') \<Rightarrow> (Inl e, w') | (Inr x, w') \<Rightarrow> k x w')"

definition finish_with :: "'a \<Rightarrow> ('w, 'e, 'a) step" where
  "finish_with x w = (Inr x, w)"

definition failing :: "'e \<Rightarrow> ('w, 'e, 'a) step" where
  "failing e w = (Inl e, w)"

definition attempt :: "(string \<Rightarrow> bool) \<Rightarrow> string \<Rightarrow> ('w \<Rightarrow> 'w) \<Rightarrow> ('w, string, unit) step" where
  "attempt works name f w = (if works name then (Inr (), f w) else (Inl name, w))"

definition transaction :: "(string \<Rightarrow> bool) \<Rightarrow> ('w, string, 'a) step \<Rightarrow> ('w, string, 'a) step" where
  "transaction works body w =
     (case body w of (Inl e, _) \<Rightarrow> (Inl e, w) | (Inr x, w') \<Rightarrow> if works ''commit'' then (Inr x, w') else (Inl ''commit'', w))"

named_theorems step_simps

lemma finish_with_simps [step_simps]: "finish_with x w = (Inr x, w)"
  by (simp add: finish_with_def)

lemma failing_simps [step_simps]: "failing e w = (Inl e, w)"
  by (simp add: failing_def)

lemma then_do_Inr [step_simps]: "(then_do m k w = (Inr y, w'')) = (\<exists>x w'. m w = (Inr x, w') \<and> k x w' = (Inr y, w''))"
  by (auto simp: then_do_def split: prod.splits sum.splits)

lemma then_do_Inl [step_simps]:
  "(then_do m k w = (Inl e, w'')) = (m w = (Inl e, w'') \<or> (\<exists>x w'. m w = (Inr x, w') \<and> k x w' = (Inl e, w'')))"
  by (auto simp: then_do_def split: prod.splits sum.splits)

lemma attempt_Inr [step_simps]: "(attempt works name f w = (Inr u, w')) = (works name \<and> w' = f w)"
  by (auto simp: attempt_def)

lemma attempt_Inl [step_simps]: "(attempt works name f w = (Inl e, w')) = (\<not> works name \<and> e = name \<and> w' = w)"
  by (auto simp: attempt_def)

lemma transaction_Inr [step_simps]: "(transaction works body w = (Inr x, w')) = (body w = (Inr x, w') \<and> works ''commit'')"
  by (auto simp: transaction_def split: prod.splits sum.splits)

lemma transaction_Inl: "transaction works body w = (Inl e, w') \<Longrightarrow> w' = w"
  by (auto simp: transaction_def split: prod.splits sum.splits if_splits)

text \<open>What every statement keeps, the handler keeps; what only the whole body of a transaction restores,
  the transaction keeps.\<close>

definition keeps :: "('w \<Rightarrow> bool) \<Rightarrow> ('w, 'e, 'a) step \<Rightarrow> bool" where
  "keeps I m = (\<forall>w. I w \<longrightarrow> I (snd (m w)))"

lemma keepsI: "(\<And>w r w'. I w \<Longrightarrow> m w = (r, w') \<Longrightarrow> I w') \<Longrightarrow> keeps I m"
  by (simp add: keeps_def) (metis prod.collapse)

lemma keepsD: "keeps I m \<Longrightarrow> I w \<Longrightarrow> m w = (r, w') \<Longrightarrow> I w'"
  by (auto simp: keeps_def)

lemma keeps_then_do:
  assumes "keeps I m" "\<And>x. keeps I (k x)"
  shows "keeps I (then_do m k)"
proof (rule keepsI)
  fix w r w'
  assume w: "I w" "then_do m k w = (r, w')"
  obtain r1 w1 where m: "m w = (r1, w1)" by (cases "m w")
  have "I w1" by (rule keepsD [OF assms(1) w(1) m])
  then show "I w'" using w(2) m keepsD [OF assms(2)] by (cases r1) (auto simp: then_do_def)
qed

lemma keeps_finish: "keeps I (finish_with x)"
  by (simp add: keeps_def finish_with_def)

lemma keeps_failing: "keeps I (failing e)"
  by (simp add: keeps_def failing_def)

lemma keeps_attempt: "(\<And>w. I w \<Longrightarrow> I (f w)) \<Longrightarrow> keeps I (attempt works name f)"
  by (simp add: keeps_def attempt_def)

lemma keeps_transaction: "keeps I body \<Longrightarrow> keeps I (transaction works body)"
  by (auto simp: keeps_def transaction_def split: prod.splits sum.splits)

lemma transaction_keeps: "(\<And>w x w'. I w \<Longrightarrow> body w = (Inr x, w') \<Longrightarrow> I w') \<Longrightarrow> keeps I (transaction works body)"
  by (fastforce simp: keeps_def transaction_def split: prod.splits sum.splits)

lemmas keeps_intros = keeps_then_do keeps_finish keeps_failing keeps_attempt

end
