(* ===== verification/Execution_Model.thy ===== *)
theory Execution_Model
  imports Decision_Service State_Steps Recurring_Schedule
begin

text \<open>
  Scheduled and asynchronous executions: their rows (\<^verbatim>\<open>domain/execution/model.go\<close>), the statements on them
  (\<^verbatim>\<open>store/postgres/scheduled_execution_repository.go\<close>, \<^verbatim>\<open>async_decision_execution_repository.go\<close>), the jobs
  and lifecycle events. A request body is given as what decoding it yields. A table is the list of its
  rows; the decisions the executions produce are in the store of the decision service.
\<close>

subsection \<open>Rows\<close>

record schedule_request =
  sr_items :: "eval_request list"
  sr_limit :: int
  sr_key :: string

record async_request =
  ar_scenario :: string
  ar_object_type :: string
  ar_key :: string
  ar_wait :: int
  ar_callback :: string
  ar_items :: "eval_request list"

datatype result_body = NullResult | SingleResult eval_result | MultiResult "eval_result list" | FailureEvidence prep_error

record scheduled_execution =
  xs_id :: string
  xs_tenant :: string
  xs_scenario :: string
  xs_iteration :: string
  xs_source :: string
  xs_status :: string
  xs_key :: string
  xs_attempts :: int
  xs_max :: int
  xs_for :: int
  xs_next :: "int option"
  xs_request :: "schedule_request res"
  xs_error :: string
  xs_created :: int
  xs_failed :: "int option"

record async_execution =
  xa_id :: string
  xa_tenant :: string
  xa_scenario :: string
  xa_object_type :: string
  xa_status :: string
  xa_key :: string
  xa_attempts :: int
  xa_max :: int
  xa_next :: "int option"
  xa_request :: "async_request res"
  xa_error :: string
  xa_result :: "result_body option"
  xa_callback :: string
  xa_callback_status :: string
  xa_callback_attempts :: int
  xa_callback_error :: string
  xa_callback_sent :: "int option"
  xa_created :: int
  xa_completed :: "int option"
  xa_failed :: "int option"

datatype job =
    ScheduledJob (job_id: string) (job_at: "int option")
  | AsyncJob (job_id: string) (job_at: "int option")
  | CallbackJob (job_tenant: string) (job_id: string)
  | OutboxJob (job_tenant: string) (job_id: string)

record lifecycle_event =
  le_id :: string
  le_tenant :: string
  le_aggregate_type :: string
  le_aggregate :: string
  le_type :: string
  le_payload :: field_map
  le_validation :: "prep_error option"
  le_status :: string
  le_created :: int

text \<open>The jobs of River that are not finished, and those it still keeps as completed.\<close>

record exec_world =
  ew_store :: store
  ew_scheduled :: "scheduled_execution list"
  ew_async :: "async_execution list"
  ew_jobs :: "job list"
  ew_finished :: "job list"
  ew_events :: "lifecycle_event list"
  ew_drawn :: nat
  ew_evals :: nat

definition empty_world :: exec_world where
  "empty_world = \<lparr>ew_store = empty_store, ew_scheduled = [], ew_async = [], ew_jobs = [], ew_finished = [], ew_events = [], ew_drawn = 0, ew_evals = 0\<rparr>"

text \<open>What surrounds a call: the repositories and evaluator that the n-th evaluation meets, the records of the
  tenant, the live iterations with a schedule, the statements that work, clock and identifiers, the retry
  policy, whether a transaction manager is configured, the answer of a callback endpoint (a transport error
  or a status), what parsing a URL gives (scheme and host) and decoding the text of a schedule, the zones, and
  whether River adds a job that is inserted, given the jobs it has not finished and those it has.\<close>

record exec_env =
  xe_services :: "nat \<Rightarrow> services"
  xe_records :: "string \<Rightarrow> string \<Rightarrow> int \<Rightarrow> stored_record list res"
  xe_works :: "string \<Rightarrow> bool"
  xe_clock :: "string \<Rightarrow> int"
  xe_gen :: "nat \<Rightarrow> string"
  xe_scheduled_max :: int
  xe_scheduled_backoff :: int
  xe_async_max :: int
  xe_async_backoff :: int
  xe_tx :: bool
  xe_post :: "string \<Rightarrow> async_execution \<Rightarrow> int res"
  xe_parse_url :: "string \<Rightarrow> (string \<times> string) res"
  xe_live_scheduled :: "int \<Rightarrow> iteration list res"
  xe_decode :: "string \<Rightarrow> schedule_config res"
  xe_zones :: zones
  xe_inserts :: "job \<Rightarrow> job list \<Rightarrow> job list \<Rightarrow> bool"

type_synonym 'a exec_step = "(exec_world, string, 'a) step"

definition no_rows :: string where
  "no_rows = ''no rows in result set''"

subsection \<open>Statements on scheduled executions\<close>

definition find_scheduled :: "string \<Rightarrow> exec_world \<Rightarrow> scheduled_execution option" where
  "find_scheduled i w = find (\<lambda>x. xs_id x = i) (ew_scheduled w)"

definition update_scheduled :: "string \<Rightarrow> (scheduled_execution \<Rightarrow> scheduled_execution) \<Rightarrow> exec_world \<Rightarrow> exec_world" where
  "update_scheduled i f w = w\<lparr>ew_scheduled := map (\<lambda>x. if xs_id x = i then f x else x) (ew_scheduled w)\<rparr>"

text \<open>The unique indexes: the tenant's idempotency key, and time and scenario of a recurring execution.\<close>

definition same_scheduled :: "scheduled_execution \<Rightarrow> scheduled_execution \<Rightarrow> bool" where
  "same_scheduled x y =
     (xs_tenant x = xs_tenant y \<and>
      ((xs_key x \<noteq> [] \<and> xs_key x = xs_key y) \<or>
       (xs_source x = ''recurring'' \<and> xs_source y = ''recurring'' \<and> xs_scenario x = xs_scenario y \<and> xs_for x = xs_for y)))"

definition create_scheduled :: "(string \<Rightarrow> bool) \<Rightarrow> scheduled_execution \<Rightarrow> scheduled_execution exec_step" where
  "create_scheduled works item w =
     (if \<not> works ''scheduled insert'' then (Inl ''scheduled insert'', w)
      else case find (same_scheduled item) (ew_scheduled w) of
          Some x \<Rightarrow> (Inr x, w)
        | None \<Rightarrow> if find_scheduled (xs_id item) w = None then (Inr item, w\<lparr>ew_scheduled := ew_scheduled w @ [item]\<rparr>)
            else (Inl no_rows, w))"

definition get_scheduled :: "(string \<Rightarrow> bool) \<Rightarrow> string \<Rightarrow> string \<Rightarrow> string \<Rightarrow> scheduled_execution exec_step" where
  "get_scheduled works tenant scenario_id i w =
     (if \<not> works ''scheduled get'' then (Inl ''scheduled get'', w)
      else case find (\<lambda>x. xs_tenant x = tenant \<and> xs_scenario x = scenario_id \<and> xs_id x = i) (ew_scheduled w) of
          None \<Rightarrow> (Inl no_rows, w) | Some x \<Rightarrow> (Inr x, w))"

text \<open>\<^verbatim>\<open>order by scheduled_for desc, created_at desc\<close>\<close>

definition list_by_scenario :: "(string \<Rightarrow> bool) \<Rightarrow> string \<Rightarrow> string \<Rightarrow> scheduled_execution list exec_step" where
  "list_by_scenario works tenant scenario_id w =
     (if \<not> works ''scheduled list'' then (Inl ''scheduled list'', w)
      else (Inr (sort_key (\<lambda>x. - xs_for x) (sort_key (\<lambda>x. - xs_created x)
        (filter (\<lambda>x. xs_tenant x = tenant \<and> xs_scenario x = scenario_id) (ew_scheduled w)))), w))"

definition start_scheduled :: "(string \<Rightarrow> bool) \<Rightarrow> string \<Rightarrow> scheduled_execution exec_step" where
  "start_scheduled works i w =
     (if \<not> works ''scheduled start'' then (Inl ''scheduled start'', w)
      else case find_scheduled i w of
          None \<Rightarrow> (Inl no_rows, w)
        | Some x \<Rightarrow>
            if xs_status x \<noteq> ''pending'' then (Inl no_rows, w)
            else (let x' = x\<lparr>xs_status := ''running'', xs_attempts := xs_attempts x + 1, xs_next := None\<rparr>
                  in (Inr x', update_scheduled i (\<lambda>_. x') w)))"

definition set_scheduled_status :: "exec_env \<Rightarrow> string \<Rightarrow> string \<Rightarrow> unit exec_step" where
  "set_scheduled_status env i status =
     attempt (xe_works env) ''scheduled status'' (update_scheduled i (\<lambda>x. x\<lparr>xs_status := status, xs_next := None,
       xs_failed := (if status = ''failed'' then Some (xe_clock env ''database'') else xs_failed x)\<rparr>))"

definition record_scheduled_failure :: "(string \<Rightarrow> bool) \<Rightarrow> string \<Rightarrow> string \<Rightarrow> int option \<Rightarrow> string \<Rightarrow> int option \<Rightarrow> unit exec_step" where
  "record_scheduled_failure works i status next_at err failed_at =
     attempt works ''scheduled failure''
       (update_scheduled i (\<lambda>x. x\<lparr>xs_status := status, xs_next := next_at, xs_error := err, xs_failed := failed_at\<rparr>))"

definition reset_scheduled :: "(string \<Rightarrow> bool) \<Rightarrow> string \<Rightarrow> string \<Rightarrow> unit exec_step" where
  "reset_scheduled works i status =
     attempt works ''scheduled reset''
       (update_scheduled i (\<lambda>x. x\<lparr>xs_status := status, xs_attempts := 0, xs_next := None, xs_error := [], xs_failed := None\<rparr>))"

subsection \<open>Statements on asynchronous executions\<close>

definition find_async :: "string \<Rightarrow> exec_world \<Rightarrow> async_execution option" where
  "find_async i w = find (\<lambda>x. xa_id x = i) (ew_async w)"

definition update_async :: "string \<Rightarrow> (async_execution \<Rightarrow> async_execution) \<Rightarrow> exec_world \<Rightarrow> exec_world" where
  "update_async i f w = w\<lparr>ew_async := map (\<lambda>x. if xa_id x = i then f x else x) (ew_async w)\<rparr>"

definition same_async :: "async_execution \<Rightarrow> async_execution \<Rightarrow> bool" where
  "same_async x y = (xa_tenant x = xa_tenant y \<and> xa_key x \<noteq> [] \<and> xa_key x = xa_key y)"

definition create_async :: "(string \<Rightarrow> bool) \<Rightarrow> async_execution \<Rightarrow> async_execution exec_step" where
  "create_async works item w =
     (if \<not> works ''async insert'' then (Inl ''async insert'', w)
      else case find (same_async item) (ew_async w) of
          Some x \<Rightarrow> (Inr x, w)
        | None \<Rightarrow> if find_async (xa_id item) w = None then (Inr item, w\<lparr>ew_async := ew_async w @ [item]\<rparr>)
            else (Inl no_rows, w))"

definition get_async :: "(string \<Rightarrow> bool) \<Rightarrow> string \<Rightarrow> string \<Rightarrow> async_execution exec_step" where
  "get_async works tenant i w =
     (if \<not> works ''async get'' then (Inl ''async get'', w)
      else case find (\<lambda>x. xa_tenant x = tenant \<and> xa_id x = i) (ew_async w) of None \<Rightarrow> (Inl no_rows, w) | Some x \<Rightarrow> (Inr x, w))"

definition start_async :: "(string \<Rightarrow> bool) \<Rightarrow> string \<Rightarrow> async_execution exec_step" where
  "start_async works i w =
     (if \<not> works ''async start'' then (Inl ''async start'', w)
      else case find_async i w of
          None \<Rightarrow> (Inl no_rows, w)
        | Some x \<Rightarrow>
            if xa_status x \<noteq> ''queued'' then (Inl no_rows, w)
            else (let x' = x\<lparr>xa_status := ''running'', xa_attempts := xa_attempts x + 1, xa_next := None\<rparr>
                  in (Inr x', update_async i (\<lambda>_. x') w)))"

definition mark_completed :: "(string \<Rightarrow> bool) \<Rightarrow> string \<Rightarrow> result_body \<Rightarrow> int \<Rightarrow> string \<Rightarrow> unit exec_step" where
  "mark_completed works i body completed_at callback_status =
     attempt works ''async completed''
       (update_async i (\<lambda>x. x\<lparr>xa_status := ''completed'', xa_next := None, xa_error := [], xa_result := Some body,
          xa_completed := Some completed_at, xa_failed := None, xa_callback_status := callback_status\<rparr>))"

definition record_async_failure :: "(string \<Rightarrow> bool) \<Rightarrow> string \<Rightarrow> string \<Rightarrow> int option \<Rightarrow> string \<Rightarrow> int option \<Rightarrow> unit exec_step" where
  "record_async_failure works i status next_at err failed_at =
     attempt works ''async failure''
       (update_async i (\<lambda>x. x\<lparr>xa_status := status, xa_next := next_at, xa_error := err, xa_failed := failed_at, xa_completed := None\<rparr>))"

definition update_callback :: "(string \<Rightarrow> bool) \<Rightarrow> string \<Rightarrow> string \<Rightarrow> int \<Rightarrow> string \<Rightarrow> int option \<Rightarrow> unit exec_step" where
  "update_callback works i status attempts err sent_at =
     attempt works ''async callback''
       (update_async i (\<lambda>x. x\<lparr>xa_callback_status := status, xa_callback_attempts := attempts, xa_callback_error := err,
          xa_callback_sent := sent_at\<rparr>))"

definition reset_async :: "(string \<Rightarrow> bool) \<Rightarrow> string \<Rightarrow> string \<Rightarrow> unit exec_step" where
  "reset_async works i status =
     attempt works ''async reset''
       (update_async i (\<lambda>x. x\<lparr>xa_status := status, xa_attempts := 0, xa_next := None, xa_error := [], xa_result := None,
          xa_completed := None, xa_failed := None, xa_callback_status := [], xa_callback_attempts := 0, xa_callback_error := [],
          xa_callback_sent := None\<rparr>))"

definition mark_validation_failed :: "(string \<Rightarrow> bool) \<Rightarrow> string \<Rightarrow> string \<Rightarrow> result_body \<Rightarrow> string \<Rightarrow> int \<Rightarrow> string \<Rightarrow> unit exec_step" where
  "mark_validation_failed works tenant i body summary failed_at callback_status w =
     (if \<not> works ''async validation failed'' then (Inl ''async validation failed'', w)
      else case find_async i w of
          Some x \<Rightarrow>
            if xa_tenant x = tenant \<and> xa_status x = ''running'' then
              (Inr (), update_async i (\<lambda>x. x\<lparr>xa_status := ''failed'', xa_result := Some body, xa_error := summary,
                 xa_failed := Some failed_at, xa_completed := None, xa_next := None, xa_callback_status := callback_status\<rparr>) w)
            else (Inl ''async validation failure state conflict'', w)
        | None \<Rightarrow> (Inl ''async validation failure state conflict'', w))"

definition requeue_validation :: "(string \<Rightarrow> bool) \<Rightarrow> string \<Rightarrow> string \<Rightarrow> unit exec_step" where
  "requeue_validation works tenant i =
     attempt works ''async requeue''
       (update_async i (\<lambda>x. if xa_tenant x = tenant \<and> xa_status x = ''running'' \<and> xa_result x = None
          then x\<lparr>xa_status := ''queued'', xa_next := None\<rparr> else x))"

subsection \<open>Jobs and events\<close>

text \<open>An insertion that River does not carry out is no error.\<close>

definition enqueue :: "exec_env \<Rightarrow> job \<Rightarrow> unit exec_step" where
  "enqueue env j = attempt (xe_works env) ''enqueue''
     (\<lambda>w. if xe_inserts env j (ew_jobs w) (ew_finished w) then w\<lparr>ew_jobs := ew_jobs w @ [j]\<rparr> else w)"

text \<open>What River documents for the option \<^verbatim>\<open>ByArgs\<close> with which every job is inserted: it adds no job when one of the
  same kind and arguments is available, scheduled, running, retryable or completed.\<close>

fun same_args :: "job \<Rightarrow> job \<Rightarrow> bool" where
  "same_args (ScheduledJob i _) (ScheduledJob k _) = (i = k)"
| "same_args (AsyncJob i _) (AsyncJob k _) = (i = k)"
| "same_args (CallbackJob t i) (CallbackJob u k) = (t = u \<and> i = k)"
| "same_args (OutboxJob t i) (OutboxJob u k) = (t = u \<and> i = k)"
| "same_args _ _ = False"

definition unique_by_args :: "exec_env \<Rightarrow> bool" where
  "unique_by_args env = (\<forall>j live finished. xe_inserts env j live finished = (\<forall>k \<in> set live \<union> set finished. \<not> same_args j k))"

text \<open>\<^verbatim>\<open>writeExecutionLifecycleEvents\<close>\<close>

definition write_event :: "exec_env \<Rightarrow> string \<Rightarrow> string \<Rightarrow> string \<Rightarrow> string \<Rightarrow> field_map \<Rightarrow> prep_error option \<Rightarrow> unit exec_step" where
  "write_event env tenant aggregate i event payload validation w =
     then_do (attempt (xe_works env) ''outbox insert'' (\<lambda>w. w\<lparr>ew_events := ew_events w @
          [\<lparr>le_id = xe_gen env (ew_drawn w), le_tenant = tenant, le_aggregate_type = aggregate, le_aggregate = i, le_type = event,
            le_payload = payload, le_validation = validation, le_status = ''pending'', le_created = xe_clock env ''event''\<rparr>], ew_drawn := Suc (ew_drawn w)\<rparr>))
       (\<lambda>_. enqueue env (OutboxJob tenant (xe_gen env (ew_drawn w)))) w"

end
