(* ===== verification/Execution_Service.thy ===== *)
theory Execution_Service
  imports Execution_Model
begin

text \<open>
  The execution service (\<^verbatim>\<open>service/execution_service.go\<close>, \<^verbatim>\<open>service/async_validation.go\<close>): creating, running and
  retrying scheduled and asynchronous executions, the retry policy and the callbacks. Timing logs and the
  wait for an early result are not modelled.
\<close>

subsection \<open>Retry policy\<close>

definition at_least_one :: "int \<Rightarrow> int" where
  "at_least_one n = (if 1 > n then 1 else n)"

definition retry_delay :: "int \<Rightarrow> int \<Rightarrow> int" where
  "retry_delay base attempts =
     (let base = (if base \<le> 0 then 30 * 10 ^ 9 else base) in
      if attempts \<le> 1 then base
      else f64_to_int (f64_mul (f64_of_int base) (FRat (2 ^ nat (min (attempts - 1) 10)))))"

definition run_at :: "int \<Rightarrow> int \<Rightarrow> int option" where
  "run_at now scheduled_for = (if scheduled_for > now then Some scheduled_for else None)"

definition candidate_limit :: "int \<Rightarrow> int" where
  "candidate_limit n = (if n \<le> 0 then 100 else if n > 500 then 500 else n)"

fun error_text :: "prep_error \<Rightarrow> string" where
  "error_text (PayloadError category revision issues truncated) = category @ '': evaluation object does not satisfy the data model''"
| "error_text ContractError = ''tenant model field contract is invalid''"
| "error_text (OtherError e) = e"

fun is_validation :: "prep_error \<Rightarrow> bool" where
  "is_validation (PayloadError category revision issues truncated) = True"
| "is_validation _ = False"

subsection \<open>Evaluating the objects of an execution\<close>

text \<open>\<^verbatim>\<open>EvaluateScenario\<close> in the world: the store of the decision service changes, and time goes on.\<close>

definition evaluate_one :: "exec_env \<Rightarrow> string \<Rightarrow> string \<Rightarrow> eval_request \<Rightarrow> (exec_world, prep_error, eval_result) step" where
  "evaluate_one env tenant scenario_id req w =
     (let sv = xe_services env (ew_evals w);
          (r, st) = evaluate_scenario sv tenant scenario_id req (sv_clock sv ''evaluation'') (ew_store w)
      in (r, w\<lparr>ew_store := st, ew_evals := Suc (ew_evals w)\<rparr>))"

definition evaluate_every :: "exec_env \<Rightarrow> string \<Rightarrow> eval_request \<Rightarrow> (exec_world, prep_error, eval_result list) step" where
  "evaluate_every env tenant req w =
     (let sv = xe_services env (ew_evals w);
          (r, st) = evaluate_all sv tenant req (sv_clock sv ''evaluation'') (\<lambda>_. False) (sv_finish sv) (ew_store w)
      in (r, w\<lparr>ew_store := st, ew_evals := Suc (ew_evals w)\<rparr>))"

fun evaluate_items :: "exec_env \<Rightarrow> string \<Rightarrow> string \<Rightarrow> eval_request list \<Rightarrow> (exec_world, prep_error, unit) step" where
  "evaluate_items env tenant scenario_id [] = finish_with ()"
| "evaluate_items env tenant scenario_id (r # rs) =
     then_do (evaluate_one env tenant scenario_id r) (\<lambda>_. evaluate_items env tenant scenario_id rs)"

definition lift_res :: "'a res \<Rightarrow> (exec_world, prep_error, 'a) step" where
  "lift_res r w = (lift_error r, w)"

text \<open>The items of a request, or the tenant's records of the scenario's trigger type.\<close>

definition stored_request :: "stored_record \<Rightarrow> eval_request" where
  "stored_request r = \<lparr>er_object_id = sr_object_id r, er_object_type = sr_object_type r, er_fields = sr_fields r,
     er_stored_source = True, er_prepared = None\<rparr>"

definition scheduled_items :: "exec_env \<Rightarrow> scheduled_execution \<Rightarrow> schedule_request \<Rightarrow> nat \<Rightarrow> eval_request list res" where
  "scheduled_items env item req n =
     (if sr_items req \<noteq> [] then Inr (sr_items req)
      else bind_r (sv_scenario (xe_services env n) (xs_tenant item) (xs_scenario item)) (\<lambda>scn.
           bind_r (xe_records env (xs_tenant item) (sn_trigger_type scn) (candidate_limit (sr_limit req))) (\<lambda>records.
           Inr (map stored_request records))))"

definition run_scheduled_items :: "exec_env \<Rightarrow> scheduled_execution \<Rightarrow> (exec_world, prep_error, unit) step" where
  "run_scheduled_items env item w =
     then_do (lift_res (bind_r (xs_request item) (\<lambda>req. scheduled_items env item req (ew_evals w))))
       (\<lambda>items. evaluate_items env (xs_tenant item) (xs_scenario item) items) w"

fun run_async_items :: "exec_env \<Rightarrow> string \<Rightarrow> string \<Rightarrow> eval_request list \<Rightarrow> result_body \<Rightarrow> (exec_world, prep_error, result_body) step" where
  "run_async_items env tenant scenario_id [] result = finish_with result"
| "run_async_items env tenant scenario_id (r # rs) result =
     (if scenario_id \<noteq> [] then
        then_do (evaluate_one env tenant scenario_id r) (\<lambda>x. run_async_items env tenant scenario_id rs (SingleResult x))
      else then_do (evaluate_every env tenant r) (\<lambda>xs. run_async_items env tenant scenario_id rs (MultiResult xs)))"

definition run_async_request :: "exec_env \<Rightarrow> async_execution \<Rightarrow> (exec_world, prep_error, result_body) step" where
  "run_async_request env item =
     then_do (lift_res (xa_request item)) (\<lambda>req. run_async_items env (xa_tenant item) (ar_scenario req) (ar_items req) NullResult)"

subsection \<open>Scheduled executions\<close>

definition scheduled_payload :: "scheduled_execution \<Rightarrow> string \<Rightarrow> field_map" where
  "scheduled_payload item status =
     [(''status'', VStr status), (''scenario_id'', VStr (xs_scenario item)), (''attempt_count'', VInt (xs_attempts item))]"

definition scheduled_event :: "exec_env \<Rightarrow> scheduled_execution \<Rightarrow> string \<Rightarrow> field_map \<Rightarrow> prep_error option \<Rightarrow> unit exec_step" where
  "scheduled_event env item event payload validation =
     write_event env (xs_tenant item) ''scheduled_execution'' (xs_id item) (''scheduled_execution.'' @ event) payload validation"

definition validation_of :: "prep_error \<Rightarrow> prep_error option" where
  "validation_of e = (if is_validation e then Some e else None)"

definition new_scheduled :: "exec_env \<Rightarrow> string \<Rightarrow> scenario \<Rightarrow> string \<Rightarrow> int \<Rightarrow> schedule_request \<Rightarrow> nat \<Rightarrow> scheduled_execution" where
  "new_scheduled env tenant scn live scheduled_for req n =
     \<lparr>xs_id = xe_gen env n, xs_tenant = tenant, xs_scenario = sn_id scn, xs_iteration = live, xs_source = ''manual'',
      xs_status = ''pending'', xs_key = sr_key req, xs_attempts = 0, xs_max = at_least_one (xe_scheduled_max env),
      xs_for = scheduled_for, xs_next = None, xs_request = Inr req, xs_error = [], xs_created = xe_clock env ''create'', xs_failed = None\<rparr>"

definition insert_scheduled :: "exec_env \<Rightarrow> scheduled_execution \<Rightarrow> scheduled_execution exec_step" where
  "insert_scheduled env item =
     transaction (xe_works env) (then_do (create_scheduled (xe_works env) item) (\<lambda>created.
       then_do (enqueue env (ScheduledJob (xs_id created) (run_at (xe_clock env ''create'') (xs_for created)))) (\<lambda>_.
       then_do (scheduled_event env created ''queued''
          (scheduled_payload created (xs_status created) @ [(''max_attempts'', VInt (xs_max created)), (''scheduled_for'', VTime (xs_for created)),
            (''idempotency_key'', VStr (xs_key created))]) None) (\<lambda>_.
       finish_with created))))"

definition create_scheduled_execution :: "exec_env \<Rightarrow> string \<Rightarrow> string \<Rightarrow> int \<Rightarrow> schedule_request \<Rightarrow> scheduled_execution exec_step" where
  "create_scheduled_execution env tenant scenario_id scheduled_for req w =
     (case sv_scenario (xe_services env (ew_evals w)) tenant scenario_id of
        Inl e \<Rightarrow> (Inl e, w)
      | Inr scn \<Rightarrow> (case sn_live scn of
            None \<Rightarrow> (Inl ''scenario has no live iteration'', w)
          | Some live \<Rightarrow>
              insert_scheduled env (new_scheduled env tenant (scn\<lparr>sn_id := scenario_id\<rparr>) live scheduled_for req (ew_drawn w))
                (w\<lparr>ew_drawn := Suc (ew_drawn w)\<rparr>)))"

definition retry_scheduled :: "exec_env \<Rightarrow> string \<Rightarrow> string \<Rightarrow> string \<Rightarrow> scheduled_execution exec_step" where
  "retry_scheduled env tenant scenario_id i =
     then_do (get_scheduled (xe_works env) tenant scenario_id i) (\<lambda>item.
       if xs_status item \<noteq> ''failed'' then failing ''scheduled execution must be in failed status to retry''
       else then_do (transaction (xe_works env)
                (then_do (reset_scheduled (xe_works env) i ''pending'') (\<lambda>_.
                 enqueue env (ScheduledJob i (run_at (xe_clock env ''retry'') (xs_for item))))))
              (\<lambda>_. get_scheduled (xe_works env) tenant scenario_id i))"

definition scheduled_failure_payload :: "scheduled_execution \<Rightarrow> string \<Rightarrow> prep_error \<Rightarrow> field_map" where
  "scheduled_failure_payload item status e =
     scheduled_payload item status @ [(''max_attempts'', VInt (xs_max item)), (''last_error'', VStr (error_text e))]"

definition handle_scheduled_failure :: "exec_env \<Rightarrow> scheduled_execution \<Rightarrow> prep_error \<Rightarrow> unit exec_step" where
  "handle_scheduled_failure env item e =
     (let now = xe_clock env ''failure'' in
      if is_validation e \<or> xs_attempts item \<ge> at_least_one (xs_max item) then
        then_do (record_scheduled_failure (xe_works env) (xs_id item) ''failed'' None (error_text e) (Some now)) (\<lambda>_.
          scheduled_event env item ''failed'' (scheduled_failure_payload item ''failed'' e @ [(''failed_at'', VTime now)]) (validation_of e))
      else
        (let next_at = now + retry_delay (xe_scheduled_backoff env) (xs_attempts item);
             body = then_do (record_scheduled_failure (xe_works env) (xs_id item) ''pending'' (Some next_at) (error_text e) None) (\<lambda>_.
               then_do (enqueue env (ScheduledJob (xs_id item) (Some next_at))) (\<lambda>_.
               scheduled_event env item ''retry_scheduled'' (scheduled_failure_payload item ''pending'' e @ [(''next_attempt_at'', VTime next_at)]) None))
         in if xe_tx env then transaction (xe_works env) body else body))"

definition complete_scheduled :: "exec_env \<Rightarrow> scheduled_execution \<Rightarrow> unit exec_step" where
  "complete_scheduled env item =
     then_do (set_scheduled_status env (xs_id item) ''completed'')
       (\<lambda>_. scheduled_event env item ''completed'' (scheduled_payload item ''completed'') None)"

definition run_scheduled :: "exec_env \<Rightarrow> string \<Rightarrow> unit exec_step" where
  "run_scheduled env i =
     then_do (start_scheduled (xe_works env) i) (\<lambda>item w.
       case run_scheduled_items env item w of
         (Inl e, w') \<Rightarrow> handle_scheduled_failure env item e w'
       | (Inr _, w') \<Rightarrow> complete_scheduled env item w')"

subsection \<open>Recurring executions\<close>

definition decode_schedule :: "zones \<Rightarrow> (string \<Rightarrow> schedule_config res) \<Rightarrow> string \<Rightarrow> schedule_config res" where
  "decode_schedule zones decode raw =
     (let raw = trim_space raw in if raw = [] then Inr empty_schedule
      else case decode raw of Inl e \<Rightarrow> Inl (''decode recurring schedule: '' @ e) | Inr cfg \<Rightarrow> normalize_schedule zones cfg)"

definition item_of :: "scheduled_execution \<Rightarrow> scheduled_item" where
  "item_of x = \<lparr>si_source = xs_source x, si_status = xs_status x, si_scheduled_for = xs_for x\<rparr>"

definition new_recurring :: "exec_env \<Rightarrow> iteration \<Rightarrow> schedule_config \<Rightarrow> int \<Rightarrow> int \<Rightarrow> nat \<Rightarrow> scheduled_execution" where
  "new_recurring env it cfg now scheduled_for n =
     \<lparr>xs_id = xe_gen env n, xs_tenant = it_tenant it, xs_scenario = it_scenario it, xs_iteration = it_id it, xs_source = ''recurring'',
      xs_status = ''pending'', xs_key = [], xs_attempts = 0, xs_max = 0, xs_for = scheduled_for, xs_next = None,
      xs_request = Inr \<lparr>sr_items = [], sr_limit = sc_candidate_limit cfg, sr_key = []\<rparr>, xs_error = [], xs_created = now, xs_failed = None\<rparr>"

definition materialize_one :: "exec_env \<Rightarrow> iteration \<Rightarrow> schedule_config \<Rightarrow> int \<Rightarrow> int \<Rightarrow> unit exec_step" where
  "materialize_one env it cfg now scheduled_for w =
     transaction (xe_works env)
       (then_do (create_scheduled (xe_works env) (new_recurring env it cfg now scheduled_for (ew_drawn w))) (\<lambda>created.
        enqueue env (ScheduledJob (xs_id created) (run_at now (xs_for created)))))
       (w\<lparr>ew_drawn := Suc (ew_drawn w)\<rparr>)"

fun materialize_times :: "exec_env \<Rightarrow> iteration \<Rightarrow> schedule_config \<Rightarrow> int \<Rightarrow> int list \<Rightarrow> unit exec_step" where
  "materialize_times env it cfg now [] = finish_with ()"
| "materialize_times env it cfg now (t # ts) =
     then_do (materialize_one env it cfg now t) (\<lambda>_. materialize_times env it cfg now ts)"

definition materialize_iteration :: "exec_env \<Rightarrow> int \<Rightarrow> int \<Rightarrow> iteration \<Rightarrow> unit exec_step" where
  "materialize_iteration env limit now it =
     (case decode_schedule (xe_zones env) (xe_decode env) (it_schedule it) of
        Inl e \<Rightarrow> failing e
      | Inr cfg \<Rightarrow>
          if \<not> sc_enabled cfg then finish_with ()
          else then_do (list_by_scenario (xe_works env) (it_tenant it) (it_scenario it)) (\<lambda>existing.
            case due_times (xe_zones env) now cfg (map item_of existing) limit of
              Inl e \<Rightarrow> failing e
            | Inr due \<Rightarrow> materialize_times env it cfg now due))"

fun materialize_iterations :: "exec_env \<Rightarrow> int \<Rightarrow> int \<Rightarrow> iteration list \<Rightarrow> unit exec_step" where
  "materialize_iterations env limit now [] = finish_with ()"
| "materialize_iterations env limit now (it # its) =
     then_do (materialize_iteration env limit now it) (\<lambda>_. materialize_iterations env limit now its)"

definition materialize_schedules :: "exec_env \<Rightarrow> int \<Rightarrow> unit exec_step" where
  "materialize_schedules env limit =
     (case xe_live_scheduled env limit of
        Inl e \<Rightarrow> failing e
      | Inr its \<Rightarrow> materialize_iterations env limit (xe_clock env ''materialize'') its)"

subsection \<open>Asynchronous executions\<close>

definition async_payload :: "async_execution \<Rightarrow> string \<Rightarrow> field_map" where
  "async_payload item status =
     [(''status'', VStr status), (''scenario_id'', VStr (xa_scenario item)), (''object_type'', VStr (xa_object_type item)),
      (''attempt_count'', VInt (xa_attempts item))]"

definition async_event :: "exec_env \<Rightarrow> async_execution \<Rightarrow> string \<Rightarrow> field_map \<Rightarrow> prep_error option \<Rightarrow> unit exec_step" where
  "async_event env item event payload validation =
     write_event env (xa_tenant item) ''async_decision_execution'' (xa_id item) (''async_decision_execution.'' @ event) payload validation"

definition new_async :: "exec_env \<Rightarrow> string \<Rightarrow> async_request \<Rightarrow> nat \<Rightarrow> async_execution" where
  "new_async env tenant req n =
     \<lparr>xa_id = xe_gen env n, xa_tenant = tenant, xa_scenario = ar_scenario req, xa_object_type = ar_object_type req,
      xa_status = ''queued'', xa_key = ar_key req, xa_attempts = 0, xa_max = at_least_one (xe_async_max env), xa_next = None,
      xa_request = Inr req, xa_error = [], xa_result = None, xa_callback = ar_callback req, xa_callback_status = [],
      xa_callback_attempts = 0, xa_callback_error = [], xa_callback_sent = None, xa_created = xe_clock env ''create'',
      xa_completed = None, xa_failed = None\<rparr>"

text \<open>The insertion of \<^verbatim>\<open>CreateAsyncDecisionExecution\<close>; a job is only queued for a row that is new.\<close>

definition insert_async :: "exec_env \<Rightarrow> async_execution \<Rightarrow> async_execution exec_step" where
  "insert_async env item =
     transaction (xe_works env) (then_do (create_async (xe_works env) item) (\<lambda>created.
       then_do (if xa_id created = xa_id item then enqueue env (AsyncJob (xa_id created) None) else finish_with ()) (\<lambda>_.
       then_do (async_event env created ''queued''
          (async_payload created (xa_status created) @ [(''max_attempts'', VInt (xa_max created)), (''idempotency_key'', VStr (xa_key created))]) None) (\<lambda>_.
       finish_with created))))"

definition validate_callback_url :: "(string \<Rightarrow> (string \<times> string) res) \<Rightarrow> string \<Rightarrow> unit res" where
  "validate_callback_url parse raw =
     (if raw = [] then Inr ()
      else case parse raw of
        Inl e \<Rightarrow> Inl (''callback_url is invalid: '' @ e)
      | Inr (scheme, host) \<Rightarrow>
          if scheme \<noteq> ''http'' \<and> scheme \<noteq> ''https'' then Inl ''callback_url must use http or https''
          else if host = [] then Inl ''callback_url must include a host''
          else Inr ())"

text \<open>\<^verbatim>\<open>CreateAsyncDecisionExecution\<close> up to the wait for an early result.\<close>

definition create_async_execution :: "exec_env \<Rightarrow> string \<Rightarrow> async_request \<Rightarrow> async_execution exec_step" where
  "create_async_execution env tenant req w =
     (case validate_callback_url (xe_parse_url env) (ar_callback req) of
        Inl e \<Rightarrow> (Inl e, w)
      | Inr _ \<Rightarrow> insert_async env (new_async env tenant req (ew_drawn w)) (w\<lparr>ew_drawn := Suc (ew_drawn w)\<rparr>))"

definition retry_async :: "exec_env \<Rightarrow> string \<Rightarrow> string \<Rightarrow> async_execution exec_step" where
  "retry_async env tenant i =
     then_do (get_async (xe_works env) tenant i) (\<lambda>item.
       if xa_status item \<noteq> ''failed'' then failing ''async decision execution must be in failed status to retry''
       else then_do (transaction (xe_works env)
                (then_do (reset_async (xe_works env) i ''queued'') (\<lambda>_. enqueue env (AsyncJob i None))))
              (\<lambda>_. get_async (xe_works env) tenant i))"

definition enqueue_callback :: "exec_env \<Rightarrow> async_execution \<Rightarrow> unit exec_step" where
  "enqueue_callback env item =
     (if xa_callback item = [] then finish_with () else enqueue env (CallbackJob (xa_tenant item) (xa_id item)))"

definition callback_pending :: "async_execution \<Rightarrow> string" where
  "callback_pending item = (if xa_callback item \<noteq> [] then ''pending'' else [])"

definition fail_validation :: "exec_env \<Rightarrow> async_execution \<Rightarrow> prep_error \<Rightarrow> int \<Rightarrow> unit exec_step" where
  "fail_validation env item e now =
     (if \<not> xe_tx env then failing ''async validation failure transaction manager is not configured''
      else transaction (xe_works env)
        (then_do (mark_validation_failed (xe_works env) (xa_tenant item) (xa_id item) (FailureEvidence e) (error_text e) now (callback_pending item)) (\<lambda>_.
         then_do (enqueue_callback env item) (\<lambda>_.
         async_event env item ''failed'' [(''status'', VStr ''failed''), (''attempt_count'', VInt (xa_attempts item)),
           (''last_error'', VStr (error_text e)), (''failed_at'', VTime now)] (validation_of e)))))"

definition join_errors :: "string \<Rightarrow> unit exec_step \<Rightarrow> unit exec_step" where
  "join_errors e m w = (case m w of (Inl e', w') \<Rightarrow> (Inl (e @ [CHR 0x0A] @ e'), w') | (Inr _, w') \<Rightarrow> (Inl e, w'))"

definition async_failure_payload :: "async_execution \<Rightarrow> string \<Rightarrow> prep_error \<Rightarrow> field_map" where
  "async_failure_payload item status e =
     async_payload item status @ [(''max_attempts'', VInt (xa_max item)), (''last_error'', VStr (error_text e))]"

text \<open>A rejected object fails the execution for good; when that cannot be stored the row is made claimable again.\<close>

definition fail_or_requeue :: "exec_env \<Rightarrow> async_execution \<Rightarrow> prep_error \<Rightarrow> int \<Rightarrow> unit exec_step" where
  "fail_or_requeue env item e now w =
     (case fail_validation env item e now w of
        (Inr _, w') \<Rightarrow> (Inr (), w')
      | (Inl e', w') \<Rightarrow> join_errors e' (requeue_validation (xe_works env) (xa_tenant item) (xa_id item)) w')"

definition handle_async_failure :: "exec_env \<Rightarrow> async_execution \<Rightarrow> prep_error \<Rightarrow> unit exec_step" where
  "handle_async_failure env item e =
     (let now = xe_clock env ''failure'' in
      if is_validation e then fail_or_requeue env item e now
      else if xa_attempts item \<ge> at_least_one (xa_max item) then
        then_do (record_async_failure (xe_works env) (xa_id item) ''failed'' None (error_text e) (Some now)) (\<lambda>_.
        then_do (enqueue_callback env item) (\<lambda>_.
        async_event env item ''failed'' (async_failure_payload item ''failed'' e @ [(''failed_at'', VTime now)]) None))
      else
        (let next_at = now + retry_delay (xe_async_backoff env) (xa_attempts item);
             body = then_do (record_async_failure (xe_works env) (xa_id item) ''queued'' (Some next_at) (error_text e) None) (\<lambda>_.
               then_do (enqueue env (AsyncJob (xa_id item) (Some next_at))) (\<lambda>_.
               async_event env item ''retry_scheduled'' (async_failure_payload item ''queued'' e @ [(''next_attempt_at'', VTime next_at)]) None))
         in if xe_tx env then transaction (xe_works env) body else body))"

definition complete_async :: "exec_env \<Rightarrow> async_execution \<Rightarrow> result_body \<Rightarrow> unit exec_step" where
  "complete_async env item body =
     then_do (mark_completed (xe_works env) (xa_id item) body (xe_clock env ''completed'') (callback_pending item)) (\<lambda>_.
     then_do (enqueue_callback env item) (\<lambda>_.
     async_event env item ''completed'' (async_payload item ''completed'') None))"

definition run_async :: "exec_env \<Rightarrow> string \<Rightarrow> unit exec_step" where
  "run_async env i =
     then_do (start_async (xe_works env) i) (\<lambda>item w.
       case run_async_request env item w of
         (Inl e, w') \<Rightarrow> handle_async_failure env item e w'
       | (Inr body, w') \<Rightarrow> complete_async env item body w')"

subsection \<open>Callbacks\<close>

definition post_callback :: "exec_env \<Rightarrow> async_execution \<Rightarrow> unit exec_step" where
  "post_callback env item =
     (if xa_callback item = [] then finish_with ()
      else (let attempts = xa_callback_attempts item + 1 in
        case xe_post env (xa_callback item) item of
          Inl e \<Rightarrow> update_callback (xe_works env) (xa_id item) ''failed'' attempts e None
        | Inr code \<Rightarrow>
            if code < 200 \<or> code \<ge> 300
            then update_callback (xe_works env) (xa_id item) ''failed'' attempts (''callback returned status '' @ itoa code) None
            else update_callback (xe_works env) (xa_id item) ''sent'' attempts [] (Some (xe_clock env ''sent''))))"

definition deliver_callback :: "exec_env \<Rightarrow> string \<Rightarrow> string \<Rightarrow> unit exec_step" where
  "deliver_callback env tenant i =
     then_do (get_async (xe_works env) tenant i) (\<lambda>item.
       if xa_callback item = [] \<or> xa_callback_status item = ''sent'' then finish_with () else post_callback env item)"

subsection \<open>Workers\<close>

text \<open>A worker runs a job; the queue drops the job when the handler reports no error and keeps it for a later
  try otherwise. Outbox events are published elsewhere.\<close>

definition handle_job :: "exec_env \<Rightarrow> job \<Rightarrow> unit exec_step" where
  "handle_job env j = (case j of
     ScheduledJob i _ \<Rightarrow> run_scheduled env i
   | AsyncJob i _ \<Rightarrow> run_async env i
   | CallbackJob tenant i \<Rightarrow> deliver_callback env tenant i
   | OutboxJob _ _ \<Rightarrow> finish_with ())"

definition work_job :: "exec_env \<Rightarrow> job \<Rightarrow> exec_world \<Rightarrow> exec_world" where
  "work_job env j w = (case handle_job env j w of
     (Inl e, w') \<Rightarrow> w' | (Inr _, w') \<Rightarrow> w'\<lparr>ew_jobs := remove1 j (ew_jobs w'), ew_finished := ew_finished w' @ [j]\<rparr>)"

end
