(* ===== verification/Execution_Laws.thy ===== *)
theory Execution_Laws
  imports Execution_Service Decision_Laws
begin

text \<open>
  What the execution service keeps and reaches: the delays of its retries, one row that changes per run, a
  job for every execution that waits, and the bound on the number of runs.
\<close>

subsection \<open>Retry delays\<close>

lemma f64_of_nat_exact: "0 < n \<Longrightarrow> n \<le> 2 ^ 53 \<Longrightarrow> f64_of_rat False (of_nat n) = FRat (of_nat n)"
proof -
  assume n: "0 < n" "n \<le> 2 ^ 53"
  then have "rat_exp (of_nat n) \<le> 53" by (rule rat_exp_small)
  then show ?thesis using n by (simp add: f64_of_rat_def round_pos_nat)
qed

lemma retry_delay_exact:
  assumes "0 < base" "base \<le> 2 ^ 43" "1 \<le> a"
  shows "retry_delay base a = base * 2 ^ nat (min (a - 1) 10)"
proof (cases "a = 1")
  case False
  define k where "k = nat (min (a - 1) 10)"
  obtain n where n: "base = int n" "0 < n" using assms(1) by (metis pos_int_cases)
  have k: "k \<le> 10" by (simp add: k_def)
  have "n \<le> 2 ^ 43" using assms(2) n(1) by (simp flip: of_nat_le_iff)
  moreover have "(2::nat) ^ k \<le> 2 ^ 10" using k by (rule power_increasing) simp
  ultimately have "n * 2 ^ k \<le> 2 ^ 43 * 2 ^ 10" by (rule mult_le_mono)
  then have m: "n * 2 ^ k \<le> 2 ^ 53" by simp
  have "n \<le> n * 2 ^ k" by simp
  then have "n \<le> 2 ^ 53" using m by (rule order_trans)
  then have "f64_of_int base = FRat (of_nat n)" using f64_of_nat_exact n by (simp add: f64_of_int_def)
  moreover have "f64_of_rat False (of_nat n * 2 ^ k) = FRat (of_nat (n * 2 ^ k))"
    using f64_of_nat_exact [of "n * 2 ^ k"] m n(2) by simp
  ultimately have "f64_mul (f64_of_int base) (FRat (2 ^ k)) = FRat (of_nat (n * 2 ^ k))"
    by (simp add: f64_mul_def)
  moreover have "f64_to_int (FRat (of_nat (n * 2 ^ k))) = int (n * 2 ^ k)"
  proof -
    have "rat_trunc (of_nat (n * 2 ^ k)) = int (n * 2 ^ k)" unfolding rat_trunc_def by (metis floor_of_nat not_less of_nat_0_le_iff)
    moreover have "int (n * 2 ^ k) \<le> int (2 ^ 53)" using m by (simp only: of_nat_le_iff)
    then have "int (n * 2 ^ k) \<le> max_int64" by (simp add: max_int64_def)
    moreover have "min_int64 \<le> int (n * 2 ^ k)" by (rule order_trans [of _ 0]) (simp_all add: min_int64_def)
    ultimately show ?thesis by (simp add: f64_to_int_def Let_def)
  qed
  ultimately show ?thesis using assms False by (simp add: retry_delay_def n(1) flip: k_def)
qed (use assms in \<open>simp add: retry_delay_def\<close>)

lemma retry_delay_range:
  assumes "0 < base" "base \<le> 2 ^ 43" "1 \<le> a"
  shows "base \<le> retry_delay base a \<and> retry_delay base a \<le> 1024 * base"
proof -
  have "(2::int) ^ nat (min (a - 1) 10) \<le> 2 ^ 10" by (rule power_increasing) auto
  then show ?thesis using assms(1) by (simp add: retry_delay_exact [OF assms])
qed

lemma retry_delay_mono:
  assumes "0 < base" "base \<le> 2 ^ 43" "1 \<le> a" "a \<le> a'"
  shows "retry_delay base a \<le> retry_delay base a'"
proof -
  have "(2::int) ^ nat (min (a - 1) 10) \<le> 2 ^ nat (min (a' - 1) 10)" using assms(4) by (intro power_increasing) auto
  then show ?thesis using assms by (simp add: retry_delay_exact)
qed

subsection \<open>One run\<close>

text \<open>The world after some statements of a run: the row of the execution is \<open>x\<close>, everything else of the
  execution tables is as in \<open>w\<close>.\<close>

definition row_is :: "exec_world \<Rightarrow> string \<Rightarrow> scheduled_execution \<Rightarrow> exec_world \<Rightarrow> bool" where
  "row_is w i x w' =
     (ew_scheduled w' = map (\<lambda>y. if xs_id y = i then x else y) (ew_scheduled w) \<and> ew_async w' = ew_async w \<and> xs_id x = i)"

lemma row_is_update:
  "row_is w i x w' \<Longrightarrow> xs_id (f x) = i \<Longrightarrow> row_is w i (f x) (update_scheduled i f w')"
  by (auto simp: row_is_def update_scheduled_def)

lemma row_is_enqueue:
  "row_is w i x w' \<Longrightarrow> enqueue env j w' = (r, w'') \<Longrightarrow> row_is w i x w''"
  by (auto simp: row_is_def enqueue_def attempt_def split: if_splits)

lemma row_is_event:
  assumes "row_is w i x w'" "scheduled_event env item event payload v w' = (r, w'')"
  shows "row_is w i x w''"
  using assms by (cases r) (auto simp: scheduled_event_def write_event_def enqueue_def step_simps row_is_def split: if_splits)

lemma evaluate_items_frame:
  "evaluate_items env tenant scenario_id rs w = (r, w') \<Longrightarrow>
    ew_scheduled w' = ew_scheduled w \<and> ew_async w' = ew_async w"
proof (induction rs arbitrary: w)
  case (Cons q rs)
  obtain a w1 where e: "evaluate_one env tenant scenario_id q w = (a, w1)" by (cases "evaluate_one env tenant scenario_id q w")
  then have "ew_scheduled w1 = ew_scheduled w \<and> ew_async w1 = ew_async w"
    by (auto simp: evaluate_one_def Let_def split: prod.splits)
  then show ?case using Cons e by (cases a) (auto simp: then_do_def)
qed (simp add: step_simps)

lemma run_items_frame:
  assumes "run_scheduled_items env item w = (r, w')"
  shows "ew_scheduled w' = ew_scheduled w \<and> ew_async w' = ew_async w"
  using assms evaluate_items_frame
  by (auto simp: run_scheduled_items_def lift_res_def then_do_def split: sum.splits)

lemma start_scheduled_Inr:
  "start_scheduled works i w = (Inr x', w') \<Longrightarrow>
    \<exists>x. find_scheduled i w = Some x \<and> xs_status x = ''pending'' \<and>
      x' = x\<lparr>xs_status := ''running'', xs_attempts := xs_attempts x + 1, xs_next := None\<rparr> \<and> row_is w i x' w'"
  by (auto simp: start_scheduled_def row_is_def update_scheduled_def find_scheduled_def Let_def find_Some_iff split: if_splits option.splits)

lemma start_scheduled_Inl: "start_scheduled works i w = (Inl e, w') \<Longrightarrow> w' = w"
  by (auto simp: start_scheduled_def Let_def split: if_splits option.splits)

text \<open>What a run leaves in the row: it is completed, failed for good, waiting for its next attempt,
  or still marked as running when a statement after the start failed.\<close>

definition run_outcome :: "scheduled_execution \<Rightarrow> scheduled_execution \<Rightarrow> bool \<Rightarrow> bool" where
  "run_outcome x x' ok =
     (xs_attempts x' = xs_attempts x + 1 \<and> xs_max x' = xs_max x \<and>
      (xs_status x' = ''completed'' \<and> xs_failed x' = xs_failed x \<and> xs_next x' = None
       \<or> xs_status x' = ''failed'' \<and> xs_failed x' \<noteq> None \<and> xs_next x' = None
       \<or> xs_status x' = ''pending'' \<and> xs_failed x' = None \<and> xs_attempts x' < at_least_one (xs_max x)
       \<or> xs_status x' = ''running'' \<and> xs_failed x' = xs_failed x \<and> \<not> ok \<and> xs_next x' = None))"

lemma handle_failure_outcome:
  assumes h: "handle_scheduled_failure env x1 e w1 = (r, w')" and row: "row_is w i x1 w1"
    and x1: "x1 = x\<lparr>xs_status := ''running'', xs_attempts := xs_attempts x + 1, xs_next := None\<rparr>" "xs_id x = i"
  shows "\<exists>x'. row_is w i x' w' \<and> run_outcome x x' (\<exists>u. r = Inr u)"
proof -
  let ?works = "xe_works env" and ?now = "xe_clock env ''failure''"
  let ?next = "?now + retry_delay (xe_scheduled_backoff env) (xs_attempts x1)"
  have i1: "xs_id x1 = i" by (simp add: x1)
  define xf where "xf = x1\<lparr>xs_status := ''failed'', xs_next := None, xs_error := error_text e, xs_failed := Some ?now\<rparr>"
  define xp where "xp = x1\<lparr>xs_status := ''pending'', xs_next := Some ?next, xs_error := error_text e, xs_failed := None\<rparr>"
  have stay: "run_outcome x x1 False" and fail: "run_outcome x xf ok" for ok
    by (simp_all add: run_outcome_def x1 xf_def)
  have rowf: "row_is w i xf (update_scheduled i (\<lambda>x. x\<lparr>xs_status := ''failed'', xs_next := None, xs_error := error_text e,
        xs_failed := Some ?now\<rparr>) w1)"
    unfolding xf_def by (rule row_is_update [OF row]) (simp add: x1)
  have rowp: "row_is w i xp (update_scheduled i (\<lambda>x. x\<lparr>xs_status := ''pending'', xs_next := Some ?next, xs_error := error_text e,
        xs_failed := None\<rparr>) w1)"
    unfolding xp_def by (rule row_is_update [OF row]) (simp add: x1)
  show ?thesis
  proof (cases "is_validation e \<or> xs_attempts x1 \<ge> at_least_one (xs_max x1)")
    case True
    then consider "r = Inl ''scheduled failure''" "w' = w1"
      | p where "scheduled_event env x1 ''failed'' p (validation_of e) (update_scheduled i (\<lambda>x. x\<lparr>xs_status := ''failed'',
          xs_next := None, xs_error := error_text e, xs_failed := Some ?now\<rparr>) w1) = (r, w')"
      using h x1 by (cases r) (auto simp: handle_scheduled_failure_def Let_def record_scheduled_failure_def step_simps)
    then show ?thesis
    proof cases
      case 1
      then show ?thesis using stay row by auto
    next
      case 2
      from row_is_event [OF rowf this] show ?thesis using fail by blast
    qed
  next
    case False
    have pend: "run_outcome x xp ok" for ok using False x1 by (simp add: run_outcome_def xp_def)
    define body where "body = then_do (record_scheduled_failure ?works (xs_id x1) ''pending'' (Some ?next) (error_text e) None) (\<lambda>_.
        then_do (enqueue env (ScheduledJob (xs_id x1) (Some ?next))) (\<lambda>_.
        scheduled_event env x1 ''retry_scheduled'' (scheduled_failure_payload x1 ''pending'' e @ [(''next_attempt_at'', VTime ?next)]) None))"
    have b: "\<exists>x'. row_is w i x' w'' \<and> run_outcome x x' (\<exists>u. r' = Inr u)" if bw: "body w1 = (r', w'')" for r' w''
    proof -
      let ?w2 = "update_scheduled i (\<lambda>x. x\<lparr>xs_status := ''pending'', xs_next := Some ?next, xs_error := error_text e, xs_failed := None\<rparr>) w1"
      consider "r' = Inl ''scheduled failure''" "w'' = w1" | e' where "enqueue env (ScheduledJob i (Some ?next)) ?w2 = (Inl e', w'')" "r' = Inl e'"
        | w3 p where "enqueue env (ScheduledJob i (Some ?next)) ?w2 = (Inr (), w3)" "scheduled_event env x1 ''retry_scheduled'' p None w3 = (r', w'')"
        using bw unfolding body_def record_scheduled_failure_def i1 by (cases r') (auto simp: step_simps)
      then show ?thesis
      proof cases
        case 1
        then show ?thesis using row stay by auto
      next
        case 2
        then show ?thesis using row_is_enqueue [OF rowp 2(1)] pend by blast
      next
        case 3
        then show ?thesis using row_is_event [OF row_is_enqueue [OF rowp]] pend by blast
      qed
    qed
    have "(if xe_tx env then transaction ?works body else body) w1 = (r, w')"
      using h False by (cases "xe_tx env") (simp_all add: handle_scheduled_failure_def Let_def body_def)
    then consider "body w1 = (r, w')" | e' where "r = Inl e'" "w' = w1"
      by (cases r) (auto simp: step_simps dest: transaction_Inl split: if_splits)
    then show ?thesis using b stay row by cases auto
  qed
qed

lemma complete_outcome:
  assumes h: "complete_scheduled env x1 w1 = (r, w')" and row: "row_is w i x1 w1"
    and x1: "x1 = x\<lparr>xs_status := ''running'', xs_attempts := xs_attempts x + 1, xs_next := None\<rparr>" "xs_id x = i"
  shows "\<exists>x'. row_is w i x' w' \<and> run_outcome x x' (\<exists>u. r = Inr u)"
proof -
  let ?f = "\<lambda>x. x\<lparr>xs_status := ''completed'', xs_next := None, xs_failed := xs_failed x\<rparr>"
  have rowc: "row_is w i (?f x1) (update_scheduled i ?f w1)" by (rule row_is_update [OF row]) (simp add: x1)
  have stay: "run_outcome x x1 False" and fin: "run_outcome x (?f x1) ok" for ok
    by (simp_all add: run_outcome_def x1)
  consider "r = Inl ''scheduled status''" "w' = w1" | p where "scheduled_event env x1 ''completed'' p None (update_scheduled i ?f w1) = (r, w')"
    using h x1 by (cases r) (auto simp: complete_scheduled_def set_scheduled_status_def step_simps)
  then show ?thesis
  proof cases
    case 1
    then show ?thesis using stay row by auto
  next
    case 2
    from row_is_event [OF rowc this] show ?thesis using fin by blast
  qed
qed

lemma run_scheduled_cases:
  assumes "run_scheduled env i w = (r, w')"
  obtains (idle) e where "r = Inl e" "w' = w"
    | (ran) x x' where "find_scheduled i w = Some x" "xs_status x = ''pending''" "row_is w i x' w'"
        "run_outcome x x' (\<exists>u. r = Inr u)"
proof -
  obtain r1 w1 where s: "start_scheduled (xe_works env) i w = (r1, w1)" by (cases "start_scheduled (xe_works env) i w")
  show thesis
  proof (cases r1)
    case (Inl e)
    then have "r = Inl e \<and> w' = w1" using assms s by (auto simp: run_scheduled_def then_do_def)
    then show thesis using idle start_scheduled_Inl s Inl by blast
  next
    case (Inr x1)
    obtain x where x: "find_scheduled i w = Some x" "xs_status x = ''pending''"
      "x1 = x\<lparr>xs_status := ''running'', xs_attempts := xs_attempts x + 1, xs_next := None\<rparr>" "row_is w i x1 w1"
      using start_scheduled_Inr s Inr by blast
    have i: "xs_id x = i" using x(1) by (auto simp: find_scheduled_def find_Some_iff)
    obtain r2 w2 where e: "run_scheduled_items env x1 w1 = (r2, w2)" by (cases "run_scheduled_items env x1 w1")
    have row2: "row_is w i x1 w2" using x(4) run_items_frame [OF e] by (simp add: row_is_def)
    have "(\<exists>er. handle_scheduled_failure env x1 er w2 = (r, w')) \<or> complete_scheduled env x1 w2 = (r, w')"
      using assms s Inr e by (cases r2) (auto simp: run_scheduled_def then_do_def)
    then obtain x' where "row_is w i x' w'" "run_outcome x x' (\<exists>u. r = Inr u)"
      using handle_failure_outcome [OF _ row2 x(3) i] complete_outcome [OF _ row2 x(3) i] by blast
    then show thesis using ran x(1,2) by blast
  qed
qed

subsection \<open>Runs of the service\<close>

text \<open>The operations in any order, each in any surroundings that \<open>ok\<close> allows: statements may fail anywhere, time
  and repositories change between the steps. A worker only takes a job that is in the queue, and River gives up
  a job that has failed too often.\<close>

inductive exec_move :: "(exec_env \<Rightarrow> bool) \<Rightarrow> exec_world \<Rightarrow> exec_world \<Rightarrow> bool" for ok where
  move_create: "ok env \<Longrightarrow> exec_move ok w (snd (create_scheduled_execution env tenant scenario_id scheduled_for req w))"
| move_retry: "ok env \<Longrightarrow> exec_move ok w (snd (retry_scheduled env tenant scenario_id i w))"
| move_create_async: "ok env \<Longrightarrow> exec_move ok w (snd (create_async_execution env tenant areq w))"
| move_retry_async: "ok env \<Longrightarrow> exec_move ok w (snd (retry_async env tenant i w))"
| move_materialize: "ok env \<Longrightarrow> exec_move ok w (snd (materialize_schedules env limit w))"
| move_work: "ok env \<Longrightarrow> j \<in> set (ew_jobs w) \<Longrightarrow> exec_move ok w (work_job env j w)"
| move_discard: "exec_move ok w (w\<lparr>ew_jobs := remove1 j (ew_jobs w)\<rparr>)"

definition row_ok :: "scheduled_execution \<Rightarrow> bool" where
  "row_ok x =
     (xs_status x \<in> {''pending'', ''running'', ''completed'', ''failed''} \<and> 0 \<le> xs_attempts x \<and>
      xs_attempts x \<le> at_least_one (xs_max x) \<and> (xs_next x \<noteq> None \<longrightarrow> xs_status x = ''pending'') \<and>
      (xs_status x = ''failed'') = (xs_failed x \<noteq> None) \<and>
      (xs_status x = ''pending'' \<longrightarrow> xs_attempts x < at_least_one (xs_max x)))"

definition scheduled_ok :: "exec_world \<Rightarrow> bool" where
  "scheduled_ok w = (distinct (map xs_id (ew_scheduled w)) \<and> (\<forall>x \<in> set (ew_scheduled w). row_ok x))"

subsubsection \<open>Operations that leave the scheduled executions alone\<close>

text \<open>A condition on the scheduled executions and the queue that an insertion into the queue keeps: everything
  that only works on async executions, events and decisions keeps it.\<close>

locale exec_frame =
  fixes env :: exec_env and I :: "exec_world \<Rightarrow> bool"
  assumes same: "\<And>w w'. ew_scheduled w' = ew_scheduled w \<Longrightarrow> ew_jobs w' = ew_jobs w \<Longrightarrow> ew_finished w' = ew_finished w \<Longrightarrow> I w \<Longrightarrow> I w'"
    and inserts: "\<And>j. keeps I (enqueue env j)"
begin

lemma update: "I w \<Longrightarrow> I (update_async i f w)"
  by (rule same) (simp_all add: update_async_def)

lemma attempts: "keeps I (attempt works n (update_async i f))"
  by (rule keeps_attempt) (rule update)

lemma writes: "keeps I (write_event env tenant aggregate i event payload validation)"
proof (rule keepsI)
  fix w r w'
  assume w: "I w" "write_event env tenant aggregate i event payload validation w = (r, w')"
  have k: "keeps I (then_do (attempt (xe_works env) ''outbox insert'' (\<lambda>w. w\<lparr>ew_events := e w, ew_drawn := n w\<rparr>)) (\<lambda>_. enqueue env j))" for e n j
    by (intro keeps_then_do keeps_attempt inserts) (erule same [rotated 3], simp_all)
  show "I w'" by (rule keepsD [OF k w(1) w(2) [unfolded write_event_def]])
qed

lemma async_events: "keeps I (async_event env item event payload v)"
  unfolding async_event_def by (rule writes)

lemma gets: "keeps I (get_async works tenant i)"
  by (rule keepsI) (auto simp: get_async_def split: if_splits option.splits)

lemma creates: "keeps I (create_async works item)"
  by (rule keepsI) (auto simp: create_async_def split: if_splits option.splits elim!: same [rotated 3])

lemma starts: "keeps I (start_async works i)"
  by (rule keepsI) (auto simp: start_async_def Let_def split: if_splits option.splits intro: update)

lemma marks: "keeps I (mark_validation_failed works tenant i body summary t c)"
  by (rule keepsI) (auto simp: mark_validation_failed_def split: if_splits option.splits intro: update)

lemma callbacks: "keeps I (enqueue_callback env item)"
  by (simp add: enqueue_callback_def inserts keeps_finish)

lemmas rules = attempts inserts async_events gets creates starts marks callbacks keeps_intros keeps_transaction

lemma one: "keeps I (evaluate_one env tenant scenario_id r)"
  by (rule keepsI) (auto simp: evaluate_one_def Let_def split: prod.splits elim!: same [rotated 3])

lemma every: "keeps I (evaluate_every env tenant r)"
  by (rule keepsI) (auto simp: evaluate_every_def Let_def split: prod.splits elim!: same [rotated 3])

lemma items: "keeps I (run_async_items env tenant scenario_id rs result)"
  by (induction rs arbitrary: result) (auto simp: keeps_finish intro!: keeps_then_do one every)

lemma request: "keeps I (run_async_request env item)"
  unfolding run_async_request_def by (intro keeps_then_do items) (simp add: keeps_def lift_res_def)

lemma fails_validation: "keeps I (fail_validation env item e now)"
  unfolding fail_validation_def by (simp split: if_splits) (intro impI conjI rules)

lemma requeues: "keeps I (fail_or_requeue env item e now)"
proof (rule keepsI)
  fix w r w'
  assume a: "I w" "fail_or_requeue env item e now w = (r, w')"
  obtain r1 w1 where f: "fail_validation env item e now w = (r1, w1)" by (cases "fail_validation env item e now w")
  have "I w1" by (rule keepsD [OF fails_validation a(1) f])
  then show "I w'"
    using a(2) f update by (cases r1) (auto simp: fail_or_requeue_def join_errors_def requeue_validation_def attempt_def split: if_splits)
qed

lemma async_failure: "keeps I (handle_async_failure env item e)"
  unfolding handle_async_failure_def Let_def record_async_failure_def
  by (simp split: if_split) (intro impI conjI rules requeues)

lemma runs_async: "keeps I (run_async env i)"
  unfolding run_async_def
proof (rule keeps_then_do [OF starts], rule keepsI)
  fix item w r w'
  assume a: "I w" "(case run_async_request env item w of (Inl e, w') \<Rightarrow> handle_async_failure env item e w'
       | (Inr body, w') \<Rightarrow> complete_async env item body w') = (r, w')"
  obtain r1 w1 where q: "run_async_request env item w = (r1, w1)" by (cases "run_async_request env item w")
  have w1: "I w1" by (rule keepsD [OF request a(1) q])
  have c: "keeps I (complete_async env item body)" for body
    unfolding complete_async_def mark_completed_def by (intro rules)
  show "I w'"
  proof (cases r1)
    case (Inl e)
    then show ?thesis using a(2) q keepsD [OF async_failure w1] by simp
  next
    case (Inr body)
    then show ?thesis using a(2) q keepsD [OF c w1] by simp
  qed
qed

lemma delivers: "keeps I (deliver_callback env tenant i)"
  unfolding deliver_callback_def post_callback_def update_callback_def Let_def
  by (intro rules) (auto intro!: rules split: sum.splits)

lemma creates_execution: "I w \<Longrightarrow> I (snd (create_async_execution env tenant areq w))"
proof -
  assume w: "I w"
  then have "I (w\<lparr>ew_drawn := Suc (ew_drawn w)\<rparr>)" by (rule same [rotated 3]) simp_all
  moreover have "keeps I (insert_async env item)" for item
    unfolding insert_async_def by (intro rules) (auto intro: rules)
  ultimately have "I (snd (insert_async env item (w\<lparr>ew_drawn := Suc (ew_drawn w)\<rparr>)))" for item
    unfolding keeps_def by blast
  then show ?thesis using w by (simp add: create_async_execution_def split: sum.split)
qed

lemma retries_async: "keeps I (retry_async env tenant i)"
  unfolding retry_async_def reset_async_def by (intro rules) (auto intro!: rules)

lemma scheduled_events: "keeps I (scheduled_event env item event payload v)"
  unfolding scheduled_event_def by (rule writes)

lemma lists: "keeps I (list_by_scenario works tenant scenario_id)"
  by (rule keepsI) (auto simp: list_by_scenario_def split: if_splits)

lemma gets_scheduled: "keeps I (get_scheduled works tenant scenario_id i)"
  by (rule keepsI) (auto simp: get_scheduled_def split: if_splits option.splits)

lemma scheduled_items_run: "keeps I (run_scheduled_items env item)"
proof -
  have e: "keeps I (evaluate_items env tenant scenario_id rs)" for tenant scenario_id rs
    by (induction rs) (auto simp: keeps_finish intro!: keeps_then_do one)
  have "keeps I (then_do (lift_res r) (evaluate_items env tenant scenario_id))" for r tenant scenario_id
    by (intro keeps_then_do e) (simp add: keeps_def lift_res_def)
  then show ?thesis by (simp add: run_scheduled_items_def keeps_def)
qed

end

text \<open>A row that is added waits for its first attempt.\<close>

definition waits :: "scheduled_execution \<Rightarrow> bool" where
  "waits x = (xs_status x = ''pending'' \<and> xs_attempts x = 0 \<and> xs_next x = None \<and> xs_failed x = None)"

lemma new_rows_wait: "waits (new_scheduled env tenant scn live t req n)" "waits (new_recurring env it cfg now u n)"
  by (simp_all add: waits_def new_scheduled_def new_recurring_def)

text \<open>A condition that an added row keeps as well: creating and materializing executions keeps it.\<close>

locale creation_frame = exec_frame +
  assumes adds: "\<And>works item. waits item \<Longrightarrow> keeps I (create_scheduled works item)"
begin

lemma inserted: "waits item \<Longrightarrow> keeps I (insert_scheduled env item)"
  unfolding insert_scheduled_def by (intro keeps_transaction keeps_then_do adds inserts scheduled_events keeps_finish)

lemma drawing: "I w \<Longrightarrow> I (w\<lparr>ew_drawn := n\<rparr>)"
  by (rule same) simp_all

lemma created: "I w \<Longrightarrow> I (snd (create_scheduled_execution env tenant scenario_id t req w))"
  using inserted [OF new_rows_wait(1)] drawing unfolding keeps_def
  by (simp add: create_scheduled_execution_def split: sum.split option.split)

lemma materialized_one: "keeps I (materialize_one env it cfg now t)"
proof (rule keepsI)
  fix w r w'
  assume w: "I w" "materialize_one env it cfg now t w = (r, w')"
  have "keeps I (transaction (xe_works env)
      (then_do (create_scheduled (xe_works env) (new_recurring env it cfg now t n)) (\<lambda>created.
       enqueue env (ScheduledJob (xs_id created) (run_at now (xs_for created))))))" for n
    by (intro keeps_transaction keeps_then_do adds inserts new_rows_wait)
  from keepsD [OF this drawing [OF w(1)]] show "I w'" using w(2) by (simp add: materialize_one_def)
qed

lemma materialized_times: "keeps I (materialize_times env it cfg now ts)"
  by (induction ts) (simp_all add: keeps_finish keeps_then_do materialized_one)

lemma materialized_iteration: "keeps I (materialize_iteration env limit now it)"
proof -
  have "keeps I (case r of Inl e \<Rightarrow> failing e | Inr due \<Rightarrow> materialize_times env it cfg now due)" for r cfg
    by (cases r) (simp_all add: keeps_failing materialized_times)
  then show ?thesis
    unfolding materialize_iteration_def by (auto split: sum.split intro!: keeps_then_do keeps_failing keeps_finish lists)
qed

lemma materialized: "keeps I (materialize_schedules env limit)"
proof -
  have "keeps I (materialize_iterations env limit now its)" for now its
    by (induction its) (simp_all add: keeps_finish keeps_then_do materialized_iteration)
  then show ?thesis by (simp add: materialize_schedules_def keeps_failing split: sum.split)
qed

end

text \<open>A condition on the queue alone: a run keeps it too.\<close>

locale queue_frame = creation_frame +
  assumes rows: "\<And>w S. I w \<Longrightarrow> I (w\<lparr>ew_scheduled := S\<rparr>)"
begin

lemma changed: "I w \<Longrightarrow> I (update_scheduled i f w)"
  unfolding update_scheduled_def by (rule rows)

lemma failed: "keeps I (handle_scheduled_failure env item e)"
proof -
  have r: "keeps I (record_scheduled_failure works i status next_at err failed_at)" for works i status next_at err failed_at
    unfolding record_scheduled_failure_def by (rule keeps_attempt) (rule changed)
  show ?thesis
    unfolding handle_scheduled_failure_def Let_def
    by (auto intro!: keeps_then_do keeps_transaction r inserts scheduled_events)
qed

lemma completed: "keeps I (complete_scheduled env item)"
  unfolding complete_scheduled_def set_scheduled_status_def
  by (intro keeps_then_do keeps_attempt scheduled_events) (rule changed)

lemma runs: "keeps I (run_scheduled env i)"
proof -
  have "keeps I (start_scheduled works i)" for works
    by (rule keepsI) (auto simp: start_scheduled_def Let_def changed split: if_splits option.splits)
  moreover have "keeps I (\<lambda>w. case run_scheduled_items env item w of
       (Inl e, w') \<Rightarrow> handle_scheduled_failure env item e w' | (Inr _, w') \<Rightarrow> complete_scheduled env item w')" for item
  proof (rule keepsI)
    fix w r w'
    assume w: "I w" "(case run_scheduled_items env item w of
       (Inl e, w') \<Rightarrow> handle_scheduled_failure env item e w' | (Inr _, w') \<Rightarrow> complete_scheduled env item w') = (r, w')"
    obtain q v where q: "run_scheduled_items env item w = (q, v)" by (cases "run_scheduled_items env item w")
    have v: "I v" by (rule keepsD [OF scheduled_items_run w(1) q])
    show "I w'"
    proof (cases q)
      case (Inl e)
      then show ?thesis using w(2) q keepsD [OF failed v] by simp
    next
      case (Inr u)
      then show ?thesis using w(2) q keepsD [OF completed v] by simp
    qed
  qed
  ultimately show ?thesis unfolding run_scheduled_def by (rule keeps_then_do)
qed

lemma retries: "keeps I (retry_scheduled env tenant scenario_id i)"
proof -
  have "keeps I (reset_scheduled works k status)" for works k status
    unfolding reset_scheduled_def by (rule keeps_attempt) (rule changed)
  then show ?thesis
    unfolding retry_scheduled_def
    by (auto intro!: keeps_then_do keeps_failing keeps_transaction gets_scheduled inserts)
qed

lemma handles: "keeps I (handle_job env j)"
  by (cases j) (simp_all add: handle_job_def runs runs_async delivers keeps_finish)

end

subsubsection \<open>Operations on the scheduled executions\<close>

definition framed :: "scheduled_execution list \<Rightarrow> exec_world \<Rightarrow> bool" where
  "framed S w = (ew_scheduled w = S)"

interpretation framed: exec_frame env "framed S" for env S
  by unfold_locales (auto simp: framed_def keeps_def enqueue_def attempt_def)

lemma framed_self: "framed (ew_scheduled w) w"
  by (simp add: framed_def)

lemma at_least_one_pos [simp]: "0 < at_least_one n" "1 \<le> at_least_one n" "0 \<le> at_least_one n"
  by (auto simp: at_least_one_def)

interpretation lawful: creation_frame env scheduled_ok for env
proof
  show "keeps scheduled_ok (create_scheduled works item)" if "waits item" for works item
    using that by (intro keepsI) (auto simp: create_scheduled_def scheduled_ok_def find_scheduled_def find_None_iff row_ok_def waits_def
        split: if_splits option.splits)
qed (auto simp: scheduled_ok_def keeps_def enqueue_def attempt_def)

lemma ok_update:
  assumes "scheduled_ok w" "\<And>y. y \<in> set (ew_scheduled w) \<Longrightarrow> xs_id y = i \<Longrightarrow> row_ok (f y)" "\<And>y. xs_id (f y) = xs_id y"
  shows "scheduled_ok (update_scheduled i f w)"
proof -
  have e: "map (xs_id \<circ> (\<lambda>x. if xs_id x = i then f x else x)) (ew_scheduled w) = map xs_id (ew_scheduled w)"
    using assms(3) by simp
  show ?thesis using assms(1,2) by (auto simp: scheduled_ok_def update_scheduled_def e)
qed

lemma retry_ok: "keeps scheduled_ok (retry_scheduled env tenant scenario_id i)"
proof -
  have "keeps scheduled_ok (reset_scheduled works k ''pending'')" for works k
    unfolding reset_scheduled_def by (rule keeps_attempt, rule ok_update) (auto simp: row_ok_def)
  then show ?thesis
    unfolding retry_scheduled_def
    by (auto intro!: keeps_then_do keeps_failing keeps_transaction lawful.gets_scheduled lawful.inserts)
qed

subsubsection \<open>Workers\<close>

lemma row_is_ok:
  assumes w: "scheduled_ok w" and row: "row_is w i x' w'" and x': "row_ok x'"
  shows "scheduled_ok w'"
proof -
  have e: "map (xs_id \<circ> (\<lambda>y. if xs_id y = i then x' else y)) (ew_scheduled w) = map xs_id (ew_scheduled w)"
    using row by (simp add: row_is_def)
  show ?thesis using assms by (auto simp: scheduled_ok_def row_is_def e)
qed

lemma run_scheduled_ok: "keeps scheduled_ok (run_scheduled env i)"
proof (rule keepsI)
  fix w r w'
  assume w: "scheduled_ok w" and r: "run_scheduled env i w = (r, w')"
  show "scheduled_ok w'" using r
  proof (cases rule: run_scheduled_cases)
    case (ran x x')
    have "row_ok x" using ran(1) w by (auto simp: find_scheduled_def find_Some_iff scheduled_ok_def)
    then have "row_ok x'" using ran(2,4) by (auto simp: row_ok_def run_outcome_def)
    then show ?thesis by (rule row_is_ok [OF w ran(3)])
  qed (use w in simp)
qed

text \<open>What the handler of a job keeps and what changes of the queue keep, the worker keeps.\<close>

lemma work_keeps:
  assumes "keeps P (handle_job env j)" "\<And>w. P w \<Longrightarrow> P (w\<lparr>ew_jobs := remove1 j (ew_jobs w), ew_finished := ew_finished w @ [j]\<rparr>)" "P w"
  shows "P (work_job env j w)"
proof -
  obtain r w' where r: "handle_job env j w = (r, w')" by (cases "handle_job env j w")
  then have "P w'" by (rule keepsD [OF assms(1,3)])
  then show ?thesis using r assms(2) by (cases r) (simp_all add: work_job_def)
qed

lemma exec_move_ok: "exec_move ok w w' \<Longrightarrow> scheduled_ok w \<Longrightarrow> scheduled_ok w'"
proof (induction rule: exec_move.induct)
  case (move_work env j w)
  have "keeps scheduled_ok (handle_job env j)"
    by (cases j) (simp_all add: handle_job_def run_scheduled_ok lawful.runs_async lawful.delivers keeps_finish)
  then show ?case by (rule work_keeps) (use move_work in \<open>auto simp: scheduled_ok_def\<close>)
next
  case (move_discard w j)
  then show ?case by (simp add: scheduled_ok_def)
qed (use retry_ok lawful.created lawful.materialized lawful.retries_async lawful.creates_execution in \<open>auto simp: keeps_def\<close>)

lemma reachable_scheduled_ok: "(exec_move ok)\<^sup>*\<^sup>* empty_world w \<Longrightarrow> scheduled_ok w"
proof (induction rule: rtranclp_induct)
  case base
  show ?case by (simp add: scheduled_ok_def empty_world_def)
qed (rule exec_move_ok)

subsection \<open>Every run counts\<close>

text \<open>Runs of one execution, each in its own surroundings.\<close>

fun scheduled_runs :: "exec_env list \<Rightarrow> string \<Rightarrow> exec_world \<Rightarrow> exec_world" where
  "scheduled_runs [] i w = w"
| "scheduled_runs (env # envs) i w = scheduled_runs envs i (snd (run_scheduled env i w))"

definition terminal :: "scheduled_execution \<Rightarrow> bool" where
  "terminal x = (xs_status x = ''completed'' \<or> xs_status x = ''failed'')"

lemma find_row_is:
  assumes "row_is w i x' w'" "find_scheduled i w = Some x"
  shows "find_scheduled i w' = Some x'"
proof -
  have "find (\<lambda>y. xs_id y = i) (map (\<lambda>y. if xs_id y = i then x' else y) ys) = Some x'"
    if "find (\<lambda>y. xs_id y = i) ys = Some x" "xs_id x' = i" for ys
    using that by (induction ys) (auto split: if_splits)
  then show ?thesis using assms by (simp add: find_scheduled_def row_is_def)
qed

text \<open>When every statement works a run succeeds.\<close>

lemma works_Inr:
  assumes "\<And>n. works n"
  shows "then_do (attempt works n f) k w = k () (f w)"
  using assms by (simp add: then_do_def attempt_def)

lemma enqueue_works: "(\<And>n. xe_works env n) \<Longrightarrow> \<exists>w'. enqueue env j w = (Inr (), w') \<and> then_do (enqueue env j) k w = k () w'"
  by (simp add: enqueue_def attempt_def then_do_def)

lemma event_Inr: "(\<And>n. xe_works env n) \<Longrightarrow> fst (scheduled_event env item e p v w) = Inr ()"
  by (simp add: scheduled_event_def write_event_def works_Inr enqueue_def attempt_def)

lemma failure_Inr:
  assumes "\<And>n. xe_works env n"
  shows "fst (handle_scheduled_failure env item e w) = Inr ()"
proof -
  have "fst (transaction (xe_works env) m w) = fst (m w)" for m :: "unit exec_step"
    using assms by (simp add: transaction_def split: prod.split sum.split)
  then show ?thesis
    using assms by (simp add: handle_scheduled_failure_def Let_def record_scheduled_failure_def works_Inr enqueue_def event_Inr)
qed

lemma complete_Inr: "(\<And>n. xe_works env n) \<Longrightarrow> fst (complete_scheduled env item w) = Inr ()"
  by (simp add: complete_scheduled_def set_scheduled_status_def works_Inr event_Inr)

lemma run_scheduled_works:
  assumes "\<And>n. xe_works env n" "find_scheduled i w = Some x" "xs_status x = ''pending''"
  shows "fst (run_scheduled env i w) = Inr ()"
  using assms by (auto simp: run_scheduled_def then_do_def start_scheduled_def Let_def failure_Inr complete_Inr
      split: prod.split sum.split)

lemma run_scheduled_progress:
  assumes "\<And>n. xe_works env n" "find_scheduled i w = Some x" "xs_status x = ''pending''"
  obtains x' where "find_scheduled i (snd (run_scheduled env i w)) = Some x'"
    "terminal x' \<or> xs_status x' = ''pending'' \<and> xs_attempts x' = xs_attempts x + 1 \<and> xs_max x' = xs_max x \<and>
      xs_attempts x' < at_least_one (xs_max x)"
proof -
  obtain r w' where r: "run_scheduled env i w = (r, w')" by (cases "run_scheduled env i w")
  have ok: "r = Inr ()" using run_scheduled_works [OF assms] r by simp
  show thesis using r
  proof (cases rule: run_scheduled_cases)
    case (idle e)
    then show thesis using ok by simp
  next
    case (ran y x')
    then have "find_scheduled i w' = Some x'" using find_row_is by blast
    moreover have "terminal x' \<or> xs_status x' = ''pending'' \<and> xs_attempts x' = xs_attempts x + 1 \<and> xs_max x' = xs_max x \<and>
        xs_attempts x' < at_least_one (xs_max x)"
      using ran assms(2) ok by (auto simp: run_outcome_def terminal_def)
    ultimately show thesis using that r by simp
  qed
qed

lemma run_scheduled_idle:
  assumes "find_scheduled i w = Some x" "xs_status x \<noteq> ''pending''"
  shows "snd (run_scheduled env i w) = w"
  using assms by (simp add: run_scheduled_def then_do_def start_scheduled_def)

lemma runs_idle:
  "find_scheduled i w = Some x \<Longrightarrow> xs_status x \<noteq> ''pending'' \<Longrightarrow> scheduled_runs envs i w = w"
  by (induction envs) (simp_all add: run_scheduled_idle)

lemma runs_terminate:
  assumes "\<And>env n. env \<in> set envs \<Longrightarrow> xe_works env n" "find_scheduled i w = Some x" "xs_status x = ''pending''"
    "at_least_one (xs_max x) - xs_attempts x \<le> int (length envs)" "xs_attempts x < at_least_one (xs_max x)"
  shows "\<exists>y. find_scheduled i (scheduled_runs envs i w) = Some y \<and> terminal y"
  using assms
proof (induction envs arbitrary: w x)
  case (Cons env envs)
  have "\<And>n. xe_works env n" using Cons.prems(1) by simp
  from run_scheduled_progress [OF this Cons.prems(2,3)] obtain x' where
    f: "find_scheduled i (snd (run_scheduled env i w)) = Some x'" and
    c: "terminal x' \<or> xs_status x' = ''pending'' \<and> xs_attempts x' = xs_attempts x + 1 \<and> xs_max x' = xs_max x \<and>
      xs_attempts x' < at_least_one (xs_max x)" by blast
  show ?case
  proof (cases "terminal x'")
    case True
    then have "xs_status x' \<noteq> ''pending''" by (auto simp: terminal_def)
    then show ?thesis using f True runs_idle by simp
  next
    case False
    then have "xs_status x' = ''pending''" "at_least_one (xs_max x') - xs_attempts x' \<le> int (length envs)"
      "xs_attempts x' < at_least_one (xs_max x')" using c Cons.prems(4) by auto
    then show ?thesis using Cons.IH [OF _ f] Cons.prems(1) by simp
  qed
qed simp

subsection \<open>Executions that stay marked as running\<close>

lemma distinct_row:
  "distinct (map f xs) \<Longrightarrow> x \<in> set xs \<Longrightarrow> y \<in> set xs \<Longrightarrow> f x = f y \<Longrightarrow> x = y"
  by (metis distinct_map inj_onD)

lemma other_row_stays:
  "row_is w i x' w' \<Longrightarrow> x \<in> set (ew_scheduled w) \<Longrightarrow> xs_id x \<noteq> i \<Longrightarrow> x \<in> set (ew_scheduled w')"
  by (force simp: row_is_def)

lemma found_other:
  assumes "scheduled_ok w" "x \<in> set (ew_scheduled w)" "y \<in> set (ew_scheduled w)" "xs_status y \<noteq> xs_status x"
  shows "xs_id x \<noteq> xs_id y"
  using distinct_row [of xs_id "ew_scheduled w" x y] assms by (auto simp: scheduled_ok_def)

text \<open>A row stays as it is as long as no run of it starts and no retry resets it.\<close>

definition has_row :: "scheduled_execution \<Rightarrow> exec_world \<Rightarrow> bool" where
  "has_row x w = (x \<in> set (ew_scheduled w))"

interpretation rows: creation_frame env "has_row x" for env x
proof
  show "keeps (has_row x) (create_scheduled works item)" for works item
    by (rule keepsI) (auto simp: create_scheduled_def has_row_def split: if_splits option.splits)
qed (auto simp: has_row_def keeps_def enqueue_def attempt_def)

lemma retry_keeps_row:
  assumes "scheduled_ok w" "has_row x w" "xs_status x \<noteq> ''failed''"
  shows "has_row x (snd (retry_scheduled env tenant scenario_id i w))"
proof (cases "find (\<lambda>x. xs_tenant x = tenant \<and> xs_scenario x = scenario_id \<and> xs_id x = i) (ew_scheduled w)")
  case None
  then show ?thesis using assms by (simp add: retry_scheduled_def then_do_def get_scheduled_def)
next
  case (Some y)
  have y: "y \<in> set (ew_scheduled w)" "xs_id y = i" using Some by (auto simp: find_Some_iff)
  show ?thesis
  proof (cases "xs_status y = ''failed''")
    case False
    have "snd (get_scheduled works tenant scenario_id i v) = v" for works v
      by (simp add: get_scheduled_def split: option.split)
    then show ?thesis using assms(2) Some False
      by (simp add: retry_scheduled_def then_do_def get_scheduled_def failing_def split: prod.split)
  next
    case True
    have i: "xs_id x \<noteq> i" using found_other [OF assms(1) _ y(1)] assms(2,3) True y(2) by (auto simp: has_row_def)
    have "keeps (has_row x) (reset_scheduled works i status)" for works status
      unfolding reset_scheduled_def by (rule keeps_attempt) (use i in \<open>force simp: update_scheduled_def has_row_def\<close>)
    then have "keeps (has_row x) (retry_scheduled env tenant scenario_id i)"
      unfolding retry_scheduled_def
      by (auto intro!: keeps_then_do keeps_failing keeps_transaction rows.gets_scheduled rows.inserts)
    then show ?thesis using assms(2) by (simp add: keeps_def)
  qed
qed

lemma job_keeps_row:
  assumes "scheduled_ok w" "has_row x w" "xs_status x \<noteq> ''pending'' \<or> (\<forall>t. j \<noteq> ScheduledJob (xs_id x) t)" "handle_job env j w = (r, w')"
  shows "has_row x w'"
proof (cases "\<exists>i t. j = ScheduledJob i t")
  case True
  then obtain i t where j: "j = ScheduledJob i t" by blast
  then have "run_scheduled env i w = (r, w')" using assms(4) by (simp add: handle_job_def)
  then show ?thesis
  proof (cases rule: run_scheduled_cases)
    case (ran y x')
    have y: "y \<in> set (ew_scheduled w)" "xs_id y = i" using ran(1) by (auto simp: find_scheduled_def find_Some_iff)
    have "xs_id x \<noteq> i" using assms(2,3) found_other [OF assms(1) _ y(1)] ran(2) y(2) j by (auto simp: has_row_def)
    then show ?thesis using other_row_stays [OF ran(3)] assms(2) by (simp add: has_row_def)
  qed (use assms(2) in simp)
next
  case False
  then have "keeps (has_row x) (handle_job env j)"
    using rows.runs_async rows.delivers keeps_finish by (cases j) (auto simp: handle_job_def)
  from keepsD [OF this assms(2,4)] show ?thesis .
qed

lemma row_move:
  assumes "exec_move ok w w'" "has_row x w" "scheduled_ok w" "xs_status x \<noteq> ''failed''"
    "xs_status x \<noteq> ''pending'' \<or> (\<forall>t. ScheduledJob (xs_id x) t \<notin> set (ew_jobs w))"
  shows "has_row x w'"
  using assms
proof (induction rule: exec_move.induct)
  case (move_work env j w)
  obtain r w' where r: "handle_job env j w = (r, w')" by (cases "handle_job env j w")
  have "has_row x w'" by (rule job_keeps_row [OF move_work(4,3) _ r]) (use move_work in auto)
  then show ?case using r by (cases r) (simp_all add: work_job_def has_row_def)
next
  case (move_discard w j)
  then show ?case by (simp add: has_row_def)
qed (use rows.created rows.materialized rows.creates_execution rows.retries_async retry_keeps_row in \<open>auto simp: keeps_def\<close>)

lemma running_moves:
  assumes "(exec_move ok)\<^sup>*\<^sup>* w w'" "scheduled_ok w" "x \<in> set (ew_scheduled w)" "xs_status x = ''running''"
  shows "x \<in> set (ew_scheduled w') \<and> scheduled_ok w'"
  using assms
proof (induction rule: rtranclp_induct)
  case (step y z)
  then show ?case using row_move [OF step(2)] exec_move_ok [OF step(2)] by (simp add: has_row_def)
qed simp

subsection \<open>Executions whose job is used up\<close>

text \<open>Every job of the execution is finished, and River still knows one.\<close>

definition used_up :: "exec_env \<Rightarrow> string \<Rightarrow> exec_world \<Rightarrow> bool" where
  "used_up env i w = (unique_by_args env \<longrightarrow>
     (\<forall>t. ScheduledJob i t \<notin> set (ew_jobs w)) \<and> (\<exists>t. ScheduledJob i t \<in> set (ew_finished w)))"

interpretation used: queue_frame env "used_up env i" for env i
proof
  show "keeps (used_up env i) (enqueue env j)" for j
  proof -
    have "\<not> xe_inserts env (ScheduledJob i t) (ew_jobs w) (ew_finished w)" if "used_up env i w" "unique_by_args env" for w t
      using that by (force simp: used_up_def unique_by_args_def)
    then show ?thesis unfolding enqueue_def by (intro keeps_attempt) (auto simp: used_up_def)
  qed
  show "keeps (used_up env i) (create_scheduled works item)" for works item
    by (rule keepsI) (auto simp: create_scheduled_def used_up_def split: if_splits option.splits)
qed (auto simp: used_up_def)

lemma used_move:
  assumes "exec_move unique_by_args w w'" "\<And>env. used_up env i w" "unique_by_args env"
  shows "used_up env i w'"
  using assms
proof (induction rule: exec_move.induct)
  case (move_work env' j w)
  have "used_up env' i (work_job env' j w)"
    by (rule work_keeps [OF used.handles]) (use move_work in \<open>auto simp: used_up_def dest: in_set_remove1 [THEN iffD1] notin_set_remove1\<close>)
  then show ?case using move_work by (simp add: used_up_def)
next
  case (move_discard w j)
  then show ?case by (auto simp: used_up_def dest: notin_set_remove1)
qed (use used.created used.materialized used.creates_execution used.retries_async used.retries in \<open>auto simp: keeps_def used_up_def\<close>)

text \<open>There is at most one unfinished job for an execution.\<close>

definition is_run :: "string \<Rightarrow> job \<Rightarrow> bool" where
  "is_run i j = (case j of ScheduledJob k _ \<Rightarrow> k = i | _ \<Rightarrow> False)"

lemma same_run: "same_args (ScheduledJob i t) k = is_run i k" "is_run i j \<Longrightarrow> \<exists>t. j = ScheduledJob i t"
  by (cases k; auto simp: is_run_def) (auto simp: is_run_def split: job.splits)

definition one_run :: "exec_env \<Rightarrow> string \<Rightarrow> exec_world \<Rightarrow> bool" where
  "one_run env i w = (unique_by_args env \<longrightarrow> length (filter (is_run i) (ew_jobs w)) \<le> 1)"

interpretation one: queue_frame env "one_run env i" for env i
proof
  show "keeps (one_run env i) (enqueue env j)" for j
  proof -
    have "filter (is_run i) (ew_jobs w) = []" if "xe_inserts env j (ew_jobs w) (ew_finished w)" "unique_by_args env" "is_run i j" for w
      using that same_run(2) [OF that(3)] by (auto simp: unique_by_args_def filter_empty_conv same_run(1))
    then show ?thesis unfolding enqueue_def by (intro keeps_attempt) (auto simp: one_run_def)
  qed
  show "keeps (one_run env i) (create_scheduled works item)" for works item
    by (rule keepsI) (auto simp: create_scheduled_def one_run_def split: if_splits option.splits)
qed (auto simp: one_run_def)

definition has_job :: "job \<Rightarrow> exec_world \<Rightarrow> bool" where
  "has_job j w = (j \<in> set (ew_jobs w))"

interpretation job: queue_frame env "has_job j" for env j
proof
  show "keeps (has_job j) (create_scheduled works item)" for works item
    by (rule keepsI) (auto simp: create_scheduled_def has_job_def split: if_splits option.splits)
qed (auto simp: has_job_def enqueue_def keeps_def attempt_def)

lemma filter_remove1: "length (filter P (remove1 j js)) \<le> length (filter P js)"
  by (induction js) auto

lemma one_move:
  assumes "exec_move unique_by_args w w'" "\<And>env. one_run env i w"
  shows "one_run env i w'"
  using assms
proof (induction arbitrary: env rule: exec_move.induct)
  case (move_work env' j w)
  have "one_run env' i (work_job env' j w)"
    by (rule work_keeps [OF one.handles]) (use move_work in \<open>auto simp: one_run_def intro: order_trans [OF filter_remove1]\<close>)
  then show ?case using move_work by (simp add: one_run_def)
next
  case (move_discard w j)
  then show ?case by (auto simp: one_run_def intro: order_trans [OF filter_remove1])
qed (use one.created one.materialized one.creates_execution one.retries_async one.retries in \<open>auto simp: keeps_def one_run_def\<close>)

lemma reachable_one: "(exec_move unique_by_args)\<^sup>*\<^sup>* empty_world w \<Longrightarrow> one_run env i w"
proof (induction arbitrary: env rule: rtranclp_induct)
  case (step y z)
  then show ?case using one_move by blast
qed (simp add: one_run_def empty_world_def)

text \<open>A job whose handler succeeded is the last of its execution.\<close>

lemma last_run:
  assumes "unique_by_args env" "one_run env i w" "has_job (ScheduledJob i t) w" "handle_job env (ScheduledJob i t) w = (Inr u, w1)"
  shows "used_up env i (work_job env (ScheduledJob i t) w)"
proof -
  let ?j = "ScheduledJob i t"
  have h: "has_job ?j w1" by (rule keepsD [OF job.handles assms(3,4)])
  have o: "one_run env i w1" by (rule keepsD [OF one.handles assms(2,4)])
  have "filter (is_run i) (remove1 ?j (ew_jobs w1)) = []"
  proof -
    obtain as bs where "ew_jobs w1 = as @ ?j # bs" "?j \<notin> set as" using h by (metis has_job_def split_list_first)
    then show ?thesis using o assms(1) by (auto simp: one_run_def is_run_def remove1_append filter_empty_conv Suc_le_eq)
  qed
  then have "ScheduledJob i v \<notin> set (remove1 ?j (ew_jobs w1))" for v by (auto simp: filter_empty_conv is_run_def)
  then show ?thesis using assms(4) by (auto simp: used_up_def work_job_def)
qed

lemma used_moves:
  assumes "(exec_move unique_by_args)\<^sup>*\<^sup>* w w'" "scheduled_ok w" "has_row x w" "xs_status x = ''pending''" "unique_by_args env" "used_up env (xs_id x) w"
  shows "scheduled_ok w' \<and> has_row x w' \<and> used_up env (xs_id x) w'"
  using assms
proof (induction rule: rtranclp_induct)
  case (step y z)
  then have y: "scheduled_ok y" "has_row x y" "used_up env (xs_id x) y" by auto
  have all: "used_up env' (xs_id x) y" for env' using y(3) assms(5) by (simp add: used_up_def)
  have "has_row x z" by (rule row_move [OF step(2) y(2,1)]) (use y(3) assms(4,5) in \<open>auto simp: used_up_def\<close>)
  then show ?case using exec_move_ok [OF step(2) y(1)] used_move [OF step(2) all assms(5)] by blast
qed simp

subsection \<open>A tenant that schedules an execution\<close>

definition demo_env :: "(string \<Rightarrow> bool) \<Rightarrow> (string \<Rightarrow> string \<Rightarrow> int \<Rightarrow> stored_record list res) \<Rightarrow> exec_env" where
  "demo_env works records = \<lparr>xe_services = (\<lambda>n. demo_services), xe_records = records, xe_works = works, xe_clock = (\<lambda>s. 7),
     xe_gen = (\<lambda>n. ''x-'' @ itoa (int n)), xe_scheduled_max = 2, xe_scheduled_backoff = 30, xe_async_max = 2,
     xe_async_backoff = 30, xe_tx = True, xe_post = (\<lambda>u x. Inr 503),
     xe_parse_url = (\<lambda>u. Inr (''https'', ''h'')), xe_live_scheduled = (\<lambda>n. Inr []), xe_decode = (\<lambda>s. Inl ''text''),
     xe_zones = (\<lambda>z. None),
     xe_inserts = (\<lambda>j live finished. \<not> list_ex (same_args j) (live @ finished))\<rparr>"

definition demo_works :: exec_env where
  "demo_works = demo_env (\<lambda>s. True) (\<lambda>t ty n. Inr [])"

definition demo_no_records :: exec_env where
  "demo_no_records = demo_env (\<lambda>s. True) (\<lambda>t ty n. Inl ''timeout'')"

definition demo_no_status :: exec_env where
  "demo_no_status = demo_env (\<lambda>s. s \<noteq> ''scheduled status'') (\<lambda>t ty n. Inr [])"

definition demo_created :: exec_world where
  "demo_created = snd (create_scheduled_execution demo_works ''t'' ''s1'' 5 \<lparr>sr_items = [], sr_limit = 0, sr_key = ''k''\<rparr> empty_world)"

lemma demo_unique [simp]: "unique_by_args (demo_env works records)"
  by (auto simp: demo_env_def unique_by_args_def list_ex_iff)

lemma demo_envs_unique [simp]: "unique_by_args demo_works" "unique_by_args demo_no_records" "unique_by_args demo_no_status"
  by (simp_all add: demo_works_def demo_no_records_def demo_no_status_def)

lemma demo_created_reached: "(exec_move unique_by_args)\<^sup>*\<^sup>* empty_world demo_created"
  unfolding demo_created_def by (rule r_into_rtranclp, rule move_create) simp

lemma row_in_map: "map f xs = [y] \<Longrightarrow> \<exists>x \<in> set xs. f x = y"
  by (cases xs) auto

lemma job_found:
  "find (\<lambda>j. case j of ScheduledJob i t \<Rightarrow> i = k \<and> t = None | _ \<Rightarrow> False) js \<noteq> None \<Longrightarrow> ScheduledJob k None \<in> set js"
  by (induction js) (auto split: if_splits job.splits)

lemma demo_envs_work [simp]: "xe_works demo_works n" "xe_works demo_no_records n"
  by (simp_all add: demo_works_def demo_no_records_def demo_env_def)

lemma demo_created_rows:
  "map (\<lambda>x. (xs_id x, xs_status x, xs_attempts x, xs_max x)) (ew_scheduled demo_created) = [(''x-0'', ''pending'', 0, 2)]"
  "find (\<lambda>j. case j of ScheduledJob i t \<Rightarrow> i = ''x-0'' \<and> t = None | _ \<Rightarrow> False) (ew_jobs demo_created) \<noteq> None"
  by code_simp+

subsection \<open>Properties\<close>

lemma retry_delay_bounds:
  "0 < base \<Longrightarrow> base \<le> 2 ^ 43 \<Longrightarrow> 1 \<le> a \<Longrightarrow> a \<le> a' \<Longrightarrow>
    base \<le> retry_delay base a \<and> retry_delay base a \<le> retry_delay base a' \<and> retry_delay base a' \<le> 1024 * base"
  using retry_delay_range retry_delay_mono by simp

lemma retry_delay_bounds_witness:
  "retry_delay 30000000000 2 \<le> retry_delay 30000000000 40 \<and> retry_delay 30000000000 40 \<le> 30720000000000"
  using retry_delay_bounds [of 30000000000 2 40] by simp

lemma demo_created_row:
  obtains x where "x \<in> set (ew_scheduled demo_created)" "xs_id x = ''x-0''" "xs_status x = ''pending''" "xs_max x = 2"
proof -
  obtain x where "x \<in> set (ew_scheduled demo_created)" "(xs_id x, xs_status x, xs_attempts x, xs_max x) = (''x-0'', ''pending'', 0, 2)"
    using row_in_map [OF demo_created_rows(1)] by blast
  then show thesis using that [of x] by simp
qed



text \<open>C24. In every reachable state, a pending scheduled execution whose runs find every
  statement working is completed or failed after at most as many runs as its attempts allow,
  whatever evaluation and repositories answer.\<close>

theorem scheduled_terminates:
  assumes "(exec_move ok)\<^sup>*\<^sup>* empty_world w" "x \<in> set (ew_scheduled w)" "xs_status x = ''pending''"
    "\<And>env n. env \<in> set envs \<Longrightarrow> xe_works env n" "at_least_one (xs_max x) \<le> int (length envs)"
  shows "\<exists>y. find_scheduled (xs_id x) (scheduled_runs envs (xs_id x) w) = Some y \<and> terminal y"
proof -
  have ok: "scheduled_ok w" by (rule reachable_scheduled_ok [OF assms(1)])
  then have row: "row_ok x" and d: "distinct (map xs_id (ew_scheduled w))" using assms(2) by (simp_all add: scheduled_ok_def)
  obtain y where y: "find_scheduled (xs_id x) w = Some y"
    using assms(2) by (cases "find_scheduled (xs_id x) w") (auto simp: find_scheduled_def find_None_iff)
  then have "y = x" using distinct_row [OF d _ assms(2)] by (auto simp: find_scheduled_def find_Some_iff)
  then show ?thesis using runs_terminate [OF assms(4) y] row assms(3,5) by (auto simp: row_ok_def)
qed

lemma scheduled_terminates_witness:
  "\<exists>y. find_scheduled ''x-0'' (scheduled_runs [demo_no_records, demo_works] ''x-0'' demo_created) = Some y \<and> terminal y"
proof (rule demo_created_row)
  fix x :: scheduled_execution
  assume x: "x \<in> set (ew_scheduled demo_created)" "xs_id x = ''x-0''" "xs_status x = ''pending''" "xs_max x = 2"
  show ?thesis
    using scheduled_terminates [OF demo_created_reached x(1,3), of "[demo_no_records, demo_works]"] x(2,4)
    by (fastforce simp: at_least_one_def)
qed

text \<open>C26. A scheduled execution that is marked as running while no worker holds it, which a
  failed status update leaves behind, is never changed again by any operation: there is no way
  back to pending.\<close>

theorem running_stuck:
  assumes "(exec_move ok)\<^sup>*\<^sup>* empty_world w" "x \<in> set (ew_scheduled w)" "xs_status x = ''running''" "(exec_move ok)\<^sup>*\<^sup>* w w'"
  shows "x \<in> set (ew_scheduled w')"
  using running_moves [OF assms(4) reachable_scheduled_ok [OF assms(1)] assms(2,3)] by simp

definition demo_stuck :: exec_world where
  "demo_stuck = work_job demo_no_status (ScheduledJob ''x-0'' None) demo_created"

lemma demo_stuck_reached: "(exec_move unique_by_args)\<^sup>*\<^sup>* empty_world demo_stuck"
proof (rule rtranclp.rtrancl_into_rtrancl [OF demo_created_reached])
  have "ScheduledJob ''x-0'' None \<in> set (ew_jobs demo_created)"
    by (rule job_found [OF demo_created_rows(2)])
  then show "exec_move unique_by_args demo_created demo_stuck" unfolding demo_stuck_def by (rule move_work [rotated]) simp
qed

lemma demo_stuck_rows: "map (\<lambda>x. (xs_id x, xs_status x)) (ew_scheduled demo_stuck) = [(''x-0'', ''running'')]"
  by code_simp

lemma running_stuck_witness:
  "\<exists>x \<in> set (ew_scheduled demo_stuck). xs_status x = ''running'' \<and>
    x \<in> set (ew_scheduled (work_job demo_works (ScheduledJob ''x-0'' None) demo_stuck))"
proof -
  obtain x where "x \<in> set (ew_scheduled demo_stuck)" "(xs_id x, xs_status x) = (''x-0'', ''running'')"
    using row_in_map [OF demo_stuck_rows] by blast
  then have x: "x \<in> set (ew_scheduled demo_stuck)" "xs_status x = ''running''" by simp_all
  have "find (\<lambda>j. case j of ScheduledJob i t \<Rightarrow> i = ''x-0'' \<and> t = None | _ \<Rightarrow> False) (ew_jobs demo_stuck) \<noteq> None" by code_simp
  then have "ScheduledJob ''x-0'' None \<in> set (ew_jobs demo_stuck)" by (rule job_found)
  then have "exec_move unique_by_args demo_stuck (work_job demo_works (ScheduledJob ''x-0'' None) demo_stuck)" by (rule move_work [rotated]) simp
  then show ?thesis using running_stuck [OF demo_stuck_reached x] x by blast
qed

subsection \<open>Callbacks\<close>

text \<open>One failed delivery ends the callback: its row is marked, the handler reports no error, the job is dropped.\<close>

lemma callback_failed_once:
  assumes "find (\<lambda>x. xa_tenant x = tenant \<and> xa_id x = i) (ew_async w) = Some x" "xa_callback x \<noteq> []"
    "xa_callback_status x \<noteq> ''sent''" "\<And>n. xe_works env n" "\<And>code. xe_post env (xa_callback x) x = Inr code \<Longrightarrow> code < 200 \<or> 300 \<le> code"
  shows "ew_jobs (work_job env (CallbackJob tenant i) w) = remove1 (CallbackJob tenant i) (ew_jobs w) \<and>
    (\<forall>y \<in> set (ew_async (work_job env (CallbackJob tenant i) w)). xa_id y = i \<longrightarrow>
      xa_callback_status y = ''failed'' \<and> xa_callback_attempts y = xa_callback_attempts x + 1)"
proof -
  have i: "xa_id x = i" using assms(1) by (auto simp: find_Some_iff)
  obtain e where "handle_job env (CallbackJob tenant i) w =
      update_callback (xe_works env) i ''failed'' (xa_callback_attempts x + 1) e None w"
    using assms i by (cases "xe_post env (xa_callback x) x")
      (auto simp: handle_job_def deliver_callback_def then_do_def get_async_def post_callback_def Let_def)
  then show ?thesis using assms(4) i by (auto simp: work_job_def update_callback_def attempt_def update_async_def)
qed

definition demo_async :: async_execution where
  "demo_async = \<lparr>xa_id = ''a-0'', xa_tenant = ''t'', xa_scenario = ''s1'', xa_object_type = ''transactions'', xa_status = ''completed'',
     xa_key = [], xa_attempts = 1, xa_max = 2, xa_next = None, xa_request = Inl ''none'', xa_error = [], xa_result = Some NullResult,
     xa_callback = ''http://h'', xa_callback_status = ''pending'', xa_callback_attempts = 0, xa_callback_error = [],
     xa_callback_sent = None, xa_created = 0, xa_completed = Some 1, xa_failed = None\<rparr>"

lemma callback_failed_once_witness:
  "ew_jobs (work_job demo_works (CallbackJob ''t'' ''a-0'') (empty_world\<lparr>ew_async := [demo_async], ew_jobs := [CallbackJob ''t'' ''a-0'']\<rparr>)) = []"
  using callback_failed_once [of "''t''" "''a-0''" "empty_world\<lparr>ew_async := [demo_async], ew_jobs := [CallbackJob ''t'' ''a-0'']\<rparr>" demo_async demo_works]
  by (simp add: demo_async_def demo_works_def demo_env_def)

end
