(* ===== verification/Execution_Wait.thy ===== *)
theory Execution_Wait
  imports Execution_Laws
begin

text \<open>
  The wait for an early result of an asynchronous execution and the lists of executions
  (\<^verbatim>\<open>service/execution_service.go\<close>). While a call waits others change the row, so the wait is given what its
  reads and its looks at the clock yield, in order.
\<close>

subsection \<open>The wait\<close>

definition resolve_wait_window :: "int \<Rightarrow> int \<Rightarrow> int \<Rightarrow> int" where
  "resolve_wait_window default_window max_window wait_ms =
     (if wait_ms \<le> 0 then default_window
      else (let window = wrap64 (wait_ms * 10 ^ 6) in if window > max_window then max_window else window))"

definition wait_over :: "async_execution \<Rightarrow> bool" where
  "wait_over x = (xa_status x = ''completed'' \<or> xa_status x = ''failed'')"

text \<open>The k-th turn reads the row once and the clock at most twice.\<close>

partial_function (option) wait_loop ::
    "(nat \<Rightarrow> async_execution res) \<Rightarrow> (nat \<Rightarrow> int) \<Rightarrow> (nat \<Rightarrow> bool) \<Rightarrow> int \<Rightarrow> nat \<Rightarrow> async_execution res option" where
  "wait_loop reads clock cancelled deadline k =
     (case reads k of
        Inl e \<Rightarrow> Some (Inl e)
      | Inr x \<Rightarrow>
          if wait_over x then Some (Inr x)
          else if clock (2 * k) > deadline \<or> clock (2 * k + 1) = deadline then Some (Inr x)
          else if cancelled k then Some (Inl ''context canceled'')
          else wait_loop reads clock cancelled deadline (Suc k))"

definition wait_for_terminal ::
    "(nat \<Rightarrow> async_execution res) \<Rightarrow> int \<Rightarrow> (nat \<Rightarrow> int) \<Rightarrow> (nat \<Rightarrow> bool) \<Rightarrow> int \<Rightarrow> async_execution res option" where
  "wait_for_terminal reads start clock cancelled window =
     (if window \<le> 0 then Some (reads 0) else wait_loop reads clock cancelled (start + window) 0)"

definition wait_ends :: "(nat \<Rightarrow> async_execution res) \<Rightarrow> (nat \<Rightarrow> int) \<Rightarrow> (nat \<Rightarrow> bool) \<Rightarrow> int \<Rightarrow> nat \<Rightarrow> async_execution res \<Rightarrow> bool" where
  "wait_ends reads clock cancelled deadline n r =
     (r = reads n \<and> (\<forall>x. r = Inr x \<longrightarrow> wait_over x \<or> deadline < clock (2 * n) \<or> deadline = clock (2 * n + 1))
      \<or> r = Inl ''context canceled'' \<and> cancelled n)"

lemma wait_loop_returns:
  assumes "0 < p" "\<And>k. clock (2 * k) + p \<le> clock (2 * Suc k)" "deadline - clock (2 * k) < int d * p"
  shows "\<exists>r n. wait_loop reads clock cancelled deadline k = Some r \<and> k \<le> n \<and> n \<le> k + d \<and>
    wait_ends reads clock cancelled deadline n r \<and> (\<forall>m. k \<le> m \<and> m < n \<longrightarrow> (\<exists>y. reads m = Inr y \<and> \<not> wait_over y))"
  using assms(3)
proof (induction d arbitrary: k)
  case 0
  then show ?case
    by (subst wait_loop.simps) (intro exI [of _ "reads k"] exI [of _ k], auto simp: wait_ends_def split: sum.split)
next
  case (Suc d)
  show ?case
  proof (cases "\<exists>y. reads k = Inr y \<and> \<not> wait_over y \<and> \<not> clock (2 * k) > deadline \<and> clock (2 * k + 1) \<noteq> deadline \<and> \<not> cancelled k")
    case True
    then obtain y where y: "reads k = Inr y" "\<not> wait_over y" "\<not> clock (2 * k) > deadline" "clock (2 * k + 1) \<noteq> deadline" "\<not> cancelled k"
      by blast
    then have l: "wait_loop reads clock cancelled deadline k = wait_loop reads clock cancelled deadline (Suc k)"
      by (simp add: wait_loop.simps [of reads clock cancelled deadline k])
    have "deadline - clock (2 * Suc k) < int d * p" using Suc.prems assms(2) [of k] by (simp add: distrib_right)
    from Suc.IH [OF this] obtain r n where n: "wait_loop reads clock cancelled deadline (Suc k) = Some r" "Suc k \<le> n" "n \<le> Suc k + d"
      "wait_ends reads clock cancelled deadline n r" "\<And>m. Suc k \<le> m \<Longrightarrow> m < n \<Longrightarrow> \<exists>y. reads m = Inr y \<and> \<not> wait_over y" by blast
    have "\<exists>y. reads m = Inr y \<and> \<not> wait_over y" if "k \<le> m" "m < n" for m
      using n(5) [of m] that y by (cases "m = k") auto
    then show ?thesis using n l by (intro exI [of _ r] exI [of _ n]) auto
  next
    case False
    then have "\<exists>r. wait_loop reads clock cancelled deadline k = Some r \<and> wait_ends reads clock cancelled deadline k r"
      by (subst wait_loop.simps) (auto simp: wait_ends_def split: sum.split)
    then show ?thesis by (metis le_add1 less_le_not_le order_refl)
  qed
qed

text \<open>The wait lasts a bounded number of turns and tells the truth: it returns a row it read, the first that is
  final unless the deadline passes before, a failed read or the end of the call.\<close>

text \<open>C27. The wait for an early result ends after a number of turns that the window and the
  poll interval bound, and returns a row it read: the first that is final, unless the deadline, a
  failed read or the end of the call comes before.\<close>

theorem wait_returns:
  assumes "0 < p" "\<And>k. clock (2 * k) + p \<le> clock (2 * Suc k)" "start \<le> clock 0" "0 < window" "window < int d * p"
  shows "\<exists>r n. wait_for_terminal reads start clock cancelled window = Some r \<and> n \<le> d \<and>
    wait_ends reads clock cancelled (start + window) n r \<and> (\<forall>m < n. \<exists>y. reads m = Inr y \<and> \<not> wait_over y)"
proof -
  have "start + window - clock (2 * 0) < int d * p" using assms(3,5) by simp
  from wait_loop_returns [OF assms(1,2) this] obtain r n where
    "wait_loop reads clock cancelled (start + window) 0 = Some r \<and> 0 \<le> n \<and> n \<le> 0 + d \<and>
      wait_ends reads clock cancelled (start + window) n r \<and> (\<forall>m. 0 \<le> m \<and> m < n \<longrightarrow> (\<exists>y. reads m = Inr y \<and> \<not> wait_over y))"
    by blast
  then show ?thesis using assms(4) by (intro exI [of _ r] exI [of _ n]) (simp add: wait_for_terminal_def)
qed

lemma wait_returns_witness:
  "\<exists>r n. wait_for_terminal (\<lambda>k. Inr (if k < 2 then demo_async\<lparr>xa_status := ''queued''\<rparr> else demo_async)) 0 (\<lambda>k. 10 * int k) (\<lambda>k. False) 50
    = Some r \<and> n \<le> (3::nat)"
  using wait_returns [of 20 "\<lambda>k. 10 * int k" 0 50 3 "\<lambda>k. Inr (if k < 2 then demo_async\<lparr>xa_status := ''queued''\<rparr> else demo_async)" "\<lambda>k. False"]
  by auto

lemma wait_window_range:
  assumes "0 \<le> default_window" "default_window \<le> max_window"
  shows "resolve_wait_window default_window max_window ms \<le> max_window"
  using assms by (simp add: resolve_wait_window_def Let_def)

text \<open>A wait of more than 292 years wraps around: the call then does not wait at all.\<close>

lemma huge_wait_is_none: "resolve_wait_window 300000000 1000000000 9300000000000 \<le> 0"
  by code_simp

subsection \<open>Lists\<close>

text \<open>\<^verbatim>\<open>filterScheduledExecutions\<close>, \<^verbatim>\<open>filterAsyncExecutions\<close>: the loop over the items that stops at the limit.\<close>

record list_filter =
  lf_status :: string
  lf_min_attempts :: int
  lf_limit :: int

fun filter_loop :: "('a \<Rightarrow> string) \<Rightarrow> ('a \<Rightarrow> int) \<Rightarrow> list_filter \<Rightarrow> 'a list \<Rightarrow> 'a list \<Rightarrow> 'a list" where
  "filter_loop status attempts f [] out = out"
| "filter_loop status attempts f (x # xs) out =
     (if lf_status f \<noteq> [] \<and> status x \<noteq> lf_status f then filter_loop status attempts f xs out
      else if attempts x < lf_min_attempts f then filter_loop status attempts f xs out
      else (let out = out @ [x] in
        if lf_limit f > 0 \<and> int (length out) \<ge> lf_limit f then out else filter_loop status attempts f xs out))"

definition filter_scheduled :: "scheduled_execution list \<Rightarrow> list_filter \<Rightarrow> scheduled_execution list" where
  "filter_scheduled items f = filter_loop xs_status xs_attempts f items []"

definition filter_async :: "async_execution list \<Rightarrow> list_filter \<Rightarrow> async_execution list" where
  "filter_async items f = filter_loop xa_status xa_attempts f items []"

definition admits :: "('a \<Rightarrow> string) \<Rightarrow> ('a \<Rightarrow> int) \<Rightarrow> list_filter \<Rightarrow> 'a \<Rightarrow> bool" where
  "admits status attempts f x = ((lf_status f = [] \<or> status x = lf_status f) \<and> lf_min_attempts f \<le> attempts x)"

lemma filter_loop_take:
  assumes "lf_limit f > 0 \<longrightarrow> int (length out) < lf_limit f"
  shows "filter_loop status attempts f xs out =
    out @ (if lf_limit f > 0 then take (nat (lf_limit f) - length out) (filter (admits status attempts f) xs)
      else filter (admits status attempts f) xs)"
  using assms
proof (induction xs arbitrary: out)
  case (Cons x xs)
  show ?case
  proof (cases "admits status attempts f x")
    case False
    then show ?thesis using Cons by (auto simp: admits_def)
  next
    case True
    show ?thesis
    proof (cases "lf_limit f > 0 \<and> int (length (out @ [x])) \<ge> lf_limit f")
      case True
      then have "nat (lf_limit f) - length out = 1" using Cons.prems by auto
      then show ?thesis using True \<open>admits status attempts f x\<close> by (auto simp: admits_def)
    next
      case False
      have "nat (lf_limit f) - length out = Suc (nat (lf_limit f) - length (out @ [x]))" if "lf_limit f > 0"
        using that False by auto
      then show ?thesis using Cons.IH [of "out @ [x]"] False \<open>admits status attempts f x\<close> by (auto simp: admits_def Let_def)
    qed
  qed
qed simp

text \<open>\<^verbatim>\<open>CountByStatus\<close> and \<^verbatim>\<open>adaptExecutionStatusSummary\<close>\<close>

record status_summary =
  sm_pending :: nat
  sm_queued :: nat
  sm_running :: nat
  sm_completed :: nat
  sm_failed :: nat

definition status_counts :: "string list \<Rightarrow> string \<Rightarrow> nat" where
  "status_counts ss s = length (filter ((=) s) ss)"

definition status_summary_of :: "(string \<Rightarrow> nat) \<Rightarrow> status_summary" where
  "status_summary_of counts = \<lparr>sm_pending = counts ''pending'', sm_queued = counts ''queued'', sm_running = counts ''running'',
     sm_completed = counts ''completed'', sm_failed = counts ''failed''\<rparr>"

end
