(* ===== verification/Index_Preparation.thy ===== *)
theory Index_Preparation
  imports Ast_Validation Scenario_Model
begin

text \<open>
  The indexes an iteration needs before it may go live (\<^verbatim>\<open>service/publication_service.go\<close>): which tables and
  columns its formulas use, and what the index jobs of the data-model service say about them. A Go map of
  named children is visited in the order of the association list.
\<close>

record index_job =
  ij_id :: string
  ij_table :: string
  ij_type :: string
  ij_status :: string
  ij_columns :: "string list"

record index_requirement =
  ir_table_id :: string
  ir_table :: string
  ir_columns :: "string list"

lemma named_child_size: "(k, c) \<in> set (nd_named n) \<Longrightarrow> size c < size n"
proof (cases n)
  case (Node fn c' cs nm)
  assume "(k, c) \<in> set (nd_named n)"
  then have "size c < Suc (size_list (size_prod (\<lambda>x. 0) size) nm)"
    using size_list_estimation' [of "(k, c)" nm "size c" "size_prod (\<lambda>x. 0) size"] Node by fastforce
  then show ?thesis using Node by simp
qed

subsection \<open>Requirements of a formula\<close>

text \<open>\<^verbatim>\<open>constantString\<close>, on a named child that is the zero node when absent. Unlike the validator it does not
  ask whether the node is a constant.\<close>

definition named_string :: "node \<Rightarrow> string \<Rightarrow> string option" where
  "named_string n k = (case map_of (nd_named n) k of
      None \<Rightarrow> None
    | Some c \<Rightarrow> (case nd_const c of VStr s \<Rightarrow> Some s | _ \<Rightarrow> None))"

definition index_key :: "string \<Rightarrow> string list \<Rightarrow> string" where
  "index_key table columns = trim_space table @ '':'' @ join_with '','' columns"

definition requirement_key :: "index_requirement \<Rightarrow> string" where
  "requirement_key r = index_key (ir_table r) (ir_columns r)"

definition job_key :: "index_job \<Rightarrow> string" where
  "job_key j = index_key (ij_table j) (ij_columns j)"

text \<open>The loop over the filters: the fields of the table they test, each once.\<close>

definition filter_column :: "tm_table \<Rightarrow> string \<Rightarrow> node \<Rightarrow> string option" where
  "filter_column table table_name f =
     (if nd_fn f \<noteq> ''Filter'' then None
      else if (case named_string f ''tableName'' of None \<Rightarrow> False | Some t \<Rightarrow> \<not> is_blank t \<and> t \<noteq> table_name) then None
      else case named_string f ''fieldName'' of
          None \<Rightarrow> None
        | Some field \<Rightarrow> if is_blank field \<or> map_of (tt_fields table) field = None then None else Some field)"

fun filter_columns :: "tm_table \<Rightarrow> string \<Rightarrow> node list \<Rightarrow> string list \<Rightarrow> string list" where
  "filter_columns table table_name [] columns = columns"
| "filter_columns table table_name (f # fs) columns =
     (case filter_column table table_name f of
        None \<Rightarrow> filter_columns table table_name fs columns
      | Some c \<Rightarrow> filter_columns table table_name fs (if c \<in> set columns then columns else columns @ [c]))"

definition aggregator_requirement :: "tenant_model \<Rightarrow> string \<Rightarrow> node \<Rightarrow> index_requirement option" where
  "aggregator_requirement m current n =
     (let table_name = (case named_string n ''tableName'' of None \<Rightarrow> current | Some t \<Rightarrow> if is_blank t then current else t) in
      case map_of (tm_tables m) table_name of
        None \<Rightarrow> None
      | Some table \<Rightarrow>
          if is_blank (tt_id table) then None
          else case map_of (nd_named n) ''filters'' of
            None \<Rightarrow> None
          | Some filters \<Rightarrow>
              (let columns = filter_columns table table_name (nd_children filters) [] in
               if columns = [] then None
               else Some \<lparr>ir_table_id = tt_id table, ir_table = tt_name table, ir_columns = columns\<rparr>))"

text \<open>\<^verbatim>\<open>visitNodeIndexRequirements\<close>, with the function \<^verbatim>\<open>add\<close> that keeps the first requirement of each key.\<close>

definition add_requirement :: "index_requirement \<Rightarrow> index_requirement list \<Rightarrow> index_requirement list" where
  "add_requirement r out =
     (if ir_columns r = [] then out
      else if requirement_key r \<in> requirement_key ` set out then out
      else out @ [r])"

function visit_requirements :: "tenant_model \<Rightarrow> string \<Rightarrow> node \<Rightarrow> index_requirement list \<Rightarrow> index_requirement list" where
  "visit_requirements m current n out =
     (let out = (if nd_fn n = ''Aggregator'' then
            (case aggregator_requirement m current n of None \<Rightarrow> out | Some r \<Rightarrow> add_requirement r out)
          else out);
          out = fold (visit_requirements m current) (nd_children n) out
      in fold (\<lambda>kc. visit_requirements m current (snd kc)) (nd_named n) out)"
  by pat_completeness auto
termination
  by (relation "measure (\<lambda>(m, current, n, out). size n)") (auto dest: child_size named_child_size)

declare visit_requirements.simps [simp del]

definition formula_requirements :: "tenant_model \<Rightarrow> string \<Rightarrow> formula \<Rightarrow> index_requirement list \<Rightarrow> index_requirement list res" where
  "formula_requirements m base f out =
     (case f of NoFormula \<Rightarrow> Inr out | BadFormula e \<Rightarrow> Inl e | AstFormula n \<Rightarrow> Inr (visit_requirements m base n out))"

fun rule_requirements :: "tenant_model \<Rightarrow> string \<Rightarrow> rule list \<Rightarrow> index_requirement list \<Rightarrow> index_requirement list res" where
  "rule_requirements m base [] out = Inr out"
| "rule_requirements m base (r # rs) out =
     bind_r (formula_requirements m base (ru_formula r) out) (\<lambda>out. rule_requirements m base rs out)"

definition index_requirements :: "tenant_model \<Rightarrow> string \<Rightarrow> formula \<Rightarrow> rule list \<Rightarrow> index_requirement list res" where
  "index_requirements m base trigger rules =
     bind_r (formula_requirements m base trigger []) (\<lambda>out. rule_requirements m base rules out)"

subsection \<open>Tables of a formula\<close>

definition node_tables :: "tenant_model \<Rightarrow> string \<Rightarrow> node \<Rightarrow> string set" where
  "node_tables m current n =
     (if nd_fn n = ''Aggregator'' \<or> nd_fn n = ''Filter'' then
        (case named_string n ''tableName'' of None \<Rightarrow> {} | Some t \<Rightarrow> if is_blank t then {} else {t})
      else if nd_fn n = ''related_count'' then
        (case named_string n ''object_type'' of None \<Rightarrow> {} | Some t \<Rightarrow> if is_blank t then {} else {t})
      else if nd_fn n = ''related_field'' then
        (case named_string n ''path'' of
           None \<Rightarrow> {}
         | Some p \<Rightarrow> if is_blank p then {}
             else (case resolve_related_path_table m current p of Inl e \<Rightarrow> {} | Inr t \<Rightarrow> {tt_name t}))
      else {})"

function visit_tables :: "tenant_model \<Rightarrow> string \<Rightarrow> node \<Rightarrow> string set \<Rightarrow> string set" where
  "visit_tables m current n out =
     fold (\<lambda>kc. visit_tables m current (snd kc)) (nd_named n)
       (fold (visit_tables m current) (nd_children n) (out \<union> node_tables m current n))"
  by pat_completeness auto
termination
  by (relation "measure (\<lambda>(m, current, n, out). size n)") (auto dest: child_size named_child_size)

declare visit_tables.simps [simp del]

definition formula_tables :: "tenant_model \<Rightarrow> string \<Rightarrow> formula \<Rightarrow> string set \<Rightarrow> string set res" where
  "formula_tables m base f out =
     (case f of NoFormula \<Rightarrow> Inr out | BadFormula e \<Rightarrow> Inl e | AstFormula n \<Rightarrow> Inr (visit_tables m base n out))"

fun rule_tables :: "tenant_model \<Rightarrow> string \<Rightarrow> rule list \<Rightarrow> string set \<Rightarrow> string set res" where
  "rule_tables m base [] out = Inr out"
| "rule_tables m base (r # rs) out = bind_r (formula_tables m base (ru_formula r) out) (\<lambda>out. rule_tables m base rs out)"

definition referenced_tables :: "tenant_model \<Rightarrow> string \<Rightarrow> formula \<Rightarrow> rule list \<Rightarrow> string set res" where
  "referenced_tables m base trigger rules =
     bind_r (formula_tables m base trigger (if is_blank base then {} else {base})) (\<lambda>out. rule_tables m base rules out)"

subsection \<open>The state of the preparation\<close>

definition index_preparation :: "tenant_model \<Rightarrow> string \<Rightarrow> formula \<Rightarrow> rule list \<Rightarrow> index_job list res \<Rightarrow> (index_requirement list \<times> index_job list) res" where
  "index_preparation m base trigger rules jobs =
     bind_r (referenced_tables m base trigger rules) (\<lambda>tables.
     bind_r (index_requirements m base trigger rules) (\<lambda>requirements.
     bind_r jobs (\<lambda>jobs. Inr (requirements, filter (\<lambda>j. ij_table j \<in> tables) jobs))))"

definition has_index_job :: "index_job list \<Rightarrow> index_requirement \<Rightarrow> bool" where
  "has_index_job jobs r = (\<exists>j \<in> set jobs. job_key j = requirement_key r)"

record preparation_status =
  ps_required :: bool
  ps_started :: bool
  ps_finished :: bool
  ps_pending :: int

definition pend :: "preparation_status \<Rightarrow> preparation_status" where
  "pend s = s\<lparr>ps_required := True, ps_finished := False, ps_pending := ps_pending s + 1\<rparr>"

fun count_jobs :: "index_job list \<Rightarrow> preparation_status \<Rightarrow> string set \<Rightarrow> preparation_status \<times> string set" where
  "count_jobs [] s applied = (s, applied)"
| "count_jobs (j # js) s applied =
     (if ij_status j = ''applied'' \<or> ij_status j = ''cancelled'' then count_jobs js s (insert (job_key j) applied)
      else if ij_status j = ''running'' \<or> ij_status j = ''pending'' then count_jobs js ((pend s)\<lparr>ps_started := True\<rparr>) applied
      else count_jobs js (pend s) applied)"

fun count_requirements :: "index_requirement list \<Rightarrow> index_job list \<Rightarrow> string set \<Rightarrow> preparation_status \<Rightarrow> preparation_status" where
  "count_requirements [] jobs applied s = s"
| "count_requirements (r # rs) jobs applied s =
     (if requirement_key r \<in> applied then count_requirements rs jobs applied s
      else count_requirements rs jobs applied (if has_index_job jobs r then s else pend s))"

text \<open>\<^verbatim>\<open>GetPreparationStatus\<close>\<close>

definition preparation_of :: "index_requirement list \<Rightarrow> index_job list \<Rightarrow> preparation_status" where
  "preparation_of required jobs =
     (case count_jobs jobs \<lparr>ps_required = False, ps_started = False, ps_finished = True, ps_pending = 0\<rparr> {} of
        (s, applied) \<Rightarrow> count_requirements required jobs applied s)"

subsection \<open>What the status means\<close>

definition job_final :: "index_job \<Rightarrow> bool" where
  "job_final j = (ij_status j = ''applied'' \<or> ij_status j = ''cancelled'')"

definition status_sound :: "preparation_status \<Rightarrow> bool" where
  "status_sound s = (0 \<le> ps_pending s \<and> ps_required s = (0 < ps_pending s) \<and> ps_finished s = (ps_pending s = 0))"

lemma pend_sound [simp]: "status_sound s \<Longrightarrow> status_sound (pend s)" "ps_pending (pend s) = ps_pending s + 1" "ps_started (pend s) = ps_started s"
  by (auto simp: status_sound_def pend_def)

lemma count_jobs_spec:
  assumes "status_sound s" "count_jobs js s applied = (s', applied')"
  shows "status_sound s' \<and> ps_pending s' = ps_pending s + int (length (filter (\<lambda>j. \<not> job_final j) js)) \<and>
    applied' = applied \<union> job_key ` set (filter job_final js) \<and>
    ps_started s' = (ps_started s \<or> (\<exists>j \<in> set js. ij_status j \<in> {''running'', ''pending''}))"
  using assms
proof (induction js arbitrary: s applied)
  case (Cons j js)
  have u: "status_sound ((pend s)\<lparr>ps_started := True\<rparr>)" using Cons.prems(1) by (simp add: status_sound_def pend_def)
  show ?case
  proof (cases "job_final j")
    case True
    then show ?thesis using Cons.IH [of s "insert (job_key j) applied"] Cons.prems by (auto simp: job_final_def)
  next
    case False
    show ?thesis
    proof (cases "ij_status j = ''running'' \<or> ij_status j = ''pending''")
      case True
      then show ?thesis using Cons.IH [OF u] Cons.prems(2) False by (auto simp: job_final_def)
    next
      case False
      then show ?thesis using Cons.IH [of "pend s" applied] Cons.prems \<open>\<not> job_final j\<close> by (auto simp: job_final_def)
    qed
  qed
qed simp

lemma count_requirements_spec:
  assumes "status_sound s"
  shows "status_sound (count_requirements rs jobs applied s) \<and>
    ps_pending (count_requirements rs jobs applied s) =
      ps_pending s + int (length (filter (\<lambda>r. requirement_key r \<notin> applied \<and> \<not> has_index_job jobs r) rs)) \<and>
    ps_started (count_requirements rs jobs applied s) = ps_started s"
  using assms by (induction rs arbitrary: s) auto

lemma preparation_spec:
  "status_sound (preparation_of rs jobs) \<and>
    ps_pending (preparation_of rs jobs) = int (length (filter (\<lambda>j. \<not> job_final j) jobs)) +
      int (length (filter (\<lambda>r. \<not> has_index_job jobs r) rs)) \<and>
    ps_started (preparation_of rs jobs) = (\<exists>j \<in> set jobs. ij_status j \<in> {''running'', ''pending''})"
proof -
  define s0 where "s0 = \<lparr>ps_required = False, ps_started = False, ps_finished = True, ps_pending = (0::int)\<rparr>"
  obtain s applied where c: "count_jobs jobs s0 {} = (s, applied)" by (cases "count_jobs jobs s0 {}")
  have "status_sound s0" "ps_pending s0 = 0" "ps_started s0 = False" by (simp_all add: s0_def status_sound_def)
  note j = count_jobs_spec [OF this(1) c] this(2,3)
  have "(requirement_key r \<notin> applied \<and> \<not> has_index_job jobs r) = (\<not> has_index_job jobs r)" for r
    using j by (auto simp: has_index_job_def)
  then show ?thesis
    using count_requirements_spec [of s rs jobs applied] j c by (simp add: preparation_of_def s0_def)
qed

lemma sum_of_lengths: "p = int (length xs) + int (length ys) \<Longrightarrow> p = 0 \<longleftrightarrow> xs = [] \<and> ys = []"
  by (cases xs; cases ys) auto

text \<open>An iteration may go live exactly when each job on its tables is applied or cancelled and each of its
  requirements has one.\<close>

lemma prepared_iff:
  "\<not> ps_required (preparation_of rs jobs) \<longleftrightarrow>
    (\<forall>j \<in> set jobs. job_final j) \<and> (\<forall>r \<in> set rs. has_index_job jobs r)"
proof -
  have "\<not> ps_required (preparation_of rs jobs) \<longleftrightarrow> ps_pending (preparation_of rs jobs) = 0"
    using preparation_spec [of rs jobs] by (auto simp: status_sound_def)
  moreover have "ps_pending (preparation_of rs jobs) = int (length (filter (\<lambda>j. \<not> job_final j) jobs)) +
      int (length (filter (\<lambda>r. \<not> has_index_job jobs r) rs))"
    using preparation_spec [of rs jobs] by blast
  then have "ps_pending (preparation_of rs jobs) = 0 \<longleftrightarrow>
      filter (\<lambda>j. \<not> job_final j) jobs = [] \<and> filter (\<lambda>r. \<not> has_index_job jobs r) rs = []"
    by (rule sum_of_lengths)
  ultimately show ?thesis by (simp add: filter_empty_conv)
qed

end
