(* ===== verification/Authoring_Model.thy ===== *)
theory Authoring_Model
  imports Index_Preparation Recurring_Schedule State_Steps
begin

text \<open>
  The tables behind the authoring of scenarios and the statements on them
  (\<^verbatim>\<open>store/postgres/scenario_repository.go\<close>, \<^verbatim>\<open>scenario_iteration_repository.go\<close>, \<^verbatim>\<open>rule_repository.go\<close>,
  \<^verbatim>\<open>publication_repository.go\<close>), with the keys and references of \<^verbatim>\<open>migrations/metadata/000001_init.up.sql\<close>.
  A table is the list of its rows. A statement fails with its name when the database does not execute it.
\<close>

subsection \<open>Statements\<close>

definition ask :: "(string \<Rightarrow> bool) \<Rightarrow> string \<Rightarrow> ('w \<Rightarrow> string + 'a) \<Rightarrow> ('w, string, 'a) step" where
  "ask works name f w = (if works name then f w else Inl name, w)"

definition change :: "(string \<Rightarrow> bool) \<Rightarrow> string \<Rightarrow> ('w \<Rightarrow> string + 'a \<times> 'w) \<Rightarrow> ('w, string, 'a) step" where
  "change works name f w =
     (if works name then (case f w of Inl e \<Rightarrow> (Inl e, w) | Inr (x, w') \<Rightarrow> (Inr x, w')) else (Inl name, w))"

lemma ask_simps [step_simps]:
  "(ask works name f w = (r, w')) = (w' = w \<and> r = (if works name then f w else Inl name))"
  by (auto simp: ask_def)

lemma change_Inr [step_simps]: "(change works name f w = (Inr x, w')) = (works name \<and> f w = Inr (x, w'))"
  by (auto simp: change_def split: sum.splits)

lemma change_Inl [step_simps]:
  "(change works name f w = (Inl e, w')) = (w' = w \<and> (if works name then f w = Inl e else e = name))"
  by (auto simp: change_def split: sum.splits)

lemma keeps_ask: "keeps I (ask works name f)"
  by (simp add: keeps_def ask_def)

lemma keeps_change: "(\<And>w x w'. I w \<Longrightarrow> f w = Inr (x, w') \<Longrightarrow> I w') \<Longrightarrow> keeps I (change works name f)"
  by (auto simp: keeps_def change_def split: sum.splits)

definition no_row :: string where
  "no_row = ''no rows in result set''"

definition duplicate_key :: string where
  "duplicate_key = ''duplicate key value violates unique constraint''"

definition missing_reference :: string where
  "missing_reference = ''insert or update violates foreign key constraint''"

definition null_value :: string where
  "null_value = ''null value violates not-null constraint''"

subsection \<open>Tables\<close>

record publication =
  pb_id :: string
  pb_tenant :: string
  pb_scenario :: string
  pb_iteration :: string
  pb_action :: string
  pb_created :: int

record authoring =
  au_scenarios :: "scenario list"
  au_iterations :: "iteration list"
  au_rules :: "rule list"
  au_publications :: "publication list"
  au_drawn :: nat

definition empty_authoring :: authoring where
  "empty_authoring = \<lparr>au_scenarios = [], au_iterations = [], au_rules = [], au_publications = [], au_drawn = 0\<rparr>"

type_synonym 'a author_step = "(authoring, string, 'a) step"

subsection \<open>Scenarios\<close>

definition scenario_is :: "string \<Rightarrow> string \<Rightarrow> scenario \<Rightarrow> bool" where
  "scenario_is tenant i s = (sn_tenant s = tenant \<and> sn_id s = i)"

definition live_exists :: "authoring \<Rightarrow> string option \<Rightarrow> bool" where
  "live_exists w live = (case live of None \<Rightarrow> True | Some i \<Rightarrow> list_ex (\<lambda>it. it_id it = i) (au_iterations w))"

definition insert_scenario :: "(string \<Rightarrow> bool) \<Rightarrow> scenario \<Rightarrow> scenario author_step" where
  "insert_scenario works item = change works ''scenario insert'' (\<lambda>w.
     if list_ex (\<lambda>s. sn_id s = sn_id item \<or> sn_tenant s = sn_tenant item \<and> sn_name s = sn_name item) (au_scenarios w)
     then Inl duplicate_key
     else if \<not> live_exists w (sn_live item) then Inl missing_reference
     else Inr (item, w\<lparr>au_scenarios := au_scenarios w @ [item]\<rparr>))"

definition get_scenario_row :: "(string \<Rightarrow> bool) \<Rightarrow> string \<Rightarrow> string \<Rightarrow> scenario author_step" where
  "get_scenario_row works tenant i = ask works ''scenario get'' (\<lambda>w.
     case find (scenario_is tenant i) (au_scenarios w) of None \<Rightarrow> Inl no_row | Some s \<Rightarrow> Inr s)"

definition list_live_by_trigger :: "(string \<Rightarrow> bool) \<Rightarrow> string \<Rightarrow> string \<Rightarrow> scenario list author_step" where
  "list_live_by_trigger works tenant ty = ask works ''scenario list'' (\<lambda>w.
     Inr (sort_key (\<lambda>s. - sn_created s)
       (filter (\<lambda>s. sn_tenant s = tenant \<and> sn_trigger_type s = ty \<and> sn_live s \<noteq> None) (au_scenarios w))))"

definition update_scenario_row :: "(string \<Rightarrow> bool) \<Rightarrow> scenario \<Rightarrow> scenario author_step" where
  "update_scenario_row works item = change works ''scenario update'' (\<lambda>w.
     let put = (\<lambda>s. s\<lparr>sn_name := sn_name item, sn_description := sn_description item, sn_trigger_type := sn_trigger_type item,
            sn_live := sn_live item, sn_updated := sn_updated item\<rparr>);
         this = scenario_is (sn_tenant item) (sn_id item)
     in case find this (au_scenarios w) of
          None \<Rightarrow> Inl no_row
        | Some s \<Rightarrow>
            if list_ex (\<lambda>t. \<not> this t \<and> sn_tenant t = sn_tenant item \<and> sn_name t = sn_name item) (au_scenarios w) then Inl duplicate_key
            else if \<not> live_exists w (sn_live item) then Inl missing_reference
            else Inr (put s, w\<lparr>au_scenarios := map (\<lambda>s. if this s then put s else s) (au_scenarios w)\<rparr>))"

definition set_live :: "(string \<Rightarrow> bool) \<Rightarrow> int \<Rightarrow> string \<Rightarrow> string \<Rightarrow> string option \<Rightarrow> unit author_step" where
  "set_live works now tenant i live = change works ''scenario live'' (\<lambda>w.
     if list_ex (scenario_is tenant i) (au_scenarios w) \<and> \<not> live_exists w live then Inl missing_reference
     else Inr ((), w\<lparr>au_scenarios := map (\<lambda>s. if scenario_is tenant i s then s\<lparr>sn_live := live, sn_updated := now\<rparr> else s)
       (au_scenarios w)\<rparr>))"

text \<open>Deleting a scenario takes its iterations, their rules and its publications with it.\<close>

definition delete_scenario_row :: "(string \<Rightarrow> bool) \<Rightarrow> string \<Rightarrow> string \<Rightarrow> unit author_step" where
  "delete_scenario_row works tenant i = change works ''scenario delete'' (\<lambda>w.
     if \<not> list_ex (scenario_is tenant i) (au_scenarios w) then Inr ((), w)
     else (let gone = map it_id (filter (\<lambda>it. it_scenario it = i) (au_iterations w)) in
       Inr ((), w\<lparr>au_scenarios := map (\<lambda>s. if (case sn_live s of None \<Rightarrow> False | Some l \<Rightarrow> l \<in> set gone) then s\<lparr>sn_live := None\<rparr> else s)
            (filter (\<lambda>s. \<not> scenario_is tenant i s) (au_scenarios w)),
          au_iterations := filter (\<lambda>it. it_scenario it \<noteq> i) (au_iterations w),
          au_rules := filter (\<lambda>r. ru_iteration r \<notin> set gone) (au_rules w),
          au_publications := filter (\<lambda>p. pb_scenario p \<noteq> i \<and> pb_iteration p \<notin> set gone) (au_publications w)\<rparr>)))"

subsection \<open>Iterations\<close>

definition iteration_is :: "string \<Rightarrow> string \<Rightarrow> string \<Rightarrow> iteration \<Rightarrow> bool" where
  "iteration_is tenant sid i it = (it_tenant it = tenant \<and> it_scenario it = sid \<and> it_id it = i)"

definition insert_iteration :: "(string \<Rightarrow> bool) \<Rightarrow> iteration \<Rightarrow> iteration author_step" where
  "insert_iteration works item = change works ''iteration insert'' (\<lambda>w.
     if it_trigger item = NoFormula then Inl null_value
     else if list_ex (\<lambda>it. it_id it = it_id item \<or> it_scenario it = it_scenario item \<and> it_version it = it_version item) (au_iterations w)
     then Inl duplicate_key
     else if \<not> list_ex (\<lambda>s. sn_id s = it_scenario item) (au_scenarios w) then Inl missing_reference
     else Inr (item, w\<lparr>au_iterations := au_iterations w @ [item]\<rparr>))"

definition get_iteration_row :: "(string \<Rightarrow> bool) \<Rightarrow> string \<Rightarrow> string \<Rightarrow> string \<Rightarrow> iteration author_step" where
  "get_iteration_row works tenant sid i = ask works ''iteration get'' (\<lambda>w.
     case find (iteration_is tenant sid i) (au_iterations w) of None \<Rightarrow> Inl no_row | Some it \<Rightarrow> Inr it)"

text \<open>\<^verbatim>\<open>order by version desc, created_at desc\<close>\<close>

definition list_iterations :: "(string \<Rightarrow> bool) \<Rightarrow> string \<Rightarrow> string \<Rightarrow> iteration list author_step" where
  "list_iterations works tenant sid = ask works ''iteration list'' (\<lambda>w.
     Inr (sort_key (\<lambda>it. - it_version it) (sort_key (\<lambda>it. - it_created it)
       (filter (\<lambda>it. it_tenant it = tenant \<and> it_scenario it = sid) (au_iterations w)))))"

definition next_version :: "(string \<Rightarrow> bool) \<Rightarrow> string \<Rightarrow> string \<Rightarrow> int author_step" where
  "next_version works tenant sid = ask works ''iteration version'' (\<lambda>w.
     let versions = map it_version (filter (\<lambda>it. it_tenant it = tenant \<and> it_scenario it = sid) (au_iterations w))
     in Inr ((if versions = [] then 0 else Max (set versions)) + 1))"

definition commit_iteration_row :: "(string \<Rightarrow> bool) \<Rightarrow> string \<Rightarrow> string \<Rightarrow> string \<Rightarrow> int \<Rightarrow> iteration author_step" where
  "commit_iteration_row works tenant sid i now = change works ''iteration commit'' (\<lambda>w.
     let put = (\<lambda>it. it\<lparr>it_status := ''committed'', it_committed := Some now\<rparr>); this = iteration_is tenant sid i
     in case find this (au_iterations w) of
          None \<Rightarrow> Inl no_row
        | Some it \<Rightarrow> Inr (put it, w\<lparr>au_iterations := map (\<lambda>it. if this it then put it else it) (au_iterations w)\<rparr>))"

definition update_iteration_row :: "(string \<Rightarrow> bool) \<Rightarrow> iteration \<Rightarrow> iteration author_step" where
  "update_iteration_row works item = change works ''iteration update'' (\<lambda>w.
     let put = (\<lambda>it. it\<lparr>it_trigger := it_trigger item, it_review := it_review item, it_block := it_block item,
            it_decline := it_decline item, it_schedule := it_schedule item\<rparr>);
         this = iteration_is (it_tenant item) (it_scenario item) (it_id item)
     in case find this (au_iterations w) of
          None \<Rightarrow> Inl no_row
        | Some it \<Rightarrow> if it_trigger item = NoFormula then Inl null_value
            else Inr (put it, w\<lparr>au_iterations := map (\<lambda>it. if this it then put it else it) (au_iterations w)\<rparr>))"

subsection \<open>Rules\<close>

text \<open>The join of the rules with the iterations of a scenario.\<close>

definition rule_of :: "authoring \<Rightarrow> string \<Rightarrow> string \<Rightarrow> string \<Rightarrow> rule \<Rightarrow> bool" where
  "rule_of w tenant sid i r =
     (ru_tenant r = tenant \<and> ru_iteration r = i \<and> list_ex (\<lambda>it. it_id it = i \<and> it_scenario it = sid) (au_iterations w))"

definition insert_rule :: "(string \<Rightarrow> bool) \<Rightarrow> rule \<Rightarrow> rule author_step" where
  "insert_rule works item = change works ''rule insert'' (\<lambda>w.
     if ru_formula item = NoFormula then Inl null_value
     else if list_ex (\<lambda>r. ru_id r = ru_id item) (au_rules w) then Inl duplicate_key
     else if \<not> list_ex (\<lambda>it. it_id it = ru_iteration item) (au_iterations w) then Inl missing_reference
     else Inr (item, w\<lparr>au_rules := au_rules w @ [item]\<rparr>))"

text \<open>\<^verbatim>\<open>order by display_order asc, created_at asc\<close>\<close>

definition list_rules :: "(string \<Rightarrow> bool) \<Rightarrow> string \<Rightarrow> string \<Rightarrow> string \<Rightarrow> rule list author_step" where
  "list_rules works tenant sid i = ask works ''rule list'' (\<lambda>w.
     Inr (sort_key ru_order (sort_key ru_created (filter (rule_of w tenant sid i) (au_rules w)))))"

definition get_rule_row :: "(string \<Rightarrow> bool) \<Rightarrow> string \<Rightarrow> string \<Rightarrow> string \<Rightarrow> string \<Rightarrow> rule author_step" where
  "get_rule_row works tenant sid i rid = ask works ''rule get'' (\<lambda>w.
     case find (\<lambda>r. rule_of w tenant sid i r \<and> ru_id r = rid) (au_rules w) of None \<Rightarrow> Inl no_row | Some r \<Rightarrow> Inr r)"

definition update_rule_row :: "(string \<Rightarrow> bool) \<Rightarrow> rule \<Rightarrow> rule author_step" where
  "update_rule_row works item = change works ''rule update'' (\<lambda>w.
     let put = (\<lambda>r. r\<lparr>ru_order := ru_order item, ru_name := ru_name item, ru_description := ru_description item,
            ru_formula := ru_formula item, ru_modifier := ru_modifier item, ru_group := ru_group item,
            ru_snooze_group := ru_snooze_group item, ru_stable := ru_stable item, ru_updated := ru_updated item\<rparr>);
         this = (\<lambda>r. ru_id r = ru_id item \<and> ru_iteration r = ru_iteration item \<and> ru_tenant r = ru_tenant item)
     in case find this (au_rules w) of
          None \<Rightarrow> Inl no_row
        | Some r \<Rightarrow> if ru_formula item = NoFormula then Inl null_value
            else Inr (put r, w\<lparr>au_rules := map (\<lambda>r. if this r then put r else r) (au_rules w)\<rparr>))"

definition delete_rule_row :: "(string \<Rightarrow> bool) \<Rightarrow> string \<Rightarrow> string \<Rightarrow> string \<Rightarrow> string \<Rightarrow> unit author_step" where
  "delete_rule_row works tenant sid i rid = change works ''rule delete'' (\<lambda>w.
     Inr ((), w\<lparr>au_rules := filter (\<lambda>r. \<not> (rule_of w tenant sid i r \<and> ru_id r = rid)) (au_rules w)\<rparr>))"

subsection \<open>Publications\<close>

text \<open>In the order in which they are written.\<close>

definition insert_publication :: "(string \<Rightarrow> bool) \<Rightarrow> publication \<Rightarrow> publication author_step" where
  "insert_publication works item = change works ''publication insert'' (\<lambda>w.
     if list_ex (\<lambda>p. pb_id p = pb_id item) (au_publications w) then Inl duplicate_key
     else if \<not> list_ex (\<lambda>s. sn_id s = pb_scenario item) (au_scenarios w) \<or>
       \<not> list_ex (\<lambda>it. it_id it = pb_iteration item) (au_iterations w) then Inl missing_reference
     else Inr (item, w\<lparr>au_publications := au_publications w @ [item]\<rparr>))"

end
