(* ===== verification/Authoring_Service.thy ===== *)
theory Authoring_Service
  imports Authoring_Model
begin

text \<open>
  Authoring of scenarios: \<^verbatim>\<open>service/scenario_service.go\<close>, \<^verbatim>\<open>service/iteration_service.go\<close>,
  \<^verbatim>\<open>service/rule_service.go\<close>, \<^verbatim>\<open>service/validation_service.go\<close> and the recurring schedule of
  \<^verbatim>\<open>service/execution_service.go\<close>. An operation that reads before its transaction is given in two parts,
  since others may write in between. The invalidations of caches that follow a success are not repeated here.
\<close>

text \<open>What surrounds a call: the statements that work, the clock, the identifiers, the tenant's data model, the
  index jobs, the scheduled executions, the zones, and the texts of schedules.\<close>

record author_env =
  ae_works :: "string \<Rightarrow> bool"
  ae_now :: int
  ae_gen :: "nat \<Rightarrow> string"
  ae_model :: "string \<Rightarrow> tenant_model res"
  ae_jobs :: "string \<Rightarrow> index_job list res"
  ae_scheduled :: "string \<Rightarrow> string \<Rightarrow> scheduled_item list res"
  ae_zones :: zones
  ae_encode :: "schedule_config \<Rightarrow> string"
  ae_decode :: "string \<Rightarrow> schedule_config res"

definition fresh_id :: "author_env \<Rightarrow> string author_step" where
  "fresh_id env w = (Inr (ae_gen env (au_drawn w)), w\<lparr>au_drawn := Suc (au_drawn w)\<rparr>)"

definition need :: "'a res \<Rightarrow> 'a author_step" where
  "need r w = (r, w)"

definition reject_if :: "string option \<Rightarrow> unit author_step" where
  "reject_if e = (case e of None \<Rightarrow> finish_with () | Some e \<Rightarrow> failing e)"

subsection \<open>Validation of an iteration\<close>

record rule_result =
  rr_rule :: string
  rr_name :: string
  rr_valid :: bool
  rr_errors :: "string list"

record iteration_result =
  ir_valid :: bool
  ir_revision :: string
  ir_trigger_errors :: "string list"
  ir_rules :: "rule_result list"
  ir_errors :: "string list"

text \<open>The errors of a formula; \<open>kind\<close> is \<^verbatim>\<open>trigger\<close> or \<^verbatim>\<open>rule\<close>.\<close>

definition formula_errors :: "tenant_model \<Rightarrow> string \<Rightarrow> string \<Rightarrow> formula \<Rightarrow> string list" where
  "formula_errors m ty kind f =
     (case f of
        NoFormula \<Rightarrow> [kind @ '' formula is required'']
      | BadFormula e \<Rightarrow> [kind @ '' formula is not valid JSON AST'']
      | AstFormula n \<Rightarrow> (case validate_node m ty n of
            (t, errs) \<Rightarrow> errs @ (if t \<noteq> TBool then [kind @ '' formula must return a boolean''] else [])))"

definition threshold_errors :: "iteration \<Rightarrow> string list" where
  "threshold_errors it =
     (case (it_review it, it_block it, it_decline it) of
        (Some a, Some b, Some c) \<Rightarrow>
          if b < a \<or> c < b then [''thresholds must satisfy review <= block_and_review <= decline''] else []
      | _ \<Rightarrow> [''all score thresholds are required''])"

definition validate_rule :: "tenant_model \<Rightarrow> string \<Rightarrow> rule \<Rightarrow> rule_result" where
  "validate_rule m ty r =
     (let errs = formula_errors m ty ''rule'' (ru_formula r)
      in \<lparr>rr_rule = ru_id r, rr_name = ru_name r, rr_valid = (errs = []), rr_errors = errs\<rparr>)"

text \<open>\<^verbatim>\<open>ValidateIteration\<close> once everything is loaded.\<close>

definition check_iteration :: "tenant_model \<Rightarrow> string \<Rightarrow> iteration \<Rightarrow> rule list \<Rightarrow> iteration_result" where
  "check_iteration m ty it rules =
     (if map_of (tm_tables m) ty = None then
        \<lparr>ir_valid = False, ir_revision = tm_revision m, ir_trigger_errors = [], ir_rules = [],
          ir_errors = [''trigger object type '' @ str_quote ty @ '' not found in tenant model'']\<rparr>
      else (let trigger = formula_errors m ty ''trigger'' (it_trigger it); thresholds = threshold_errors it;
                results = map (validate_rule m ty) rules
        in \<lparr>ir_valid = (trigger = [] \<and> thresholds = [] \<and> list_all rr_valid results), ir_revision = tm_revision m,
             ir_trigger_errors = trigger, ir_rules = results, ir_errors = thresholds\<rparr>))"

definition validate_iteration :: "author_env \<Rightarrow> string \<Rightarrow> string \<Rightarrow> string \<Rightarrow> iteration_result author_step" where
  "validate_iteration env tenant sid i =
     then_do (get_scenario_row (ae_works env) tenant sid) (\<lambda>scn.
     then_do (get_iteration_row (ae_works env) tenant sid i) (\<lambda>_.
     then_do (list_rules (ae_works env) tenant sid i) (\<lambda>rules.
     then_do (need (ae_model env tenant)) (\<lambda>m.
     then_do (get_iteration_row (ae_works env) tenant sid i) (\<lambda>it.
     finish_with (check_iteration m (sn_trigger_type scn) it rules))))))"

subsection \<open>Scenarios\<close>

definition check_trigger_type :: "author_env \<Rightarrow> string \<Rightarrow> string \<Rightarrow> unit author_step" where
  "check_trigger_type env tenant ty =
     (case ae_model env tenant of
        Inl e \<Rightarrow> failing (''load tenant model: '' @ e)
      | Inr m \<Rightarrow> if map_of (tm_tables m) ty = None
          then failing (''trigger object type '' @ str_quote ty @ '' not found in tenant model'') else finish_with ())"

definition create_scenario :: "author_env \<Rightarrow> string \<Rightarrow> string \<Rightarrow> string \<Rightarrow> string \<Rightarrow> scenario author_step" where
  "create_scenario env tenant name descr ty =
     then_do (fresh_id env) (\<lambda>i.
       let item = \<lparr>sn_id = i, sn_tenant = tenant, sn_name = name, sn_description = descr, sn_trigger_type = ty, sn_live = None,
             sn_created = ae_now env, sn_updated = ae_now env\<rparr>
       in then_do (reject_if (scenario_error item)) (\<lambda>_.
          then_do (check_trigger_type env tenant ty) (\<lambda>_.
          transaction (ae_works env) (insert_scenario (ae_works env) item))))"

definition update_scenario_read :: "author_env \<Rightarrow> string \<Rightarrow> string \<Rightarrow> string \<Rightarrow> string \<Rightarrow> string \<Rightarrow> scenario author_step" where
  "update_scenario_read env tenant sid name descr ty =
     then_do (get_scenario_row (ae_works env) tenant sid) (\<lambda>current.
       let current = current\<lparr>sn_name := name, sn_description := descr, sn_trigger_type := ty, sn_updated := ae_now env\<rparr>
       in then_do (reject_if (scenario_error current)) (\<lambda>_.
          then_do (check_trigger_type env tenant ty) (\<lambda>_. finish_with current)))"

definition update_scenario_write :: "author_env \<Rightarrow> scenario \<Rightarrow> scenario author_step" where
  "update_scenario_write env current = transaction (ae_works env) (update_scenario_row (ae_works env) current)"

definition update_scenario :: "author_env \<Rightarrow> string \<Rightarrow> string \<Rightarrow> string \<Rightarrow> string \<Rightarrow> string \<Rightarrow> scenario author_step" where
  "update_scenario env tenant sid name descr ty =
     then_do (update_scenario_read env tenant sid name descr ty) (update_scenario_write env)"

definition delete_scenario :: "author_env \<Rightarrow> string \<Rightarrow> string \<Rightarrow> unit author_step" where
  "delete_scenario env tenant sid =
     then_do (get_scenario_row (ae_works env) tenant sid) (\<lambda>_.
     transaction (ae_works env) (delete_scenario_row (ae_works env) tenant sid))"

text \<open>\<^verbatim>\<open>ListLatestRules\<close>: the rules of the live iteration, or of the newest.\<close>

definition latest_rules :: "author_env \<Rightarrow> string \<Rightarrow> string \<Rightarrow> rule list author_step" where
  "latest_rules env tenant sid =
     then_do (get_scenario_row (ae_works env) tenant sid) (\<lambda>scn.
     then_do (list_iterations (ae_works env) tenant sid) (\<lambda>its.
       case its of
         [] \<Rightarrow> finish_with []
       | newest # _ \<Rightarrow>
           (let target = (case sn_live scn of None \<Rightarrow> newest
                | Some l \<Rightarrow> (case find (\<lambda>it. it_id it = l) its of None \<Rightarrow> newest | Some it \<Rightarrow> it))
            in list_rules (ae_works env) tenant sid (it_id target))))"

subsubsection \<open>Copying\<close>

text \<open>The rules of an iteration, each with a new stable identifier.\<close>

fun copy_rules :: "author_env \<Rightarrow> string \<Rightarrow> string \<Rightarrow> rule list \<Rightarrow> unit author_step" where
  "copy_rules env tenant i [] = finish_with ()"
| "copy_rules env tenant i (r # rs) =
     then_do (fresh_id env) (\<lambda>rid. then_do (fresh_id env) (\<lambda>stable.
     then_do (insert_rule (ae_works env) (r\<lparr>ru_id := rid, ru_iteration := i, ru_tenant := tenant, ru_stable := stable,
         ru_created := ae_now env, ru_updated := ae_now env\<rparr>)) (\<lambda>_.
     copy_rules env tenant i rs)))"

fun copy_iterations :: "author_env \<Rightarrow> string \<Rightarrow> scenario \<Rightarrow> string \<Rightarrow> iteration list \<Rightarrow> string option \<Rightarrow> string option author_step" where
  "copy_iterations env tenant source sid [] live = finish_with live"
| "copy_iterations env tenant source sid (it # its) live =
     then_do (fresh_id env) (\<lambda>i.
       let clone = it\<lparr>it_id := i, it_scenario := sid, it_tenant := tenant, it_created := ae_now env,
             it_committed := (if it_status it = ''committed'' then Some (ae_now env) else it_committed it)\<rparr>
       in then_do (insert_iteration (ae_works env) clone) (\<lambda>created.
          then_do (list_rules (ae_works env) tenant (sn_id source) (it_id it)) (\<lambda>rules.
          then_do (copy_rules env tenant (it_id created) rules) (\<lambda>_.
          copy_iterations env tenant source sid its (if sn_live source = Some (it_id it) then Some (it_id created) else live)))))"

text \<open>\<^verbatim>\<open>Copy\<close>; the workflow rules, which it copies too, are not part of these tables.\<close>

definition copy_scenario_write :: "author_env \<Rightarrow> string \<Rightarrow> scenario \<Rightarrow> iteration list \<Rightarrow> scenario \<Rightarrow> scenario author_step" where
  "copy_scenario_write env tenant source its item =
     transaction (ae_works env)
       (then_do (insert_scenario (ae_works env) item) (\<lambda>created.
        then_do (copy_iterations env tenant source (sn_id created) its None) (\<lambda>live.
          if live = None then finish_with created
          else update_scenario_row (ae_works env) (created\<lparr>sn_live := live, sn_updated := ae_now env\<rparr>))))"

definition copy_scenario_read :: "author_env \<Rightarrow> string \<Rightarrow> string \<Rightarrow> string \<Rightarrow> (scenario \<times> iteration list \<times> scenario) author_step" where
  "copy_scenario_read env tenant sid name =
     then_do (get_scenario_row (ae_works env) tenant sid) (\<lambda>source.
     then_do (list_iterations (ae_works env) tenant sid) (\<lambda>its.
     then_do (fresh_id env) (\<lambda>i.
       let item = \<lparr>sn_id = i, sn_tenant = tenant, sn_name = (if name = [] then sn_name source @ '' Copy'' else name),
             sn_description = sn_description source, sn_trigger_type = sn_trigger_type source, sn_live = None,
             sn_created = ae_now env, sn_updated = ae_now env\<rparr>
       in then_do (reject_if (scenario_error item)) (\<lambda>_. finish_with (source, its, item)))))"

definition copy_scenario :: "author_env \<Rightarrow> string \<Rightarrow> string \<Rightarrow> string \<Rightarrow> scenario author_step" where
  "copy_scenario env tenant sid name =
     then_do (copy_scenario_read env tenant sid name) (\<lambda>(source, its, item). copy_scenario_write env tenant source its item)"

subsection \<open>Iterations\<close>

definition create_draft :: "author_env \<Rightarrow> string \<Rightarrow> string \<Rightarrow> iteration author_step" where
  "create_draft env tenant sid =
     transaction (ae_works env)
       (then_do (next_version (ae_works env) tenant sid) (\<lambda>version.
        then_do (fresh_id env) (\<lambda>i.
          let item = \<lparr>it_id = i, it_scenario = sid, it_tenant = tenant, it_version = version, it_status = ''draft'',
                it_trigger = AstFormula (Node [] (VBool True) [] []), it_review = Some 1, it_block = Some 10, it_decline = Some 20,
                it_schedule = [], it_created = ae_now env, it_committed = None\<rparr>
          in then_do (reject_if (iteration_error item)) (\<lambda>_. insert_iteration (ae_works env) item))))"

fun clone_rules :: "author_env \<Rightarrow> string \<Rightarrow> rule list \<Rightarrow> unit author_step" where
  "clone_rules env i [] = finish_with ()"
| "clone_rules env i (r # rs) =
     then_do (fresh_id env) (\<lambda>rid.
     then_do (insert_rule (ae_works env) (r\<lparr>ru_id := rid, ru_iteration := i, ru_created := ae_now env, ru_updated := ae_now env\<rparr>)) (\<lambda>_.
     clone_rules env i rs))"

definition create_draft_from :: "author_env \<Rightarrow> string \<Rightarrow> string \<Rightarrow> string \<Rightarrow> iteration author_step" where
  "create_draft_from env tenant sid source_id =
     transaction (ae_works env)
       (then_do (get_iteration_row (ae_works env) tenant sid source_id) (\<lambda>source.
        then_do (next_version (ae_works env) tenant sid) (\<lambda>version.
        then_do (fresh_id env) (\<lambda>i.
          let clone = source\<lparr>it_id := i, it_version := version, it_status := ''draft'', it_created := ae_now env, it_committed := None\<rparr>
          in then_do (reject_if (iteration_error clone)) (\<lambda>_.
             then_do (insert_iteration (ae_works env) clone) (\<lambda>created.
             then_do (list_rules (ae_works env) tenant sid source_id) (\<lambda>rules.
             then_do (clone_rules env (it_id created) rules) (\<lambda>_.
             finish_with created))))))))"

definition update_draft ::
    "author_env \<Rightarrow> string \<Rightarrow> string \<Rightarrow> string \<Rightarrow> formula \<Rightarrow> int option \<Rightarrow> int option \<Rightarrow> int option \<Rightarrow> string \<Rightarrow> iteration author_step" where
  "update_draft env tenant sid i trigger review block decline schedule =
     transaction (ae_works env)
       (then_do (get_iteration_row (ae_works env) tenant sid i) (\<lambda>current.
          if it_status current \<noteq> ''draft'' then failing ''iteration is not draft''
          else (let current = current\<lparr>it_trigger := trigger, it_review := review, it_block := block, it_decline := decline,
                  it_schedule := schedule\<rparr>
            in then_do (reject_if (iteration_error current)) (\<lambda>_. update_iteration_row (ae_works env) current))))"

definition commit_read :: "author_env \<Rightarrow> string \<Rightarrow> string \<Rightarrow> string \<Rightarrow> unit author_step" where
  "commit_read env tenant sid i =
     then_do (validate_iteration env tenant sid i) (\<lambda>v.
       if ir_valid v then finish_with () else failing ''iteration validation failed'')"

definition commit_write :: "author_env \<Rightarrow> string \<Rightarrow> string \<Rightarrow> string \<Rightarrow> iteration author_step" where
  "commit_write env tenant sid i =
     transaction (ae_works env)
       (then_do (get_iteration_row (ae_works env) tenant sid i) (\<lambda>current.
          if it_status current \<noteq> ''draft'' then failing ''iteration is not draft''
          else commit_iteration_row (ae_works env) tenant sid i (ae_now env)))"

definition commit_iteration :: "author_env \<Rightarrow> string \<Rightarrow> string \<Rightarrow> string \<Rightarrow> iteration author_step" where
  "commit_iteration env tenant sid i = then_do (commit_read env tenant sid i) (\<lambda>_. commit_write env tenant sid i)"

subsection \<open>Rules\<close>

text \<open>The fields of a rule that the caller gives.\<close>

record rule_fields =
  rf_order :: int
  rf_name :: string
  rf_description :: string
  rf_formula :: formula
  rf_modifier :: int
  rf_group :: string
  rf_snooze_group :: "string option"
  rf_stable :: string

definition put_fields :: "rule_fields \<Rightarrow> rule \<Rightarrow> rule" where
  "put_fields f r = r\<lparr>ru_order := rf_order f, ru_name := rf_name f, ru_description := rf_description f, ru_formula := rf_formula f,
     ru_modifier := rf_modifier f, ru_group := rf_group f, ru_snooze_group := rf_snooze_group f, ru_stable := rf_stable f\<rparr>"

definition on_draft :: "author_env \<Rightarrow> string \<Rightarrow> string \<Rightarrow> string \<Rightarrow> string \<Rightarrow> 'a author_step \<Rightarrow> 'a author_step" where
  "on_draft env tenant sid i what m =
     transaction (ae_works env)
       (then_do (get_iteration_row (ae_works env) tenant sid i) (\<lambda>it.
          if it_status it \<noteq> ''draft'' then failing (''rules can only be '' @ what @ '' on draft iterations'') else m))"

definition create_rule :: "author_env \<Rightarrow> string \<Rightarrow> string \<Rightarrow> string \<Rightarrow> rule_fields \<Rightarrow> rule author_step" where
  "create_rule env tenant sid i f =
     on_draft env tenant sid i ''created'' (then_do (fresh_id env) (\<lambda>rid.
       let item = \<lparr>ru_id = rid, ru_iteration = i, ru_tenant = tenant, ru_order = rf_order f, ru_name = rf_name f,
             ru_description = rf_description f, ru_formula = rf_formula f, ru_modifier = rf_modifier f, ru_group = rf_group f,
             ru_snooze_group = rf_snooze_group f, ru_stable = rf_stable f, ru_created = ae_now env, ru_updated = ae_now env\<rparr>
       in then_do (reject_if (rule_error item)) (\<lambda>_. insert_rule (ae_works env) item)))"

definition update_rule :: "author_env \<Rightarrow> string \<Rightarrow> string \<Rightarrow> string \<Rightarrow> string \<Rightarrow> rule_fields \<Rightarrow> rule author_step" where
  "update_rule env tenant sid i rid f =
     on_draft env tenant sid i ''updated'' (then_do (get_rule_row (ae_works env) tenant sid i rid) (\<lambda>existing.
       let item = put_fields f existing\<lparr>ru_updated := ae_now env\<rparr>
       in then_do (reject_if (rule_error item)) (\<lambda>_. update_rule_row (ae_works env) item)))"

definition delete_rule :: "author_env \<Rightarrow> string \<Rightarrow> string \<Rightarrow> string \<Rightarrow> string \<Rightarrow> unit author_step" where
  "delete_rule env tenant sid i rid =
     on_draft env tenant sid i ''deleted'' (delete_rule_row (ae_works env) tenant sid i rid)"

subsection \<open>The recurring schedule of the live iteration\<close>

definition live_of :: "author_env \<Rightarrow> string \<Rightarrow> string \<Rightarrow> string author_step" where
  "live_of env tenant sid =
     then_do (get_scenario_row (ae_works env) tenant sid) (\<lambda>scn.
       case sn_live scn of None \<Rightarrow> failing ''scenario has no live iteration'' | Some i \<Rightarrow> finish_with i)"

definition decode_schedule_text :: "author_env \<Rightarrow> string \<Rightarrow> schedule_config res" where
  "decode_schedule_text env raw =
     (let raw = trim_space raw in if raw = [] then Inr empty_schedule
      else case ae_decode env raw of Inl e \<Rightarrow> Inl (''decode recurring schedule: '' @ e) | Inr cfg \<Rightarrow> normalize_schedule (ae_zones env) cfg)"

definition encode_schedule :: "author_env \<Rightarrow> schedule_config \<Rightarrow> string res" where
  "encode_schedule env cfg =
     bind_r (normalize_schedule (ae_zones env) cfg) (\<lambda>n. if \<not> sc_enabled n then Inr [] else Inr (ae_encode env n))"

definition get_recurring_schedule :: "author_env \<Rightarrow> string \<Rightarrow> string \<Rightarrow> schedule_config author_step" where
  "get_recurring_schedule env tenant sid =
     then_do (live_of env tenant sid) (\<lambda>i.
     then_do (get_iteration_row (ae_works env) tenant sid i) (\<lambda>it.
     then_do (need (decode_schedule_text env (it_schedule it))) (\<lambda>cfg.
     then_do (need (ae_scheduled env tenant sid)) (\<lambda>items.
     need (hydrate_schedule (ae_zones env) cfg (ae_now env) items)))))"

text \<open>What an update of the schedule writes, and to which iteration; then the write.\<close>

definition schedule_read :: "author_env \<Rightarrow> string \<Rightarrow> string \<Rightarrow> schedule_config \<Rightarrow> (string \<times> schedule_config \<times> string) author_step" where
  "schedule_read env tenant sid cfg =
     then_do (live_of env tenant sid) (\<lambda>i.
     then_do (need (normalize_schedule (ae_zones env) cfg)) (\<lambda>n.
     then_do (need (encode_schedule env n)) (\<lambda>encoded. finish_with (i, n, encoded))))"

definition schedule_write :: "author_env \<Rightarrow> string \<Rightarrow> string \<Rightarrow> string \<Rightarrow> string \<Rightarrow> iteration author_step" where
  "schedule_write env tenant sid i encoded =
     transaction (ae_works env)
       (then_do (get_iteration_row (ae_works env) tenant sid i) (\<lambda>it.
        update_iteration_row (ae_works env) (it\<lparr>it_schedule := encoded\<rparr>)))"

definition update_recurring_schedule :: "author_env \<Rightarrow> string \<Rightarrow> string \<Rightarrow> schedule_config \<Rightarrow> schedule_config author_step" where
  "update_recurring_schedule env tenant sid cfg =
     then_do (schedule_read env tenant sid cfg) (\<lambda>(i, n, encoded).
     then_do (schedule_write env tenant sid i encoded) (\<lambda>_.
     then_do (need (ae_scheduled env tenant sid)) (\<lambda>items.
     need (hydrate_schedule (ae_zones env) n (ae_now env) items))))"

end
