(* ===== verification/Publication_Service.thy ===== *)
theory Publication_Service
  imports Authoring_Service
begin

text \<open>
  Publishing an iteration (\<^verbatim>\<open>service/publication_service.go\<close>). The index jobs are those of the data-model
  service: a call is given its answers, \<open>create\<close> and \<open>retry\<close>, and the list it reads before and after.
\<close>

text \<open>\<^verbatim>\<open>indexPreparationState\<close>\<close>

definition preparation_state :: "author_env \<Rightarrow> string \<Rightarrow> string \<Rightarrow> string \<Rightarrow> (index_requirement list \<times> index_job list) author_step" where
  "preparation_state env tenant sid i =
     then_do (get_scenario_row (ae_works env) tenant sid) (\<lambda>scn.
     then_do (get_iteration_row (ae_works env) tenant sid i) (\<lambda>it.
     then_do (list_rules (ae_works env) tenant sid i) (\<lambda>rules.
     then_do (need (ae_model env tenant)) (\<lambda>m.
     need (index_preparation m (sn_trigger_type scn) (it_trigger it) rules (ae_jobs env tenant))))))"

definition get_preparation_status :: "author_env \<Rightarrow> string \<Rightarrow> string \<Rightarrow> string \<Rightarrow> preparation_status author_step" where
  "get_preparation_status env tenant sid i =
     then_do (preparation_state env tenant sid i) (\<lambda>(required, jobs). finish_with (preparation_of required jobs))"

definition new_publication :: "author_env \<Rightarrow> string \<Rightarrow> string \<Rightarrow> string \<Rightarrow> string \<Rightarrow> string \<Rightarrow> publication" where
  "new_publication env pid tenant sid i action =
     \<lparr>pb_id = pid, pb_tenant = tenant, pb_scenario = sid, pb_iteration = i, pb_action = action, pb_created = ae_now env\<rparr>"

definition record_publication :: "author_env \<Rightarrow> string \<Rightarrow> string \<Rightarrow> string \<Rightarrow> string \<Rightarrow> publication author_step" where
  "record_publication env tenant sid i action =
     then_do (fresh_id env) (\<lambda>pid. insert_publication (ae_works env) (new_publication env pid tenant sid i action))"

definition publish :: "author_env \<Rightarrow> string \<Rightarrow> string \<Rightarrow> string \<Rightarrow> publication list author_step" where
  "publish env tenant sid i =
     transaction (ae_works env)
       (then_do (get_scenario_row (ae_works env) tenant sid) (\<lambda>scn.
        then_do (get_iteration_row (ae_works env) tenant sid i) (\<lambda>it.
          if it_status it \<noteq> ''committed'' then failing ''iteration must be committed before publish''
          else then_do (get_preparation_status env tenant sid i) (\<lambda>status.
            if ps_required status
            then failing (''iteration requires data-model preparation for '' @ itoa (ps_pending status) @ '' index jobs'')
            else then_do (case sn_live scn of
                None \<Rightarrow> finish_with []
              | Some old \<Rightarrow> if old = i then finish_with []
                  else then_do (record_publication env tenant sid old ''unpublish'') (\<lambda>p. finish_with [p])) (\<lambda>events.
            then_do (set_live (ae_works env) (ae_now env) tenant sid (Some i)) (\<lambda>_.
            then_do (record_publication env tenant sid i ''publish'') (\<lambda>p.
            finish_with (events @ [p]))))))))"

definition unpublish :: "author_env \<Rightarrow> string \<Rightarrow> string \<Rightarrow> string \<Rightarrow> publication list author_step" where
  "unpublish env tenant sid i =
     transaction (ae_works env)
       (then_do (get_scenario_row (ae_works env) tenant sid) (\<lambda>scn.
          if sn_live scn \<noteq> Some i then failing ''iteration is not currently live''
          else then_do (set_live (ae_works env) (ae_now env) tenant sid None) (\<lambda>_.
               then_do (record_publication env tenant sid i ''unpublish'') (\<lambda>p.
               finish_with [p]))))"

subsection \<open>Starting the preparation\<close>

text \<open>One job for each requirement that has none; the calls that were made are part of the answer.\<close>

fun create_missing :: "(index_requirement \<Rightarrow> index_job res) \<Rightarrow> index_requirement list \<Rightarrow> index_job list \<Rightarrow> index_job list res" where
  "create_missing create [] jobs = Inr jobs"
| "create_missing create (r # rs) jobs =
     (if has_index_job jobs r then create_missing create rs jobs
      else bind_r (create r) (\<lambda>j. create_missing create rs (jobs @ [j])))"

fun retry_failed :: "(index_job \<Rightarrow> unit res) \<Rightarrow> index_job list \<Rightarrow> unit res" where
  "retry_failed retry [] = Inr ()"
| "retry_failed retry (j # js) =
     (if ij_status j = ''failed'' then bind_r (retry j) (\<lambda>_. retry_failed retry js) else retry_failed retry js)"

text \<open>\<^verbatim>\<open>StartPreparation\<close>; \<open>env'\<close> is what the status at the end reads.\<close>

definition start_preparation ::
    "author_env \<Rightarrow> author_env \<Rightarrow> (index_requirement \<Rightarrow> index_job res) \<Rightarrow> (index_job \<Rightarrow> unit res) \<Rightarrow> string \<Rightarrow> string \<Rightarrow> string \<Rightarrow>
      preparation_status author_step" where
  "start_preparation env env' create retry tenant sid i =
     then_do (preparation_state env tenant sid i) (\<lambda>(required, jobs).
     then_do (need (create_missing create required jobs)) (\<lambda>jobs.
     then_do (need (retry_failed retry jobs)) (\<lambda>_.
     get_preparation_status env' tenant sid i)))"

end
