(* ===== verification/Authoring_Laws.thy ===== *)
theory Authoring_Laws
  imports Publication_Service
begin

text \<open>
  What the authoring of scenarios keeps, in whatever order calls interleave: a committed iteration is frozen, and
  what is live is a committed iteration of its scenario.
\<close>

subsection \<open>Steps that succeed\<close>

text \<open>\<open>gives P m Q\<close>: when \<open>m\<close> succeeds in a state with \<open>P\<close>, result and state have \<open>Q\<close>.\<close>

definition gives :: "('w \<Rightarrow> bool) \<Rightarrow> ('w, 'e, 'a) step \<Rightarrow> ('a \<Rightarrow> 'w \<Rightarrow> bool) \<Rightarrow> bool" where
  "gives P m Q = (\<forall>w x w'. P w \<longrightarrow> m w = (Inr x, w') \<longrightarrow> Q x w')"

lemma givesI: "(\<And>w x w'. P w \<Longrightarrow> m w = (Inr x, w') \<Longrightarrow> Q x w') \<Longrightarrow> gives P m Q"
  by (auto simp: gives_def)

lemma gives_then_do: "gives P m R \<Longrightarrow> (\<And>x. gives (R x) (k x) Q) \<Longrightarrow> gives P (then_do m k) Q"
  by (auto simp: gives_def step_simps)

lemma gives_finish: "(\<And>w. P w \<Longrightarrow> Q x w) \<Longrightarrow> gives P (finish_with x) Q"
  by (simp add: gives_def step_simps)

lemma gives_failing: "gives P (failing e) Q"
  by (simp add: gives_def step_simps)

lemma gives_if: "(c \<Longrightarrow> gives P m Q) \<Longrightarrow> (\<not> c \<Longrightarrow> gives P m' Q) \<Longrightarrow> gives P (if c then m else m') Q"
  by simp

lemma gives_need: "gives P (need r) (\<lambda>x w. r = Inr x \<and> P w)"
  by (simp add: gives_def need_def)

lemma gives_reject: "gives P (reject_if e) (\<lambda>_ w. e = None \<and> P w)"
  by (cases e) (auto simp: gives_def reject_if_def step_simps)

lemma gives_weaken: "gives P' m Q' \<Longrightarrow> (\<And>w. P w \<Longrightarrow> P' w) \<Longrightarrow> (\<And>x w. Q' x w \<Longrightarrow> Q x w) \<Longrightarrow> gives P m Q"
  unfolding gives_def by blast

lemma gives_keeps: "keeps P m \<Longrightarrow> gives P m (\<lambda>_. P)"
  by (auto simp: gives_def keeps_def)

lemma gives_pull: "(c \<Longrightarrow> gives P m Q) \<Longrightarrow> gives (\<lambda>w. c \<and> P w) m Q"
  by (auto simp: gives_def)

lemma transaction_gives: "gives P m (\<lambda>_. P) \<Longrightarrow> keeps P (transaction works m)"
  by (rule transaction_keeps) (auto simp: gives_def)

lemma gives_transaction: "gives P m Q \<Longrightarrow> gives P (transaction works m) Q"
  by (auto simp: gives_def step_simps)

text \<open>Reading leaves the state.\<close>

lemma gives_scenario: "gives P (get_scenario_row works tenant i) (\<lambda>s w. P w \<and> s \<in> set (au_scenarios w) \<and> scenario_is tenant i s)"
  by (rule givesI) (auto simp: get_scenario_row_def step_simps find_Some_iff split: if_splits option.splits)

lemma gives_iteration:
  "gives P (get_iteration_row works tenant sid i) (\<lambda>it w. P w \<and> it \<in> set (au_iterations w) \<and> iteration_is tenant sid i it)"
  by (rule givesI) (auto simp: get_iteration_row_def step_simps find_Some_iff split: if_splits option.splits)

lemma gives_rule:
  "gives P (get_rule_row works tenant sid i rid) (\<lambda>r w. P w \<and> r \<in> set (au_rules w) \<and> rule_of w tenant sid i r)"
  by (rule givesI) (auto simp: get_rule_row_def step_simps find_Some_iff split: if_splits option.splits)

lemma gives_rules:
  "gives P (list_rules works tenant sid i) (\<lambda>rs w. P w \<and> (\<forall>r \<in> set rs. r \<in> set (au_rules w) \<and> rule_of w tenant sid i r))"
  by (rule givesI) (auto simp: list_rules_def step_simps split: if_splits)

lemma gives_iterations:
  "gives P (list_iterations works tenant sid)
     (\<lambda>its w. P w \<and> (\<forall>it \<in> set its. it \<in> set (au_iterations w) \<and> it_tenant it = tenant \<and> it_scenario it = sid))"
  by (rule givesI) (auto simp: list_iterations_def step_simps split: if_splits)

lemma gives_version: "gives P (next_version works tenant sid) (\<lambda>_. P)"
  by (rule givesI) (auto simp: next_version_def step_simps)

lemma gives_fresh:
  "(\<And>w. P w \<Longrightarrow> Q (ae_gen env (au_drawn w)) (w\<lparr>au_drawn := Suc (au_drawn w)\<rparr>)) \<Longrightarrow> gives P (fresh_id env) Q"
  by (rule givesI) (auto simp: fresh_id_def)

lemma gives_trigger: "gives P (check_trigger_type env tenant ty) (\<lambda>_. P)"
  by (rule givesI) (auto simp: check_trigger_type_def step_simps split: sum.splits if_splits)

lemma reads_keep:
  "keeps P (get_scenario_row works tenant i)" "keeps P (get_iteration_row works tenant sid i)" "keeps P (get_rule_row works tenant sid i rid)"
  "keeps P (list_rules works tenant sid i)" "keeps P (list_iterations works tenant sid)" "keeps P (next_version works tenant sid)"
  "keeps P (need r)" "keeps P (reject_if e)" "keeps P (check_trigger_type env tenant ty)"
  unfolding get_scenario_row_def get_iteration_row_def get_rule_row_def list_rules_def list_iterations_def next_version_def
    check_trigger_type_def reject_if_def
  by (auto simp: keeps_def ask_def need_def step_simps split: option.splits sum.splits)

subsection \<open>A committed iteration is frozen\<close>

text \<open>The iteration \<open>it\<close> is there with its rules \<open>rs\<close>; only its schedule may differ.\<close>

definition frozen_as :: "iteration \<Rightarrow> rule list \<Rightarrow> authoring \<Rightarrow> bool" where
  "frozen_as it rs w =
     (distinct (map it_id (au_iterations w)) \<and> (\<exists>s. it\<lparr>it_schedule := s\<rparr> \<in> set (au_iterations w)) \<and>
      filter (\<lambda>r. ru_iteration r = it_id it) (au_rules w) = rs)"

lemma frozen_drawn [simp]: "frozen_as it rs (w\<lparr>au_drawn := n\<rparr>) = frozen_as it rs w"
  "frozen_as it rs (w\<lparr>au_scenarios := ss\<rparr>) = frozen_as it rs w" "frozen_as it rs (w\<lparr>au_publications := ps\<rparr>) = frozen_as it rs w"
  by (simp_all add: frozen_as_def)

lemma distinct_id:
  "distinct (map f xs) \<Longrightarrow> x \<in> set xs \<Longrightarrow> y \<in> set xs \<Longrightarrow> f x = f y \<Longrightarrow> x = y"
  by (metis distinct_map inj_onD)

lemma frozen_draft:
  assumes "frozen_as it rs w" "it_status it = ''committed''" "d \<in> set (au_iterations w)" "it_status d = ''draft''"
  shows "it_id d \<noteq> it_id it"
proof
  assume i: "it_id d = it_id it"
  obtain s where s: "it\<lparr>it_schedule := s\<rparr> \<in> set (au_iterations w)" "distinct (map it_id (au_iterations w))"
    using assms(1) by (auto simp: frozen_as_def)
  have "d = it\<lparr>it_schedule := s\<rparr>" by (rule distinct_id [OF s(2) assms(3) s(1)]) (simp add: i)
  then show False using assms by simp
qed

lemma frozen_change:
  assumes "frozen_as it rs w" "map it_id (au_iterations w') = map it_id (au_iterations w)"
    "\<exists>s. it\<lparr>it_schedule := s\<rparr> \<in> set (au_iterations w')"
    "filter (\<lambda>r. ru_iteration r = it_id it) (au_rules w') = filter (\<lambda>r. ru_iteration r = it_id it) (au_rules w)"
  shows "frozen_as it rs w'"
  using assms(1,3,4) unfolding frozen_as_def assms(2) by simp

lemma filter_map_other:
  "(\<And>r. P r \<Longrightarrow> \<not> Q r) \<Longrightarrow> (\<And>r. Q (g r) = Q r) \<Longrightarrow> filter Q (map (\<lambda>r. if P r then g r else r) xs) = filter Q xs"
  by (induction xs) auto

text \<open>A change of the rows of other iterations.\<close>

lemma frozen_map:
  assumes "frozen_as it rs w" "\<And>x. it_id (f x) = it_id x" "\<And>x. it_id x = it_id it \<Longrightarrow> f x = x"
  shows "frozen_as it rs (w\<lparr>au_iterations := map f (au_iterations w)\<rparr>)"
proof -
  have "map it_id (map f (au_iterations w)) = map it_id (au_iterations w)" using assms(2) by simp
  moreover have "\<exists>s. it\<lparr>it_schedule := s\<rparr> \<in> set (map f (au_iterations w))"
  proof -
    obtain s where s: "it\<lparr>it_schedule := s\<rparr> \<in> set (au_iterations w)" using assms(1) by (auto simp: frozen_as_def)
    have "f (it\<lparr>it_schedule := s\<rparr>) = it\<lparr>it_schedule := s\<rparr>" by (rule assms(3)) simp
    then show ?thesis using s by (metis image_eqI list.set_map)
  qed
  ultimately show ?thesis by (intro frozen_change [OF assms(1)]) simp_all
qed

lemma frozen_insert_iteration:
  "gives (frozen_as it rs) (insert_iteration works item) (\<lambda>x w. it_id x \<noteq> it_id it \<and> frozen_as it rs w)"
  by (rule givesI) (auto simp: insert_iteration_def step_simps frozen_as_def list_ex_iff split: if_splits)

lemma frozen_insert_rule: "ru_iteration item \<noteq> it_id it \<Longrightarrow> gives (frozen_as it rs) (insert_rule works item) (\<lambda>_. frozen_as it rs)"
  by (rule givesI) (auto simp: insert_rule_def step_simps frozen_as_def split: if_splits)

lemma frozen_update_rule: "ru_iteration item \<noteq> it_id it \<Longrightarrow> gives (frozen_as it rs) (update_rule_row works item) (\<lambda>_. frozen_as it rs)"
proof (rule givesI)
  fix w x w'
  assume a: "ru_iteration item \<noteq> it_id it" "frozen_as it rs w" "update_rule_row works item w = (Inr x, w')"
  define put where "put = (\<lambda>r. r\<lparr>ru_order := ru_order item, ru_name := ru_name item, ru_description := ru_description item,
    ru_formula := ru_formula item, ru_modifier := ru_modifier item, ru_group := ru_group item,
    ru_snooze_group := ru_snooze_group item, ru_stable := ru_stable item, ru_updated := ru_updated item\<rparr> :: rule)"
  define this where "this = (\<lambda>r :: rule. ru_id r = ru_id item \<and> ru_iteration r = ru_iteration item \<and> ru_tenant r = ru_tenant item)"
  have "w' = w\<lparr>au_rules := map (\<lambda>r. if this r then put r else r) (au_rules w)\<rparr>"
    using a(3) by (auto simp: update_rule_row_def step_simps Let_def put_def this_def split: if_splits option.splits)
  moreover have "filter (\<lambda>r. ru_iteration r = it_id it) (map (\<lambda>r. if this r then put r else r) (au_rules w)) =
      filter (\<lambda>r. ru_iteration r = it_id it) (au_rules w)"
    by (rule filter_map_other) (use a(1) in \<open>auto simp: this_def put_def\<close>)
  ultimately show "frozen_as it rs w'" using a(2) by (simp add: frozen_as_def)
qed

lemma frozen_delete_rule: "i \<noteq> it_id it \<Longrightarrow> gives (frozen_as it rs) (delete_rule_row works tenant sid i rid) (\<lambda>_. frozen_as it rs)"
proof (rule givesI)
  fix w x w'
  assume a: "i \<noteq> it_id it" "frozen_as it rs w" "delete_rule_row works tenant sid i rid w = (Inr x, w')"
  have "filter (\<lambda>r. ru_iteration r = it_id it) (filter (\<lambda>r. \<not> (rule_of w tenant sid i r \<and> ru_id r = rid)) (au_rules w)) =
      filter (\<lambda>r. ru_iteration r = it_id it) (au_rules w)"
    unfolding filter_filter by (rule filter_cong) (use a(1) in \<open>auto simp: rule_of_def\<close>)
  then show "frozen_as it rs w'" using a by (auto simp: delete_rule_row_def step_simps frozen_as_def)
qed

lemma frozen_commit_row:
  "i \<noteq> it_id it \<Longrightarrow> gives (frozen_as it rs) (commit_iteration_row works tenant sid i now) (\<lambda>_. frozen_as it rs)"
  by (rule givesI) (auto simp: commit_iteration_row_def step_simps Let_def iteration_is_def split: if_splits option.splits intro!: frozen_map)

lemma frozen_update_row:
  "it_id item \<noteq> it_id it \<Longrightarrow> gives (frozen_as it rs) (update_iteration_row works item) (\<lambda>_. frozen_as it rs)"
  by (rule givesI) (auto simp: update_iteration_row_def step_simps Let_def iteration_is_def split: if_splits option.splits intro!: frozen_map)

text \<open>A schedule that is written back to its iteration.\<close>

lemma frozen_schedule:
  "gives (\<lambda>w. frozen_as it rs w \<and> d \<in> set (au_iterations w)) (update_iteration_row works (d\<lparr>it_schedule := s\<rparr>)) (\<lambda>_. frozen_as it rs)"
proof (rule givesI)
  fix w x w'
  assume a: "frozen_as it rs w \<and> d \<in> set (au_iterations w)" "update_iteration_row works (d\<lparr>it_schedule := s\<rparr>) w = (Inr x, w')"
  show "frozen_as it rs w'"
  proof (cases "it_id d = it_id it")
    case False
    then show ?thesis using a frozen_update_row [of "d\<lparr>it_schedule := s\<rparr>" it rs works] by (auto simp: gives_def)
  next
    case True
    obtain t where t: "it\<lparr>it_schedule := t\<rparr> \<in> set (au_iterations w)" and dist: "distinct (map it_id (au_iterations w))"
      using a by (auto simp: frozen_as_def)
    have d: "d = it\<lparr>it_schedule := t\<rparr>" by (rule distinct_id [OF dist _ t]) (use a True in auto)
    define put where "put = (\<lambda>x :: iteration. if iteration_is (it_tenant d) (it_scenario d) (it_id d) x
      then x\<lparr>it_trigger := it_trigger d, it_review := it_review d, it_block := it_block d, it_decline := it_decline d, it_schedule := s\<rparr> else x)"
    have w': "w' = w\<lparr>au_iterations := map put (au_iterations w)\<rparr>"
      using a(2) by (auto simp: update_iteration_row_def step_simps Let_def put_def split: if_splits option.splits)
    have "put (it\<lparr>it_schedule := t\<rparr>) = it\<lparr>it_schedule := s\<rparr>" by (simp add: put_def d iteration_is_def)
    then have m: "it\<lparr>it_schedule := s\<rparr> \<in> set (map put (au_iterations w))" using t by (metis image_eqI list.set_map)
    have "it_id (put x) = it_id x" for x by (simp add: put_def)
    then have i: "map it_id (map put (au_iterations w)) = map it_id (au_iterations w)" by simp
    have e: "au_iterations w' = map put (au_iterations w)" by (simp add: w')
    show ?thesis
    proof (rule frozen_change [of it rs w])
      show "frozen_as it rs w" using a(1) by blast
      show "map it_id (au_iterations w') = map it_id (au_iterations w)" using i by (simp add: w')
      show "\<exists>s. it\<lparr>it_schedule := s\<rparr> \<in> set (au_iterations w')" using m unfolding e by blast
      show "filter (\<lambda>r. ru_iteration r = it_id it) (au_rules w') = filter (\<lambda>r. ru_iteration r = it_id it) (au_rules w)" by (simp add: w')
    qed
  qed
qed

lemma frozen_scenarios:
  "gives (frozen_as it rs) (insert_scenario works item) (\<lambda>_. frozen_as it rs)" "gives (frozen_as it rs) (update_scenario_row works item) (\<lambda>_. frozen_as it rs)"
  "gives (frozen_as it rs) (set_live works now tenant i live) (\<lambda>_. frozen_as it rs)" "gives (frozen_as it rs) (insert_publication works p) (\<lambda>_. frozen_as it rs)"
  "gives (frozen_as it rs) (fresh_id env) (\<lambda>_. frozen_as it rs)"
  by (rule givesI, auto simp: insert_scenario_def update_scenario_row_def set_live_def insert_publication_def fresh_id_def Let_def step_simps
      split: if_splits option.splits)+

lemma frozen_copy_rules: "i \<noteq> it_id it \<Longrightarrow> gives (frozen_as it rs) (copy_rules env tenant i rules) (\<lambda>_. frozen_as it rs)"
  by (induction rules) (auto intro!: gives_finish gives_then_do [OF frozen_scenarios(5)] gives_then_do [OF frozen_insert_rule])

lemma frozen_clone_rules: "i \<noteq> it_id it \<Longrightarrow> gives (frozen_as it rs) (clone_rules env i rules) (\<lambda>_. frozen_as it rs)"
  by (induction rules) (auto intro!: gives_finish gives_then_do [OF frozen_scenarios(5)] gives_then_do [OF frozen_insert_rule])

lemma frozen_copy_iterations:
  "gives (frozen_as it rs) (copy_iterations env tenant source sid its live) (\<lambda>_. frozen_as it rs)"
proof (induction its arbitrary: live)
  case (Cons d ds)
  have c: "gives (\<lambda>w. it_id x \<noteq> it_id it \<and> frozen_as it rs w)
      (then_do (list_rules works tenant (sn_id source) (it_id d)) (\<lambda>rules. then_do (copy_rules env tenant (it_id x) rules) k)) (\<lambda>_. frozen_as it rs)"
    if "\<And>u. gives (frozen_as it rs) (k u) (\<lambda>_. frozen_as it rs)" for x works and k :: "unit \<Rightarrow> string option author_step"
    by (rule gives_pull, rule gives_then_do [OF gives_keeps [OF reads_keep(4)]]) (rule gives_then_do [OF frozen_copy_rules that])
  show ?case
    unfolding copy_iterations.simps Let_def
    by (rule gives_then_do [OF frozen_scenarios(5)], rule gives_then_do [OF frozen_insert_iteration], rule c, rule Cons.IH)
qed (simp add: gives_finish)

lemma frozen_draft_row:
  assumes "it_status it = ''committed''" "\<And>d. it_status d = ''draft'' \<Longrightarrow> i \<noteq> it_id it \<Longrightarrow> it_id d = i \<Longrightarrow> gives (frozen_as it rs) (k d) (\<lambda>_. frozen_as it rs)"
  shows "gives (frozen_as it rs) (then_do (get_iteration_row works tenant sid i)
    (\<lambda>d. if it_status d \<noteq> ''draft'' then failing e else k d)) (\<lambda>_. frozen_as it rs)"
proof (rule gives_then_do [OF gives_iteration])
  fix d
  show "gives (\<lambda>w. frozen_as it rs w \<and> d \<in> set (au_iterations w) \<and> iteration_is tenant sid i d)
      (if it_status d \<noteq> ''draft'' then failing e else k d) (\<lambda>_. frozen_as it rs)"
  proof (cases "it_status d = ''draft''")
    case True
    have "gives (\<lambda>w. (i \<noteq> it_id it \<and> it_id d = i) \<and> frozen_as it rs w) (k d) (\<lambda>_. frozen_as it rs)"
      by (rule gives_pull, elim conjE, rule assms(2) [OF True])
    then have "gives (\<lambda>w. frozen_as it rs w \<and> d \<in> set (au_iterations w) \<and> iteration_is tenant sid i d) (k d) (\<lambda>_. frozen_as it rs)"
      by (rule gives_weaken) (use frozen_draft assms(1) True in \<open>auto simp: iteration_is_def\<close>)
    then show ?thesis using True by simp
  qed (simp add: gives_failing)
qed

lemma frozen_on_draft:
  assumes "it_status it = ''committed''" "i \<noteq> it_id it \<Longrightarrow> gives (frozen_as it rs) m (\<lambda>_. frozen_as it rs)"
  shows "keeps (frozen_as it rs) (on_draft env tenant sid i what m)"
  unfolding on_draft_def by (rule transaction_gives, rule frozen_draft_row [OF assms(1)]) (rule assms(2))

lemmas gives_reads = gives_keeps [OF reads_keep(1)] gives_keeps [OF reads_keep(2)] gives_keeps [OF reads_keep(3)]
  gives_keeps [OF reads_keep(4)] gives_keeps [OF reads_keep(5)] gives_keeps [OF reads_keep(6)] gives_keeps [OF reads_keep(7)]
  gives_keeps [OF reads_keep(8)] gives_keeps [OF reads_keep(9)]

lemma frozen_scenario_ops:
  "keeps (frozen_as it rs) (create_scenario env tenant name descr ty)"
  "keeps (frozen_as it rs) (update_scenario_write env c)"
  "keeps (frozen_as it rs) (copy_scenario_write env tenant source its item)"
proof -
  have f: "keeps (frozen_as it rs) (fresh_id env)" by (simp add: keeps_def fresh_id_def)
  show "keeps (frozen_as it rs) (create_scenario env tenant name descr ty)"
    unfolding create_scenario_def Let_def
    by (intro keeps_then_do f reads_keep transaction_gives frozen_scenarios)
  show "keeps (frozen_as it rs) (update_scenario_write env c)"
    unfolding update_scenario_write_def by (intro transaction_gives frozen_scenarios)
  show "keeps (frozen_as it rs) (copy_scenario_write env tenant source its item)"
    unfolding copy_scenario_write_def
    by (intro transaction_gives gives_then_do [OF frozen_scenarios(1)] gives_then_do [OF frozen_copy_iterations] gives_if gives_finish frozen_scenarios(2))
qed

lemma frozen_iteration_ops:
  assumes "it_status it = ''committed''"
  shows "keeps (frozen_as it rs) (create_draft env tenant sid)" "keeps (frozen_as it rs) (create_draft_from env tenant sid i)"
    "keeps (frozen_as it rs) (update_draft env tenant sid i trigger a b c schedule)" "keeps (frozen_as it rs) (commit_write env tenant sid i)"
proof -
  show "keeps (frozen_as it rs) (create_draft env tenant sid)"
    unfolding create_draft_def Let_def
    by (rule transaction_gives, rule gives_then_do [OF gives_reads(6)], rule gives_then_do [OF frozen_scenarios(5)],
        rule gives_then_do [OF gives_reads(8)], rule gives_weaken [OF frozen_insert_iteration]) auto
  show "keeps (frozen_as it rs) (create_draft_from env tenant sid i)"
    unfolding create_draft_from_def Let_def
    by (rule transaction_gives, rule gives_then_do [OF gives_reads(2)], rule gives_then_do [OF gives_reads(6)], rule gives_then_do [OF frozen_scenarios(5)],
        rule gives_then_do [OF gives_reads(8)], rule gives_then_do [OF frozen_insert_iteration], rule gives_pull,
        rule gives_then_do [OF gives_reads(4)], rule gives_then_do [OF frozen_clone_rules], assumption, rule gives_finish)
  show "keeps (frozen_as it rs) (update_draft env tenant sid i trigger a b c schedule)"
    unfolding update_draft_def Let_def
    by (rule transaction_gives, rule frozen_draft_row [OF assms], rule gives_then_do [OF gives_reads(8)], rule frozen_update_row) simp
  show "keeps (frozen_as it rs) (commit_write env tenant sid i)"
    unfolding commit_write_def by (rule transaction_gives, rule frozen_draft_row [OF assms], rule frozen_commit_row)
qed

lemma frozen_rule_ops:
  assumes "it_status it = ''committed''"
  shows "keeps (frozen_as it rs) (create_rule env tenant sid i f)" "keeps (frozen_as it rs) (update_rule env tenant sid i rid f)"
    "keeps (frozen_as it rs) (delete_rule env tenant sid i rid)"
proof -
  show "keeps (frozen_as it rs) (create_rule env tenant sid i f)"
    unfolding create_rule_def Let_def
    by (rule frozen_on_draft [OF assms], rule gives_then_do [OF frozen_scenarios(5)], rule gives_then_do [OF gives_reads(8)],
        rule frozen_insert_rule) simp
  show "keeps (frozen_as it rs) (delete_rule env tenant sid i rid)"
    unfolding delete_rule_def by (rule frozen_on_draft [OF assms]) (rule frozen_delete_rule)
  have u: "gives (\<lambda>w. frozen_as it rs w \<and> e \<in> set (au_rules w) \<and> rule_of w tenant sid i e)
      (let item = put_fields f e\<lparr>ru_updated := ae_now env\<rparr> in then_do (reject_if (rule_error item)) (\<lambda>_. update_rule_row works item))
      (\<lambda>_. frozen_as it rs)" if "i \<noteq> it_id it" for e works
  proof -
    have "gives (\<lambda>w. ru_iteration e = i \<and> frozen_as it rs w)
      (let item = put_fields f e\<lparr>ru_updated := ae_now env\<rparr> in then_do (reject_if (rule_error item)) (\<lambda>_. update_rule_row works item))
      (\<lambda>_. frozen_as it rs)"
      unfolding Let_def by (rule gives_pull, rule gives_then_do [OF gives_reads(8)], rule frozen_update_rule) (use that in \<open>simp add: put_fields_def\<close>)
    then show ?thesis by (rule gives_weaken) (auto simp: rule_of_def)
  qed
  show "keeps (frozen_as it rs) (update_rule env tenant sid i rid f)"
    unfolding update_rule_def by (rule frozen_on_draft [OF assms], rule gives_then_do [OF gives_rule], rule u)
qed

lemma frozen_schedule_write: "keeps (frozen_as it rs) (schedule_write env tenant sid i encoded)"
proof -
  have "gives (\<lambda>w. frozen_as it rs w \<and> d \<in> set (au_iterations w) \<and> iteration_is tenant sid i d)
      (update_iteration_row works (d\<lparr>it_schedule := encoded\<rparr>)) (\<lambda>_. frozen_as it rs)" for d works
    by (rule gives_weaken [OF frozen_schedule]) auto
  then show ?thesis
    unfolding schedule_write_def by (intro transaction_gives gives_then_do [OF gives_iteration])
qed

lemma preparation_keeps: "keeps P (get_preparation_status env tenant sid i)"
  unfolding get_preparation_status_def preparation_state_def
  by (intro keeps_then_do reads_keep) (auto intro!: keeps_finish split: prod.splits)

lemma frozen_record: "gives (frozen_as it rs) (record_publication env tenant sid i action) (\<lambda>_. frozen_as it rs)"
  unfolding record_publication_def by (rule gives_then_do [OF frozen_scenarios(5)], rule frozen_scenarios(4))

lemma frozen_publications:
  "keeps (frozen_as it rs) (publish env tenant sid i)" "keeps (frozen_as it rs) (unpublish env tenant sid i)"
proof -
  have r: "gives (frozen_as it rs) (case l of None \<Rightarrow> finish_with [] | Some old \<Rightarrow> if old = i then finish_with []
      else then_do (record_publication env tenant sid old ''unpublish'') (\<lambda>p. finish_with [p])) (\<lambda>_. frozen_as it rs)" for l
    by (auto intro!: gives_finish gives_then_do [OF frozen_record] split: option.splits)
  show "keeps (frozen_as it rs) (publish env tenant sid i)"
    unfolding publish_def
    by (intro transaction_gives gives_then_do [OF gives_reads(1)] gives_then_do [OF gives_reads(2)] gives_if gives_failing
        gives_then_do [OF gives_keeps [OF preparation_keeps]] gives_then_do [OF r] gives_then_do [OF frozen_scenarios(3)]
        gives_then_do [OF frozen_record] gives_finish)
  show "keeps (frozen_as it rs) (unpublish env tenant sid i)"
    unfolding unpublish_def
    by (intro transaction_gives gives_then_do [OF gives_reads(1)] gives_if gives_failing gives_then_do [OF frozen_scenarios(3)]
        gives_then_do [OF frozen_record] gives_finish)
qed

end
