(* ===== verification/Authoring_System.thy ===== *)
theory Authoring_System
  imports Authoring_Laws
begin

text \<open>
  The authoring API under concurrent calls. A call whose reads come before its transaction leaves a task that
  writes later; calls and tasks interleave in any order, each with its own clock, database and data model.
  Transactions are taken to be atomic.
\<close>

datatype author_call =
    CreateScenario string string string string
  | DeleteScenario string string
  | CreateDraft string string
  | CreateDraftFrom string string string
  | UpdateDraft string string string formula "int option" "int option" "int option" string
  | CreateRule string string string rule_fields
  | UpdateRule string string string string rule_fields
  | DeleteRule string string string string
  | Publish string string string
  | Unpublish string string string

datatype author_start =
    StartUpdate string string string string string
  | StartCommit string string string
  | StartCopy string string string
  | StartSchedule string string schedule_config

datatype author_task =
    WriteScenario scenario
  | WriteCommit string string string
  | WriteCopy string scenario "iteration list" scenario
  | WriteSchedule string string string string

definition no_answer :: "'a author_step \<Rightarrow> unit author_step" where
  "no_answer m = then_do m (\<lambda>_. finish_with ())"

fun run_call :: "author_env \<Rightarrow> author_call \<Rightarrow> unit author_step" where
  "run_call env (CreateScenario tenant name descr ty) = no_answer (create_scenario env tenant name descr ty)"
| "run_call env (DeleteScenario tenant sid) = no_answer (delete_scenario env tenant sid)"
| "run_call env (CreateDraft tenant sid) = no_answer (create_draft env tenant sid)"
| "run_call env (CreateDraftFrom tenant sid i) = no_answer (create_draft_from env tenant sid i)"
| "run_call env (UpdateDraft tenant sid i f a b c schedule) = no_answer (update_draft env tenant sid i f a b c schedule)"
| "run_call env (CreateRule tenant sid i f) = no_answer (create_rule env tenant sid i f)"
| "run_call env (UpdateRule tenant sid i rid f) = no_answer (update_rule env tenant sid i rid f)"
| "run_call env (DeleteRule tenant sid i rid) = no_answer (delete_rule env tenant sid i rid)"
| "run_call env (Publish tenant sid i) = no_answer (publish env tenant sid i)"
| "run_call env (Unpublish tenant sid i) = no_answer (unpublish env tenant sid i)"

fun start_task :: "author_env \<Rightarrow> author_start \<Rightarrow> author_task author_step" where
  "start_task env (StartUpdate tenant sid name descr ty) =
     then_do (update_scenario_read env tenant sid name descr ty) (\<lambda>s. finish_with (WriteScenario s))"
| "start_task env (StartCommit tenant sid i) = then_do (commit_read env tenant sid i) (\<lambda>_. finish_with (WriteCommit tenant sid i))"
| "start_task env (StartCopy tenant sid name) =
     then_do (copy_scenario_read env tenant sid name) (\<lambda>(source, its, item). finish_with (WriteCopy tenant source its item))"
| "start_task env (StartSchedule tenant sid cfg) =
     then_do (schedule_read env tenant sid cfg) (\<lambda>(i, n, encoded). finish_with (WriteSchedule tenant sid i encoded))"

fun run_task :: "author_env \<Rightarrow> author_task \<Rightarrow> unit author_step" where
  "run_task env (WriteScenario s) = no_answer (update_scenario_write env s)"
| "run_task env (WriteCommit tenant sid i) = no_answer (commit_write env tenant sid i)"
| "run_task env (WriteCopy tenant source its item) = no_answer (copy_scenario_write env tenant source its item)"
| "run_task env (WriteSchedule tenant sid i encoded) = no_answer (schedule_write env tenant sid i encoded)"

type_synonym author_state = "authoring \<times> author_task list"

text \<open>Identifiers come from one source for all calls; a process may die before its task has written.\<close>

inductive author_move :: "(nat \<Rightarrow> string) \<Rightarrow> author_state \<Rightarrow> author_state \<Rightarrow> bool" for gen where
  whole_call: "ae_gen env = gen \<Longrightarrow> run_call env c w = (r, w') \<Longrightarrow> author_move gen (w, ts) (w', ts)"
| task_read: "ae_gen env = gen \<Longrightarrow> start_task env c w = (Inr t, w') \<Longrightarrow> author_move gen (w, ts) (w', t # ts)"
| task_refused: "ae_gen env = gen \<Longrightarrow> start_task env c w = (Inl e, w') \<Longrightarrow> author_move gen (w, ts) (w', ts)"
| task_written: "ae_gen env = gen \<Longrightarrow> t \<in> set ts \<Longrightarrow> run_task env t w = (r, w') \<Longrightarrow> author_move gen (w, ts) (w', remove1 t ts)"
| task_lost: "author_move gen (w, ts) (w, remove1 t ts)"

inductive author_runs :: "(nat \<Rightarrow> string) \<Rightarrow> author_state \<Rightarrow> author_state \<Rightarrow> bool" for gen where
  runs_refl: "author_runs gen x x"
| runs_step: "author_runs gen x y \<Longrightarrow> author_move gen y z \<Longrightarrow> author_runs gen x z"

lemma runs_trans: "author_runs gen y z \<Longrightarrow> author_runs gen x y \<Longrightarrow> author_runs gen x z"
  by (induction rule: author_runs.induct) (auto intro: runs_step)

subsection \<open>What is live is committed\<close>

definition drawn :: "(nat \<Rightarrow> string) \<Rightarrow> authoring \<Rightarrow> string \<Rightarrow> bool" where
  "drawn gen w i = (\<exists>k < au_drawn w. i = gen k)"

text \<open>No iteration \<open>l\<close> of the state, now or later, is other than a committed one of the scenario \<open>sid\<close>.\<close>

definition settled :: "(nat \<Rightarrow> string) \<Rightarrow> string \<Rightarrow> string \<Rightarrow> authoring \<Rightarrow> bool" where
  "settled gen sid l w =
     (drawn gen w l \<and> (\<forall>it \<in> set (au_iterations w). it_id it = l \<longrightarrow> it_status it = ''committed'' \<and> it_scenario it = sid))"

definition sound :: "(nat \<Rightarrow> string) \<Rightarrow> (string \<times> string) set \<Rightarrow> authoring \<Rightarrow> bool" where
  "sound gen claims w =
     (distinct (map it_id (au_iterations w)) \<and> (\<forall>it \<in> set (au_iterations w). drawn gen w (it_id it)) \<and>
      (\<forall>(sid, l) \<in> claims. settled gen sid l w) \<and>
      (\<forall>s \<in> set (au_scenarios w). \<forall>l. sn_live s = Some l \<longrightarrow> settled gen (sn_id s) l w \<and> l \<in> it_id ` set (au_iterations w)))"

lemma sound_same:
  "au_scenarios w' = au_scenarios w \<Longrightarrow> au_iterations w' = au_iterations w \<Longrightarrow> au_drawn w' = au_drawn w \<Longrightarrow>
     sound gen claims w' = sound gen claims w"
  by (simp add: sound_def settled_def drawn_def)

lemma sound_insert: "sound gen (insert (sid, l) claims) w = (settled gen sid l w \<and> sound gen claims w)"
  by (auto simp: sound_def)

definition unused :: "(nat \<Rightarrow> string) \<Rightarrow> (string \<times> string) set \<Rightarrow> string \<Rightarrow> authoring \<Rightarrow> bool" where
  "unused gen claims i w =
     (drawn gen w i \<and> i \<notin> it_id ` set (au_iterations w) \<and> i \<notin> snd ` claims \<and> (\<forall>s \<in> set (au_scenarios w). sn_live s \<noteq> Some i))"

lemma sound_fresh:
  assumes "inj gen" "ae_gen env = gen"
  shows "gives (sound gen claims) (fresh_id env) (\<lambda>i w. sound gen claims w \<and> unused gen claims i w)"
proof (rule gives_fresh)
  fix w assume w: "sound gen claims w"
  have old: "\<not> drawn gen w (gen (au_drawn w))" using assms(1) by (auto simp: drawn_def inj_eq)
  have new: "drawn gen (w\<lparr>au_drawn := Suc (au_drawn w)\<rparr>) (gen (au_drawn w))" by (auto simp: drawn_def)
  have later: "drawn gen w i \<Longrightarrow> drawn gen (w\<lparr>au_drawn := Suc (au_drawn w)\<rparr>) i" for i by (auto simp: drawn_def intro: less_SucI)
  show "sound gen claims (w\<lparr>au_drawn := Suc (au_drawn w)\<rparr>) \<and>
      unused gen claims (ae_gen env (au_drawn w)) (w\<lparr>au_drawn := Suc (au_drawn w)\<rparr>)"
    using w old new later unfolding sound_def unused_def settled_def assms(2) by (fastforce simp: image_iff)
qed

lemma sound_drawn: "inj gen \<Longrightarrow> ae_gen env = gen \<Longrightarrow> gives (sound gen claims) (fresh_id env) (\<lambda>_. sound gen claims)"
  by (rule gives_weaken [OF sound_fresh]) auto

lemma sound_insert_iteration:
  "gives (\<lambda>w. sound gen claims w \<and> unused gen claims (it_id item) w) (insert_iteration works item)
     (\<lambda>x w. x = item \<and> sound gen claims w \<and> (it_status item = ''committed'' \<longrightarrow> settled gen (it_scenario item) (it_id item) w))"
  by (rule givesI) (auto simp: insert_iteration_def step_simps sound_def settled_def unused_def drawn_def image_iff split: if_splits; force)

text \<open>Statements on iterations and rules.\<close>

lemma sound_map:
  assumes "sound gen claims w" "\<And>x. it_id (f x) = it_id x" "\<And>x. it_scenario (f x) = it_scenario x"
    "\<And>x. it_status x = ''committed'' \<Longrightarrow> it_status (f x) = ''committed''"
  shows "sound gen claims (w\<lparr>au_iterations := map f (au_iterations w)\<rparr>)"
proof -
  have e: "it_id \<circ> f = it_id" "it_id ` f ` X = it_id ` X" for X
    using assms(2) by (simp_all add: image_image fun_eq_iff)
  have "settled gen sid l (w\<lparr>au_iterations := map f (au_iterations w)\<rparr>)" if "settled gen sid l w" for sid l
    using that assms(2,3,4) by (auto simp: settled_def drawn_def)
  then show ?thesis using assms(1,2) e unfolding sound_def by (auto simp: drawn_def)
qed

lemma sound_commit_row: "gives (sound gen claims) (commit_iteration_row works tenant sid i now) (\<lambda>_. sound gen claims)"
  by (rule givesI) (auto simp: commit_iteration_row_def step_simps Let_def split: if_splits option.splits intro!: sound_map)

lemma sound_update_row: "gives (sound gen claims) (update_iteration_row works item) (\<lambda>_. sound gen claims)"
  by (rule givesI) (auto simp: update_iteration_row_def step_simps Let_def split: if_splits option.splits intro!: sound_map)

lemma sound_rules:
  "gives (sound gen claims) (insert_rule works r) (\<lambda>_. sound gen claims)"
  "gives (sound gen claims) (update_rule_row works r) (\<lambda>_. sound gen claims)"
  "gives (sound gen claims) (delete_rule_row works tenant sid i rid) (\<lambda>_. sound gen claims)"
  "gives (sound gen claims) (insert_publication works p) (\<lambda>_. sound gen claims)"
  by (rule givesI, auto simp: insert_rule_def update_rule_row_def delete_rule_row_def insert_publication_def step_simps Let_def
      sound_same [of "w\<lparr>au_rules := x\<rparr>" w for w x] sound_same [of "w\<lparr>au_publications := x\<rparr>" w for w x] split: if_splits option.splits)+

text \<open>Statements on scenarios.\<close>

lemma sound_scenarios:
  assumes "sound gen claims w"
    "\<And>s l. s \<in> set ss \<Longrightarrow> sn_live s = Some l \<Longrightarrow>
       (\<exists>t \<in> set (au_scenarios w). sn_id t = sn_id s \<and> sn_live t = Some l) \<or> settled gen (sn_id s) l w \<and> l \<in> it_id ` set (au_iterations w)"
  shows "sound gen claims (w\<lparr>au_scenarios := ss\<rparr>)"
proof -
  have s: "settled gen sid l (w\<lparr>au_scenarios := ss\<rparr>) = settled gen sid l w" for sid l by (simp add: settled_def drawn_def)
  have "settled gen (sn_id x) l w \<and> l \<in> it_id ` set (au_iterations w)" if "x \<in> set ss" "sn_live x = Some l" for x l
    using assms(1) assms(2) [OF that] unfolding sound_def by metis
  then show ?thesis using assms(1) unfolding sound_def s by (auto simp: drawn_def)
qed

lemma sound_insert_scenario:
  "sn_live item = None \<Longrightarrow> gives (sound gen claims) (insert_scenario works item) (\<lambda>x w. x = item \<and> sound gen claims w)"
  by (rule givesI) (auto simp: insert_scenario_def step_simps split: if_splits intro!: sound_scenarios)

lemma live_exists_image: "live_exists w (Some l) = (l \<in> it_id ` set (au_iterations w))"
  by (auto simp: live_exists_def list_ex_iff)

lemma sound_update_scenario:
  assumes "\<And>l. sn_live item = Some l \<Longrightarrow> (sn_id item, l) \<in> claims"
  shows "gives (sound gen claims) (update_scenario_row works item) (\<lambda>_. sound gen claims)"
proof (rule givesI)
  fix w x w'
  assume w: "sound gen claims w" "update_scenario_row works item w = (Inr x, w')"
  define this where "this = scenario_is (sn_tenant item) (sn_id item)"
  define put where "put = (\<lambda>s :: scenario. s\<lparr>sn_name := sn_name item, sn_description := sn_description item, sn_trigger_type := sn_trigger_type item,
    sn_live := sn_live item, sn_updated := sn_updated item\<rparr>)"
  have w': "w' = w\<lparr>au_scenarios := map (\<lambda>s. if this s then put s else s) (au_scenarios w)\<rparr>" "live_exists w (sn_live item)"
    using w(2) by (auto simp: update_scenario_row_def step_simps Let_def this_def put_def split: if_splits option.splits)
  have c: "settled gen (sn_id item) l w \<and> l \<in> it_id ` set (au_iterations w)" if "sn_live item = Some l" for l
    using w(1) assms [OF that] w'(2) that by (auto simp: sound_def live_exists_image)
  show "sound gen claims w'"
    unfolding w'(1)
  proof (rule sound_scenarios [OF w(1)])
    fix s l assume s: "s \<in> set (map (\<lambda>s. if this s then put s else s) (au_scenarios w))" "sn_live s = Some l"
    obtain t where t: "t \<in> set (au_scenarios w)" "s = (if this t then put t else t)" using s(1) by auto
    show "(\<exists>t \<in> set (au_scenarios w). sn_id t = sn_id s \<and> sn_live t = Some l) \<or> settled gen (sn_id s) l w \<and> l \<in> it_id ` set (au_iterations w)"
      using t s(2) c by (cases "this t") (auto simp: put_def this_def scenario_is_def)
  qed
qed

lemma sound_set_live:
  assumes "\<And>l. live = Some l \<Longrightarrow> (i, l) \<in> claims"
  shows "gives (\<lambda>w. sound gen claims w \<and> live_exists w live) (set_live works now tenant i live) (\<lambda>_. sound gen claims)"
proof (rule givesI)
  fix w x w'
  assume w: "sound gen claims w \<and> live_exists w live" "set_live works now tenant i live w = (Inr x, w')"
  have w': "w' = w\<lparr>au_scenarios := map (\<lambda>s. if scenario_is tenant i s then s\<lparr>sn_live := live, sn_updated := now\<rparr> else s) (au_scenarios w)\<rparr>"
    using w(2) by (auto simp: set_live_def step_simps split: if_splits)
  have c: "settled gen i l w \<and> l \<in> it_id ` set (au_iterations w)" if "live = Some l" for l
    using w(1) assms [OF that] that by (auto simp: sound_def live_exists_image)
  show "sound gen claims w'"
    unfolding w' by (rule sound_scenarios) (use w(1) c in \<open>auto simp: scenario_is_def split: if_splits\<close>)
qed

lemma sound_delete:
  "gives (sound gen claims) (delete_scenario_row works tenant i) (\<lambda>_. sound gen claims)"
proof (rule givesI)
  fix w x w'
  assume w: "sound gen claims w" "delete_scenario_row works tenant i w = (Inr x, w')"
  have kept: "settled gen sid l w'" if "settled gen sid l w" for sid l
    using w(2) that by (auto simp: delete_scenario_row_def step_simps settled_def drawn_def Let_def split: if_splits)
  have its: "set (au_iterations w') \<subseteq> set (au_iterations w)" "au_drawn w' = au_drawn w" "distinct (map it_id (au_iterations w'))"
    using w by (auto simp: delete_scenario_row_def step_simps Let_def sound_def distinct_map_filter split: if_splits)
  have live: "settled gen (sn_id s) l w' \<and> l \<in> it_id ` set (au_iterations w')" if "s \<in> set (au_scenarios w')" "sn_live s = Some l" for s l
  proof -
    have "s \<in> set (au_scenarios w) \<and> (set (au_iterations w') = set (au_iterations w) \<or>
        set (au_iterations w') = {it \<in> set (au_iterations w). it_scenario it \<noteq> i} \<and> l \<notin> it_id ` {it \<in> set (au_iterations w). it_scenario it = i})"
      using w(2) that by (auto simp: delete_scenario_row_def step_simps Let_def split: if_splits option.splits)
    then show ?thesis using w(1) that(2) kept unfolding sound_def by blast
  qed
  show "sound gen claims w'"
    using w(1) kept its live unfolding sound_def by (auto simp: drawn_def)
qed

subsection \<open>The operations\<close>

lemma sound_copy_rules:
  assumes "inj gen" "ae_gen env = gen"
  shows "gives (sound gen claims) (copy_rules env tenant i rules) (\<lambda>_. sound gen claims)"
  by (induction rules) (auto intro!: gives_finish gives_then_do [OF sound_drawn [OF assms]] gives_then_do [OF sound_rules(1)])

lemma sound_clone_rules:
  assumes "inj gen" "ae_gen env = gen"
  shows "gives (sound gen claims) (clone_rules env i rules) (\<lambda>_. sound gen claims)"
  by (induction rules) (auto intro!: gives_finish gives_then_do [OF sound_drawn [OF assms]] gives_then_do [OF sound_rules(1)])

lemma sound_record:
  "inj gen \<Longrightarrow> ae_gen env = gen \<Longrightarrow> gives (sound gen claims) (record_publication env tenant sid i action) (\<lambda>_. sound gen claims)"
  unfolding record_publication_def by (rule gives_then_do [OF sound_drawn], assumption, assumption, rule sound_rules(4))

definition claim :: "string \<Rightarrow> string option \<Rightarrow> (string \<times> string) set" where
  "claim sid live = (case live of None \<Rightarrow> {} | Some l \<Rightarrow> {(sid, l)})"

lemma sound_more: "sound gen claims w \<Longrightarrow> (\<And>l. live = Some l \<Longrightarrow> settled gen sid l w) \<Longrightarrow> sound gen (claim sid live \<union> claims) w"
  by (cases live) (auto simp: claim_def sound_insert)

lemma sound_less: "sound gen (c \<union> claims) w \<Longrightarrow> sound gen claims w"
  by (auto simp: sound_def)

lemma sound_copy_iterations:
  assumes "inj gen" "ae_gen env = gen" "\<And>it. it \<in> set its \<Longrightarrow> sn_live source = Some (it_id it) \<Longrightarrow> it_status it = ''committed''"
  shows "gives (sound gen (claim sid live \<union> claims)) (copy_iterations env tenant source sid its live)
    (\<lambda>live'. sound gen (claim sid live' \<union> claims))"
  using assms(3)
proof (induction its arbitrary: live)
  case (Cons it its)
  define next_live where "next_live = (\<lambda>x :: iteration. if sn_live source = Some (it_id it) then Some (it_id x) else live)"
  define clone where "clone = (\<lambda>i. it\<lparr>it_id := i, it_scenario := sid, it_tenant := tenant, it_created := ae_now env,
    it_committed := (if it_status it = ''committed'' then Some (ae_now env) else it_committed it)\<rparr> :: iteration)"
  have inserted: "gives (\<lambda>w. sound gen (claim sid live \<union> claims) w \<and> unused gen (claim sid live \<union> claims) i w)
      (insert_iteration works (clone i)) (\<lambda>x. sound gen (claim sid (next_live x) \<union> claims))" for i works
  proof -
    have c: "it_id (clone i) = i" "it_scenario (clone i) = sid" "it_status (clone i) = it_status it" by (simp_all add: clone_def)
    show ?thesis
    proof (rule gives_weaken [OF sound_insert_iteration [of gen "claim sid live \<union> claims" "clone i"]])
      fix x w
      assume x: "x = clone i \<and> sound gen (claim sid live \<union> claims) w \<and>
        (it_status (clone i) = ''committed'' \<longrightarrow> settled gen (it_scenario (clone i)) (it_id (clone i)) w)"
      then have all: "sound gen claims w" using sound_less by blast
      have "settled gen sid l w" if "next_live x = Some l" for l
      proof (cases "sn_live source = Some (it_id it)")
        case True
        then have "it_status it = ''committed''" by (rule Cons.prems [of it, simplified])
        then show ?thesis using x that True c by (simp add: next_live_def)
      next
        case False
        then show ?thesis using x that by (auto simp: next_live_def claim_def sound_insert)
      qed
      then show "sound gen (claim sid (next_live x) \<union> claims) w" by (rule sound_more [OF all])
    qed (simp add: c)
  qed
  have "gives (sound gen (claim sid live \<union> claims))
      (then_do (fresh_id env) (\<lambda>i. then_do (insert_iteration (ae_works env) (clone i)) (\<lambda>created.
        then_do (list_rules (ae_works env) tenant (sn_id source) (it_id it)) (\<lambda>rules.
        then_do (copy_rules env tenant (it_id created) rules) (\<lambda>_. copy_iterations env tenant source sid its (next_live created))))))
      (\<lambda>live'. sound gen (claim sid live' \<union> claims))"
    by (rule gives_then_do [OF sound_fresh [OF assms(1,2)]], rule gives_then_do [OF inserted], rule gives_then_do [OF gives_reads(4)],
        rule gives_then_do [OF sound_copy_rules [OF assms(1,2)]], rule Cons.IH) (use Cons.prems in simp)
  then show ?case by (simp add: Let_def clone_def next_live_def)
qed (simp add: gives_finish)

lemma sound_scenario_ops:
  assumes "inj gen" "ae_gen env = gen"
  shows "keeps (sound gen claims) (create_scenario env tenant name descr ty)" "keeps (sound gen claims) (delete_scenario env tenant sid)"
    "(\<And>l. sn_live c = Some l \<Longrightarrow> (sn_id c, l) \<in> claims) \<Longrightarrow> keeps (sound gen claims) (update_scenario_write env c)"
    "sn_live item = None \<Longrightarrow> (\<And>it. it \<in> set its \<Longrightarrow> sn_live source = Some (it_id it) \<Longrightarrow> it_status it = ''committed'') \<Longrightarrow>
       keeps (sound gen claims) (copy_scenario_write env tenant source its item)"
proof -
  have f: "keeps (sound gen claims) (fresh_id env)"
    using sound_drawn [OF assms, of claims] by (auto simp: keeps_def gives_def fresh_id_def)
  have i: "gives (sound gen claims) (insert_scenario (ae_works env) item) (\<lambda>_. sound gen claims)" if "sn_live item = None" for item
    by (rule gives_weaken [OF sound_insert_scenario [OF that]]) auto
  show "keeps (sound gen claims) (create_scenario env tenant name descr ty)"
    unfolding create_scenario_def Let_def by (intro keeps_then_do f reads_keep transaction_gives i) simp
  show "keeps (sound gen claims) (delete_scenario env tenant sid)"
    unfolding delete_scenario_def by (intro keeps_then_do reads_keep transaction_gives sound_delete)
  show "keeps (sound gen claims) (update_scenario_write env c)" if "\<And>l. sn_live c = Some l \<Longrightarrow> (sn_id c, l) \<in> claims"
    unfolding update_scenario_write_def by (rule transaction_gives, rule sound_update_scenario [OF that])
  assume item: "sn_live item = None" and its: "\<And>it. it \<in> set its \<Longrightarrow> sn_live source = Some (it_id it) \<Longrightarrow> it_status it = ''committed''"
  have c: "gives (sound gen claims) (copy_iterations env tenant source sid its None) (\<lambda>live. sound gen (claim sid live \<union> claims))" for sid
    using sound_copy_iterations [OF assms its, where live = None and claims = claims and sid = sid and tenant = tenant] by (simp add: claim_def)
  have u: "gives (sound gen (claim (sn_id x) live \<union> claims))
      (if live = None then finish_with x else update_scenario_row works (x\<lparr>sn_live := live, sn_updated := now\<rparr>)) (\<lambda>_. sound gen claims)"
    for x live works now
    by (rule gives_if, rule gives_finish, erule sound_less, rule gives_weaken [OF sound_update_scenario [of _ "claim (sn_id x) live \<union> claims"]])
       (auto simp: claim_def intro: sound_less)
  show "keeps (sound gen claims) (copy_scenario_write env tenant source its item)"
    unfolding copy_scenario_write_def by (rule transaction_gives, rule gives_then_do [OF i [OF item]], rule gives_then_do [OF c], rule u)
qed

lemma sound_on_draft: "gives (sound gen claims) m (\<lambda>_. sound gen claims) \<Longrightarrow> keeps (sound gen claims) (on_draft env tenant sid i what m)"
  unfolding on_draft_def by (intro transaction_gives gives_then_do [OF gives_reads(2)] gives_if gives_failing)

lemma sound_iteration_ops:
  assumes "inj gen" "ae_gen env = gen"
  shows "keeps (sound gen claims) (create_draft env tenant sid)" "keeps (sound gen claims) (create_draft_from env tenant sid i)"
    "keeps (sound gen claims) (update_draft env tenant sid i trigger a b c schedule)" "keeps (sound gen claims) (commit_write env tenant sid i)"
    "keeps (sound gen claims) (schedule_write env tenant sid i encoded)"
proof -
  have ins: "gives (\<lambda>w. sound gen claims w \<and> unused gen claims i w) (insert_iteration works item) (\<lambda>_. sound gen claims)"
    if "it_id item = i" for i works item
    unfolding that [symmetric] by (rule gives_weaken [OF sound_insert_iteration]) auto
  show "keeps (sound gen claims) (create_draft env tenant sid)"
    unfolding create_draft_def Let_def
    by (rule transaction_gives, rule gives_then_do [OF gives_reads(6)], rule gives_then_do [OF sound_fresh [OF assms]],
        rule gives_then_do [OF gives_reads(8)], rule ins) simp
  show "keeps (sound gen claims) (create_draft_from env tenant sid i)"
    unfolding create_draft_from_def Let_def
    by (rule transaction_gives, rule gives_then_do [OF gives_reads(2)], rule gives_then_do [OF gives_reads(6)],
        rule gives_then_do [OF sound_fresh [OF assms]], rule gives_then_do [OF gives_reads(8)], rule gives_then_do [OF ins], simp,
        intro gives_then_do [OF gives_reads(4)] gives_then_do [OF sound_clone_rules [OF assms]] gives_finish)
  show "keeps (sound gen claims) (update_draft env tenant sid i trigger a b c schedule)"
    unfolding update_draft_def Let_def
    by (intro transaction_gives gives_then_do [OF gives_reads(2)] gives_if gives_failing gives_then_do [OF gives_reads(8)] sound_update_row)
  show "keeps (sound gen claims) (commit_write env tenant sid i)"
    unfolding commit_write_def by (intro transaction_gives gives_then_do [OF gives_reads(2)] gives_if gives_failing sound_commit_row)
  show "keeps (sound gen claims) (schedule_write env tenant sid i encoded)"
    unfolding schedule_write_def by (intro transaction_gives gives_then_do [OF gives_reads(2)] sound_update_row)
qed

lemma sound_rule_ops:
  assumes "inj gen" "ae_gen env = gen"
  shows "keeps (sound gen claims) (create_rule env tenant sid i f)" "keeps (sound gen claims) (update_rule env tenant sid i rid f)"
    "keeps (sound gen claims) (delete_rule env tenant sid i rid)"
  unfolding create_rule_def update_rule_def delete_rule_def Let_def
  by (intro sound_on_draft gives_then_do [OF sound_drawn [OF assms]] gives_then_do [OF gives_reads(8)] gives_then_do [OF gives_reads(3)] sound_rules)+

lemma live_kept: "keeps (\<lambda>w. live_exists w live) (record_publication env tenant sid i action)"
  by (auto simp: keeps_def record_publication_def fresh_id_def then_do_def insert_publication_def change_def live_exists_def split: option.splits)

lemma gives_both: "gives P m Q \<Longrightarrow> gives P' m Q' \<Longrightarrow> gives (\<lambda>w. P w \<and> P' w) m (\<lambda>x w. Q x w \<and> Q' x w)"
  by (auto simp: gives_def)

lemma sound_publish:
  assumes "inj gen" "ae_gen env = gen"
  shows "keeps (sound gen claims) (publish env tenant sid i)"
proof -
  define R where "R = (\<lambda>w. sound gen (insert (sid, i) claims) w \<and> live_exists w (Some i))"
  have rec: "gives R (record_publication env tenant sid old action) (\<lambda>_. R)" for old action
    unfolding R_def by (rule gives_both [OF sound_record [OF assms] gives_keeps [OF live_kept]])
  have ev: "gives R (case l of None \<Rightarrow> finish_with [] | Some old \<Rightarrow> if old = i then finish_with []
      else then_do (record_publication env tenant sid old ''unpublish'') (\<lambda>p. finish_with [p])) (\<lambda>_. R)" for l
    by (auto intro!: gives_finish gives_then_do [OF rec] split: option.splits)
  have live: "gives R (set_live works now tenant sid (Some i)) (\<lambda>_. sound gen (insert (sid, i) claims))" for works now
    unfolding R_def by (rule sound_set_live) simp
  have less: "sound gen (insert (sid, i) claims) w \<Longrightarrow> sound gen claims w" for w by (simp add: sound_insert)
  have body: "gives R (then_do (case l of None \<Rightarrow> finish_with [] | Some old \<Rightarrow> if old = i then finish_with []
      else then_do (record_publication env tenant sid old ''unpublish'') (\<lambda>p. finish_with [p])) (\<lambda>events.
      then_do (set_live (ae_works env) (ae_now env) tenant sid (Some i)) (\<lambda>_.
      then_do (record_publication env tenant sid i ''publish'') (\<lambda>p. finish_with (events @ [p]))))) (\<lambda>_. sound gen claims)" for l
    by (rule gives_then_do [OF ev], rule gives_then_do [OF live], rule gives_then_do [OF sound_record [OF assms]], rule gives_finish, rule less)
  have committed: "gives (\<lambda>w. sound gen claims w \<and> it \<in> set (au_iterations w) \<and> iteration_is tenant sid i it) m (\<lambda>_. sound gen claims)"
    if it: "it_status it = ''committed''" and m: "gives R m (\<lambda>_. sound gen claims)" for it and m :: "publication list author_step"
  proof (rule gives_weaken [OF m])
    fix w assume w: "sound gen claims w \<and> it \<in> set (au_iterations w) \<and> iteration_is tenant sid i it"
    have "settled gen sid i w"
      unfolding settled_def using w it distinct_id [of it_id "au_iterations w" _ it] by (auto simp: sound_def iteration_is_def)
    then show "R w" using w by (auto simp: R_def sound_insert live_exists_image iteration_is_def)
  qed
  show ?thesis
    unfolding publish_def
    by (rule transaction_gives, rule gives_then_do [OF gives_reads(1)], rule gives_then_do [OF gives_iteration], rule gives_if, rule gives_failing,
        rule committed, simp, rule gives_then_do [OF gives_keeps [OF preparation_keeps]], rule gives_if, rule gives_failing, rule body)
qed

lemma sound_unpublish:
  assumes "inj gen" "ae_gen env = gen"
  shows "keeps (sound gen claims) (unpublish env tenant sid i)"
proof -
  have live: "gives (sound gen claims) (set_live works now tenant sid None) (\<lambda>_. sound gen claims)" for works now
    by (rule gives_weaken [OF sound_set_live [of None sid claims]]) (simp_all add: live_exists_def)
  show ?thesis
    unfolding unpublish_def
    by (intro transaction_gives gives_then_do [OF gives_reads(1)] gives_if gives_failing gives_then_do [OF live]
        gives_then_do [OF sound_record [OF assms]] gives_finish)
qed

lemma keeps_no_answer: "keeps P m \<Longrightarrow> keeps P (no_answer m)"
  unfolding no_answer_def by (intro keeps_then_do) (simp_all add: keeps_def finish_with_def)

lemma sound_call: "inj gen \<Longrightarrow> ae_gen env = gen \<Longrightarrow> keeps (sound gen claims) (run_call env c)"
  by (cases c) (simp_all add: keeps_no_answer sound_scenario_ops sound_iteration_ops sound_rule_ops sound_publish sound_unpublish)

subsection \<open>Tasks\<close>

fun task_claims :: "author_task \<Rightarrow> (string \<times> string) set" where
  "task_claims (WriteScenario s) = claim (sn_id s) (sn_live s)"
| "task_claims _ = {}"

fun task_ok :: "author_task \<Rightarrow> bool" where
  "task_ok (WriteCopy tenant source its item) =
     (sn_live item = None \<and> (\<forall>it \<in> set its. sn_live source = Some (it_id it) \<longrightarrow> it_status it = ''committed''))"
| "task_ok _ = True"

lemma sound_task: "inj gen \<Longrightarrow> ae_gen env = gen \<Longrightarrow> task_ok t \<Longrightarrow> task_claims t \<subseteq> claims \<Longrightarrow> keeps (sound gen claims) (run_task env t)"
  by (cases t) (auto simp: keeps_no_answer sound_scenario_ops sound_iteration_ops claim_def intro!: keeps_no_answer sound_scenario_ops)

lemma keeps_if: "keeps P m \<Longrightarrow> keeps P m' \<Longrightarrow> keeps P (if c then m else m')"
  by simp

lemma keeps_option: "keeps P m \<Longrightarrow> (\<And>y. keeps P (k y)) \<Longrightarrow> keeps P (case x of None \<Rightarrow> m | Some y \<Rightarrow> k y)"
  by (cases x) auto

lemma start_keeps:
  assumes "keeps P (fresh_id env)"
  shows "keeps P (start_task env c)"
proof (cases c)
  case (StartUpdate tenant sid name descr ty)
  then show ?thesis by (simp only: start_task.simps update_scenario_read_def Let_def) (intro keeps_then_do reads_keep keeps_finish)
next
  case (StartCommit tenant sid i)
  then show ?thesis
    by (simp only: start_task.simps commit_read_def validate_iteration_def) (intro keeps_then_do reads_keep keeps_finish keeps_if keeps_failing)
next
  case (StartCopy tenant sid name)
  then show ?thesis
    by (simp only: start_task.simps copy_scenario_read_def Let_def)
       (intro keeps_then_do reads_keep assms keeps_finish, auto intro: keeps_finish split: prod.splits)
next
  case (StartSchedule tenant sid cfg)
  then show ?thesis
    by (simp only: start_task.simps schedule_read_def live_of_def)
       (intro keeps_then_do reads_keep keeps_finish keeps_option keeps_failing, auto intro: keeps_finish split: prod.splits)
qed

lemma start_sound:
  assumes "inj gen" "ae_gen env = gen" "sound gen claims w" "start_task env c w = (r, w')"
  shows "sound gen claims w'"
proof -
  have "keeps (sound gen claims) (fresh_id env)"
    using sound_drawn [OF assms(1,2), of claims] by (auto simp: keeps_def gives_def fresh_id_def)
  from keepsD [where I = "sound gen claims", OF start_keeps, OF this assms(3,4)] show ?thesis .
qed

lemma update_read_gives:
  "gives P (update_scenario_read env tenant sid name descr ty)
     (\<lambda>c w. P w \<and> (\<exists>s \<in> set (au_scenarios w). sn_id c = sn_id s \<and> sn_live c = sn_live s))"
proof -
  have k: "gives (\<lambda>w. P w \<and> s \<in> set (au_scenarios w) \<and> scenario_is tenant sid s) (finish_with c)
      (\<lambda>c w. P w \<and> (\<exists>s \<in> set (au_scenarios w). sn_id c = sn_id s \<and> sn_live c = sn_live s))"
    if "sn_id c = sn_id s" "sn_live c = sn_live s" for c s
    by (rule gives_finish) (use that in auto)
  show ?thesis
    unfolding update_scenario_read_def Let_def
    by (rule gives_then_do [OF gives_scenario], rule gives_then_do [OF gives_reads(8)], rule gives_then_do [OF gives_reads(9)], rule k) simp_all
qed

text \<open>What a task was started with holds of it.\<close>

lemma start_claims:
  assumes "inj gen" "ae_gen env = gen" "sound gen claims w" "start_task env c w = (Inr t, w')"
  shows "task_ok t \<and> sound gen (task_claims t \<union> claims) w'"
proof -
  have w': "sound gen claims w'" by (rule start_sound [OF assms])
  show ?thesis
  proof (cases c)
    case (StartUpdate tenant sid name descr ty)
    obtain d where d: "update_scenario_read env tenant sid name descr ty w = (Inr d, w')" "t = WriteScenario d"
      using assms(4) by (auto simp: StartUpdate step_simps)
    obtain s where s: "s \<in> set (au_scenarios w')" "sn_id d = sn_id s" "sn_live d = sn_live s"
      using update_read_gives d(1) w' unfolding gives_def by blast
    have "sound gen (claim (sn_id d) (sn_live d) \<union> claims) w'"
      by (rule sound_more [OF w']) (use w' s in \<open>auto simp: sound_def\<close>)
    then show ?thesis by (simp add: d(2))
  next
    case (StartCopy tenant sid name)
    obtain source its item where r: "copy_scenario_read env tenant sid name w = (Inr (source, its, item), w')" "t = WriteCopy tenant source its item"
      using assms(4) by (auto simp: StartCopy step_simps)
    have s: "source \<in> set (au_scenarios w)" "set its \<subseteq> set (au_iterations w)" "sn_live item = None"
      using r(1) by (auto simp: copy_scenario_read_def get_scenario_row_def list_iterations_def reject_if_def Let_def step_simps find_Some_iff
          split: if_splits option.splits)
    have "it_status it = ''committed''" if "it \<in> set its" "sn_live source = Some (it_id it)" for it
      using assms(3) s that by (auto simp: sound_def settled_def)
    then show ?thesis using w' s(3) by (simp add: r(2))
  qed (use assms(4) w' in \<open>auto simp: step_simps split: prod.splits\<close>)
qed

definition system_sound :: "(nat \<Rightarrow> string) \<Rightarrow> (string \<times> string) set \<Rightarrow> author_state \<Rightarrow> bool" where
  "system_sound gen claims x =
     (sound gen (\<Union> (task_claims ` set (snd x)) \<union> claims) (fst x) \<and> list_all task_ok (snd x))"

lemma sound_fewer: "sound gen claims w \<Longrightarrow> claims' \<subseteq> claims \<Longrightarrow> sound gen claims' w"
  by (auto simp: sound_def)

lemma remove1_all: "list_all P ts \<Longrightarrow> list_all P (remove1 t ts)"
  by (auto simp: list_all_iff dest: notin_set_remove1)

lemma system_move: "author_move gen x y \<Longrightarrow> inj gen \<Longrightarrow> system_sound gen claims x \<Longrightarrow> system_sound gen claims y"
proof (induction rule: author_move.induct)
  case (whole_call env c w r w' ts)
  then show ?case using keepsD [OF sound_call] by (auto simp: system_sound_def)
next
  case (task_read env c w t w' ts)
  then show ?case using start_claims [OF _ task_read(1) _ task_read(2)] by (auto simp: system_sound_def Un_assoc)
next
  case (task_refused env c w e w' ts)
  then show ?case using start_sound [OF task_refused(3,1) _ task_refused(2)] by (auto simp: system_sound_def)
next
  case (task_written env t ts w r w')
  have "sound gen (\<Union> (task_claims ` set ts) \<union> claims) w'"
    by (rule keepsD [OF sound_task _ task_written(3)]) (use task_written in \<open>auto simp: system_sound_def list_all_iff\<close>)
  then show ?case using task_written(5) set_remove1_subset [of t ts]
    by (auto simp: system_sound_def remove1_all elim!: sound_fewer)
next
  case (task_lost w ts t)
  then show ?case using set_remove1_subset [of t ts] by (auto simp: system_sound_def remove1_all elim!: sound_fewer)
qed

lemma system_runs: "author_runs gen x y \<Longrightarrow> inj gen \<Longrightarrow> system_sound gen claims x \<Longrightarrow> system_sound gen claims y"
  by (induction rule: author_runs.induct) (auto intro: system_move)

lemma system_empty: "system_sound gen {} (empty_authoring, [])"
  by (simp add: system_sound_def sound_def empty_authoring_def)

subsection \<open>What is committed stays\<close>

lemma frozen_delete_scenario:
  assumes "frozen_as it rs w" "delete_scenario env tenant sid w = (r, w')"
  shows "frozen_as it rs w' \<or> it_id it \<notin> it_id ` set (au_iterations w')"
proof (cases "it_scenario it = sid")
  case True
  show ?thesis
  proof (cases "w' = w")
    case False
    then have "au_iterations w' = filter (\<lambda>it. it_scenario it \<noteq> sid) (au_iterations w)"
      using assms(2) transaction_Inl [of "ae_works env" "delete_scenario_row (ae_works env) tenant sid"]
      by (cases r) (auto simp: delete_scenario_def get_scenario_row_def delete_scenario_row_def Let_def step_simps split: if_splits dest!: transaction_Inl)
    moreover obtain s where s: "it\<lparr>it_schedule := s\<rparr> \<in> set (au_iterations w)" "distinct (map it_id (au_iterations w))"
      using assms(1) by (auto simp: frozen_as_def)
    have "it_scenario d = sid" if "d \<in> set (au_iterations w)" "it_id d = it_id it" for d
      using distinct_id [OF s(2) that(1) s(1)] that(2) True by simp
    ultimately show ?thesis by auto
  qed (use assms in simp)
next
  case False
  have "gives (frozen_as it rs) (delete_scenario_row works tenant sid) (\<lambda>_. frozen_as it rs)" for works
  proof (rule givesI)
    fix w x w'
    assume w: "frozen_as it rs w" "delete_scenario_row works tenant sid w = (Inr x, w')"
    define gone where "gone = map it_id (filter (\<lambda>it. it_scenario it = sid) (au_iterations w))"
    obtain s where s: "it\<lparr>it_schedule := s\<rparr> \<in> set (au_iterations w)" "distinct (map it_id (au_iterations w))"
      using w(1) by (auto simp: frozen_as_def)
    have not_gone: "it_id it \<notin> set gone"
    proof
      assume "it_id it \<in> set gone"
      then obtain d where d: "d \<in> set (au_iterations w)" "it_id d = it_id it" "it_scenario d = sid" by (auto simp: gone_def)
      then show False using distinct_id [OF s(2) d(1) s(1)] False by simp
    qed
    have e: "filter (\<lambda>r. ru_iteration r = it_id it) (filter (\<lambda>r. ru_iteration r \<notin> set gone) (au_rules w)) = filter (\<lambda>r. ru_iteration r = it_id it) (au_rules w)"
      unfolding filter_filter by (rule filter_cong) (use not_gone in auto)
    have i: "it\<lparr>it_schedule := s\<rparr> \<in> set (filter (\<lambda>it. it_scenario it \<noteq> sid) (au_iterations w))" using s(1) False by simp
    have w': "w' = w \<or> au_iterations w' = filter (\<lambda>it. it_scenario it \<noteq> sid) (au_iterations w) \<and> au_rules w' = filter (\<lambda>r. ru_iteration r \<notin> set gone) (au_rules w)"
      using w(2) by (auto simp: delete_scenario_row_def step_simps Let_def gone_def split: if_splits)
    then show "frozen_as it rs w'"
      using w(1) e i s(2) unfolding frozen_as_def by (auto simp: distinct_map_filter)
  qed
  then have "keeps (frozen_as it rs) (delete_scenario env tenant sid)"
    unfolding delete_scenario_def by (intro keeps_then_do reads_keep transaction_gives)
  then show ?thesis using assms by (auto simp: keeps_def)
qed

lemma frozen_call:
  assumes "it_status it = ''committed''" "frozen_as it rs w" "run_call env c w = (r, w')"
  shows "frozen_as it rs w' \<or> it_id it \<notin> it_id ` set (au_iterations w')"
proof (cases "\<exists>tenant sid. c = DeleteScenario tenant sid")
  case True
  then obtain tenant sid where c: "c = DeleteScenario tenant sid" by blast
  obtain r' where "delete_scenario env tenant sid w = (r', w')"
    using assms(3) by (cases r) (auto simp: c no_answer_def step_simps)
  then show ?thesis by (rule frozen_delete_scenario [OF assms(2)])
next
  case False
  then have "keeps (frozen_as it rs) (run_call env c)"
    using frozen_scenario_ops(1) frozen_iteration_ops [OF assms(1)] frozen_rule_ops [OF assms(1)] frozen_publications
    by (cases c) (auto intro!: keeps_no_answer)
  then show ?thesis using keepsD assms(2,3) by metis
qed

lemma frozen_task: "it_status it = ''committed'' \<Longrightarrow> keeps (frozen_as it rs) (run_task env t)"
  using frozen_scenario_ops(2,3) frozen_iteration_ops(4) frozen_schedule_write by (cases t) (auto intro!: keeps_no_answer)

lemma frozen_start: "keeps (frozen_as it rs) (start_task env c)"
  by (rule start_keeps) (simp add: keeps_def fresh_id_def)

lemma frozen_move:
  "author_move gen x y \<Longrightarrow> it_status it = ''committed'' \<Longrightarrow> frozen_as it rs (fst x) \<Longrightarrow>
     frozen_as it rs (fst y) \<or> it_id it \<notin> it_id ` set (au_iterations (fst y))"
proof (induction rule: author_move.induct)
  case (whole_call env c w r w' ts)
  then show ?case using frozen_call by auto
qed (auto dest: keepsD [OF frozen_start] keepsD [OF frozen_task])

text \<open>An identifier that is gone never comes back: an iteration that had it would be of two scenarios.\<close>

definition gone_claims :: "string \<Rightarrow> (string \<times> string) set" where
  "gone_claims i = {(''a'', i), (''b'', i)}"

lemma gone_settled: "sound gen (claims \<union> gone_claims i) w = (drawn gen w i \<and> i \<notin> it_id ` set (au_iterations w) \<and> sound gen claims w)"
  by (auto simp: gone_claims_def sound_insert settled_def)

end
