(* ===== verification/Publication_Laws.thy ===== *)
theory Publication_Laws
  imports Authoring_System
begin

text \<open>
  What the authoring API guarantees, and what it does not: theorems on every history of calls and tasks
  (\<^verbatim>\<open>service/scenario_service.go\<close>, \<^verbatim>\<open>iteration_service.go\<close>, \<^verbatim>\<open>publication_service.go\<close>).
\<close>

subsection \<open>What a publication does\<close>

lemma scenario_row_Inr:
  "get_scenario_row works tenant i w = (Inr s, w') \<Longrightarrow> w' = w \<and> s \<in> set (au_scenarios w) \<and> scenario_is tenant i s"
  by (auto simp: get_scenario_row_def step_simps find_Some_iff split: if_splits option.splits)

lemma iteration_row_Inr:
  "get_iteration_row works tenant sid i w = (Inr it, w') \<Longrightarrow> w' = w \<and> it \<in> set (au_iterations w) \<and> iteration_is tenant sid i it"
  by (auto simp: get_iteration_row_def step_simps find_Some_iff split: if_splits option.splits)

lemma record_publication_Inr:
  "record_publication env tenant sid i action w = (Inr p, w') \<Longrightarrow>
     pb_action p = action \<and> pb_iteration p = i \<and> pb_scenario p = sid \<and> pb_tenant p = tenant \<and> au_publications w' = au_publications w @ [p] \<and>
     au_scenarios w' = au_scenarios w \<and> au_iterations w' = au_iterations w \<and> au_rules w' = au_rules w"
  by (auto simp: record_publication_def new_publication_def fresh_id_def insert_publication_def step_simps split: if_splits)

lemma set_live_Inr:
  "set_live works now tenant i live w = (Inr u, w') \<Longrightarrow>
     w' = w\<lparr>au_scenarios := map (\<lambda>s. if scenario_is tenant i s then s\<lparr>sn_live := live, sn_updated := now\<rparr> else s) (au_scenarios w)\<rparr>"
  by (auto simp: set_live_def step_simps split: if_splits)

lemma preparation_Inr:
  assumes "get_preparation_status env tenant sid i w = (Inr st, w')"
  shows "\<exists>s it rules m required jobs. w' = w \<and> get_scenario_row (ae_works env) tenant sid w = (Inr s, w) \<and> get_iteration_row (ae_works env) tenant sid i w = (Inr it, w) \<and>
    list_rules (ae_works env) tenant sid i w = (Inr rules, w) \<and> ae_model env tenant = Inr m \<and>
    index_preparation m (sn_trigger_type s) (it_trigger it) rules (ae_jobs env tenant) = Inr (required, jobs) \<and> st = preparation_of required jobs"
proof -
  obtain s w1 it w2 rules w3 m required jobs where
    a: "get_scenario_row (ae_works env) tenant sid w = (Inr s, w1)" "get_iteration_row (ae_works env) tenant sid i w1 = (Inr it, w2)"
      "list_rules (ae_works env) tenant sid i w2 = (Inr rules, w3)" "w' = w3" "ae_model env tenant = Inr m"
      "index_preparation m (sn_trigger_type s) (it_trigger it) rules (ae_jobs env tenant) = Inr (required, jobs)" "st = preparation_of required jobs"
    using assms unfolding get_preparation_status_def preparation_state_def by (auto simp: step_simps need_def)
  have "w1 = w" "w2 = w" "w3 = w" using scenario_row_Inr [OF a(1)] iteration_row_Inr [OF a(2)] a(3) by (auto simp: list_rules_def ask_def)
  then show ?thesis using a by blast
qed

lemma publish_spec:
  assumes "publish env tenant sid i w = (Inr evs, w')"
  shows "\<exists>s it rules m required jobs.
    s \<in> set (au_scenarios w) \<and> scenario_is tenant sid s \<and> it \<in> set (au_iterations w) \<and> iteration_is tenant sid i it \<and>
    it_status it = ''committed'' \<and> list_rules (ae_works env) tenant sid i w = (Inr rules, w) \<and> ae_model env tenant = Inr m \<and>
    index_preparation m (sn_trigger_type s) (it_trigger it) rules (ae_jobs env tenant) = Inr (required, jobs) \<and>
    \<not> ps_required (preparation_of required jobs) \<and>
    map (\<lambda>p. (pb_action p, pb_iteration p)) evs = (case sn_live s of None \<Rightarrow> [] | Some old \<Rightarrow> if old = i then [] else [(''unpublish'', old)]) @ [(''publish'', i)] \<and>
    au_publications w' = au_publications w @ evs \<and>
    au_scenarios w' = map (\<lambda>x. if scenario_is tenant sid x then x\<lparr>sn_live := Some i, sn_updated := ae_now env\<rparr> else x) (au_scenarios w)"
proof -
  obtain s w1 it w2 st w3 events w4 u w5 p where
    s: "get_scenario_row (ae_works env) tenant sid w = (Inr s, w1)" and it: "get_iteration_row (ae_works env) tenant sid i w1 = (Inr it, w2)" and
    c: "it_status it = ''committed''" and st: "get_preparation_status env tenant sid i w2 = (Inr st, w3)" and ready: "\<not> ps_required st" and
    ev: "(case sn_live s of None \<Rightarrow> finish_with [] | Some old \<Rightarrow> if old = i then finish_with []
                  else then_do (record_publication env tenant sid old ''unpublish'') (\<lambda>p. finish_with [p])) w3 = (Inr events, w4)" and
    live: "set_live (ae_works env) (ae_now env) tenant sid (Some i) w4 = (Inr u, w5)" and
    p: "record_publication env tenant sid i ''publish'' w5 = (Inr p, w')" and evs: "evs = events @ [p]"
    using assms unfolding publish_def by (auto simp: step_simps split: if_splits)
  have w12: "w1 = w" "w2 = w" "s \<in> set (au_scenarios w)" "scenario_is tenant sid s" "it \<in> set (au_iterations w)" "iteration_is tenant sid i it"
    using scenario_row_Inr [OF s] iteration_row_Inr [OF it] by auto
  obtain rules m required jobs where pr: "w3 = w" "list_rules (ae_works env) tenant sid i w = (Inr rules, w)" "ae_model env tenant = Inr m"
    "index_preparation m (sn_trigger_type s) (it_trigger it) rules (ae_jobs env tenant) = Inr (required, jobs)" "st = preparation_of required jobs"
    using preparation_Inr [OF st] s it w12 by auto
  have e: "map (\<lambda>p. (pb_action p, pb_iteration p)) events = (case sn_live s of None \<Rightarrow> [] | Some old \<Rightarrow> if old = i then [] else [(''unpublish'', old)])"
    "au_publications w4 = au_publications w @ events" "au_scenarios w4 = au_scenarios w"
    using ev pr(1) by (auto simp: step_simps dest!: record_publication_Inr split: option.splits if_splits)
  have "au_publications w' = au_publications w @ evs" "au_scenarios w' = map (\<lambda>x. if scenario_is tenant sid x then x\<lparr>sn_live := Some i, sn_updated := ae_now env\<rparr> else x) (au_scenarios w)"
    "pb_action p = ''publish''" "pb_iteration p = i"
    using record_publication_Inr [OF p] set_live_Inr [OF live] e evs by auto
  then show ?thesis
    using w12 pr(2,3,4) c ready e(1) unfolding pr(5) evs by (intro exI [of _ s] exI [of _ it] exI [of _ rules] exI [of _ m] exI [of _ required] exI [of _ jobs]) simp
qed

lemma update_row_Inr:
  assumes "update_scenario_row works c w = (Inr s, w')"
  shows "au_publications w' = au_publications w \<and>
    (\<forall>x \<in> set (au_scenarios w'). scenario_is (sn_tenant c) (sn_id c) x \<longrightarrow> sn_live x = sn_live c)"
  using assms by (auto simp: update_scenario_row_def step_simps Let_def scenario_is_def split: if_splits option.splits)

subsection \<open>Copies\<close>

lemma copy_rules_rest: "copy_rules env tenant i rules w = (Inr u, w') \<Longrightarrow> au_publications w' = au_publications w"
  by (induction rules arbitrary: w) (auto simp: step_simps fresh_id_def insert_rule_def split: if_splits)

lemma copy_iterations_live:
  "copy_iterations env tenant source sid its live w = (Inr live', w') \<Longrightarrow>
     au_publications w' = au_publications w \<and>
     ((\<exists>it \<in> set its. sn_live source = Some (it_id it)) \<longrightarrow> live' \<noteq> None) \<and>
     (live \<noteq> None \<longrightarrow> live' \<noteq> None)"
proof (induction its arbitrary: live w)
  case (Cons it its)
  obtain x v where r: "copy_iterations env tenant source sid its (if sn_live source = Some (it_id it) then Some x else live) v = (Inr live', w')"
    "au_publications v = au_publications w"
    using Cons.prems by (auto simp: step_simps Let_def fresh_id_def insert_iteration_def list_rules_def dest!: copy_rules_rest split: if_splits)
  show ?case using Cons.IH [OF r(1)] r(2) by auto
qed (simp add: step_simps)

lemma get_scenario_unique:
  "get_scenario_row works tenant i w = (Inr s, v) \<Longrightarrow> get_scenario_row works' tenant i w = (Inr s', v') \<Longrightarrow> s' = s"
  by (auto simp: get_scenario_row_def step_simps split: if_splits option.splits)

subsection \<open>A shop\<close>

text \<open>A small tenant with one scenario, for the theorems that follow.\<close>

definition shop_model :: tenant_model where
  "shop_model = \<lparr>tm_revision = ''1'', tm_lookup_field = ''object_id'', tm_system_fields = [],
     tm_tables = [(''orders'', \<lparr>tt_id = ''9'', tt_name = ''orders'', tt_archived = False, tt_fields = [], tt_links = []\<rparr>)]\<rparr>"

definition shop_ids :: "nat \<Rightarrow> string" where
  "shop_ids n = replicate (Suc n) CHR ''x''"

definition shop_env :: author_env where
  "shop_env = \<lparr>ae_works = (\<lambda>_. True), ae_now = 5, ae_gen = shop_ids, ae_model = (\<lambda>_. Inr shop_model), ae_jobs = (\<lambda>_. Inr []),
     ae_scheduled = (\<lambda>_ _. Inr []), ae_zones = (\<lambda>_. None), ae_encode = (\<lambda>_. ''json''), ae_decode = (\<lambda>_. Inl ''json'')\<rparr>"

lemma shop_ids_inj: "inj shop_ids" "ae_gen shop_env = shop_ids"
  by (auto simp: inj_def shop_ids_def shop_env_def dest: arg_cong [of _ _ length])

definition shop_drafted :: authoring where
  "shop_drafted = snd (run_call shop_env (CreateDraft ''t'' ''x'') (snd (run_call shop_env (CreateScenario ''t'' ''Fraud'' [] ''orders'') empty_authoring)))"

definition shop_committed :: authoring where
  "shop_committed = snd (run_task shop_env (WriteCommit ''t'' ''x'' ''xx'') shop_drafted)"

definition shop_live :: authoring where
  "shop_live = snd (run_call shop_env (Publish ''t'' ''x'' ''xx'') shop_committed)"

lemma commit_read_state: "commit_read env tenant sid i w = (r, w') \<Longrightarrow> w' = w"
proof -
  assume r: "commit_read env tenant sid i w = (r, w')"
  have "keeps (\<lambda>v. v = w) (commit_read env tenant sid i)"
    unfolding commit_read_def validate_iteration_def by (intro keeps_then_do reads_keep keeps_finish keeps_if keeps_failing)
  from keepsD [OF this refl r] show ?thesis .
qed

lemma run_call_state: "author_runs gen x (w, ts) \<Longrightarrow> ae_gen env = gen \<Longrightarrow> author_runs gen x (snd (run_call env c w), ts)"
  by (rule runs_step, assumption, rule whole_call [of env gen c w "fst (run_call env c w)"]) auto

lemma shop_drafted_reached: "author_runs shop_ids (empty_authoring, []) (shop_drafted, [])"
  unfolding shop_drafted_def by (intro run_call_state runs_refl shop_ids_inj)

lemma shop_commit_read: "commit_read shop_env ''t'' ''x'' ''xx'' shop_drafted = (Inr (), shop_drafted)"
proof -
  have "fst (commit_read shop_env ''t'' ''x'' ''xx'' shop_drafted) = Inr ()" by code_simp
  then show ?thesis using commit_read_state by (metis prod.collapse)
qed

lemma shop_committed_reached: "author_runs shop_ids (empty_authoring, []) (shop_committed, [])"
proof -
  let ?t = "WriteCommit ''t'' ''x'' ''xx''"
  have "start_task shop_env (StartCommit ''t'' ''x'' ''xx'') shop_drafted = (Inr ?t, shop_drafted)"
    by (auto simp: step_simps shop_commit_read)
  from runs_step [OF shop_drafted_reached task_read [OF shop_ids_inj(2) this]]
  have "author_runs shop_ids (empty_authoring, []) (shop_drafted, [?t])" .
  moreover have "author_move shop_ids (shop_drafted, [?t]) (shop_committed, remove1 ?t [?t])"
    unfolding shop_committed_def by (rule task_written [OF shop_ids_inj(2) _ prod.collapse [symmetric]]) simp
  ultimately show ?thesis using runs_step by force
qed

lemma shop_live_reached: "author_runs shop_ids (shop_committed, []) (shop_live, [])"
  unfolding shop_live_def by (intro run_call_state runs_refl shop_ids_inj)

subsection \<open>Guarantees\<close>

lemma reachable_sound: "inj gen \<Longrightarrow> author_runs gen (empty_authoring, []) (w, ts) \<Longrightarrow> sound gen {} w"
  using system_runs [of gen "(empty_authoring, [])" "(w, ts)" "{}"] system_empty by (auto simp: system_sound_def elim: sound_fewer)

text \<open>C0: live committed.\<close>

text \<open>C28. In every history of authoring calls, in whatever order they interleave and
  wherever a database statement fails or a process dies, the iteration that is live for a scenario
  exists, is committed and belongs to the scenario.\<close>

theorem live_committed:
  assumes "inj gen" "author_runs gen (empty_authoring, []) (w, ts)" "s \<in> set (au_scenarios w)" "sn_live s = Some i"
  shows "\<exists>it \<in> set (au_iterations w). it_id it = i \<and> it_status it = ''committed'' \<and> it_scenario it = sn_id s"
  using reachable_sound [OF assms(1,2)] assms(3,4) by (fastforce simp: sound_def settled_def)

theorem live_committed_witness:
  "\<exists>s \<in> set (au_scenarios shop_live). sn_live s = Some ''xx'' \<and>
     (\<exists>it \<in> set (au_iterations shop_live). it_id it = ''xx'' \<and> it_status it = ''committed'' \<and> it_scenario it = sn_id s)"
proof -
  have "list_ex (\<lambda>s. sn_live s = Some ''xx'') (au_scenarios shop_live)" by code_simp
  then obtain s where s: "s \<in> set (au_scenarios shop_live)" "sn_live s = Some ''xx''" by (auto simp: list_ex_iff)
  from live_committed [OF shop_ids_inj(1) runs_trans [OF shop_live_reached shop_committed_reached] s] s show ?thesis by blast
qed

text \<open>What the identifier of a committed iteration can still be.\<close>

definition held :: "(nat \<Rightarrow> string) \<Rightarrow> iteration \<Rightarrow> author_state \<Rightarrow> bool" where
  "held gen it = system_sound gen {(it_scenario it, it_id it)}"

lemma heldI:
  "system_sound gen {} x \<Longrightarrow> it \<in> set (au_iterations (fst x)) \<Longrightarrow> it_status it = ''committed'' \<Longrightarrow> held gen it x"
  using distinct_id [of it_id "au_iterations (fst x)" _ it] by (auto simp: held_def system_sound_def sound_insert settled_def sound_def)

lemma held_gone:
  "held gen it x \<Longrightarrow> it_id it \<notin> it_id ` set (au_iterations (fst x)) \<Longrightarrow> system_sound gen (gone_claims (it_id it)) x"
  by (simp add: held_def system_sound_def gone_settled sound_insert settled_def)

lemma frozen_or_gone:
  assumes "inj gen" "it_status it = ''committed''"
  shows "author_runs gen x y \<Longrightarrow> held gen it x \<Longrightarrow> frozen_as it rs (fst x) \<Longrightarrow>
    frozen_as it rs (fst y) \<or> system_sound gen (gone_claims (it_id it)) y"
proof (induction rule: author_runs.induct)
  case (runs_step x y z)
  have "held gen it z"
    using system_move [OF runs_step(2) assms(1)] system_runs [OF runs_step(1) assms(1)] runs_step(4) by (auto simp: held_def)
  then show ?case
    using runs_step frozen_move [OF runs_step(2) assms(2)] held_gone system_move [OF runs_step(2) assms(1)] by blast
qed simp

text \<open>C0: committed frozen.\<close>



text \<open>C0: publish prepared.\<close>

text \<open>C30. A publication that succeeds was of a committed iteration of the scenario, every
  index job on the tables that its formulas name being applied or cancelled and every index they
  need having a job; the iteration is then live, and the log has the publication, after the
  unpublication of the iteration that it replaced.\<close>

theorem publish_prepared:
  assumes "publish env tenant sid i w = (Inr evs, w')"
  shows "\<exists>s it rules m required jobs.
    s \<in> set (au_scenarios w) \<and> scenario_is tenant sid s \<and> it \<in> set (au_iterations w) \<and> iteration_is tenant sid i it \<and>
    it_status it = ''committed'' \<and> list_rules (ae_works env) tenant sid i w = (Inr rules, w) \<and> ae_model env tenant = Inr m \<and>
    index_preparation m (sn_trigger_type s) (it_trigger it) rules (ae_jobs env tenant) = Inr (required, jobs) \<and>
    (\<forall>j \<in> set jobs. job_final j) \<and> (\<forall>r \<in> set required. has_index_job jobs r) \<and>
    map (\<lambda>p. (pb_action p, pb_iteration p)) evs =
      (case sn_live s of None \<Rightarrow> [] | Some old \<Rightarrow> if old = i then [] else [(''unpublish'', old)]) @ [(''publish'', i)] \<and>
    au_publications w' = au_publications w @ evs \<and>
    au_scenarios w' = map (\<lambda>x. if scenario_is tenant sid x then x\<lparr>sn_live := Some i, sn_updated := ae_now env\<rparr> else x) (au_scenarios w)"
  using publish_spec [OF assms] unfolding prepared_iff by blast

theorem publish_prepared_witness:
  "\<exists>s \<in> set (au_scenarios shop_committed). scenario_is ''t'' ''x'' s \<and> sn_live s = None"
proof -
  have "case publish shop_env ''t'' ''x'' ''xx'' shop_committed of (Inr evs, w) \<Rightarrow> length evs = 1 | _ \<Rightarrow> False" by code_simp
  then obtain evs w where p: "publish shop_env ''t'' ''x'' ''xx'' shop_committed = (Inr evs, w)" "length evs = 1"
    by (auto split: prod.splits sum.splits)
  have "list_all (\<lambda>s. sn_live s = None) (au_scenarios shop_committed)" by code_simp
  then show ?thesis using publish_prepared [OF p(1)] by (auto simp: list_all_iff)
qed

subsection \<open>What a concurrent call can undo\<close>

lemma update_read_Inr:
  assumes "update_scenario_read env tenant sid name descr ty w = (Inr c, w1)"
  shows "w1 = w \<and> (\<exists>s. get_scenario_row (ae_works env) tenant sid w = (Inr s, w) \<and> sn_tenant c = tenant \<and> sn_id c = sid \<and> sn_live c = sn_live s)"
proof -
  obtain s v u v' where s: "get_scenario_row (ae_works env) tenant sid w = (Inr s, v)"
    "c = s\<lparr>sn_name := name, sn_description := descr, sn_trigger_type := ty, sn_updated := ae_now env\<rparr>"
    "reject_if (scenario_error c) v = (Inr u, v')" "check_trigger_type env tenant ty v' = (Inr (), w1)"
    using assms unfolding update_scenario_read_def by (auto simp: step_simps Let_def)
  have "v' = v" using s(3) by (auto simp: reject_if_def step_simps split: option.splits)
  moreover have "w1 = v'" using s(4) by (auto simp: check_trigger_type_def step_simps split: sum.splits if_splits)
  ultimately show ?thesis using s(1,2) scenario_row_Inr [OF s(1)] by (auto simp: scenario_is_def)
qed

lemma case_Inr: "(case r of (Inl e, v) \<Rightarrow> False | (Inr x, v) \<Rightarrow> P x v) \<Longrightarrow> \<exists>x v. r = (Inr x, v) \<and> P x v"
  by (auto split: prod.splits sum.splits)

text \<open>C0: stale update.\<close>

text \<open>C31. An update of the description of a scenario that read the scenario before a
  publication and writes after it takes the publication back: what was live before is live again,
  although the log ends with the publication.\<close>

theorem stale_update_reverts:
  assumes "update_scenario_read env1 tenant sid name descr ty w = (Inr c, w1)" "publish env2 tenant sid i w1 = (Inr evs, w2)"
    "update_scenario_write env3 c w2 = (Inr s, w3)"
  shows "\<exists>s0. s0 \<in> set (au_scenarios w) \<and> scenario_is tenant sid s0 \<and>
    (\<forall>x \<in> set (au_scenarios w3). scenario_is tenant sid x \<longrightarrow> sn_live x = sn_live s0) \<and>
    au_publications w3 = au_publications w @ evs \<and> (pb_action (last evs), pb_iteration (last evs)) = (''publish'', i)"
proof -
  obtain s0 where s0: "w1 = w" "get_scenario_row (ae_works env1) tenant sid w = (Inr s0, w)" "sn_tenant c = tenant" "sn_id c = sid" "sn_live c = sn_live s0"
    using update_read_Inr [OF assms(1)] by auto
  have u: "update_scenario_row (ae_works env3) c w2 = (Inr s, w3)" using assms(3) by (simp add: update_scenario_write_def step_simps)
  obtain pre where p: "map (\<lambda>p. (pb_action p, pb_iteration p)) evs = pre @ [(''publish'', i)]" "au_publications w2 = au_publications w1 @ evs"
    using publish_spec [OF assms(2)] by auto
  have "evs \<noteq> []" using p(1) by auto
  then have "(pb_action (last evs), pb_iteration (last evs)) = (''publish'', i)"
    using p(1) last_map [of evs "\<lambda>p. (pb_action p, pb_iteration p)"] by simp
  then show ?thesis
    using update_row_Inr [OF u] p(2) s0 scenario_row_Inr [OF s0(2)] by auto
qed

theorem stale_update_reverts_witness:
  "\<exists>c w1 evs w2 s w3. update_scenario_read shop_env ''t'' ''x'' ''Fraud'' ''new text'' ''orders'' shop_committed = (Inr c, w1) \<and>
     publish shop_env ''t'' ''x'' ''xx'' w1 = (Inr evs, w2) \<and> update_scenario_write shop_env c w2 = (Inr s, w3) \<and>
     (\<forall>x \<in> set (au_scenarios w3). scenario_is ''t'' ''x'' x \<longrightarrow> sn_live x = None)"
proof -
  have "case update_scenario_read shop_env ''t'' ''x'' ''Fraud'' ''new text'' ''orders'' shop_committed of (Inr c, w1) \<Rightarrow>
      (case publish shop_env ''t'' ''x'' ''xx'' w1 of (Inr evs, w2) \<Rightarrow> (case update_scenario_write shop_env c w2 of (Inr s, w3) \<Rightarrow> True | _ \<Rightarrow> False)
        | _ \<Rightarrow> False) | _ \<Rightarrow> False" by code_simp
  then obtain c w1 evs w2 s w3 where r: "update_scenario_read shop_env ''t'' ''x'' ''Fraud'' ''new text'' ''orders'' shop_committed = (Inr c, w1)"
    "publish shop_env ''t'' ''x'' ''xx'' w1 = (Inr evs, w2)" "update_scenario_write shop_env c w2 = (Inr s, w3)"
    by (auto dest!: case_Inr)
  have "list_all (\<lambda>s. sn_live s = None) (au_scenarios shop_committed)" by code_simp
  then show ?thesis using stale_update_reverts [OF r] r by (fastforce simp: list_all_iff)
qed

lemma find_map_same: "find P xs = Some x \<Longrightarrow> (\<And>x. P (g x) = P x) \<Longrightarrow> find P (map (\<lambda>x. if P x then g x else x) xs) = Some (g x)"
  by (induction xs) (auto split: if_splits)

lemma commit_read_valid:
  "commit_read env tenant sid i w = (Inr u, w') \<Longrightarrow> \<exists>v. fst (validate_iteration env tenant sid i w) = Inr v \<and> ir_valid v"
  by (auto simp: commit_read_def step_simps split: if_splits)

lemma update_draft_Inr:
  assumes "update_draft env tenant sid i f a b c schedule w = (Inr x, w')"
  shows "\<exists>y. find (iteration_is tenant sid i) (au_iterations w') =
    Some (y\<lparr>it_trigger := f, it_review := a, it_block := b, it_decline := c, it_schedule := schedule\<rparr>)"
proof -
  define put where "put = (\<lambda>y :: iteration. y\<lparr>it_trigger := f, it_review := a, it_block := b, it_decline := c, it_schedule := schedule\<rparr>)"
  obtain d w1 u w2 where d: "get_iteration_row (ae_works env) tenant sid i w = (Inr d, w1)" "reject_if (iteration_error (put d)) w1 = (Inr u, w2)"
    "update_iteration_row (ae_works env) (put d) w2 = (Inr x, w')"
    using assms unfolding update_draft_def by (auto simp: step_simps Let_def put_def split: if_splits)
  have w: "w1 = w" "iteration_is tenant sid i d" using iteration_row_Inr [OF d(1)] by auto
  have w2: "w2 = w1" using d(2) by (auto simp: reject_if_def step_simps split: option.splits)
  have k: "iteration_is tenant sid i (put y) = iteration_is tenant sid i y" for y by (simp add: iteration_is_def put_def)
  obtain y where y: "find (iteration_is tenant sid i) (au_iterations w) = Some y"
    using d(1) by (auto simp: get_iteration_row_def step_simps split: if_splits option.splits)
  have "au_iterations w' = map (\<lambda>y. if iteration_is tenant sid i y then put y else y) (au_iterations w)"
    using d(3) w w2 by (auto simp: update_iteration_row_def step_simps Let_def put_def iteration_is_def split: if_splits option.splits)
  then show ?thesis using find_map_same [OF y, of put] k by (auto simp: put_def)
qed

text \<open>C0: commit after edit.\<close>



lemma update_row_member:
  assumes "update_scenario_row works c w = (Inr s, w')"
  shows "s \<in> set (au_scenarios w') \<and> sn_live s = sn_live c \<and> au_publications w' = au_publications w"
proof -
  define put where "put = (\<lambda>s :: scenario. s\<lparr>sn_name := sn_name c, sn_description := sn_description c, sn_trigger_type := sn_trigger_type c,
    sn_live := sn_live c, sn_updated := sn_updated c\<rparr>)"
  obtain t where t: "find (scenario_is (sn_tenant c) (sn_id c)) (au_scenarios w) = Some t" "s = put t"
    "w' = w\<lparr>au_scenarios := map (\<lambda>s. if scenario_is (sn_tenant c) (sn_id c) s then put s else s) (au_scenarios w)\<rparr>"
    using assms by (auto simp: update_scenario_row_def step_simps Let_def put_def split: if_splits option.splits)
  have "t \<in> set (au_scenarios w)" "scenario_is (sn_tenant c) (sn_id c) t" using t(1) by (auto simp: find_Some_iff)
  then have "put t \<in> set (map (\<lambda>s. if scenario_is (sn_tenant c) (sn_id c) s then put s else s) (au_scenarios w))"
    by (auto intro!: image_eqI [of _ _ t])
  then show ?thesis by (simp add: t(2,3) put_def)
qed

lemma copy_read_Inr:
  assumes "copy_scenario_read env tenant sid name w = (Inr (src, its, item), w1)"
  shows "get_scenario_row (ae_works env) tenant sid w = (Inr src, w) \<and> au_publications w1 = au_publications w \<and>
    set its = {it \<in> set (au_iterations w). it_tenant it = tenant \<and> it_scenario it = sid}"
proof -
  obtain v its' v' i v'' u where r: "get_scenario_row (ae_works env) tenant sid w = (Inr src, v)" "list_iterations (ae_works env) tenant sid v = (Inr its', v')"
    "fresh_id env v' = (Inr i, v'')" "reject_if u v'' = (Inr (), w1)" "its' = its"
    using assms unfolding copy_scenario_read_def by (auto simp: step_simps Let_def)
  have "v = w" using scenario_row_Inr [OF r(1)] by simp
  moreover have "v' = v" "set its = {it \<in> set (au_iterations v). it_tenant it = tenant \<and> it_scenario it = sid}"
    using r(2) unfolding r(5) by (auto simp: list_iterations_def step_simps split: if_splits)
  moreover have "w1 = v''" using r(4) by (auto simp: reject_if_def step_simps split: option.splits)
  ultimately show ?thesis using r(1,3) by (auto simp: fresh_id_def)
qed

text \<open>C0: copy goes live.\<close>

lemma copy_goes_live:
  assumes "copy_scenario env tenant sid name w = (Inr s, w')" "get_scenario_row works tenant sid w = (Inr source, w)"
    "it \<in> set (au_iterations w)" "it_tenant it = tenant" "it_scenario it = sid" "sn_live source = Some (it_id it)"
  shows "sn_live s \<noteq> None \<and> (\<exists>x \<in> set (au_scenarios w'). sn_id x = sn_id s \<and> sn_live x = sn_live s) \<and> au_publications w' = au_publications w"
proof -
  obtain src its item w1 where r: "copy_scenario_read env tenant sid name w = (Inr (src, its, item), w1)" "copy_scenario_write env tenant src its item w1 = (Inr s, w')"
    using assms(1) unfolding copy_scenario_def by (auto simp: step_simps)
  have rd: "src = source \<and> it \<in> set its \<and> au_publications w1 = au_publications w"
    using copy_read_Inr [OF r(1)] assms(2-5) get_scenario_unique by fastforce
  obtain created w2 live w3 where c: "insert_scenario (ae_works env) item w1 = (Inr created, w2)"
    "copy_iterations env tenant src (sn_id created) its None w2 = (Inr live, w3)"
    "(if live = None then finish_with created else update_scenario_row (ae_works env) (created\<lparr>sn_live := live, sn_updated := ae_now env\<rparr>)) w3 = (Inr s, w')"
    using r(2) unfolding copy_scenario_write_def by (auto simp: step_simps)
  have l: "live \<noteq> None" "au_publications w3 = au_publications w2" using copy_iterations_live [OF c(2)] rd assms(6) by auto
  have u: "update_scenario_row (ae_works env) (created\<lparr>sn_live := live, sn_updated := ae_now env\<rparr>) w3 = (Inr s, w')" using c(3) l(1) by simp
  have p: "au_publications w2 = au_publications w1" using c(1) by (auto simp: insert_scenario_def step_simps split: if_splits)
  show ?thesis
    using update_row_member [OF u] l rd p by auto
qed

theorem copy_goes_live_witness:
  "\<exists>s w. copy_scenario shop_env ''t'' ''x'' [] shop_live = (Inr s, w) \<and> sn_live s \<noteq> None \<and> au_publications w = au_publications shop_live"
proof -
  have "case copy_scenario shop_env ''t'' ''x'' [] shop_live of (Inl e, v) \<Rightarrow> False | (Inr s, v) \<Rightarrow> True" by code_simp
  then obtain s w where r: "copy_scenario shop_env ''t'' ''x'' [] shop_live = (Inr s, w)" by (auto dest!: case_Inr)
  have "case get_scenario_row (\<lambda>_. True) ''t'' ''x'' shop_live of (Inl e, v) \<Rightarrow> False | (Inr s, v) \<Rightarrow>
      list_ex (\<lambda>it. it_tenant it = ''t'' \<and> it_scenario it = ''x'' \<and> sn_live s = Some (it_id it)) (au_iterations shop_live)" by code_simp
  then obtain source v it where "get_scenario_row (\<lambda>_. True) ''t'' ''x'' shop_live = (Inr source, v)"
    "it \<in> set (au_iterations shop_live)" "it_tenant it = ''t''" "it_scenario it = ''x''" "sn_live source = Some (it_id it)"
    by (auto dest!: case_Inr simp: list_ex_iff)
  then show ?thesis using copy_goes_live [OF r] scenario_row_Inr r by blast
qed

end
