(* ===== verification/Ingest_Model.thy ===== *)
theory Ingest_Model
  imports Prelude
begin

text \<open>
  The published data model as the ingestion service reads it
  (\<^verbatim>\<open>ingestion-service/internal/domain/ingestion/model.go\<close>). Go maps are association lists; of an enum value
  only the text is kept.
\<close>

record field_schema =
  fs_name :: string
  fs_type :: string
  fs_nullable :: bool
  fs_is_enum :: bool
  fs_is_unique :: bool
  fs_archived :: bool
  fs_enum :: "string list"

record object_schema =
  os_id :: string
  os_name :: string
  os_archived :: bool
  os_fields :: "(string \<times> field_schema) list"

record published_model =
  pm_tenant :: string
  pm_schema :: string
  pm_revision :: string
  pm_status :: string
  pm_writable :: bool
  pm_lookup :: string
  pm_partial :: bool
  pm_system :: "string list"
  pm_tables :: "(string \<times> object_schema) list"

text \<open>\<^verbatim>\<open>schemaNameForModel\<close>\<close>

definition schema_name :: "published_model \<Rightarrow> string" where
  "schema_name m = (if pm_schema m \<noteq> [] then pm_schema m else ''tenant_'' @ filter (\<lambda>c. c \<noteq> CHR ''-'') (pm_tenant m))"

subsection \<open>A model to try things on\<close>

definition shop_table :: object_schema where
  "shop_table = \<lparr>os_id = ''t1'', os_name = ''transactions'', os_archived = False, os_fields =
     [(''amount'', \<lparr>fs_name = ''amount'', fs_type = ''float'', fs_nullable = True, fs_is_enum = False, fs_is_unique = False,
        fs_archived = False, fs_enum = []\<rparr>),
      (''status'', \<lparr>fs_name = ''status'', fs_type = ''string'', fs_nullable = False, fs_is_enum = True, fs_is_unique = False,
        fs_archived = False, fs_enum = [''open'', ''held'']\<rparr>),
      (''count'', \<lparr>fs_name = ''count'', fs_type = ''int'', fs_nullable = True, fs_is_enum = False, fs_is_unique = False,
        fs_archived = False, fs_enum = []\<rparr>)]\<rparr>"

definition shop_model :: published_model where
  "shop_model = \<lparr>pm_tenant = ''4b-2'', pm_schema = [], pm_revision = ''r1'', pm_status = ''active'', pm_writable = True,
     pm_lookup = ''object_id'', pm_partial = True, pm_system = [''object_id'', ''updated_at''], pm_tables = [(''transactions'', shop_table)]\<rparr>"

end
