(* ===== verification/Ingest_Validation.thy ===== *)
theory Ingest_Validation
  imports Ingest_Model Payload_Validation
begin

text \<open>
  Checking a record that is to be ingested (\<^verbatim>\<open>ingestion-service/internal/domain/ingestion/validation.go\<close>,
  \<^verbatim>\<open>ValidateRecord\<close>). Go maps are association lists with distinct keys whose order stands for the iteration
  order. A record without a normal form is the empty map, as Go's nil map.
\<close>

record record_error =
  re_object :: string
  re_field :: string
  re_code :: string
  re_message :: string

subsection \<open>Values\<close>

text \<open>\<^verbatim>\<open>strconv.ParseFloat\<close> with its infinities and NaN.\<close>

definition parse_float_special :: "string \<Rightarrow> f64 option" where
  "parse_float_special s =
     (let (neg, body) = split_sign (to_lower s) in
      if body = ''inf'' \<or> body = ''infinity'' then Some (FInf neg)
      else if to_lower s = ''nan'' then Some FNaN else None)"

definition parse_float64 :: "string \<Rightarrow> f64 option" where
  "parse_float64 s = (case parse_float_special s of Some x \<Rightarrow> Some x | None \<Rightarrow> parse_float_finite s)"

text \<open>\<^verbatim>\<open>normalizeInteger\<close>, \<^verbatim>\<open>normalizeFloat\<close>, \<^verbatim>\<open>net.ParseIP\<close>\<close>

definition float_integer :: "f64 \<Rightarrow> int option" where
  "float_integer x = (if f64_eq x (f64_of_int (f64_to_int x)) then Some (f64_to_int x) else None)"

fun ingest_integer :: "gval \<Rightarrow> int option" where
  "ingest_integer (VFloat x) = float_integer x"
| "ingest_integer (VInt i) = Some i"
| "ingest_integer (VInt64 i) = Some i"
| "ingest_integer (VNum s) = parse_int64 s"
| "ingest_integer (VStr s) = parse_int64 (trim_space s)"
| "ingest_integer _ = None"

fun ingest_float :: "gval \<Rightarrow> f64 option" where
  "ingest_float (VFloat x) = Some x"
| "ingest_float (VFloat32 x) = Some x"
| "ingest_float (VInt i) = Some (f64_of_int i)"
| "ingest_float (VInt64 i) = Some (f64_of_int i)"
| "ingest_float (VNum s) = parse_float64 s"
| "ingest_float (VStr s) = parse_float64 (trim_space s)"
| "ingest_float _ = None"

definition parse_ip_ok :: "string \<Rightarrow> bool" where
  "parse_ip_ok s = (parse_addr_ok s \<and> CHR ''%'' \<notin> set s)"

text \<open>\<^verbatim>\<open>validateEnumValue\<close>\<close>

definition enum_check :: "field_schema \<Rightarrow> gval \<Rightarrow> gval res" where
  "enum_check f w =
     (if \<not> fs_is_enum f \<or> go_sprint w \<in> set (fs_enum f) then Inr w
      else Inl (''field '' @ fs_name f @ '' value '' @ go_sprint w @ '' is not in the managed enum catalog''))"

definition must_be :: "field_schema \<Rightarrow> string \<Rightarrow> string" where
  "must_be f what = ''field '' @ fs_name f @ '' must be '' @ what"

text \<open>\<^verbatim>\<open>normalizeFieldValue\<close>\<close>

definition ingest_value :: "field_schema \<Rightarrow> gval \<Rightarrow> gval res" where
  "ingest_value f v =
     (if v = VNil then
        (if \<not> fs_nullable f then Inl (''field '' @ fs_name f @ '' does not allow null values'') else Inr VNil)
      else if fs_type f = ''bool'' then
        (case normalize_bool v of Some w \<Rightarrow> Inr w | None \<Rightarrow> Inl (must_be f ''a boolean''))
      else if fs_type f = ''int'' then
        (case ingest_integer v of Some i \<Rightarrow> enum_check f (VInt64 i) | None \<Rightarrow> Inl (must_be f ''an integer''))
      else if fs_type f = ''float'' then
        (case ingest_float v of Some x \<Rightarrow> enum_check f (VFloat x) | None \<Rightarrow> Inl (must_be f ''a float''))
      else if fs_type f = ''timestamp'' then
        (case v of VStr s \<Rightarrow> (case parse_rfc3339 s of Some t \<Rightarrow> Inr (VTime t) | None \<Rightarrow> Inl (must_be f ''an RFC3339 timestamp string''))
         | _ \<Rightarrow> Inl (must_be f ''an RFC3339 timestamp string''))
      else if fs_type f = ''ip_address'' then
        (case v of VStr s \<Rightarrow> if parse_ip_ok (trim_space s) then Inr (VStr (trim_space s)) else Inl (must_be f ''a valid IP address'')
         | _ \<Rightarrow> Inl (must_be f ''a valid IP address''))
      else if fs_type f = ''string'' then
        (case v of VStr s \<Rightarrow> enum_check f (VStr s) | _ \<Rightarrow> Inl (must_be f ''a string''))
      else Inl (''field '' @ fs_name f @ '' has unsupported data type '' @ fs_type f))"

subsection \<open>Records\<close>

definition lookup_name :: "published_model \<Rightarrow> string" where
  "lookup_name m = (if pm_lookup m = [] then ''object_id'' else pm_lookup m)"

type_synonym ingest_state = "field_map \<times> record_error list"

definition complain :: "string \<Rightarrow> string \<Rightarrow> string \<Rightarrow> record_error" where
  "complain field code message = \<lparr>re_object = [], re_field = field, re_code = code, re_message = message\<rparr>"

text \<open>The body of the loop over the payload.\<close>

definition check_input :: "published_model \<Rightarrow> object_schema \<Rightarrow> string \<Rightarrow> string \<Rightarrow> gval \<Rightarrow> (string \<times> string) + gval" where
  "check_input m table object_type name v =
     (if name \<in> set (pm_system m)
      then Inl (''managed_field'', ''field '' @ name @ '' is managed by the platform and cannot be ingested directly'')
      else (case map_of (os_fields table) name of
          None \<Rightarrow> Inl (''unknown_field'', ''field '' @ name @ '' is not defined on object type '' @ object_type)
        | Some f \<Rightarrow>
            if fs_archived f then Inl (''unknown_field'', ''field '' @ name @ '' is not defined on object type '' @ object_type)
            else (case ingest_value f v of Inl message \<Rightarrow> Inl (''invalid_value'', message) | Inr w \<Rightarrow> Inr w)))"

definition note_input :: "string \<Rightarrow> (string \<times> string) + gval \<Rightarrow> ingest_state \<Rightarrow> ingest_state" where
  "note_input name c st = (case c of
       Inl (code, message) \<Rightarrow> (fst st, snd st @ [complain name code message])
     | Inr w \<Rightarrow> (AList.update name w (fst st), snd st))"

definition input_step :: "published_model \<Rightarrow> object_schema \<Rightarrow> string \<Rightarrow> string \<times> gval \<Rightarrow> ingest_state \<Rightarrow> ingest_state" where
  "input_step m table object_type p st =
     (if fst p = lookup_name m then st else note_input (fst p) (check_input m table object_type (fst p) (snd p)) st)"

text \<open>\<^verbatim>\<open>normalizeObjectID\<close>; an absent key reads as nil.\<close>

definition object_id_of :: "gval \<Rightarrow> string res" where
  "object_id_of v = (case v of
       VStr s \<Rightarrow> if trim_space s = [] then Inl ''object_id must not be empty'' else Inr (trim_space s)
     | _ \<Rightarrow> Inl ''object_id must be a string'')"

definition id_errors :: "published_model \<Rightarrow> field_map \<Rightarrow> record_error list" where
  "id_errors m payload =
     (if map_of payload (lookup_name m) = None
      then [complain (lookup_name m) ''missing_required'' (lookup_name m @ '' is required'')] else []) @
     (case object_id_of (field_of payload (lookup_name m)) of
        Inl message \<Rightarrow> [complain (lookup_name m) ''invalid_value'' message] | Inr _ \<Rightarrow> [])"

definition id_text :: "published_model \<Rightarrow> field_map \<Rightarrow> string" where
  "id_text m payload = (case object_id_of (field_of payload (lookup_name m)) of Inl _ \<Rightarrow> [] | Inr i \<Rightarrow> i)"

definition id_step :: "published_model \<Rightarrow> field_map \<Rightarrow> ingest_state \<Rightarrow> ingest_state" where
  "id_step m payload st =
     ((if id_text m payload \<noteq> [] then AList.update (lookup_name m) (VStr (id_text m payload)) (fst st) else fst st),
      snd st @ id_errors m payload)"

text \<open>The body of the loop of a full write over the declared fields.\<close>

definition fill_step :: "published_model \<Rightarrow> string \<times> field_schema \<Rightarrow> ingest_state \<Rightarrow> ingest_state" where
  "fill_step m p st = (case p of (name, f) \<Rightarrow>
     if fs_archived f \<or> name \<in> set (pm_system m) \<or> name = lookup_name m \<or> map_of (fst st) name \<noteq> None then st
     else note_input name (if \<not> fs_nullable f
         then Inl (''missing_required'', ''field '' @ name @ '' is required for full writes'') else Inr VNil) st)"

definition record_state :: "published_model \<Rightarrow> object_schema \<Rightarrow> string \<Rightarrow> field_map \<Rightarrow> string \<Rightarrow> ingest_state" where
  "record_state m table object_type payload mode =
     (let st = id_step m payload (fold (input_step m table object_type) payload ([], []))
      in if mode = ''create'' then fold (fill_step m) (os_fields table) st else st)"

text \<open>\<^verbatim>\<open>ValidateRecord\<close>: the record, its identifier and the errors.\<close>

definition validate_record :: "published_model \<Rightarrow> string \<Rightarrow> field_map \<Rightarrow> string \<Rightarrow> field_map \<times> string \<times> record_error list" where
  "validate_record m object_type payload mode =
     (case map_of (pm_tables m) object_type of
        None \<Rightarrow> ([], [], [complain ''object_type'' ''unknown_object_type'' (''object type '' @ object_type @ '' is not available for ingestion'')])
      | Some table \<Rightarrow>
          if os_archived table
          then ([], [], [complain ''object_type'' ''unknown_object_type'' (''object type '' @ object_type @ '' is not available for ingestion'')])
          else (let st = record_state m table object_type payload mode in
            if snd st \<noteq> [] then ([], id_text m payload, snd st) else (fst st, id_text m payload, [])))"

end
