(* ===== verification/Ingest_Store.thy ===== *)
theory Ingest_Store
  imports Ingest_Validation State_Steps
begin

text \<open>
  The tables of the ingestion service and the statements on them: the tenant's own tables
  (\<^verbatim>\<open>store/postgres/tenant_data_writer.go\<close>), audits, outbox events, idempotency keys, upload logs and deferred
  ingests (the repositories of \<^verbatim>\<open>store/postgres\<close>), and the jobs of River. A transaction is one step.
\<close>

subsection \<open>Rows\<close>

record record_result =
  rr_object :: string
  rr_action :: string
  rr_revision :: string
  rr_replayed :: bool

record audit =
  au_id :: string
  au_tenant :: string
  au_type :: string
  au_object :: string
  au_mode :: string
  au_revision :: string
  au_status :: string
  au_payload :: gval
  au_errors :: "record_error list"
  au_key :: "string option"
  au_created :: int

record ingest_event =
  ev_id :: string
  ev_tenant :: string
  ev_type :: string
  ev_aggregate_type :: string
  ev_aggregate :: string
  ev_payload :: gval
  ev_status :: string
  ev_created :: int

text \<open>A stored response is given as what decoding it yields.\<close>

record idempotency_key =
  ik_tenant :: string
  ik_key :: string
  ik_hash :: string
  ik_kind :: string
  ik_results :: "record_result list"
  ik_created :: int

record upload_log =
  ul_id :: string
  ul_tenant :: string
  ul_type :: string
  ul_mode :: string
  ul_filename :: string
  ul_content_type :: string
  ul_status :: string
  ul_total :: int
  ul_successful :: int
  ul_failed :: int
  ul_attempts :: int
  ul_error :: "string option"
  ul_payload :: string
  ul_requested :: int
  ul_started :: "int option"
  ul_completed :: "int option"

record deferred_ingest =
  df_id :: string
  df_tenant :: string
  df_type :: string
  df_mode :: string
  df_status :: string
  df_attempts :: int
  df_error :: "string option"
  df_key :: "string option"
  df_payload :: "field_map res"
  df_requested :: int
  df_started :: "int option"
  df_completed :: "int option"

datatype ingest_job = UploadJob string | DeferredJob string

record ingest_store =
  in_rows :: "((string \<times> string) \<times> field_map list) list"
  in_audits :: "audit list"
  in_events :: "ingest_event list"
  in_keys :: "idempotency_key list"
  in_uploads :: "upload_log list"
  in_deferred :: "deferred_ingest list"
  in_jobs :: "ingest_job list"
  in_finished :: "ingest_job list"
  in_drawn :: nat

definition empty_ingest :: ingest_store where
  "empty_ingest = \<lparr>in_rows = [], in_audits = [], in_events = [], in_keys = [], in_uploads = [], in_deferred = [],
     in_jobs = [], in_finished = [], in_drawn = 0\<rparr>"

text \<open>What surrounds a call: the reader of the published model, the statements that work, clock and identifiers, the
  hash of the JSON text of a value, reading CSV text (the rows before an error, and the error), the attempts allowed,
  whether the process enqueues jobs at all, and whether River adds a job that is inserted.\<close>

record ingest_env =
  ie_model :: "string \<Rightarrow> string \<Rightarrow> published_model res"
  ie_works :: "string \<Rightarrow> bool"
  ie_clock :: int
  ie_gen :: "nat \<Rightarrow> string"
  ie_digest :: "gval \<Rightarrow> string"
  ie_csv :: "string \<Rightarrow> string list list \<times> string option"
  ie_attempts :: int
  ie_enqueues :: bool
  ie_inserts :: "ingest_job \<Rightarrow> ingest_job list \<Rightarrow> ingest_job list \<Rightarrow> bool"

type_synonym 'a ingest_step = "(ingest_store, string, 'a) step"

subsection \<open>JSON\<close>

text \<open>The values \<^verbatim>\<open>json.Marshal\<close> accepts, and the order of keys it writes.\<close>

fun jsonable :: "gval \<Rightarrow> bool" where
  "jsonable (VFloat x) = (f64_rat x \<noteq> None)"
| "jsonable (VFloat32 x) = (f64_rat x \<noteq> None)"
| "jsonable (VTime t) = (0 \<le> local_year utc_loc t \<and> local_year utc_loc t \<le> 9999)"
| "jsonable (VList vs) = list_all jsonable vs"
| "jsonable (VObj kvs) = list_all (\<lambda>p. jsonable (snd p)) kvs"
| "jsonable _ = True"

fun canonical :: "gval \<Rightarrow> gval" where
  "canonical (VList vs) = VList (map canonical vs)"
| "canonical (VObj kvs) = VObj (sort_key fst (map (\<lambda>p. (fst p, canonical (snd p))) kvs))"
| "canonical v = v"

text \<open>\<^verbatim>\<open>hashRequest\<close>\<close>

definition hash_request :: "ingest_env \<Rightarrow> gval \<Rightarrow> string res" where
  "hash_request env v = (if jsonable v then Inr (ie_digest env (canonical v))
     else Inl ''marshal request for idempotency hashing'')"

subsection \<open>The tenant's tables\<close>

definition no_row :: string where
  "no_row = ''no rows in result set''"

definition table_rows :: "string \<times> string \<Rightarrow> ingest_store \<Rightarrow> field_map list" where
  "table_rows t w = (case map_of (in_rows w) t of None \<Rightarrow> [] | Some rs \<Rightarrow> rs)"

definition set_table_rows :: "string \<times> string \<Rightarrow> field_map list \<Rightarrow> ingest_store \<Rightarrow> ingest_store" where
  "set_table_rows t rs w = w\<lparr>in_rows := AList.update t rs (in_rows w)\<rparr>"

definition is_row :: "string \<Rightarrow> string \<Rightarrow> field_map \<Rightarrow> bool" where
  "is_row lookup object_id r = (map_of r lookup = Some (VStr object_id))"

definition other_fields :: "string \<Rightarrow> field_map \<Rightarrow> field_map" where
  "other_fields lookup rec = sort_key fst (filter (\<lambda>p. fst p \<noteq> lookup) rec)"

definition assign :: "field_map \<Rightarrow> field_map \<Rightarrow> field_map" where
  "assign sets r = fold (\<lambda>p. AList.update (fst p) (snd p)) sets r"

text \<open>\<^verbatim>\<open>patchRecord\<close>\<close>

definition patch_record :: "ingest_env \<Rightarrow> string \<times> string \<Rightarrow> string \<Rightarrow> string \<Rightarrow> field_map \<Rightarrow> int \<Rightarrow> unit ingest_step" where
  "patch_record env t lookup object_id rec now w =
     (if \<not> ie_works env (''tenant update '' @ object_id) then (Inl ''tenant update'', w)
      else if list_ex (is_row lookup object_id) (table_rows t w)
        then (Inr (), set_table_rows t (map (\<lambda>r. if is_row lookup object_id r
            then assign ((''updated_at'', VTime now) # other_fields lookup rec) r else r) (table_rows t w)) w)
      else (Inl no_row, w))"

text \<open>The insert of \<^verbatim>\<open>UpsertRecord\<close>, which leaves a row that is there alone.\<close>

definition insert_record :: "ingest_env \<Rightarrow> string \<times> string \<Rightarrow> string \<Rightarrow> string \<Rightarrow> field_map \<Rightarrow> int \<Rightarrow> unit ingest_step" where
  "insert_record env t lookup object_id rec now w =
     (if \<not> ie_works env (''tenant insert '' @ object_id) then (Inl ''tenant insert'', w)
      else if list_ex (is_row lookup object_id) (table_rows t w) then (Inl no_row, w)
      else (Inr (), (set_table_rows t (table_rows t w @
          [[(''id'', VStr (ie_gen env (in_drawn w))), (lookup, VStr object_id), (''updated_at'', VTime now)] @ other_fields lookup rec]) w)
        \<lparr>in_drawn := Suc (in_drawn w)\<rparr>))"

definition record_id :: "published_model \<Rightarrow> field_map \<Rightarrow> string" where
  "record_id m rec = (case map_of rec (pm_lookup m) of Some (VStr s) \<Rightarrow> s | _ \<Rightarrow> [])"

text \<open>\<^verbatim>\<open>UpsertRecord\<close>: an update first when patching, then an insert, then an update again.\<close>

definition insert_or_update :: "ingest_env \<Rightarrow> string \<times> string \<Rightarrow> string \<Rightarrow> string \<Rightarrow> field_map \<Rightarrow> int \<Rightarrow> string ingest_step" where
  "insert_or_update env t lookup object_id rec now w =
     (case insert_record env t lookup object_id rec now w of
        (Inr _, w') \<Rightarrow> (Inr ''created'', w')
      | (Inl e, w') \<Rightarrow> if e \<noteq> no_row then (Inl e, w')
          else then_do (patch_record env t lookup object_id rec now) (\<lambda>_. finish_with ''updated'') w')"

definition upsert_record :: "ingest_env \<Rightarrow> published_model \<Rightarrow> string \<Rightarrow> field_map \<Rightarrow> string \<Rightarrow> int \<Rightarrow> string ingest_step" where
  "upsert_record env m object_type rec mode now w =
     (case map_of (pm_tables m) object_type of
        None \<Rightarrow> (Inl (''object type '' @ object_type @ '' is not available for ingestion''), w)
      | Some table \<Rightarrow>
          (let t = (schema_name m, os_name table); i = record_id m rec in
           if mode = ''patch'' then
             (case patch_record env t (pm_lookup m) i rec now w of
                (Inr _, w') \<Rightarrow> (Inr ''updated'', w')
              | (Inl e, w') \<Rightarrow> if e \<noteq> no_row then (Inl e, w') else insert_or_update env t (pm_lookup m) i rec now w')
           else insert_or_update env t (pm_lookup m) i rec now w))"

subsection \<open>Audits, events, keys\<close>

definition draw_id :: "ingest_env \<Rightarrow> string ingest_step" where
  "draw_id env w = (Inr (ie_gen env (in_drawn w)), w\<lparr>in_drawn := Suc (in_drawn w)\<rparr>)"

text \<open>The column of a payload is not nullable, so a payload without a JSON text fails the statement.\<close>

definition create_audit :: "ingest_env \<Rightarrow> audit \<Rightarrow> unit ingest_step" where
  "create_audit env a w =
     (if ie_works env ''audit insert'' \<and> jsonable (au_payload a) then (Inr (), w\<lparr>in_audits := in_audits w @ [a]\<rparr>)
      else (Inl ''audit insert'', w))"

definition create_event :: "ingest_env \<Rightarrow> ingest_event \<Rightarrow> unit ingest_step" where
  "create_event env e w =
     (if ie_works env ''outbox insert'' \<and> jsonable (ev_payload e) then (Inr (), w\<lparr>in_events := in_events w @ [e]\<rparr>)
      else (Inl ''outbox insert'', w))"

definition record_ingestion :: "ingest_env \<Rightarrow> audit \<Rightarrow> ingest_event \<Rightarrow> unit ingest_step" where
  "record_ingestion env a e = then_do (create_audit env a) (\<lambda>_. create_event env e)"

definition get_key :: "ingest_env \<Rightarrow> string \<Rightarrow> string \<Rightarrow> idempotency_key option ingest_step" where
  "get_key env tenant key w =
     (if \<not> ie_works env ''key get'' then (Inl ''key get'', w)
      else (Inr (find (\<lambda>k. ik_tenant k = tenant \<and> ik_key k = key) (in_keys w)), w))"

definition create_key :: "ingest_env \<Rightarrow> idempotency_key \<Rightarrow> unit ingest_step" where
  "create_key env k w =
     (if ie_works env ''key insert'' \<and> \<not> list_ex (\<lambda>x. ik_tenant x = ik_tenant k \<and> ik_key x = ik_key k) (in_keys w)
      then (Inr (), w\<lparr>in_keys := in_keys w @ [k]\<rparr>) else (Inl ''key insert'', w))"

subsection \<open>Upload logs and deferred ingests\<close>

definition create_upload :: "ingest_env \<Rightarrow> upload_log \<Rightarrow> unit ingest_step" where
  "create_upload env u w =
     (if ie_works env ''upload insert'' \<and> \<not> list_ex (\<lambda>x. ul_id x = ul_id u) (in_uploads w)
      then (Inr (), w\<lparr>in_uploads := in_uploads w @ [u]\<rparr>) else (Inl ''upload insert'', w))"

definition change_upload :: "string \<Rightarrow> (upload_log \<Rightarrow> upload_log) \<Rightarrow> ingest_store \<Rightarrow> ingest_store" where
  "change_upload i f w = w\<lparr>in_uploads := map (\<lambda>u. if ul_id u = i then f u else u) (in_uploads w)\<rparr>"

definition update_upload :: "ingest_env \<Rightarrow> upload_log \<Rightarrow> unit ingest_step" where
  "update_upload env v = attempt (ie_works env) ''upload update'' (change_upload (ul_id v)
     (\<lambda>u. u\<lparr>ul_status := ul_status v, ul_total := ul_total v, ul_successful := ul_successful v, ul_failed := ul_failed v,
       ul_attempts := ul_attempts v, ul_error := ul_error v, ul_payload := ul_payload v, ul_started := ul_started v,
       ul_completed := ul_completed v\<rparr>))"

definition start_upload :: "ingest_env \<Rightarrow> string \<Rightarrow> int \<Rightarrow> upload_log ingest_step" where
  "start_upload env i now w =
     (if \<not> ie_works env ''upload start'' then (Inl ''start upload log attempt'', w)
      else case find (\<lambda>u. ul_id u = i) (in_uploads w) of
          None \<Rightarrow> (Inl ''start upload log attempt'', w)
        | Some u \<Rightarrow> (let u' = u\<lparr>ul_status := ''processing'', ul_started := Some now, ul_attempts := ul_attempts u + 1\<rparr>
            in (Inr u', change_upload i (\<lambda>_. u') w)))"

definition create_deferred :: "ingest_env \<Rightarrow> deferred_ingest \<Rightarrow> unit ingest_step" where
  "create_deferred env d w =
     (if ie_works env ''deferred insert'' \<and> \<not> list_ex (\<lambda>x. df_id x = df_id d) (in_deferred w)
      then (Inr (), w\<lparr>in_deferred := in_deferred w @ [d]\<rparr>) else (Inl ''deferred insert'', w))"

definition change_deferred :: "string \<Rightarrow> (deferred_ingest \<Rightarrow> deferred_ingest) \<Rightarrow> ingest_store \<Rightarrow> ingest_store" where
  "change_deferred i f w = w\<lparr>in_deferred := map (\<lambda>d. if df_id d = i then f d else d) (in_deferred w)\<rparr>"

definition update_deferred :: "ingest_env \<Rightarrow> deferred_ingest \<Rightarrow> unit ingest_step" where
  "update_deferred env v = attempt (ie_works env) ''deferred update'' (change_deferred (df_id v)
     (\<lambda>d. d\<lparr>df_status := df_status v, df_attempts := df_attempts v, df_error := df_error v, df_key := df_key v,
       df_payload := df_payload v, df_started := df_started v, df_completed := df_completed v\<rparr>))"

definition start_deferred :: "ingest_env \<Rightarrow> string \<Rightarrow> int \<Rightarrow> deferred_ingest ingest_step" where
  "start_deferred env i now w =
     (if \<not> ie_works env ''deferred start'' then (Inl ''start deferred ingest attempt'', w)
      else case find (\<lambda>d. df_id d = i) (in_deferred w) of
          None \<Rightarrow> (Inl ''start deferred ingest attempt'', w)
        | Some d \<Rightarrow> (let d' = d\<lparr>df_status := ''processing'', df_started := Some now, df_attempts := df_attempts d + 1\<rparr>
            in (Inr d', change_deferred i (\<lambda>_. d') w)))"

text \<open>The enqueuers: the process of the worker is given those that do nothing.\<close>

definition enqueue_ingest :: "ingest_env \<Rightarrow> ingest_job \<Rightarrow> unit ingest_step" where
  "enqueue_ingest env j w =
     (if \<not> ie_enqueues env then (Inr (), w)
      else if \<not> ie_works env ''enqueue'' then (Inl ''enqueue'', w)
      else (Inr (), if ie_inserts env j (in_jobs w) (in_finished w) then w\<lparr>in_jobs := in_jobs w @ [j]\<rparr> else w))"

end
