(* ===== verification/Ingest_Service.thy ===== *)
theory Ingest_Service
  imports Ingest_Store
begin

text \<open>
  Ingesting records (\<^verbatim>\<open>ingestion-service/internal/service/ingest_service.go\<close>), deferred ingests
  (\<^verbatim>\<open>deferred_ingest_service.go\<close>) and uploads (\<^verbatim>\<open>upload_log_service.go\<close>). A call answers with an error, with the
  validation errors of the request, or with results. Identifiers that the generator draws are well formed.
\<close>

subsection \<open>One record\<close>

definition stamp_object_id :: "string \<Rightarrow> record_error list \<Rightarrow> record_error list" where
  "stamp_object_id i es = map (\<lambda>e. e\<lparr>re_object := i\<rparr>) es"

definition writable_model :: "ingest_env \<Rightarrow> string \<Rightarrow> string \<Rightarrow> published_model res" where
  "writable_model env tenant object_type = bind_r (ie_model env tenant object_type) (\<lambda>m.
     if \<not> pm_writable m then Inl ''tenant is not writable for ingestion'' else Inr m)"

definition audit_of :: "ingest_env \<Rightarrow> string \<Rightarrow> string \<Rightarrow> string \<Rightarrow> string \<Rightarrow> string \<Rightarrow> string \<Rightarrow> gval \<Rightarrow> record_error list \<Rightarrow> string option \<Rightarrow> string \<Rightarrow> audit" where
  "audit_of env tenant object_type object_id mode revision status payload es key i =
     \<lparr>au_id = i, au_tenant = tenant, au_type = object_type, au_object = object_id, au_mode = mode, au_revision = revision,
      au_status = status, au_payload = payload, au_errors = es, au_key = key, au_created = ie_clock env\<rparr>"

text \<open>The audit of a refused record; whatever goes wrong with it is dropped.\<close>

definition audit_refused :: "ingest_env \<Rightarrow> string \<Rightarrow> string \<Rightarrow> string \<Rightarrow> published_model \<Rightarrow> field_map \<Rightarrow> string \<Rightarrow> record_error list \<Rightarrow> string option \<Rightarrow> unit ingest_step" where
  "audit_refused env tenant object_type mode m payload object_id es key =
     then_do (draw_id env) (\<lambda>i. create_audit env
       (audit_of env tenant object_type object_id mode (pm_revision m) ''validation_failed'' (VObj payload) es key i))"

definition event_type :: "string \<Rightarrow> string" where
  "event_type action = (if action = ''updated'' then ''record.updated'' else ''record.ingested'')"

definition event_body :: "ingest_env \<Rightarrow> string \<Rightarrow> string \<Rightarrow> string \<Rightarrow> string \<Rightarrow> string \<Rightarrow> string \<Rightarrow> field_map \<Rightarrow> gval" where
  "event_body env tenant object_type object_id mode revision action rec =
     VObj [(''tenant_id'', VStr tenant), (''object_type'', VStr object_type), (''object_id'', VStr object_id), (''mode'', VStr mode),
       (''revision_id'', VStr revision), (''action'', VStr action), (''record'', VObj rec), (''ingested_at'', VTime (ie_clock env))]"

text \<open>Writing one record with its audit and event: the same lines in \<^verbatim>\<open>Ingest\<close> and in the loop of \<^verbatim>\<open>BatchIngest\<close>.\<close>

definition write_record :: "ingest_env \<Rightarrow> string \<Rightarrow> string \<Rightarrow> string \<Rightarrow> published_model \<Rightarrow> string option \<Rightarrow> field_map \<times> string \<Rightarrow> record_result ingest_step" where
  "write_record env tenant object_type mode m key r =
     then_do (upsert_record env m object_type (fst r) mode (ie_clock env)) (\<lambda>action.
     then_do (draw_id env) (\<lambda>audit_id.
     then_do (draw_id env) (\<lambda>event_id.
     then_do (record_ingestion env
         (audit_of env tenant object_type (snd r) mode (pm_revision m) ''succeeded'' (VObj (fst r)) [] key audit_id)
         \<lparr>ev_id = event_id, ev_tenant = tenant, ev_type = event_type action, ev_aggregate_type = object_type, ev_aggregate = snd r,
           ev_payload = event_body env tenant object_type (snd r) mode (pm_revision m) action (fst r), ev_status = ''pending'',
           ev_created = ie_clock env\<rparr>) (\<lambda>_.
       finish_with \<lparr>rr_object = snd r, rr_action = action, rr_revision = pm_revision m, rr_replayed = False\<rparr>))))"

text \<open>What a key that is known means for a request: its stored results, marked as replayed, or a refusal.\<close>

definition key_reused :: string where
  "key_reused = ''idempotency key reused with different payload''"

definition replay :: "string \<Rightarrow> string \<Rightarrow> idempotency_key \<Rightarrow> record_result list res" where
  "replay hash kind k =
     (if ik_hash k = hash \<and> ik_kind k = kind then Inr (map (\<lambda>r. r\<lparr>rr_replayed := True\<rparr>) (ik_results k)) else Inl key_reused)"

definition remember :: "ingest_env \<Rightarrow> string \<Rightarrow> string option \<Rightarrow> string \<Rightarrow> string \<Rightarrow> record_result list \<Rightarrow> record_result list ingest_step" where
  "remember env tenant key hash kind results =
     (case key of None \<Rightarrow> finish_with results
      | Some k \<Rightarrow> then_do (create_key env \<lparr>ik_tenant = tenant, ik_key = k, ik_hash = hash, ik_kind = kind, ik_results = results,
            ik_created = ie_clock env\<rparr>) (\<lambda>_. finish_with results))"

text \<open>The beginning and the end of both transactions around their writes.\<close>

definition once_per_key :: "ingest_env \<Rightarrow> string \<Rightarrow> string option \<Rightarrow> string \<Rightarrow> string \<Rightarrow> record_result list ingest_step \<Rightarrow> record_result list ingest_step" where
  "once_per_key env tenant key hash kind write =
     then_do (case key of None \<Rightarrow> finish_with None | Some k \<Rightarrow> get_key env tenant k) (\<lambda>known. case known of
        Some k \<Rightarrow> (\<lambda>w. (replay hash kind k, w))
      | None \<Rightarrow> then_do write (remember env tenant key hash kind))"

text \<open>\<^verbatim>\<open>Ingest\<close>\<close>

definition ingest :: "ingest_env \<Rightarrow> string \<Rightarrow> string \<Rightarrow> string \<Rightarrow> field_map \<Rightarrow> string option \<Rightarrow> (record_error list + record_result list) ingest_step" where
  "ingest env tenant object_type mode payload key w =
     (case writable_model env tenant object_type of Inl e \<Rightarrow> (Inl e, w)
      | Inr m \<Rightarrow>
        (let (rec, object_id, es) = validate_record m object_type payload mode in
         if es \<noteq> [] then
           (let es' = stamp_object_id object_id es in
            (Inr (Inl es'), snd (transaction (ie_works env) (audit_refused env tenant object_type mode m payload object_id es' key) w)))
         else (case hash_request env (VObj rec) of Inl e \<Rightarrow> (Inl e, w)
           | Inr hash \<Rightarrow> then_do (transaction (ie_works env)
               (once_per_key env tenant key hash ''single''
                 (then_do (write_record env tenant object_type mode m key (rec, object_id)) (\<lambda>r. finish_with [r]))))
               (\<lambda>rs. finish_with (Inr rs)) w)))"

subsection \<open>Batches\<close>

definition batch_limit :: nat where "batch_limit = 500"

definition batch_error :: "string \<Rightarrow> string \<Rightarrow> record_error" where
  "batch_error code message = \<lparr>re_object = [], re_field = ''records'', re_code = code, re_message = message\<rparr>"

text \<open>The loop that validates: valid records in order, errors, and the identifiers seen.\<close>

fun validate_batch :: "published_model \<Rightarrow> string \<Rightarrow> string \<Rightarrow> field_map list \<Rightarrow> string list \<Rightarrow> (field_map \<times> string) list \<times> record_error list" where
  "validate_batch m object_type mode [] seen = ([], [])"
| "validate_batch m object_type mode (r # rs) seen =
     (let (rec, object_id, es) = validate_record m object_type r mode in
      if es \<noteq> [] then
        (let (ok, errs) = validate_batch m object_type mode rs seen in (ok, stamp_object_id object_id es @ errs))
      else if object_id \<in> set seen then
        (let (ok, errs) = validate_batch m object_type mode rs seen
         in (ok, \<lparr>re_object = object_id, re_field = pm_lookup m, re_code = ''duplicate_object_id'',
              re_message = ''object_id '' @ object_id @ '' appears more than once in the batch''\<rparr> # errs))
      else (let (ok, errs) = validate_batch m object_type mode rs (object_id # seen) in ((rec, object_id) # ok, errs)))"

definition filter_errors :: "string \<Rightarrow> record_error list \<Rightarrow> record_error list" where
  "filter_errors object_id es = (let fs = filter (\<lambda>e. re_object e = object_id) es in if fs = [] then es else fs)"

fun audit_batch :: "ingest_env \<Rightarrow> string \<Rightarrow> string \<Rightarrow> string \<Rightarrow> published_model \<Rightarrow> record_error list \<Rightarrow> string option \<Rightarrow> field_map list \<Rightarrow> unit ingest_step" where
  "audit_batch env tenant object_type mode m es key [] = finish_with ()"
| "audit_batch env tenant object_type mode m es key (r # rs) =
     (let i = record_id m r in
      then_do (audit_refused env tenant object_type mode m r i (filter_errors i es) key)
        (\<lambda>_. audit_batch env tenant object_type mode m es key rs))"

fun write_records :: "ingest_env \<Rightarrow> string \<Rightarrow> string \<Rightarrow> string \<Rightarrow> published_model \<Rightarrow> string option \<Rightarrow> (field_map \<times> string) list \<Rightarrow> record_result list ingest_step" where
  "write_records env tenant object_type mode m key [] = finish_with []"
| "write_records env tenant object_type mode m key (r # rs) =
     then_do (write_record env tenant object_type mode m key r) (\<lambda>x.
     then_do (write_records env tenant object_type mode m key rs) (\<lambda>xs. finish_with (x # xs)))"

definition batch_event :: "ingest_env \<Rightarrow> string \<Rightarrow> string \<Rightarrow> string \<Rightarrow> published_model \<Rightarrow> nat \<Rightarrow> unit ingest_step" where
  "batch_event env tenant object_type mode m n =
     then_do (draw_id env) (\<lambda>i. create_event env
       \<lparr>ev_id = i, ev_tenant = tenant, ev_type = ''batch.ingestion.completed'', ev_aggregate_type = object_type, ev_aggregate = object_type,
         ev_payload = VObj [(''tenant_id'', VStr tenant), (''object_type'', VStr object_type), (''mode'', VStr mode),
           (''revision_id'', VStr (pm_revision m)), (''count'', VInt (int n)), (''ingested_at'', VTime (ie_clock env))],
         ev_status = ''pending'', ev_created = ie_clock env\<rparr>)"

definition write_batch :: "ingest_env \<Rightarrow> string \<Rightarrow> string \<Rightarrow> string \<Rightarrow> published_model \<Rightarrow> string option \<Rightarrow> (field_map \<times> string) list \<Rightarrow> record_result list ingest_step" where
  "write_batch env tenant object_type mode m key valid =
     then_do (write_records env tenant object_type mode m key valid) (\<lambda>rs.
     then_do (batch_event env tenant object_type mode m (length rs)) (\<lambda>_. finish_with rs))"

text \<open>\<^verbatim>\<open>BatchIngest\<close>\<close>

definition batch_ingest :: "ingest_env \<Rightarrow> string \<Rightarrow> string \<Rightarrow> string \<Rightarrow> field_map list \<Rightarrow> string option \<Rightarrow> (record_error list + record_result list) ingest_step" where
  "batch_ingest env tenant object_type mode records key w =
     (case writable_model env tenant object_type of Inl e \<Rightarrow> (Inl e, w)
      | Inr m \<Rightarrow>
        if records = [] then (Inr (Inl [batch_error ''empty_batch'' ''batch request must contain at least one record'']), w)
        else if batch_limit < length records then
          (Inr (Inl [batch_error ''batch_too_large'' ''batch request exceeds the maximum supported size of 500 records'']), w)
        else (let (valid, es) = validate_batch m object_type mode records [] in
          if es \<noteq> [] then
            (Inr (Inl es), snd (transaction (ie_works env) (audit_batch env tenant object_type mode m es key records) w))
          else (case hash_request env (VList (map VObj records)) of Inl e \<Rightarrow> (Inl e, w)
            | Inr hash \<Rightarrow> then_do (transaction (ie_works env)
                (once_per_key env tenant key hash ''batch'' (write_batch env tenant object_type mode m key valid)))
                (\<lambda>rs. finish_with (Inr rs)) w)))"

subsection \<open>Reading\<close>

text \<open>\<^verbatim>\<open>GetRecord\<close>, \<^verbatim>\<open>ListRecords\<close>: a limit that is not positive reads as 100.\<close>

definition get_record :: "ingest_env \<Rightarrow> string \<Rightarrow> string \<Rightarrow> string \<Rightarrow> field_map ingest_step" where
  "get_record env tenant object_type object_id w =
     (case ie_model env tenant object_type of Inl e \<Rightarrow> (Inl e, w)
      | Inr m \<Rightarrow> (case map_of (pm_tables m) object_type of
          None \<Rightarrow> (Inl (''object type '' @ object_type @ '' is not available''), w)
        | Some t \<Rightarrow> if \<not> ie_works env ''tenant read'' then (Inl ''tenant read'', w)
            else (case find (is_row (pm_lookup m) object_id) (table_rows (schema_name m, os_name t) w) of
                None \<Rightarrow> (Inl no_row, w) | Some r \<Rightarrow> (Inr r, w))))"

definition time_of :: "field_map \<Rightarrow> int" where
  "time_of r = (case map_of r ''updated_at'' of Some (VTime t) \<Rightarrow> t | _ \<Rightarrow> 0)"

definition list_records :: "ingest_env \<Rightarrow> string \<Rightarrow> string \<Rightarrow> int \<Rightarrow> field_map list ingest_step" where
  "list_records env tenant object_type limit w =
     (case ie_model env tenant object_type of Inl e \<Rightarrow> (Inl e, w)
      | Inr m \<Rightarrow> (case map_of (pm_tables m) object_type of
          None \<Rightarrow> (Inl (''object type '' @ object_type @ '' is not available''), w)
        | Some t \<Rightarrow> if \<not> ie_works env ''tenant read'' then (Inl ''tenant read'', w)
            else (Inr (take (nat (if limit \<le> 0 then 100 else limit))
              (sort_key (\<lambda>r. - time_of r) (table_rows (schema_name m, os_name t) w))), w)))"

subsection \<open>Deferred ingests\<close>

text \<open>\<^verbatim>\<open>summarizeValidationErrors\<close>\<close>

definition summarize :: "record_error list \<Rightarrow> string" where
  "summarize es = (case es of [] \<Rightarrow> [] | [e] \<Rightarrow> re_message e
     | e # _ \<Rightarrow> re_message e @ ''; plus '' @ itoa (int (length es) - 1) @ '' more validation errors'')"

definition attempts_allowed :: "ingest_env \<Rightarrow> int" where
  "attempts_allowed env = (if ie_attempts env \<le> 0 then 3 else ie_attempts env)"

definition defer_ingest :: "ingest_env \<Rightarrow> string \<Rightarrow> string \<Rightarrow> string \<Rightarrow> field_map \<Rightarrow> string option \<Rightarrow> deferred_ingest ingest_step" where
  "defer_ingest env tenant object_type mode payload key =
     then_do (draw_id env) (\<lambda>i.
       (let d = \<lparr>df_id = i, df_tenant = tenant, df_type = object_type, df_mode = mode, df_status = ''queued'', df_attempts = 0,
            df_error = None, df_key = key, df_payload = Inr payload, df_requested = ie_clock env, df_started = None, df_completed = None\<rparr>
        in transaction (ie_works env) (then_do (create_deferred env d)
             (\<lambda>_. then_do (enqueue_ingest env (DeferredJob i)) (\<lambda>_. finish_with d)))))"

text \<open>\<^verbatim>\<open>handleRetryableFailure\<close>\<close>

definition retry_deferred :: "ingest_env \<Rightarrow> deferred_ingest \<Rightarrow> string \<Rightarrow> unit ingest_step" where
  "retry_deferred env d message =
     (if df_attempts d < attempts_allowed env then
        transaction (ie_works env) (then_do (update_deferred env
            (d\<lparr>df_error := Some message, df_status := ''queued'', df_started := None, df_completed := None\<rparr>))
          (\<lambda>_. enqueue_ingest env (DeferredJob (df_id d))))
      else update_deferred env (d\<lparr>df_error := Some message, df_status := ''failed'', df_completed := Some (ie_clock env)\<rparr>))"

text \<open>\<^verbatim>\<open>RunDeferredIngest\<close>\<close>

definition run_deferred :: "ingest_env \<Rightarrow> string \<Rightarrow> unit ingest_step" where
  "run_deferred env i =
     then_do (start_deferred env i (ie_clock env)) (\<lambda>d.
       (case df_payload d of
          Inl e \<Rightarrow> retry_deferred env d (''decode deferred ingest payload: '' @ e)
        | Inr payload \<Rightarrow> (\<lambda>w. case ingest env (df_tenant d) (df_type d) (df_mode d) payload (df_key d) w of
            (Inl e, w') \<Rightarrow> retry_deferred env d e w'
          | (Inr (Inl es), w') \<Rightarrow> update_deferred env
              (d\<lparr>df_status := ''failed'', df_error := Some (summarize es), df_completed := Some (ie_clock env)\<rparr>) w'
          | (Inr (Inr _), w') \<Rightarrow> update_deferred env
              (d\<lparr>df_status := ''completed'', df_error := None, df_completed := Some (ie_clock env)\<rparr>) w')))"

subsection \<open>Uploads\<close>

text \<open>\<^verbatim>\<open>decodeCSV\<close>: rows before the first error of the reader; an empty cell is nil.\<close>

definition csv_record :: "string list \<Rightarrow> string list \<Rightarrow> field_map" where
  "csv_record headers row = fold (\<lambda>(i, h). AList.update h
       (let v = (if i < length row then trim_space (row ! i) else []) in if v = [] then VNil else VStr v)) (enumerate 0 headers) []"

definition decode_csv :: "ingest_env \<Rightarrow> string \<Rightarrow> field_map list res" where
  "decode_csv env payload =
     (case ie_csv env payload of
        ([], e) \<Rightarrow> Inl (''read csv header: '' @ (case e of None \<Rightarrow> ''EOF'' | Some x \<Rightarrow> x))
      | (headers # rows, Some e) \<Rightarrow> Inl (''read csv row: '' @ e)
      | (headers # rows, None) \<Rightarrow> Inr (map (csv_record headers) rows))"

definition create_upload_log :: "ingest_env \<Rightarrow> string \<Rightarrow> string \<Rightarrow> string \<Rightarrow> string \<Rightarrow> string \<Rightarrow> string \<Rightarrow> upload_log ingest_step" where
  "create_upload_log env tenant object_type mode filename content_type payload =
     then_do (draw_id env) (\<lambda>i.
       (let u = \<lparr>ul_id = i, ul_tenant = tenant, ul_type = object_type, ul_mode = mode, ul_filename = filename,
            ul_content_type = content_type, ul_status = ''uploaded'', ul_total = 0, ul_successful = 0, ul_failed = 0, ul_attempts = 0,
            ul_error = None, ul_payload = payload, ul_requested = ie_clock env, ul_started = None, ul_completed = None\<rparr>
        in transaction (ie_works env) (then_do (create_upload env u)
             (\<lambda>_. then_do (enqueue_ingest env (UploadJob i)) (\<lambda>_. finish_with u)))))"

definition retry_upload :: "ingest_env \<Rightarrow> upload_log \<Rightarrow> string \<Rightarrow> unit ingest_step" where
  "retry_upload env u message =
     (if ul_attempts u < attempts_allowed env then
        transaction (ie_works env) (then_do (update_upload env
            (u\<lparr>ul_error := Some message, ul_status := ''uploaded'', ul_started := None, ul_completed := None\<rparr>))
          (\<lambda>_. enqueue_ingest env (UploadJob (ul_id u))))
      else update_upload env (u\<lparr>ul_error := Some message, ul_status := ''failed'', ul_completed := Some (ie_clock env)\<rparr>))"

text \<open>\<^verbatim>\<open>RunLog\<close>\<close>

definition run_upload :: "ingest_env \<Rightarrow> string \<Rightarrow> unit ingest_step" where
  "run_upload env i =
     then_do (start_upload env i (ie_clock env)) (\<lambda>u.
       (case decode_csv env (ul_payload u) of
          Inl e \<Rightarrow> retry_upload env u e
        | Inr records \<Rightarrow> (let u = u\<lparr>ul_total := int (length records)\<rparr> in (\<lambda>w.
            case batch_ingest env (ul_tenant u) (ul_type u) (ul_mode u) records None w of
              (Inl e, w') \<Rightarrow> retry_upload env (u\<lparr>ul_failed := int (length records)\<rparr>) e w'
            | (Inr (Inl es), w') \<Rightarrow> update_upload env
                (u\<lparr>ul_status := ''failed'', ul_error := Some (summarize es), ul_failed := int (length records),
                   ul_completed := Some (ie_clock env)\<rparr>) w'
            | (Inr (Inr rs), w') \<Rightarrow> update_upload env
                (u\<lparr>ul_status := ''completed'', ul_successful := int (length rs), ul_completed := Some (ie_clock env)\<rparr>) w'))))"

subsection \<open>Workers\<close>

text \<open>River hands a job to the worker; a job whose run ends without error is finished, another one may be tried again
  or be given up.\<close>

definition finish_job :: "ingest_job \<Rightarrow> ingest_store \<Rightarrow> ingest_store" where
  "finish_job j w = w\<lparr>in_jobs := remove1 j (in_jobs w), in_finished := j # in_finished w\<rparr>"

definition run_job :: "ingest_env \<Rightarrow> ingest_job \<Rightarrow> unit ingest_step" where
  "run_job env j = (case j of UploadJob i \<Rightarrow> run_upload env i | DeferredJob i \<Rightarrow> run_deferred env i)"

definition work_ingest_job :: "ingest_env \<Rightarrow> ingest_job \<Rightarrow> bool \<Rightarrow> ingest_store \<Rightarrow> ingest_store" where
  "work_ingest_job env j again w =
     (case run_job env j w of
        (Inr _, w') \<Rightarrow> finish_job j w'
      | (Inl _, w') \<Rightarrow> if again then w' else w'\<lparr>in_jobs := remove1 j (in_jobs w')\<rparr>)"

subsection \<open>A deployment to try things on\<close>

definition shop_env :: ingest_env where
  "shop_env = \<lparr>ie_model = (\<lambda>_ _. Inr shop_model), ie_works = (\<lambda>_. True), ie_clock = 1000, ie_gen = (\<lambda>n. ''i'' @ itoa (int n)),
     ie_digest = go_sprint, ie_csv = (\<lambda>_. ([], None)), ie_attempts = 0, ie_enqueues = True, ie_inserts = (\<lambda>_ _ _. True)\<rparr>"

definition shop_payload :: field_map where
  "shop_payload = [(''object_id'', VStr '' t1 ''), (''status'', VStr ''open''), (''amount'', VStr ''2.5'')]"

definition shop_ingested :: "(string + (record_error list + record_result list)) \<times> ingest_store" where
  "shop_ingested = ingest shop_env ''4b-2'' ''transactions'' ''create'' shop_payload (Some ''k1'') empty_ingest"

lemma shop_ingested_result:
  "fst shop_ingested = Inr (Inr [\<lparr>rr_object = ''t1'', rr_action = ''created'', rr_revision = ''r1'', rr_replayed = False\<rparr>])"
  by code_simp

end
