(* ===== verification/Contract_Cache.thy ===== *)
theory Contract_Cache
  imports Ingest_Service
begin

text \<open>
  The ingestion service's reader of published tables (\<^verbatim>\<open>clients/datamodel/contract_reader.go\<close>), its cache
  (\<^verbatim>\<open>cache.go\<close>) and the views it reads (\<^verbatim>\<open>store/postgres/ingestion_contract_store.go\<close>). Identifiers and version
  tokens are their text. The Go map from keys to list elements holds exactly the elements of the list, so the list
  alone is the state; values are immutable, so the deep copies of models need no counterpart.
\<close>

subsection \<open>The views\<close>

record contract_row =
  ct_tenant :: string
  ct_table :: string
  ct_name :: string
  ct_schema :: string
  ct_status :: string
  ct_version :: string
  ct_payload :: string

text \<open>The rows of the contracts and of the tenants: tenant, schema, status.\<close>

record contract_db =
  cd_rows :: "contract_row list"
  cd_tenants :: "(string \<times> string \<times> string) list"

text \<open>\<^verbatim>\<open>PublishedContract\<close>\<close>

record published_contract =
  pc_tenant :: string
  pc_table :: string
  pc_name :: string
  pc_schema :: string
  pc_status :: string
  pc_version :: string
  pc_payload :: "string option"

definition nil_uuid :: string where
  "nil_uuid = ''00000000-0000-0000-0000-000000000000''"

definition contract_error :: string where
  "contract_error = ''read published ingestion contract''"

text \<open>\<^verbatim>\<open>ReadContract\<close>\<close>

definition read_contract :: "bool \<Rightarrow> contract_db \<Rightarrow> string \<Rightarrow> string \<Rightarrow> string \<Rightarrow> string \<Rightarrow> published_contract res" where
  "read_contract works db tenant object_type known_table known_version =
     (if \<not> works then Inl contract_error
      else case find (\<lambda>r. ct_tenant r = tenant \<and> ct_name r = object_type) (cd_rows db) of
          Some r \<Rightarrow> Inr \<lparr>pc_tenant = tenant, pc_table = ct_table r, pc_name = ct_name r, pc_schema = ct_schema r,
            pc_status = ct_status r, pc_version = ct_version r,
            pc_payload = (if ct_table r = known_table \<and> ct_version r = known_version then None else Some (ct_payload r))\<rparr>
        | None \<Rightarrow> (case map_of (cd_tenants db) tenant of
              None \<Rightarrow> Inl contract_error
            | Some (schema, status) \<Rightarrow> Inr \<lparr>pc_tenant = tenant, pc_table = nil_uuid, pc_name = [], pc_schema = schema,
                pc_status = status, pc_version = nil_uuid, pc_payload = None\<rparr>))"

subsection \<open>The cache\<close>

record contract_entry =
  kt_tenant :: string
  kt_type :: string
  kt_etag :: string
  kt_model :: published_model
  kt_bytes :: int

text \<open>\<^verbatim>\<open>modelCache\<close>: the list of recently used entries, the last used first.\<close>

record model_cache =
  mc_entries :: "contract_entry list"
  mc_max_entries :: int
  mc_max_bytes :: int
  mc_bytes :: int

definition new_model_cache :: "int \<Rightarrow> int \<Rightarrow> model_cache" where
  "new_model_cache max_entries max_bytes = \<lparr>mc_entries = [], mc_max_entries = max_entries, mc_max_bytes = max_bytes, mc_bytes = 0\<rparr>"

definition entry_key :: "contract_entry \<Rightarrow> string \<times> string" where
  "entry_key e = (kt_tenant e, kt_type e)"

definition find_entry :: "string \<times> string \<Rightarrow> model_cache \<Rightarrow> contract_entry option" where
  "find_entry k c = find (\<lambda>e. entry_key e = k) (mc_entries c)"

text \<open>\<^verbatim>\<open>remove\<close>, given the key of the element\<close>

definition remove_entry :: "contract_entry \<Rightarrow> model_cache \<Rightarrow> model_cache" where
  "remove_entry e c = c\<lparr>mc_entries := filter (\<lambda>x. entry_key x \<noteq> entry_key e) (mc_entries c), mc_bytes := mc_bytes c - kt_bytes e\<rparr>"

text \<open>\<^verbatim>\<open>getTable\<close>: a hit moves to the front.\<close>

definition get_table :: "string \<Rightarrow> string \<Rightarrow> model_cache \<Rightarrow> contract_entry option \<times> model_cache" where
  "get_table tenant object_type c =
     (case find_entry (tenant, object_type) c of
        None \<Rightarrow> (None, c)
      | Some e \<Rightarrow> (Some e, c\<lparr>mc_entries := e # filter (\<lambda>x. entry_key x \<noteq> entry_key e) (mc_entries c)\<rparr>))"

text \<open>The loop of \<^verbatim>\<open>put\<close>. On an empty list \<^verbatim>\<open>Back\<close> is nil and \<^verbatim>\<open>remove\<close> would panic: that is \<open>None\<close>.\<close>

definition no_room :: "int \<Rightarrow> model_cache \<Rightarrow> bool" where
  "no_room n c = (int (length (mc_entries c)) \<ge> mc_max_entries c \<or> mc_bytes c + n > mc_max_bytes c)"

definition drop_last :: "model_cache \<Rightarrow> model_cache" where
  "drop_last c = c\<lparr>mc_entries := butlast (mc_entries c), mc_bytes := mc_bytes c - kt_bytes (last (mc_entries c))\<rparr>"

function evict :: "int \<Rightarrow> model_cache \<Rightarrow> model_cache option" where
  "evict n c = (if \<not> no_room n c then Some c else if mc_entries c = [] then None else evict n (drop_last c))"
  by auto
termination by (relation "measure (\<lambda>(n, c). length (mc_entries c))") (auto simp: drop_last_def)

declare evict.simps [simp del]

text \<open>\<^verbatim>\<open>put\<close>\<close>

definition put_entry :: "contract_entry \<Rightarrow> model_cache \<Rightarrow> model_cache option" where
  "put_entry e c =
     (let c = (case find_entry (entry_key e) c of None \<Rightarrow> c | Some old \<Rightarrow> remove_entry old c) in
      if mc_max_entries c \<le> 0 \<or> mc_max_bytes c \<le> 0 \<or> kt_bytes e > mc_max_bytes c then Some c
      else (case evict (kt_bytes e) c of
          None \<Rightarrow> None
        | Some c \<Rightarrow> Some (c\<lparr>mc_entries := e # mc_entries c, mc_bytes := mc_bytes c + kt_bytes e\<rparr>)))"

text \<open>\<^verbatim>\<open>forget\<close>\<close>

definition forget_entry :: "string \<Rightarrow> model_cache \<Rightarrow> model_cache" where
  "forget_entry tenant c = (case find_entry (tenant, []) c of None \<Rightarrow> c | Some e \<Rightarrow> remove_entry e c)"

subsection \<open>Reading a published table\<close>

text \<open>What decoding a payload yields (\<^verbatim>\<open>assembledTableResponse\<close>); the fields may be absent.\<close>

record table_text =
  dtt_id :: string
  dtt_name :: string
  dtt_archived :: bool
  dtt_fields :: "(string \<times> field_schema) list option"

definition managed_fields :: "string list" where
  "managed_fields = [''object_id'', ''updated_at'', ''valid_from'', ''valid_until'']"

definition contract_model :: "string \<Rightarrow> published_contract \<Rightarrow> published_model" where
  "contract_model tenant s =
     \<lparr>pm_tenant = tenant, pm_schema = pc_schema s,
      pm_revision = ''contract-v1:'' @ pc_table s @ '':'' @ pc_version s @ '':'' @ pc_status s,
      pm_status = pc_status s, pm_writable = (pc_status s = ''active''), pm_lookup = ''object_id'', pm_partial = True,
      pm_system = managed_fields, pm_tables = []\<rparr>"

text \<open>The table and the version a request says it knows.\<close>

definition table_id_in :: "string \<Rightarrow> published_model \<Rightarrow> string" where
  "table_id_in object_type m = (case map_of (pm_tables m) object_type of None \<Rightarrow> nil_uuid | Some t \<Rightarrow> os_id t)"

definition known_table :: "string \<Rightarrow> contract_entry option \<Rightarrow> string" where
  "known_table object_type known = (case known of None \<Rightarrow> nil_uuid | Some e \<Rightarrow> table_id_in object_type (kt_model e))"

definition known_version :: "contract_entry option \<Rightarrow> string" where
  "known_version known = (case known of None \<Rightarrow> nil_uuid | Some e \<Rightarrow> kt_etag e)"

definition decoded_table :: "(string \<Rightarrow> table_text res) \<Rightarrow> string \<Rightarrow> published_contract \<Rightarrow> string \<Rightarrow> object_schema res" where
  "decoded_table decode object_type s payload =
     (case decode payload of
        Inl e \<Rightarrow> Inl (''decode table contract: '' @ e)
      | Inr t \<Rightarrow>
          if dtt_id t \<noteq> pc_table s \<or> dtt_name t \<noteq> object_type \<or> dtt_fields t = None then Inl ''invalid table contract payload''
          else Inr \<lparr>os_id = dtt_id t, os_name = dtt_name t, os_archived = dtt_archived t,
            os_fields = (case dtt_fields t of None \<Rightarrow> [] | Some fs \<Rightarrow> fs)\<rparr>)"

text \<open>\<^verbatim>\<open>GetPublishedTable\<close> after the read: the answer, and the entry that is stored when it fits.\<close>

definition contract_answer ::
    "(string \<Rightarrow> table_text res) \<Rightarrow> contract_entry option \<Rightarrow> string \<Rightarrow> string \<Rightarrow> published_contract \<Rightarrow> published_model res \<times> contract_entry option" where
  "contract_answer decode known tenant object_type s =
     (let m = contract_model tenant s in
      if pc_tenant s \<noteq> tenant then (Inl ''contract tenant mismatch'', None)
      else if pc_table s = nil_uuid then (Inr m, None)
      else if pc_name s \<noteq> object_type \<or> pc_version s = nil_uuid then (Inl ''invalid table contract identity'', None)
      else (case pc_payload s of
          None \<Rightarrow>
            (case known of
               None \<Rightarrow> (Inl ''contract cache version mismatch'', None)
             | Some e \<Rightarrow>
                 if known_table object_type known \<noteq> pc_table s \<or> known_version known \<noteq> pc_version s
                 then (Inl ''contract cache version mismatch'', None)
                 else (Inr (m\<lparr>pm_tables := pm_tables (kt_model e)\<rparr>), None))
        | Some payload \<Rightarrow>
            (case decoded_table decode object_type s payload of
               Inl e \<Rightarrow> (Inl e, None)
             | Inr t \<Rightarrow>
                 (let m' = m\<lparr>pm_tables := [(object_type, t)]\<rparr>
                  in (Inr m', Some \<lparr>kt_tenant = tenant, kt_type = object_type, kt_etag = pc_version s, kt_model = m',
                    kt_bytes = int (length payload)\<rparr>)))))"

text \<open>The test of \<^verbatim>\<open>GetPublishedTable\<close> before it stores.\<close>

definition keep_entry :: "contract_entry option \<Rightarrow> model_cache \<Rightarrow> model_cache option" where
  "keep_entry entry c =
     (case entry of None \<Rightarrow> Some c
      | Some e \<Rightarrow> if mc_max_entries c > 0 \<and> kt_bytes e \<le> mc_max_bytes c then put_entry e c else Some c)"

text \<open>\<^verbatim>\<open>GetPublishedTable\<close>: look up, read, answer, store. The store of contracts is the argument \<open>read\<close>. Other
  requests may use the cache before the read and before the store, so both parts are given; the whole is the call that
  nothing interrupts.\<close>

definition contract_read ::
    "(string \<Rightarrow> table_text res) \<Rightarrow> (string \<Rightarrow> string \<Rightarrow> string \<Rightarrow> string \<Rightarrow> published_contract res) \<Rightarrow>
      contract_entry option \<Rightarrow> string \<Rightarrow> string \<Rightarrow> published_model res \<times> contract_entry option" where
  "contract_read decode read known tenant object_type =
     (case read tenant object_type (known_table object_type known) (known_version known) of
        Inl e \<Rightarrow> (Inl e, None)
      | Inr s \<Rightarrow> contract_answer decode known tenant object_type s)"

definition get_published_table ::
    "(string \<Rightarrow> table_text res) \<Rightarrow> (string \<Rightarrow> string \<Rightarrow> string \<Rightarrow> string \<Rightarrow> published_contract res) \<Rightarrow>
      string \<Rightarrow> string \<Rightarrow> model_cache \<Rightarrow> published_model res \<times> model_cache option" where
  "get_published_table decode read tenant object_type c =
     (let (known, c) = get_table tenant object_type c;
          (answer, entry) = contract_read decode read known tenant object_type
      in (answer, keep_entry entry c))"

end
