(* ===== verification/Contract_Laws.thy ===== *)
theory Contract_Laws
  imports Contract_Cache
begin

text \<open>
  The cache of published tables never shows: every answer is the one the views give at the moment of the read, as long
  as a version token stands for one payload, which the trigger that publishes contracts ensures. The cache stays within
  its bounds, and making room never looks past the end of the list.
\<close>

subsection \<open>Bounds\<close>

definition cache_bounded :: "model_cache \<Rightarrow> bool" where
  "cache_bounded c \<longleftrightarrow>
     distinct (map entry_key (mc_entries c)) \<and> (\<forall>e \<in> set (mc_entries c). 0 \<le> kt_bytes e) \<and>
     mc_bytes c = sum_list (map kt_bytes (mc_entries c)) \<and>
     int (length (mc_entries c)) \<le> max 0 (mc_max_entries c) \<and> mc_bytes c \<le> max 0 (mc_max_bytes c)"

lemma found_entry: "find_entry k c = Some e \<Longrightarrow> e \<in> set (mc_entries c) \<and> entry_key e = k"
  by (auto simp: find_entry_def find_Some_iff)

lemma missing_entry: "find_entry k c = None \<Longrightarrow> k \<notin> entry_key ` set (mc_entries c)"
  by (auto simp: find_entry_def find_None_iff)

lemma bytes_without:
  "distinct (map entry_key es) \<Longrightarrow> e \<in> set es \<Longrightarrow>
     sum_list (map kt_bytes (filter (\<lambda>x. entry_key x \<noteq> entry_key e) es)) = sum_list (map kt_bytes es) - kt_bytes e \<and>
     length (filter (\<lambda>x. entry_key x \<noteq> entry_key e) es) = length es - 1"
proof (induction es)
  case (Cons x es)
  show ?case
  proof (cases "e = x")
    case True
    then have "filter (\<lambda>y. entry_key y \<noteq> entry_key e) es = es" using Cons.prems True by (intro filter_True) (metis distinct.simps(2) imageI list.map(2) list.set_map)
    then show ?thesis using True by simp
  next
    case False
    then have "e \<in> set es" "entry_key x \<noteq> entry_key e" using Cons.prems by auto
    moreover from this(1) have "0 < length es" by (rule length_pos_if_in_set)
    ultimately show ?thesis using Cons by simp
  qed
qed simp

lemma remove_bounded: "cache_bounded c \<Longrightarrow> e \<in> set (mc_entries c) \<Longrightarrow> cache_bounded (remove_entry e c)"
proof -
  assume b: "cache_bounded c" and e: "e \<in> set (mc_entries c)"
  then have d: "distinct (map entry_key (mc_entries c))" and n: "0 \<le> kt_bytes e" by (auto simp: cache_bounded_def)
  from b bytes_without [OF d e] n show ?thesis
    by (auto simp: cache_bounded_def remove_entry_def distinct_map_filter)
qed

lemma touch_bounded: "cache_bounded c \<Longrightarrow> cache_bounded (snd (get_table tenant object_type c))"
proof (cases "find_entry (tenant, object_type) c")
  case (Some e)
  assume b: "cache_bounded c"
  then have d: "distinct (map entry_key (mc_entries c))" by (simp add: cache_bounded_def)
  have e: "e \<in> set (mc_entries c)" using found_entry [OF Some] by simp
  then have "0 < length (mc_entries c)" by (rule length_pos_if_in_set)
  with b bytes_without [OF d e] e Some show ?thesis
    by (auto simp: get_table_def cache_bounded_def distinct_map_filter of_nat_diff)
qed (simp add: get_table_def)

lemma drop_bounded: "cache_bounded c \<Longrightarrow> mc_entries c \<noteq> [] \<Longrightarrow> cache_bounded (drop_last c)"
proof -
  assume b: "cache_bounded c" and "mc_entries c \<noteq> []"
  then obtain es e where es: "mc_entries c = es @ [e]" by (metis append_butlast_last_id)
  with b show ?thesis by (auto simp: cache_bounded_def drop_last_def)
qed

lemma evict_bounded:
  "cache_bounded c \<Longrightarrow> 0 < mc_max_entries c \<Longrightarrow> n \<le> mc_max_bytes c \<Longrightarrow>
     \<exists>c'. evict n c = Some c' \<and> cache_bounded c' \<and> \<not> no_room n c' \<and> set (mc_entries c') \<subseteq> set (mc_entries c) \<and>
       mc_max_entries c' = mc_max_entries c \<and> mc_max_bytes c' = mc_max_bytes c"
proof (induction n c rule: evict.induct)
  case (1 n c)
  show ?case
  proof (cases "no_room n c")
    case False
    then show ?thesis using 1 by (simp add: evict.simps)
  next
    case True
    then have ne: "mc_entries c \<noteq> []" using 1 by (auto simp: no_room_def cache_bounded_def)
    have "\<exists>c'. evict n (drop_last c) = Some c' \<and> cache_bounded c' \<and> \<not> no_room n c' \<and> set (mc_entries c') \<subseteq> set (mc_entries (drop_last c)) \<and>
        mc_max_entries c' = mc_max_entries (drop_last c) \<and> mc_max_bytes c' = mc_max_bytes (drop_last c)"
      using 1 True ne by (intro "1.IH") (simp_all add: drop_bounded, simp_all add: drop_last_def)
    then show ?thesis using True ne by (subst evict.simps) (auto simp: drop_last_def dest: in_set_butlastD)
  qed
qed

lemma put_bounded:
  assumes b: "cache_bounded c" and n: "0 \<le> kt_bytes e"
  shows "\<exists>c'. put_entry e c = Some c' \<and> cache_bounded c' \<and> set (mc_entries c') \<subseteq> insert e (set (mc_entries c)) \<and>
    mc_max_entries c' = mc_max_entries c \<and> mc_max_bytes c' = mc_max_bytes c"
proof -
  define c1 where "c1 = (case find_entry (entry_key e) c of None \<Rightarrow> c | Some old \<Rightarrow> remove_entry old c)"
  have c1: "cache_bounded c1" "set (mc_entries c1) \<subseteq> set (mc_entries c)" "entry_key e \<notin> entry_key ` set (mc_entries c1)"
    "mc_max_entries c1 = mc_max_entries c" "mc_max_bytes c1 = mc_max_bytes c"
  proof -
    show "cache_bounded c1" using b found_entry [of "entry_key e" c] by (auto simp: c1_def remove_bounded split: option.splits)
    show "set (mc_entries c1) \<subseteq> set (mc_entries c)" "mc_max_entries c1 = mc_max_entries c" "mc_max_bytes c1 = mc_max_bytes c"
      by (auto simp: c1_def remove_entry_def split: option.splits)
    show "entry_key e \<notin> entry_key ` set (mc_entries c1)"
    proof (cases "find_entry (entry_key e) c")
      case None
      then show ?thesis using missing_entry by (simp add: c1_def)
    next
      case (Some old)
      then have "entry_key old = entry_key e" using found_entry by blast
      then show ?thesis using Some by (auto simp: c1_def remove_entry_def)
    qed
  qed
  have put: "put_entry e c = (if mc_max_entries c1 \<le> 0 \<or> mc_max_bytes c1 \<le> 0 \<or> kt_bytes e > mc_max_bytes c1 then Some c1
      else (case evict (kt_bytes e) c1 of None \<Rightarrow> None
        | Some c \<Rightarrow> Some (c\<lparr>mc_entries := e # mc_entries c, mc_bytes := mc_bytes c + kt_bytes e\<rparr>)))"
    by (simp only: put_entry_def Let_def c1_def)
  show ?thesis
  proof (cases "mc_max_entries c1 \<le> 0 \<or> mc_max_bytes c1 \<le> 0 \<or> kt_bytes e > mc_max_bytes c1")
    case True
    then show ?thesis using put c1(1,2,4,5) by (intro exI [of _ c1]) auto
  next
    case False
    then obtain c2 where c2: "evict (kt_bytes e) c1 = Some c2" "cache_bounded c2" "\<not> no_room (kt_bytes e) c2"
      "set (mc_entries c2) \<subseteq> set (mc_entries c1)" "mc_max_entries c2 = mc_max_entries c1" "mc_max_bytes c2 = mc_max_bytes c1"
      using evict_bounded [OF c1(1), of "kt_bytes e"] by (metis not_le)
    define c3 where "c3 = c2\<lparr>mc_entries := e # mc_entries c2, mc_bytes := mc_bytes c2 + kt_bytes e\<rparr>"
    have "put_entry e c = Some c3" using False put c2(1) by (simp add: c3_def)
    moreover have "entry_key e \<notin> entry_key ` set (mc_entries c2)" using c1(3) c2(4) by auto
    then have "cache_bounded c3" using c2(2,3) n by (auto simp: cache_bounded_def no_room_def c3_def)
    moreover have "set (mc_entries c3) \<subseteq> insert e (set (mc_entries c))" "mc_max_entries c3 = mc_max_entries c" "mc_max_bytes c3 = mc_max_bytes c"
      using c1(2,4,5) c2(4,5,6) by (auto simp: c3_def)
    ultimately show ?thesis by blast
  qed
qed

lemma keep_bounded:
  assumes "cache_bounded c" "\<forall>e. entry = Some e \<longrightarrow> 0 \<le> kt_bytes e"
  shows "\<exists>c'. keep_entry entry c = Some c' \<and> cache_bounded c' \<and> set (mc_entries c') \<subseteq> set_option entry \<union> set (mc_entries c) \<and>
    mc_max_entries c' = mc_max_entries c \<and> mc_max_bytes c' = mc_max_bytes c"
  using assms put_bounded [OF assms(1)] by (cases entry) (fastforce simp: keep_entry_def)+

subsection \<open>The store of contracts, as an interface\<close>

text \<open>What the reader relies on: a payload is left out only when the request named the table and the version it has,
  and a version of a table stands for one payload.\<close>

locale contract_source =
  fixes read :: "string \<Rightarrow> string \<Rightarrow> string \<Rightarrow> string \<Rightarrow> published_contract res"
    and payload_of :: "string \<Rightarrow> string \<Rightarrow> string"
  assumes named: "read tenant object_type kt kv = Inr s \<Longrightarrow> pc_payload s = None \<Longrightarrow>
      pc_table s = nil_uuid \<or> pc_table s = kt \<and> pc_version s = kv"
    and fixed: "read tenant object_type kt kv = Inr s \<Longrightarrow> pc_payload s = Some x \<Longrightarrow> x = payload_of (pc_table s) (pc_version s)"
    and only_payload: "map_sum id (pc_payload_update (\<lambda>_. None)) (read tenant object_type kt kv)
      = map_sum id (pc_payload_update (\<lambda>_. None)) (read tenant object_type kt' kv')"
begin

text \<open>An entry is sound when it was made from some contract whose payload is the one of its version.\<close>

definition sound_entry :: "(string \<Rightarrow> table_text res) \<Rightarrow> contract_entry \<Rightarrow> bool" where
  "sound_entry decode e \<longleftrightarrow> (\<exists>s. pc_payload s = Some (payload_of (pc_table s) (pc_version s)) \<and>
     contract_answer decode None (kt_tenant e) (kt_type e) s = (Inr (kt_model e), Some e))"

lemma made_sound:
  assumes "contract_read decode read known tenant object_type = (answer, Some e)"
  shows "sound_entry decode e \<and> 0 \<le> kt_bytes e"
proof -
  obtain s where s: "read tenant object_type (known_table object_type known) (known_version known) = Inr s"
      "contract_answer decode known tenant object_type s = (answer, Some e)"
    using assms by (auto simp: contract_read_def split: sum.splits)
  then obtain x where x: "pc_payload s = Some x"
    by (auto simp: contract_answer_def Let_def split: if_splits option.splits)
  have "contract_answer decode None (kt_tenant e) (kt_type e) s = (Inr (kt_model e), Some e) \<and> 0 \<le> kt_bytes e"
    using s(2) x by (auto simp: contract_answer_def Let_def split: if_splits sum.splits)
  then show ?thesis using fixed [OF s(1) x] x by (auto simp: sound_entry_def)
qed

lemma sound_shape:
  assumes "sound_entry decode e"
  obtains t where "pm_tables (kt_model e) = [(kt_type e, t)]" "os_id t \<noteq> nil_uuid" "kt_etag e \<noteq> nil_uuid"
    "\<And>s. pc_table s = os_id t \<Longrightarrow> decoded_table decode (kt_type e) s (payload_of (os_id t) (kt_etag e)) = Inr t"
proof -
  from assms obtain s where s: "pc_payload s = Some (payload_of (pc_table s) (pc_version s))"
      "contract_answer decode None (kt_tenant e) (kt_type e) s = (Inr (kt_model e), Some e)" by (auto simp: sound_entry_def)
  then obtain t where d: "decoded_table decode (kt_type e) s (payload_of (pc_table s) (pc_version s)) = Inr t"
    by (auto simp: contract_answer_def Let_def split: if_splits sum.splits)
  have m: "(contract_model (kt_tenant e) s)\<lparr>pm_tables := [(kt_type e, t)]\<rparr> = kt_model e" "pc_table s \<noteq> nil_uuid" "pc_version s \<noteq> nil_uuid"
    using s d by (auto simp: contract_answer_def Let_def split: if_splits)
  have "kt_etag e = pc_version s"
    using s d by (cases e) (auto simp: contract_answer_def Let_def split: if_splits)
  then have t: "decoded_table decode (kt_type e) s (payload_of (pc_table s) (pc_version s)) = Inr t"
      "pm_tables (kt_model e) = [(kt_type e, t)]" "kt_etag e = pc_version s" "pc_table s \<noteq> nil_uuid" "pc_version s \<noteq> nil_uuid"
    using d m(2,3) arg_cong [OF m(1), of pm_tables] by simp_all
  then have "os_id t = pc_table s" by (auto simp: decoded_table_def split: sum.splits if_splits)
  then have "pc_table s' = os_id t \<Longrightarrow> decoded_table decode (kt_type e) s' (payload_of (os_id t) (kt_etag e)) = Inr t" for s'
    using t(1,3) by (simp only: decoded_table_def)
  then show thesis using that [of t] t(2-5) \<open>os_id t = pc_table s\<close> by simp
qed

text \<open>With or without a sound entry the answer is the same.\<close>

lemma answer_current:
  assumes e: "sound_entry decode e" "kt_type e = object_type"
  shows "fst (contract_read decode read (Some e) tenant object_type) = fst (contract_read decode read None tenant object_type)"
proof -
  from sound_shape [OF e(1)] e(2) obtain t where t: "pm_tables (kt_model e) = [(object_type, t)]" "os_id t \<noteq> nil_uuid"
    "kt_etag e \<noteq> nil_uuid" "\<And>s. pc_table s = os_id t \<Longrightarrow> decoded_table decode object_type s (payload_of (os_id t) (kt_etag e)) = Inr t"
    by metis
  let ?known = "read tenant object_type (os_id t) (kt_etag e)" and ?none = "read tenant object_type nil_uuid nil_uuid"
  have k: "known_table object_type (Some e) = os_id t" "known_version (Some e) = kt_etag e" by (simp_all add: known_table_def known_version_def table_id_in_def t(1))
  have n: "known_table object_type None = nil_uuid" "known_version None = nil_uuid" by (simp_all add: known_table_def known_version_def)
  show ?thesis
  proof (cases ?known)
    case (Inl x)
    then have "?none = Inl x" using only_payload [of tenant object_type "os_id t" "kt_etag e" nil_uuid nil_uuid] by (cases ?none) auto
    then show ?thesis using Inl by (simp add: contract_read_def k n)
  next
    case (Inr s)
    then obtain s' where s': "?none = Inr s'" "s\<lparr>pc_payload := None\<rparr> = s'\<lparr>pc_payload := None\<rparr>"
      using only_payload [of tenant object_type "os_id t" "kt_etag e" nil_uuid nil_uuid] by (cases ?none) auto
    then have same: "pc_tenant s' = pc_tenant s" "pc_table s' = pc_table s" "pc_name s' = pc_name s" "pc_schema s' = pc_schema s"
      "pc_status s' = pc_status s" "pc_version s' = pc_version s" by (cases s; cases s'; simp)+
    have m: "contract_model tenant s' = contract_model tenant s" by (simp add: contract_model_def same)
    have d: "decoded_table decode object_type s' x = decoded_table decode object_type s x" for x by (simp only: decoded_table_def same)
    have p: "pc_payload s = Some x \<Longrightarrow> x = payload_of (pc_table s) (pc_version s)" "pc_payload s' = Some y \<Longrightarrow> y = payload_of (pc_table s) (pc_version s)"
      "pc_payload s = None \<Longrightarrow> pc_table s = nil_uuid \<or> pc_table s = os_id t \<and> pc_version s = kt_etag e"
      "pc_payload s' = None \<Longrightarrow> pc_table s = nil_uuid \<or> pc_version s = nil_uuid" for x y
      using fixed [OF Inr] fixed [OF s'(1)] named [OF Inr] named [OF s'(1)] same by auto
    have "fst (contract_answer decode (Some e) tenant object_type s) = fst (contract_answer decode None tenant object_type s')"
    proof (cases "pc_tenant s \<noteq> tenant \<or> pc_table s = nil_uuid \<or> pc_name s \<noteq> object_type \<or> pc_version s = nil_uuid")
      case True
      then show ?thesis by (simp add: contract_answer_def Let_def same m) argo
    next
      case False
      then obtain y where y: "pc_payload s' = Some y" "y = payload_of (pc_table s) (pc_version s)" using p(2,4) by (cases "pc_payload s'") auto
      show ?thesis
      proof (cases "pc_payload s")
        case None
        then have "pc_table s = os_id t" "pc_version s = kt_etag e" using p(3) False by auto
        then show ?thesis using False None y t(1) t(4) [of s] by (simp add: contract_answer_def Let_def same m d k)
      next
        case (Some x)
        then have "x = y" using p(1) y(2) by simp
        then show ?thesis using False Some y(1) by (simp add: contract_answer_def Let_def same m d split: sum.split)
      qed
    qed
    then show ?thesis using Inr s'(1) by (simp add: contract_read_def k n)
  qed
qed

end

text \<open>The views as they would be if every version stood for its payload; with such views, the store keeps the laws.\<close>

definition published :: "(string \<Rightarrow> string \<Rightarrow> string) \<Rightarrow> contract_db \<Rightarrow> contract_db" where
  "published p db = db\<lparr>cd_rows := map (\<lambda>r. r\<lparr>ct_payload := p (ct_table r) (ct_version r)\<rparr>) (cd_rows db)\<rparr>"

definition versions_fix :: "(string \<Rightarrow> string \<Rightarrow> string) \<Rightarrow> contract_db \<Rightarrow> bool" where
  "versions_fix p db = list_all (\<lambda>r. ct_payload r = p (ct_table r) (ct_version r)) (cd_rows db)"

lemma published_id: "versions_fix p db \<Longrightarrow> published p db = db"
  unfolding published_def versions_fix_def by (cases db) (auto simp: list_all_iff intro!: map_idI)

interpretation views: contract_source "read_contract works (published p db)" p for works p db
proof
  fix tenant object_type kt kv s
  assume s: "read_contract works (published p db) tenant object_type kt kv = Inr s"
  then show "pc_payload s = None \<Longrightarrow> pc_table s = nil_uuid \<or> pc_table s = kt \<and> pc_version s = kv"
    by (auto simp: read_contract_def split: if_splits option.splits)
  fix x
  assume "pc_payload s = Some x"
  then show "x = p (pc_table s) (pc_version s)" using s
    by (auto simp: read_contract_def published_def find_Some_iff split: if_splits option.splits)
next
  fix tenant object_type kt kv kt' kv'
  show "map_sum id (pc_payload_update (\<lambda>_. None)) (read_contract works (published p db) tenant object_type kt kv)
    = map_sum id (pc_payload_update (\<lambda>_. None)) (read_contract works (published p db) tenant object_type kt' kv')"
    by (auto simp: read_contract_def split: option.splits)
qed

subsection \<open>Reachable caches\<close>

text \<open>What requests do to the cache, in any order and with the views as they are at the moment of each: a look-up, storing
  what a read of a request made, whatever entry that request had before, and forgetting a tenant.\<close>

inductive contract_move :: "(string \<Rightarrow> string \<Rightarrow> string) \<Rightarrow> (string \<Rightarrow> table_text res) \<Rightarrow> model_cache \<Rightarrow> model_cache \<Rightarrow> bool" for p decode where
  touch: "contract_move p decode c (snd (get_table tenant object_type c))"
| store: "versions_fix p db \<Longrightarrow> contract_read decode (read_contract works db) known tenant object_type = (answer, entry) \<Longrightarrow>
    keep_entry entry c = Some c' \<Longrightarrow> contract_move p decode c c'"
| forget: "contract_move p decode c (forget_entry tenant c)"

inductive_cases contract_moveE: "contract_move p decode c c'"

abbreviation contract_runs :: "(string \<Rightarrow> string \<Rightarrow> string) \<Rightarrow> (string \<Rightarrow> table_text res) \<Rightarrow> model_cache \<Rightarrow> model_cache \<Rightarrow> bool" where
  "contract_runs p decode \<equiv> (contract_move p decode)\<^sup>*\<^sup>*"

definition sound_cache :: "(string \<Rightarrow> string \<Rightarrow> string) \<Rightarrow> (string \<Rightarrow> table_text res) \<Rightarrow> int \<Rightarrow> int \<Rightarrow> model_cache \<Rightarrow> bool" where
  "sound_cache p decode a b c \<longleftrightarrow> cache_bounded c \<and> mc_max_entries c = a \<and> mc_max_bytes c = b \<and>
     (\<forall>e \<in> set (mc_entries c). views.sound_entry p decode e)"

lemma made_entry:
  assumes "versions_fix p db" "contract_read decode (read_contract works db) known tenant object_type = (answer, Some e)"
  shows "views.sound_entry p decode e \<and> 0 \<le> kt_bytes e"
  using views.made_sound [of decode works p db known tenant object_type answer e] assms by (simp add: published_id)

lemma sound_kept: "contract_move p decode c c' \<Longrightarrow> sound_cache p decode a b c \<Longrightarrow> sound_cache p decode a b c'"
proof (induction rule: contract_move.induct)
  case (touch c tenant object_type)
  moreover have "set (mc_entries (snd (get_table tenant object_type c))) \<subseteq> set (mc_entries c)"
    using found_entry by (fastforce simp: get_table_def split: option.splits)
  ultimately show ?case using touch_bounded [of c tenant object_type]
    by (auto simp: sound_cache_def get_table_def split: option.splits)
next
  case (store db works known tenant object_type answer entry c c')
  then have e: "\<forall>e. entry = Some e \<longrightarrow> views.sound_entry p decode e \<and> 0 \<le> kt_bytes e" using made_entry by blast
  from store have "cache_bounded c" by (simp add: sound_cache_def)
  with keep_bounded [OF this, of entry] e store.hyps obtain c2 where "keep_entry entry c = Some c2" "cache_bounded c2"
    "set (mc_entries c2) \<subseteq> set_option entry \<union> set (mc_entries c)" "mc_max_entries c2 = mc_max_entries c" "mc_max_bytes c2 = mc_max_bytes c" by blast
  then show ?case using store e by (auto simp: sound_cache_def)
next
  case (forget c tenant)
  then show ?case using found_entry [of "(tenant, [])" c]
    by (cases "find_entry (tenant, []) c") (auto simp: sound_cache_def forget_entry_def remove_bounded, auto simp: remove_entry_def)
qed

lemma runs_sound: "contract_runs p decode (new_model_cache a b) c \<Longrightarrow> sound_cache p decode a b c"
  by (induction rule: rtranclp_induct) (simp add: sound_cache_def cache_bounded_def new_model_cache_def, blast intro: sound_kept)

lemma contract_current:
  assumes "contract_runs p decode (new_model_cache a b) c" "versions_fix p db"
  shows "fst (contract_read decode (read_contract works db) (fst (get_table tenant object_type c)) tenant object_type)
    = fst (contract_read decode (read_contract works db) None tenant object_type)"
proof (cases "find_entry (tenant, object_type) c")
  case None
  then show ?thesis by (simp add: get_table_def)
next
  case (Some e)
  then have "views.sound_entry p decode e" "kt_type e = object_type"
    using found_entry [OF Some] runs_sound [OF assms(1)] by (auto simp: sound_cache_def entry_key_def)
  then show ?thesis using views.answer_current [of p decode e object_type works db tenant] assms(2) Some
    by (simp add: published_id get_table_def)
qed

lemma contract_cache_bounded:
  assumes "contract_runs p decode (new_model_cache a b) c"
  shows "int (length (mc_entries c)) \<le> max 0 a \<and> mc_bytes c = sum_list (map kt_bytes (mc_entries c)) \<and> mc_bytes c \<le> max 0 b \<and>
    distinct (map entry_key (mc_entries c)) \<and>
    (versions_fix p db \<longrightarrow> snd (get_published_table decode (read_contract works db) tenant object_type c) \<noteq> None)"
proof -
  have s: "sound_cache p decode a b c" by (rule runs_sound [OF assms])
  have "snd (get_published_table decode (read_contract works db) tenant object_type c) \<noteq> None" if f: "versions_fix p db"
  proof -
    obtain known c1 answer entry where g: "get_table tenant object_type c = (known, c1)"
      "contract_read decode (read_contract works db) known tenant object_type = (answer, entry)" by fastforce
    have "cache_bounded c1" using touch_bounded [of c tenant object_type] s g(1) by (simp add: sound_cache_def)
    moreover have "\<forall>e. entry = Some e \<longrightarrow> 0 \<le> kt_bytes e" using made_entry [OF f] g(2) by blast
    ultimately show ?thesis using keep_bounded [of c1 entry] g by (auto simp: get_published_table_def)
  qed
  moreover have "mc_max_entries c = a" "mc_max_bytes c = b" "cache_bounded c" using s by (simp_all add: sound_cache_def)
  ultimately show ?thesis by (auto simp: cache_bounded_def)
qed

text \<open>A tenant that is no longer active cannot be written, whatever the cache holds.\<close>

lemma suspended_refused:
  assumes "contract_runs p decode (new_model_cache a b) c" "versions_fix p db"
    and "list_all (\<lambda>r. ct_tenant r = tenant \<longrightarrow> ct_status r \<noteq> ''active'') (cd_rows db)"
    and "map_of (cd_tenants db) tenant = Some (schema, status)" "status \<noteq> ''active''"
    and env: "\<And>object_type. ie_model env tenant object_type = fst (get_published_table decode (read_contract works db) tenant object_type c)"
  shows "(\<exists>e. ingest env tenant object_type mode payload key w = (Inl e, w)) \<and>
    (\<exists>e. batch_ingest env tenant object_type mode records key w = (Inl e, w))"
proof -
  have "ie_model env tenant object_type = fst (contract_read decode (read_contract works db) None tenant object_type)"
    using contract_current [OF assms(1,2), of works tenant object_type]
    by (cases "get_table tenant object_type c") (auto simp: env get_published_table_def split: prod.split)
  moreover have "ct_status r \<noteq> ''active''" if "find (\<lambda>r. ct_tenant r = tenant \<and> ct_name r = object_type) (cd_rows db) = Some r" for r
    using that assms(3) by (auto simp: find_Some_iff list_all_length)
  ultimately have "\<exists>e. writable_model env tenant object_type = Inl e" using assms(4,5)
    by (cases "find (\<lambda>r. ct_tenant r = tenant \<and> ct_name r = object_type) (cd_rows db)")
      (auto simp: writable_model_def contract_read_def read_contract_def contract_answer_def contract_model_def Let_def split: if_splits sum.splits)
  then show ?thesis by (auto simp: ingest_def batch_ingest_def)
qed

subsection \<open>Examples\<close>

definition shop_payload_of :: "string \<Rightarrow> string \<Rightarrow> string" where
  "shop_payload_of table version = ''{}''"

definition shop_decode :: "string \<Rightarrow> table_text res" where
  "shop_decode payload = Inr \<lparr>dtt_id = ''t1'', dtt_name = ''transactions'', dtt_archived = False, dtt_fields = Some (os_fields shop_table)\<rparr>"

definition shop_db :: "string \<Rightarrow> contract_db" where
  "shop_db status = \<lparr>cd_rows = [\<lparr>ct_tenant = ''4b-2'', ct_table = ''t1'', ct_name = ''transactions'', ct_schema = ''s'', ct_status = status,
     ct_version = ''v1'', ct_payload = ''{}''\<rparr>], cd_tenants = [(''4b-2'', ''s'', status)]\<rparr>"

definition shop_cache :: model_cache where
  "shop_cache = the (snd (get_published_table shop_decode (read_contract True (shop_db ''active'')) ''4b-2'' ''transactions'' (new_model_cache 2 100)))"

lemma shop_versions: "versions_fix shop_payload_of (shop_db status)"
  by (simp add: versions_fix_def shop_db_def shop_payload_of_def)

lemma shop_cached: "contract_runs shop_payload_of shop_decode (new_model_cache 2 100) shop_cache"
proof (rule r_into_rtranclp, rule contract_move.store [OF shop_versions])
  show "contract_read shop_decode (read_contract True (shop_db ''active'')) None ''4b-2'' ''transactions'' =
      (fst (contract_read shop_decode (read_contract True (shop_db ''active'')) None ''4b-2'' ''transactions''),
       snd (contract_read shop_decode (read_contract True (shop_db ''active'')) None ''4b-2'' ''transactions''))" by simp
  show "keep_entry (snd (contract_read shop_decode (read_contract True (shop_db ''active'')) None ''4b-2'' ''transactions'')) (new_model_cache 2 100) = Some shop_cache"
    by code_simp
qed

lemma contract_current_witness:
  "fst (contract_read shop_decode (read_contract True (shop_db ''suspended'')) (fst (get_table ''4b-2'' ''transactions'' shop_cache)) ''4b-2'' ''transactions'')
    = fst (contract_read shop_decode (read_contract True (shop_db ''suspended'')) None ''4b-2'' ''transactions'') \<and>
   fst (get_table ''4b-2'' ''transactions'' shop_cache) \<noteq> None"
proof -
  have "fst (get_table ''4b-2'' ''transactions'' shop_cache) \<noteq> None" by code_simp
  then show ?thesis using contract_current [OF shop_cached shop_versions] by blast
qed

lemma contract_cache_bounded_witness:
  "length (mc_entries shop_cache) = 1 \<and> int (length (mc_entries shop_cache)) \<le> max 0 2 \<and> mc_bytes shop_cache \<le> max 0 100"
proof -
  have "length (mc_entries shop_cache) = 1" by code_simp
  then show ?thesis using contract_cache_bounded [OF shop_cached] by blast
qed

definition suspended_env :: ingest_env where
  "suspended_env = shop_env\<lparr>ie_model := (\<lambda>tenant object_type.
     fst (get_published_table shop_decode (read_contract True (shop_db ''suspended'')) tenant object_type shop_cache))\<rparr>"

lemma suspended_refused_witness:
  "\<exists>e. ingest suspended_env ''4b-2'' ''transactions'' ''create'' shop_payload None empty_ingest = (Inl e, empty_ingest)"
proof -
  have "list_all (\<lambda>r. ct_tenant r = ''4b-2'' \<longrightarrow> ct_status r \<noteq> ''active'') (cd_rows (shop_db ''suspended''))"
    "map_of (cd_tenants (shop_db ''suspended'')) ''4b-2'' = Some (''s'', ''suspended'')" "''suspended'' \<noteq> ''active''"
    by (simp_all add: shop_db_def)
  moreover have "ie_model suspended_env ''4b-2'' object_type =
      fst (get_published_table shop_decode (read_contract True (shop_db ''suspended'')) ''4b-2'' object_type shop_cache)" for object_type
    by (simp add: suspended_env_def)
  ultimately show ?thesis using suspended_refused [OF shop_cached shop_versions] by blast
qed

end
