(* ===== verification/Ingest_Laws.thy ===== *)
theory Ingest_Laws
  imports Ingest_Service
begin

text \<open>
  What the ingestion service promises over every history of calls and of its workers: a request that repeats a key
  is answered from the first one, every success is audited and announced once, a batch is written whole or not at
  all, and what was written is what is read. A predicate on the store that the statements keep is kept by the calls:
  the locale \<open>ingest_frame\<close>.
\<close>

subsection \<open>Successful runs\<close>

definition ends :: "('w \<Rightarrow> bool) \<Rightarrow> ('w, 'e, 'a) step \<Rightarrow> bool" where
  "ends I m = (\<forall>w x w'. I w \<longrightarrow> m w = (Inr x, w') \<longrightarrow> I w')"

lemma endsD: "ends I m \<Longrightarrow> I w \<Longrightarrow> m w = (Inr x, w') \<Longrightarrow> I w'"
  by (auto simp: ends_def)

lemma endsI: "(\<And>w x w'. I w \<Longrightarrow> m w = (Inr x, w') \<Longrightarrow> I w') \<Longrightarrow> ends I m"
  by (simp add: ends_def)

lemma ends_then_do:
  assumes "ends I m" "\<And>x. ends I (k x)"
  shows "ends I (then_do m k)"
proof (rule endsI)
  fix w y w'
  assume w: "I w" "then_do m k w = (Inr y, w')"
  then obtain x w1 where "m w = (Inr x, w1)" "k x w1 = (Inr y, w')" by (auto simp: then_do_Inr)
  then show "I w'" using w(1) endsD [OF assms(1)] endsD [OF assms(2)] by blast
qed

lemma ends_finish: "ends I (finish_with x)"
  by (simp add: ends_def step_simps)

lemma ends_answer: "ends I (\<lambda>w. (r, w))"
  by (simp add: ends_def)

lemma keeps_ends: "keeps I m \<Longrightarrow> ends I m"
  by (auto simp: ends_def keeps_def)

lemma ends_transaction: "ends I m \<Longrightarrow> keeps I (transaction works m)"
  by (rule transaction_keeps) (auto simp: ends_def)

lemma keeps_answer: "keeps I (\<lambda>w. (r, w))"
  by (simp add: keeps_def)

lemma keeps_snd: "keeps I m \<Longrightarrow> I w \<Longrightarrow> I (snd (m w))"
  by (simp add: keeps_def)

lemma keeps_answered:
  assumes "keeps I m" "\<And>e. keeps I (f e)" "\<And>es. keeps I (g es)" "\<And>rs. keeps I (h rs)"
  shows "keeps I (\<lambda>w. case m w of (Inl e, w') \<Rightarrow> f e w' | (Inr (Inl es), w') \<Rightarrow> g es w' | (Inr (Inr rs), w') \<Rightarrow> h rs w')"
proof (rule keepsI)
  fix w r w'
  assume w: "I w" and e: "(case m w of (Inl e, w') \<Rightarrow> f e w' | (Inr (Inl es), w') \<Rightarrow> g es w' | (Inr (Inr rs), w') \<Rightarrow> h rs w') = (r, w')"
  obtain x w1 where m: "m w = (x, w1)" by (cases "m w")
  have w1: "I w1" by (rule keepsD [OF assms(1) w m])
  show "I w'"
  proof (cases x)
    case (Inl a)
    then show ?thesis using e m keepsD [OF assms(2) w1] by auto
  next
    case (Inr y)
    then show ?thesis using e m keepsD [OF assms(3) w1] keepsD [OF assms(4) w1] by (cases y) auto
  qed
qed

subsection \<open>Predicates the statements keep\<close>

definition succeeded :: "audit \<Rightarrow> bool" where
  "succeeded a = (au_status a = ''succeeded'')"

definition of_record :: "ingest_event \<Rightarrow> bool" where
  "of_record e = (ev_type e \<in> set [''record.ingested'', ''record.updated''])"

definition announces :: "ingest_event \<Rightarrow> audit \<Rightarrow> bool" where
  "announces e a = (ev_tenant e = au_tenant a \<and> ev_aggregate_type e = au_type a \<and> ev_aggregate e = au_object a \<and> ev_created e = au_created a)"

locale ingest_frame =
  fixes I :: "ingest_store \<Rightarrow> bool"
  assumes update: "I w \<Longrightarrow> patch_record env t lookup i rec now w = (Inr (), w') \<Longrightarrow> I w'"
    and insert: "I w \<Longrightarrow> insert_record env t lookup i rec now w = (Inr (), w') \<Longrightarrow> I w'"
    and draw: "I w \<Longrightarrow> I (w\<lparr>in_drawn := n\<rparr>)"
    and refuse: "I w \<Longrightarrow> \<not> succeeded a \<Longrightarrow> I (w\<lparr>in_audits := in_audits w @ [a]\<rparr>)"
    and accept: "I w \<Longrightarrow> succeeded a \<Longrightarrow> of_record e \<Longrightarrow> announces e a \<Longrightarrow>
      I (w\<lparr>in_audits := in_audits w @ [a], in_events := in_events w @ [e]\<rparr>)"
    and announce: "I w \<Longrightarrow> \<not> of_record e \<Longrightarrow> I (w\<lparr>in_events := in_events w @ [e]\<rparr>)"
    and know: "I w \<Longrightarrow> create_key env k w = (Inr (), w') \<Longrightarrow> I w'"
begin

lemma draws: "ends I (draw_id env)"
  by (auto simp: ends_def draw_id_def draw)

lemma patch_stuck: "patch_record env t lookup i rec now w = (Inl e, w') \<Longrightarrow> w' = w"
  by (auto simp: patch_record_def split: if_splits)

lemma insert_stuck: "insert_record env t lookup i rec now w = (Inl e, w') \<Longrightarrow> w' = w"
  by (auto simp: insert_record_def split: if_splits)

lemma insert_or_updates: "ends I (insert_or_update env t lookup i rec now)"
proof (rule endsI)
  fix w x w'
  assume w: "I w" "insert_or_update env t lookup i rec now w = (Inr x, w')"
  obtain r w1 where ins: "insert_record env t lookup i rec now w = (r, w1)" by (cases "insert_record env t lookup i rec now w")
  show "I w'"
  proof (cases r)
    case (Inl e)
    then have "w1 = w" using ins insert_stuck by blast
    then have "patch_record env t lookup i rec now w = (Inr (), w')"
      using w(2) ins Inl by (auto simp: insert_or_update_def then_do_Inr finish_with_simps split: if_splits)
    then show ?thesis using update w(1) by blast
  next
    case (Inr u)
    then show ?thesis using w ins insert by (auto simp: insert_or_update_def)
  qed
qed

lemma upserts: "ends I (upsert_record env m object_type rec mode now)"
proof (rule endsI)
  fix w x w'
  assume w: "I w" "upsert_record env m object_type rec mode now w = (Inr x, w')"
  then obtain table where table: "map_of (pm_tables m) object_type = Some table"
    by (auto simp: upsert_record_def split: option.splits)
  define t where "t = (schema_name m, os_name table)"
  define i where "i = record_id m rec"
  note iu = endsD [OF insert_or_updates [of env t "pm_lookup m" i rec now] w(1)]
  show "I w'"
  proof (cases "mode = ''patch''")
    case True
    obtain r w1 where up: "patch_record env t (pm_lookup m) i rec now w = (r, w1)"
      by (cases "patch_record env t (pm_lookup m) i rec now w")
    show ?thesis
    proof (cases r)
      case (Inl e)
      then have "w1 = w" using up patch_stuck by blast
      then show ?thesis using w table True up Inl iu by (auto simp: upsert_record_def t_def i_def split: if_splits)
    next
      case (Inr u)
      then show ?thesis using w table True up update by (auto simp: upsert_record_def t_def i_def)
    qed
  next
    case False
    then show ?thesis using w table iu by (auto simp: upsert_record_def t_def i_def)
  qed
qed

lemma recorded: "succeeded a \<Longrightarrow> of_record e \<Longrightarrow> announces e a \<Longrightarrow> ends I (record_ingestion env a e)"
  using accept by (auto simp: ends_def record_ingestion_def create_audit_def create_event_def step_simps split: if_splits)

lemma written: "ends I (write_record env tenant object_type mode m key r)"
  unfolding write_record_def
  by (intro ends_then_do upserts draws recorded ends_finish)
    (auto simp: succeeded_def audit_of_def of_record_def event_type_def announces_def)

lemma writes: "ends I (write_records env tenant object_type mode m key rs)"
  by (induction rs) (auto intro!: ends_then_do written ends_finish)

lemma batches: "ends I (write_batch env tenant object_type mode m key rs)"
proof -
  have "ends I (create_event env e)" if "\<not> of_record e" for e
    using announce that by (auto simp: ends_def create_event_def split: if_splits)
  then show ?thesis unfolding write_batch_def batch_event_def
    by (intro ends_then_do writes draws ends_finish) (auto simp: of_record_def)
qed

lemma refused: "ends I (audit_refused env tenant object_type mode m payload i es key)"
proof -
  have "ends I (create_audit env a)" if "\<not> succeeded a" for a
    using refuse that by (auto simp: ends_def create_audit_def split: if_splits)
  then show ?thesis unfolding audit_refused_def
    by (intro ends_then_do draws) (auto simp: succeeded_def audit_of_def)
qed

lemma refused_batch: "ends I (audit_batch env tenant object_type mode m es key rs)"
  by (induction rs) (auto intro!: ends_then_do refused ends_finish simp: Let_def)

lemma once: "ends I write \<Longrightarrow> ends I (once_per_key env tenant key hash kind write)"
proof -
  assume w: "ends I write"
  have r: "ends I (remember env tenant key hash kind rs)" for rs
    using know by (cases key) (auto simp: remember_def ends_finish intro!: ends_then_do, auto simp: ends_def)
  have k: "ends I (case key of None \<Rightarrow> finish_with None | Some k \<Rightarrow> get_key env tenant k)"
    by (cases key) (auto simp: ends_def step_simps get_key_def split: if_splits)
  show ?thesis unfolding once_per_key_def
    by (intro ends_then_do k) (auto simp: w r split: option.split intro!: ends_then_do ends_answer)
qed

lemma ingests: "keeps I (ingest env tenant object_type mode payload key)"
proof (rule keepsI)
  fix w r w'
  assume w: "I w" "ingest env tenant object_type mode payload key w = (r, w')"
  have a: "keeps I (transaction (ie_works env) (audit_refused env tenant object_type mode m payload i es key))" for m i es
    by (rule ends_transaction [OF refused])
  have b: "keeps I (transaction (ie_works env) (once_per_key env tenant key hash ''single''
      (then_do (write_record env tenant object_type mode m key x) (\<lambda>r. finish_with [r]))))" for m hash x
    by (intro ends_transaction once ends_then_do written ends_finish)
  have c: "keeps I (then_do (transaction (ie_works env) (once_per_key env tenant key hash ''single''
      (then_do (write_record env tenant object_type mode m key x) (\<lambda>r. finish_with [r])))) (\<lambda>rs. finish_with (Inr rs)))" for m hash x
    by (intro keeps_then_do b keeps_finish)
  show "I w'" using w keepsD [OF c] keeps_snd [OF a]
    by (auto simp: ingest_def Let_def split: sum.splits prod.splits if_splits)
qed

lemma ingests_batch: "keeps I (batch_ingest env tenant object_type mode records key)"
proof (rule keepsI)
  fix w r w'
  assume w: "I w" "batch_ingest env tenant object_type mode records key w = (r, w')"
  have a: "keeps I (transaction (ie_works env) (audit_batch env tenant object_type mode m es key records))" for m es
    by (rule ends_transaction [OF refused_batch])
  have c: "keeps I (then_do (transaction (ie_works env) (once_per_key env tenant key hash ''batch''
      (write_batch env tenant object_type mode m key x))) (\<lambda>rs. finish_with (Inr rs)))" for m hash x
    by (intro keeps_then_do ends_transaction once batches keeps_finish)
  show "I w'" using w keepsD [OF c] keeps_snd [OF a]
    by (auto simp: batch_ingest_def Let_def split: sum.splits prod.splits if_splits)
qed

end

text \<open>Predicates that do not look at uploads, deferred ingests and jobs are kept by the workers too.\<close>

locale ingest_system_frame = ingest_frame +
  assumes side: "I w \<Longrightarrow> I (w\<lparr>in_uploads := us\<rparr>)" "I w \<Longrightarrow> I (w\<lparr>in_deferred := ds\<rparr>)"
    "I w \<Longrightarrow> I (w\<lparr>in_jobs := js\<rparr>)" "I w \<Longrightarrow> I (w\<lparr>in_finished := fs\<rparr>)"
begin

lemma drawn: "keeps I (draw_id env)"
  by (simp add: keeps_def draw_id_def draw)

lemma enqueued: "keeps I (enqueue_ingest env j)"
  by (simp add: keeps_def enqueue_ingest_def side)

lemma created: "keeps I (create_deferred env d)" "keeps I (create_upload env u)"
  by (simp_all add: keeps_def create_deferred_def create_upload_def side)

lemma updated: "keeps I (update_deferred env d)" "keeps I (update_upload env u)"
  by (simp_all add: update_deferred_def update_upload_def keeps_attempt change_deferred_def change_upload_def side)

lemma started: "keeps I (start_deferred env i now)" "keeps I (start_upload env i now)"
  by (auto simp: keeps_def start_deferred_def start_upload_def change_deferred_def change_upload_def side Let_def split: option.split)

lemma retried: "keeps I (retry_deferred env d e)" "keeps I (retry_upload env u e)"
  unfolding retry_deferred_def retry_upload_def
  by (auto intro!: keeps_transaction keeps_then_do updated enqueued)

lemma deferred: "keeps I (defer_ingest env tenant object_type mode payload key)"
  unfolding defer_ingest_def Let_def
  by (intro keeps_then_do keeps_transaction drawn created enqueued keeps_finish)

lemma uploaded: "keeps I (create_upload_log env tenant object_type mode filename content_type payload)"
  unfolding create_upload_log_def Let_def
  by (intro keeps_then_do keeps_transaction drawn created enqueued keeps_finish)

lemma ran_deferred: "keeps I (run_deferred env i)"
  unfolding run_deferred_def
  by (intro keeps_then_do started) (auto split: sum.split intro!: retried keeps_answered ingests updated)

lemma ran_upload: "keeps I (run_upload env i)"
  unfolding run_upload_def Let_def
  by (intro keeps_then_do started) (auto split: sum.split intro!: retried keeps_answered ingests_batch updated)

lemma worked: "I w \<Longrightarrow> I (work_ingest_job env j again w)"
proof -
  assume w: "I w"
  obtain r w' where r: "run_job env j w = (r, w')" by (cases "run_job env j w")
  have "keeps I (run_job env j)"
    by (cases j) (simp_all add: run_job_def ran_deferred ran_upload)
  then have "I w'" using w r by (rule keepsD)
  then show ?thesis using r by (auto simp: work_ingest_job_def finish_job_def side split: sum.split)
qed

end

subsection \<open>Histories\<close>

text \<open>Calls of the API and runs of the worker, whose enqueuers do nothing (\<^verbatim>\<open>cmd/worker/main.go\<close>).\<close>

inductive ingest_move :: "ingest_store \<Rightarrow> ingest_store \<Rightarrow> bool" where
  move_ingest: "ingest_move w (snd (ingest env tenant object_type mode payload key w))"
| move_batch: "ingest_move w (snd (batch_ingest env tenant object_type mode records key w))"
| move_defer: "ingest_move w (snd (defer_ingest env tenant object_type mode payload key w))"
| move_upload: "ingest_move w (snd (create_upload_log env tenant object_type mode filename content_type body w))"
| move_work: "j \<in> set (in_jobs w) \<Longrightarrow> \<not> ie_enqueues env \<Longrightarrow> ingest_move w (work_ingest_job env j again w)"

abbreviation ingest_runs :: "ingest_store \<Rightarrow> ingest_store \<Rightarrow> bool" where
  "ingest_runs \<equiv> ingest_move\<^sup>*\<^sup>*"

context ingest_system_frame
begin

lemma moved: "ingest_move w w' \<Longrightarrow> I w \<Longrightarrow> I w'"
  by (erule ingest_move.cases)
    (auto intro: keeps_snd [OF ingests] keeps_snd [OF ingests_batch] keeps_snd [OF deferred] keeps_snd [OF uploaded] worked)

lemma ran: "ingest_runs w w' \<Longrightarrow> I w \<Longrightarrow> I w'"
  by (induction rule: rtranclp_induct) (auto intro: moved)

end

subsection \<open>Keys\<close>

text \<open>A key that is stored stays as it is.\<close>

definition key_stored :: "idempotency_key \<Rightarrow> ingest_store \<Rightarrow> bool" where
  "key_stored k w = (find (\<lambda>x. ik_tenant x = ik_tenant k \<and> ik_key x = ik_key k) (in_keys w) = Some k)"

lemma find_append_Some: "find P xs = Some x \<Longrightarrow> find P (xs @ ys) = Some x"
  by (induction xs) (auto split: if_splits)

lemma table_fields [simp]:
  "in_keys (set_table_rows t rs w) = in_keys w" "in_audits (set_table_rows t rs w) = in_audits w"
  "in_events (set_table_rows t rs w) = in_events w" "in_deferred (set_table_rows t rs w) = in_deferred w"
  "in_jobs (set_table_rows t rs w) = in_jobs w" "in_uploads (set_table_rows t rs w) = in_uploads w"
  by (simp_all add: set_table_rows_def)

lemma patch_keeps: "patch_record env t lookup i rec now w = (Inr (), w') \<Longrightarrow>
    \<exists>rs. w' = set_table_rows t rs w"
  by (auto simp: patch_record_def split: if_splits)

lemma insert_keeps: "insert_record env t lookup i rec now w = (Inr (), w') \<Longrightarrow>
    \<exists>rs n. w' = set_table_rows t rs w\<lparr>in_drawn := n\<rparr>"
  by (auto simp: insert_record_def split: if_splits)

interpretation stored: ingest_system_frame "key_stored k" for k
  by unfold_locales
    (auto simp: key_stored_def create_key_def find_append_Some dest!: patch_keeps insert_keeps split: if_splits)

subsection \<open>Audits and events\<close>

definition audit_ref :: "audit \<Rightarrow> string \<times> string \<times> string \<times> int" where
  "audit_ref a = (au_tenant a, au_type a, au_object a, au_created a)"

definition event_ref :: "ingest_event \<Rightarrow> string \<times> string \<times> string \<times> int" where
  "event_ref e = (ev_tenant e, ev_aggregate_type e, ev_aggregate e, ev_created e)"

definition audited :: "ingest_store \<Rightarrow> bool" where
  "audited w = (map audit_ref (filter succeeded (in_audits w)) = map event_ref (filter of_record (in_events w)))"

interpretation audited: ingest_system_frame audited
  by unfold_locales
    (auto simp: audited_def create_key_def announces_def audit_ref_def event_ref_def dest!: patch_keeps insert_keeps split: if_splits)

text \<open>C37. In every state that ingests, batches, deferred ingests, uploads and their jobs
  can reach, with failures anywhere, the successful audits and the events of records correspond
  one to one, in order, in tenant, type, object and time.\<close>

theorem audits_announced:
  assumes "ingest_runs empty_ingest w"
  shows "map audit_ref (filter succeeded (in_audits w)) = map event_ref (filter of_record (in_events w))"
  using audited.ran [OF assms] by (simp add: audited_def empty_ingest_def)

subsection \<open>A request that repeats a key\<close>

text \<open>The hash under which a request is remembered.\<close>

definition request_hash :: "ingest_env \<Rightarrow> string \<Rightarrow> string \<Rightarrow> string \<Rightarrow> field_map \<Rightarrow> string res" where
  "request_hash env tenant object_type mode payload =
     bind_r (writable_model env tenant object_type) (\<lambda>m.
       (let (rec, object_id, es) = validate_record m object_type payload mode
        in if es \<noteq> [] then Inl ''refused'' else hash_request env (VObj rec)))"

definition replayed :: "record_result list \<Rightarrow> record_result list" where
  "replayed rs = map (\<lambda>r. r\<lparr>rr_replayed := True\<rparr>) rs"

lemma replayed_twice [simp]: "replayed (replayed rs) = replayed rs"
  by (simp add: replayed_def)

lemma ingest_hashed:
  "request_hash env tenant object_type mode payload = Inr hash \<Longrightarrow>
     \<exists>m rec i. ingest env tenant object_type mode payload key w =
       then_do (transaction (ie_works env) (once_per_key env tenant key hash ''single''
         (then_do (write_record env tenant object_type mode m key (rec, i)) (\<lambda>r. finish_with [r])))) (\<lambda>rs. finish_with (Inr rs)) w"
proof -
  assume h: "request_hash env tenant object_type mode payload = Inr hash"
  then obtain m where m: "writable_model env tenant object_type = Inr m" by (auto simp: request_hash_def result_simps)
  obtain rec i es where v: "validate_record m object_type payload mode = (rec, i, es)" by (metis prod_cases3)
  have "es = []" "hash_request env (VObj rec) = Inr hash" using h m v by (auto simp: request_hash_def split: if_splits)
  then show ?thesis using m v by (intro exI [of _ m] exI [of _ rec] exI [of _ i]) (simp add: ingest_def)
qed

lemma ingest_hash_known:
  "ingest env tenant object_type mode payload key w = (Inr (Inr rs), w') \<Longrightarrow>
     \<exists>hash. request_hash env tenant object_type mode payload = Inr hash"
  by (auto simp: request_hash_def ingest_def Let_def split: sum.splits prod.splits if_splits)

lemma key_found: "find (\<lambda>x. ik_tenant x = tenant \<and> ik_key x = key) ks = Some k \<Longrightarrow> ik_tenant k = tenant \<and> ik_key k = key"
  by (induction ks) (auto split: if_splits)

lemma find_append_None: "find P xs = None \<Longrightarrow> find P (xs @ ys) = find P ys"
  by (induction xs) (auto split: if_splits)

lemma find_None_ex: "\<not> list_ex P xs \<Longrightarrow> find P xs = None"
  by (induction xs) auto

text \<open>After a success the key is stored with the results.\<close>

lemma remembered:
  assumes "once_per_key env tenant (Some key) hash kind body w = (Inr rs, w')"
  shows "\<exists>k. key_stored k w' \<and> ik_tenant k = tenant \<and> ik_key k = key \<and> ik_hash k = hash \<and> ik_kind k = kind \<and>
    replayed (ik_results k) = replayed rs"
proof -
  obtain known where g: "get_key env tenant key w = (Inr known, w)"
    using assms by (auto simp: once_per_key_def step_simps get_key_def split: if_splits)
  then have known: "known = find (\<lambda>k. ik_tenant k = tenant \<and> ik_key k = key) (in_keys w)"
    by (auto simp: get_key_def split: if_splits)
  show ?thesis
  proof (cases known)
    case (Some k)
    then have "replay hash kind k = Inr rs" "w' = w" using assms g by (auto simp: once_per_key_def step_simps)
    moreover have "ik_tenant k = tenant" "ik_key k = key" using key_found known Some by metis+
    moreover from calculation have "key_stored k w" using known Some by (simp add: key_stored_def)
    ultimately show ?thesis by (auto simp: replay_def replayed_def split: if_splits)
  next
    case None
    let ?k = "\<lparr>ik_tenant = tenant, ik_key = key, ik_hash = hash, ik_kind = kind, ik_results = rs, ik_created = ie_clock env\<rparr>"
    obtain w1 where "create_key env ?k w1 = (Inr (), w')"
      using assms g None by (auto simp: once_per_key_def remember_def step_simps)
    then have "key_stored ?k w'"
      by (auto simp: create_key_def key_stored_def find_append_None find_None_ex split: if_splits)
    then show ?thesis by (intro exI [of _ ?k]) simp
  qed
qed

text \<open>C36. Once a record was ingested under a key, a request with the same key and the same
  hash, whatever happened in between, writes nothing and answers with the first results marked as
  replayed, even when it names another object type or mode.\<close>

theorem replay_exact:
  assumes first: "ingest env tenant object_type mode payload (Some key) w = (Inr (Inr rs), w1)"
    and later: "ingest_runs w1 w2"
    and same: "request_hash env' tenant object_type' mode' payload' = request_hash env tenant object_type mode payload"
    and works: "ie_works env' ''key get''" "ie_works env' ''commit''"
  shows "ingest env' tenant object_type' mode' payload' (Some key) w2 = (Inr (Inr (replayed rs)), w2)"
proof -
  obtain hash where hash: "request_hash env tenant object_type mode payload = Inr hash"
    using ingest_hash_known [OF first] by blast
  obtain body where run: "then_do (transaction (ie_works env) (once_per_key env tenant (Some key) hash ''single'' body))
      (\<lambda>rs. finish_with (Inr rs :: record_error list + record_result list)) w = (Inr (Inr rs), w1)"
    using ingest_hashed [OF hash, of "Some key" w] first by (metis (no_types, lifting))
  have "once_per_key env tenant (Some key) hash ''single'' body w = (Inr rs, w1)"
    using run unfolding then_do_Inr [of "transaction _ _"] transaction_Inr finish_with_simps by blast
  then obtain k where k: "key_stored k w1" "ik_tenant k = tenant" "ik_key k = key" "ik_hash k = hash" "ik_kind k = ''single''"
    "replayed (ik_results k) = replayed rs" using remembered by blast
  have "key_stored k w2" by (rule stored.ran [OF later k(1)])
  then have "get_key env' tenant key w2 = (Inr (Some k), w2)" using works(1) k by (simp add: get_key_def key_stored_def)
  moreover have "replay hash ''single'' k = Inr (replayed rs)" using k by (simp add: replay_def replayed_def)
  ultimately have "once_per_key env' tenant (Some key) hash ''single'' body' w2 = (Inr (replayed rs), w2)" for body'
    by (simp add: once_per_key_def then_do_def)
  then show ?thesis using ingest_hashed [OF same [unfolded hash], of "Some key" w2] works(2)
    by (auto simp: then_do_def transaction_def finish_with_def)
qed

lemma key_of_a_batch_refused:
  assumes first: "batch_ingest env tenant object_type mode records (Some key) w = (Inr (Inr rs), w1)"
    and later: "ingest_runs w1 w2"
    and req: "request_hash env' tenant object_type' mode' payload' = Inr hash"
    and works: "ie_works env' ''key get''"
  shows "ingest env' tenant object_type' mode' payload' (Some key) w2 = (Inl key_reused, w2)"
proof -
  obtain hash0 body where "once_per_key env tenant (Some key) hash0 ''batch'' body w = (Inr rs, w1)"
    using first by (auto simp: batch_ingest_def Let_def step_simps split: sum.splits prod.splits if_splits)
  then obtain k where k: "key_stored k w1" "ik_tenant k = tenant" "ik_key k = key" "ik_kind k = ''batch''"
    using remembered by blast
  have "key_stored k w2" by (rule stored.ran [OF later k(1)])
  then have "get_key env' tenant key w2 = (Inr (Some k), w2)" using works(1) k by (simp add: get_key_def key_stored_def)
  moreover have "replay hash ''single'' k = Inl key_reused" using k by (simp add: replay_def)
  ultimately have "once_per_key env' tenant (Some key) hash ''single'' body' w2 = (Inl key_reused, w2)" for body'
    by (simp add: once_per_key_def then_do_def)
  then show ?thesis using ingest_hashed [OF req, of "Some key" w2]
    by (auto simp: then_do_def transaction_def finish_with_def)
qed

subsection \<open>Examples\<close>

lemma shop_ingested_split:
  "ingest shop_env ''4b-2'' ''transactions'' ''create'' shop_payload (Some ''k1'') empty_ingest =
     (Inr (Inr [\<lparr>rr_object = ''t1'', rr_action = ''created'', rr_revision = ''r1'', rr_replayed = False\<rparr>]), snd shop_ingested)"
  using shop_ingested_result by (simp add: shop_ingested_def prod_eq_iff)

text \<open>The same record sent again as a patch.\<close>

lemma replay_exact_witness:
  "ingest shop_env ''4b-2'' ''transactions'' ''create'' shop_payload (Some ''k1'') (snd shop_ingested) =
     (Inr (Inr (replayed [\<lparr>rr_object = ''t1'', rr_action = ''created'', rr_revision = ''r1'', rr_replayed = False\<rparr>])), snd shop_ingested)"
  by (rule replay_exact [OF shop_ingested_split]) (simp_all add: shop_env_def)

lemma audits_announced_witness:
  "map audit_ref (filter succeeded (in_audits (snd shop_ingested))) = map event_ref (filter of_record (in_events (snd shop_ingested)))"
proof (rule audits_announced)
  show "ingest_runs empty_ingest (snd shop_ingested)"
    unfolding shop_ingested_def by (rule r_into_rtranclp) (rule move_ingest)
qed

end
