(* ===== verification/Ingest_Validation_Laws.thy ===== *)
theory Ingest_Validation_Laws
  imports Ingest_Validation Payload_Laws
begin

text \<open>
  What a record is that the ingestion service accepts, whatever the iteration order, and that the decision
  engine's check of stored records accepts it unchanged.
\<close>

subsection \<open>The loops\<close>

definition input_notes :: "published_model \<Rightarrow> object_schema \<Rightarrow> string \<Rightarrow> field_map \<Rightarrow> finding list" where
  "input_notes m table object_type payload =
     map (\<lambda>(k, v). (k, check_input m table object_type k v)) (filter (\<lambda>(k, v). k \<noteq> lookup_name m) payload)"

definition fill_note :: "published_model \<Rightarrow> field_map \<Rightarrow> string \<times> field_schema \<Rightarrow> finding option" where
  "fill_note m r p = (case p of (name, f) \<Rightarrow>
     if fs_archived f \<or> name \<in> set (pm_system m) \<or> name = lookup_name m \<or> map_of r name \<noteq> None then None
     else Some (name, if \<not> fs_nullable f
         then Inl (''missing_required'', ''field '' @ name @ '' is required for full writes'') else Inr VNil))"

definition note_complaints :: "finding list \<Rightarrow> record_error list" where
  "note_complaints ns = map (\<lambda>i. complain (is_field i) (is_code i) (is_message i)) (note_issues ns)"

lemma note_complaints_nil: "(note_complaints ns = []) = (\<forall>(k, c) \<in> set ns. \<not> isl c)"
  by (simp add: note_complaints_def note_issues_nil)

lemma input_loop:
  "fold (input_step m table object_type) payload st = fold (\<lambda>(k, c). note_input k c) (input_notes m table object_type payload) st"
  by (induction payload arbitrary: st) (auto simp: input_notes_def input_step_def)

lemma notes_run:
  "fold (\<lambda>(k, c). note_input k c) ns (out, es) = (fold (\<lambda>(k, v). AList.update k v) (note_values ns) out, es @ note_complaints ns)"
  by (induction ns arbitrary: out es rule: note_issues.induct) (simp_all add: note_input_def note_complaints_def)

lemma fill_note_cong: "map_of r (fst p) = map_of r' (fst p) \<Longrightarrow> fill_note m r p = fill_note m r' p"
  by (cases p) (simp add: fill_note_def)

lemma map_filter_same: "(\<And>q. q \<in> set ds \<Longrightarrow> f q = g q) \<Longrightarrow> List.map_filter f ds = List.map_filter g ds"
  by (induction ds) (auto split: option.split)

lemma fill_loop:
  "distinct (map fst ds) \<Longrightarrow>
     fold (fill_step m) ds (r, es) = fold (\<lambda>(k, c). note_input k c) (List.map_filter (fill_note m r) ds) (r, es)"
proof (induction ds arbitrary: r es)
  case (Cons p ds)
  show ?case
  proof (cases "fill_note m r p")
    case None
    then have "fill_step m p (r, es) = (r, es)" by (cases p) (auto simp: fill_note_def fill_step_def split: if_splits)
    then show ?thesis using Cons None by (simp add: List.map_filter_simps)
  next
    case (Some kc)
    obtain k c where kc: "kc = (k, c)" by (cases kc)
    have k: "k = fst p" using Some kc by (cases p) (auto simp: fill_note_def split: if_splits)
    obtain r' es' where step: "note_input k c (r, es) = (r', es')" by (cases "note_input k c (r, es)")
    have "fill_step m p (r, es) = (r', es')"
      using Some kc step by (cases p) (auto simp: fill_note_def fill_step_def split: if_splits)
    moreover have r': "map_of r' j = map_of r j" if "j \<noteq> k" for j
      using step that by (auto simp: note_input_def update_conv' split: sum.splits prod.splits)
    moreover have "List.map_filter (fill_note m r') ds = List.map_filter (fill_note m r) ds"
    proof (rule map_filter_same)
      fix q
      assume "q \<in> set ds"
      then have "fst q \<noteq> k" using Cons.prems k by (metis distinct.simps(2) image_eqI list.set_map list.simps(9))
      then show "fill_note m r' q = fill_note m r q" by (intro fill_note_cong r')
    qed
    ultimately show ?thesis using Cons Some kc step by (simp add: List.map_filter_simps)
  qed
qed (simp add: List.map_filter_simps)

subsection \<open>Accepted records\<close>

text \<open>Which value a column gets.\<close>

definition ingested_value :: "published_model \<Rightarrow> object_schema \<Rightarrow> string \<Rightarrow> field_map \<Rightarrow> string \<Rightarrow> string \<Rightarrow> gval option" where
  "ingested_value m table object_type payload mode k =
     (if k = lookup_name m then Some (VStr (id_text m payload))
      else case map_of payload k of
        Some v \<Rightarrow> (case check_input m table object_type k v of Inr w \<Rightarrow> Some w | Inl _ \<Rightarrow> None)
      | None \<Rightarrow> (case map_of (os_fields table) k of
            Some f \<Rightarrow> if mode = ''create'' \<and> \<not> fs_archived f \<and> k \<notin> set (pm_system m) then Some VNil else None
          | None \<Rightarrow> None))"

lemma map_of_input: "map_of (input_notes m table object_type payload) k =
    (if k = lookup_name m then None else map_option (check_input m table object_type k) (map_of payload k))"
  by (induction payload) (auto simp: input_notes_def)

lemma input_notes_keys: "map fst (input_notes m table object_type payload) = filter (\<lambda>k. k \<noteq> lookup_name m) (map fst payload)"
  by (induction payload) (auto simp: input_notes_def)

lemma fill_note_key: "fill_note m r p = Some (k, c) \<Longrightarrow> k = fst p"
  by (cases p) (auto simp: fill_note_def split: if_splits)

lemma fill_keys: "set (map fst (List.map_filter (fill_note m r) ds)) \<subseteq> set (map fst ds)"
  "distinct (map fst ds) \<Longrightarrow> distinct (map fst (List.map_filter (fill_note m r) ds))"
proof -
  show sub: "set (map fst (List.map_filter (fill_note m r) ds)) \<subseteq> set (map fst ds)" for ds
    by (induction ds) (auto dest: fill_note_key split: option.split)
  show "distinct (map fst ds) \<Longrightarrow> distinct (map fst (List.map_filter (fill_note m r) ds))"
  proof (induction ds)
    case (Cons p ds)
    then have ih: "distinct (map fst (List.map_filter (fill_note m r) ds))"
      and p: "fst p \<notin> set (map fst (List.map_filter (fill_note m r) ds))" using sub [of ds] by auto
    show ?case
    proof (cases "fill_note m r p")
      case (Some kc)
      then have "fst kc = fst p" by (cases kc) (simp add: fill_note_key)
      then show ?thesis using ih p Some by simp
    qed (simp add: ih)
  qed simp
qed

lemma map_of_fill: "distinct (map fst ds) \<Longrightarrow> map_of (List.map_filter (fill_note m r) ds) k =
    (case map_of ds k of None \<Rightarrow> None | Some f \<Rightarrow> map_option snd (fill_note m r (k, f)))"
proof (induction ds)
  case (Cons p ds)
  obtain j f where p: "p = (j, f)" by (cases p)
  show ?case
  proof (cases "k = j")
    case True
    have "map_of (List.map_filter (fill_note m r) ds) k = None"
      using fill_keys(1) [of m r ds] Cons.prems p True by (auto simp: map_of_eq_None_iff)
    then show ?thesis using p True by (auto dest: fill_note_key split: option.split)
  next
    case False
    then show ?thesis using Cons p by (auto dest: fill_note_key split: option.split)
  qed
qed simp

text \<open>What an accepted record comes from.\<close>

definition base_record :: "published_model \<Rightarrow> object_schema \<Rightarrow> string \<Rightarrow> field_map \<Rightarrow> field_map" where
  "base_record m table object_type payload =
     AList.update (lookup_name m) (VStr (id_text m payload))
       (fold (\<lambda>(k, v). AList.update k v) (note_values (input_notes m table object_type payload)) [])"

definition fill_notes :: "published_model \<Rightarrow> object_schema \<Rightarrow> string \<Rightarrow> field_map \<Rightarrow> finding list" where
  "fill_notes m table object_type payload =
     List.map_filter (fill_note m (base_record m table object_type payload)) (os_fields table)"

lemma fill_step_grows: "\<exists>es. snd (fold (fill_step m) ds st) = snd st @ es"
proof (induction ds arbitrary: st)
  case (Cons p ds)
  have "\<exists>es. snd (fill_step m p st) = snd st @ es"
    by (cases p) (auto simp: fill_step_def note_input_def)
  then show ?case using Cons.IH [of "fill_step m p st"] by auto
qed simp

lemma id_step_after:
  "id_step m payload (fold (input_step m table object_type) payload ([], [])) =
     ((if id_text m payload \<noteq> [] then base_record m table object_type payload
       else fold (\<lambda>(k, v). AList.update k v) (note_values (input_notes m table object_type payload)) []),
      note_complaints (input_notes m table object_type payload) @ id_errors m payload)"
  by (simp add: input_loop notes_run id_step_def base_record_def)

lemma accepted_id: "id_errors m payload = [] \<Longrightarrow> id_text m payload \<noteq> [] \<and> trim_space (id_text m payload) = id_text m payload"
  by (auto simp: id_errors_def id_text_def object_id_of_def trim_space_idem split: gval.splits if_splits sum.splits)

lemma accepted_shape:
  assumes "validate_record m object_type payload mode = (out, oid, [])" "map_of (pm_tables m) object_type = Some table"
    and d: "distinct (map fst (os_fields table))"
  shows "\<not> os_archived table" "oid = id_text m payload" "oid \<noteq> []" "trim_space oid = oid"
    "note_complaints (input_notes m table object_type payload) = []"
    "mode = ''create'' \<Longrightarrow> note_complaints (fill_notes m table object_type payload) = []"
    "out = (if mode = ''create'' then fold (\<lambda>(k, v). AList.update k v) (note_values (fill_notes m table object_type payload))
        (base_record m table object_type payload) else base_record m table object_type payload)"
proof -
  have t: "\<not> os_archived table" "oid = id_text m payload"
    and st: "snd (record_state m table object_type payload mode) = []" "out = fst (record_state m table object_type payload mode)"
    using assms(1,2) by (auto simp: validate_record_def Let_def split: if_splits)
  let ?st = "id_step m payload (fold (input_step m table object_type) payload ([], []))"
  have "snd ?st = []"
    using st(1) fill_step_grows [of m "os_fields table" ?st] by (auto simp: record_state_def Let_def split: if_splits)
  then have es: "note_complaints (input_notes m table object_type payload) = []" "id_errors m payload = []"
    by (simp_all add: id_step_after)
  then have base: "?st = (base_record m table object_type payload, [])"
    using accepted_id by (simp add: id_step_after)
  show "\<not> os_archived table" "oid = id_text m payload" "oid \<noteq> []" "trim_space oid = oid"
    "note_complaints (input_notes m table object_type payload) = []"
    using t es accepted_id by simp_all
  show "mode = ''create'' \<Longrightarrow> note_complaints (fill_notes m table object_type payload) = []"
    using st(1) by (simp add: record_state_def base Let_def fill_loop [OF d] notes_run fill_notes_def)
  show "out = (if mode = ''create'' then fold (\<lambda>(k, v). AList.update k v) (note_values (fill_notes m table object_type payload))
        (base_record m table object_type payload) else base_record m table object_type payload)"
    using st(2) by (simp add: record_state_def base Let_def fill_loop [OF d] notes_run fill_notes_def)
qed

lemma note_ok: "note_complaints ns = [] \<Longrightarrow> (k, c) \<in> set ns \<Longrightarrow> \<exists>v. c = Inr v"
  by (cases c) (fastforce simp: note_complaints_nil)+

lemma base_value:
  assumes "distinct (map fst payload)" "note_complaints (input_notes m table object_type payload) = []"
  shows "map_of (base_record m table object_type payload) k =
    (if k = lookup_name m then Some (VStr (id_text m payload))
     else case map_of payload k of None \<Rightarrow> None | Some v \<Rightarrow>
       (case check_input m table object_type k v of Inl _ \<Rightarrow> None | Inr w \<Rightarrow> Some w))"
proof -
  have d: "distinct (map fst (input_notes m table object_type payload))"
    using assms(1) by (simp add: input_notes_keys)
  show ?thesis
    by (auto simp: base_record_def update_conv' map_of_updates map_of_rev note_values_distinct [OF d]
        map_of_note_values [OF d] map_of_input split: option.split sum.split)
qed

lemma base_distinct: "distinct (map fst (base_record m table object_type payload))"
  by (simp add: base_record_def distinct_update distinct_updates)

lemma input_accepted:
  assumes "note_complaints (input_notes m table object_type payload) = []" "map_of payload k = Some v" "k \<noteq> lookup_name m"
  shows "\<exists>w. check_input m table object_type k v = Inr w"
proof -
  have "map_of (input_notes m table object_type payload) k = Some (check_input m table object_type k v)"
    using assms(2,3) by (simp add: map_of_input)
  then show ?thesis using note_ok [OF assms(1) map_of_SomeD] by blast
qed

lemma filled_value:
  assumes d: "distinct (map fst (os_fields table))" and ok: "note_complaints (fill_notes m table object_type payload) = []"
  shows "map_of (note_values (fill_notes m table object_type payload)) k =
    (case map_of (os_fields table) k of None \<Rightarrow> None | Some f \<Rightarrow>
       if fs_archived f \<or> k \<in> set (pm_system m) \<or> k = lookup_name m \<or> map_of (base_record m table object_type payload) k \<noteq> None
       then None else Some VNil)"
proof -
  have dn: "distinct (map fst (fill_notes m table object_type payload))"
    unfolding fill_notes_def by (rule fill_keys(2) [OF d])
  have nil: "c = Inr VNil" if c: "map_of (fill_notes m table object_type payload) k = Some c" for c
  proof -
    obtain v where "c = Inr v" using note_ok [OF ok map_of_SomeD [OF c]] by blast
    then show ?thesis using c
      by (auto simp: fill_notes_def map_of_fill [OF d] fill_note_def split: option.splits if_splits)
  qed
  show ?thesis
  proof (cases "map_of (fill_notes m table object_type payload) k")
    case None
    then show ?thesis
      by (auto simp: map_of_note_values [OF dn]) (auto simp: fill_notes_def map_of_fill [OF d] fill_note_def split: option.splits if_splits)
  next
    case (Some c)
    then show ?thesis using nil [OF Some]
      by (auto simp: map_of_note_values [OF dn]) (auto simp: fill_notes_def map_of_fill [OF d] fill_note_def split: option.splits if_splits)
  qed
qed

lemma ingested_record_value:
  assumes "validate_record m object_type payload mode = (out, oid, [])" "distinct (map fst payload)"
    "map_of (pm_tables m) object_type = Some table" and d: "distinct (map fst (os_fields table))"
  shows "map_of out k = ingested_value m table object_type payload mode k" "distinct (map fst out)"
proof -
  note shape = accepted_shape [OF assms(1,3) d]
  note base = base_value [OF assms(2) shape(5)]
  have dn: "distinct (map fst (fill_notes m table object_type payload))"
    unfolding fill_notes_def by (rule fill_keys(2) [OF d])
  show "distinct (map fst out)" by (simp add: shape(7) base_distinct distinct_updates)
  show "map_of out k = ingested_value m table object_type payload mode k"
  proof (cases "mode = ''create''")
    case False
    then show ?thesis by (auto simp: shape(7) base ingested_value_def split: option.split sum.split)
  next
    case True
    have "map_of out k = (map_of (base_record m table object_type payload) ++ map_of (note_values (fill_notes m table object_type payload))) k"
      by (simp add: shape(7) True map_of_updates map_of_rev note_values_distinct [OF dn])
    also have "\<dots> = ingested_value m table object_type payload mode k"
    proof (cases "map_of payload k")
      case None
      then show ?thesis using True
        by (auto simp: map_add_def filled_value [OF d shape(6) [OF True]] base ingested_value_def split: option.split)
    next
      case (Some v)
      show ?thesis
      proof (cases "k = lookup_name m")
        case False
        then obtain w where "check_input m table object_type k v = Inr w" using input_accepted [OF shape(5) Some] by blast
        then show ?thesis using Some False
          by (auto simp: map_add_def filled_value [OF d shape(6) [OF True]] base ingested_value_def split: option.split)
      qed (auto simp: map_add_def filled_value [OF d shape(6) [OF True]] base ingested_value_def split: option.split)
    qed
    finally show ?thesis .
  qed
qed

subsection \<open>The decision engine reads it back\<close>

text \<open>The same published model as the decision engine's client gives it, without links.\<close>

definition engine_field :: "field_schema \<Rightarrow> tm_field" where
  "engine_field f = \<lparr>tf_name = fs_name f, tf_type = fs_type f, tf_nullable = fs_nullable f, tf_archived = fs_archived f,
     tf_is_enum = fs_is_enum f, tf_enum_values = fs_enum f\<rparr>"

definition engine_table :: "object_schema \<Rightarrow> tm_table" where
  "engine_table t = \<lparr>tt_id = os_id t, tt_name = os_name t, tt_archived = os_archived t,
     tt_fields = map (\<lambda>(k, f). (k, engine_field f)) (os_fields t), tt_links = []\<rparr>"

definition engine_model :: "published_model \<Rightarrow> tenant_model" where
  "engine_model m = \<lparr>tm_revision = pm_revision m, tm_lookup_field = pm_lookup m, tm_system_fields = pm_system m,
     tm_tables = map (\<lambda>(k, t). (k, engine_table t)) (pm_tables m)\<rparr>"

text \<open>Tables on which the two checks agree: known types, enums of the types whose catalog ingestion enforces, and no
  field with the name of a physical column.\<close>

definition evaluable_field :: "string \<times> field_schema \<Rightarrow> bool" where
  "evaluable_field p = (fs_archived (snd p) \<or>
     (fs_type (snd p) \<in> set known_kinds \<and> (fs_is_enum (snd p) \<longrightarrow> fs_type (snd p) \<in> set [''string'', ''int'', ''float'']) \<and>
      fst p \<notin> set physical_columns))"

definition finite_value :: "gval \<Rightarrow> bool" where
  "finite_value v = (case v of VFloat x \<Rightarrow> f64_rat x \<noteq> None | _ \<Rightarrow> True)"

definition engine_schema :: "published_model \<Rightarrow> object_schema \<Rightarrow> payload_schema" where
  "engine_schema m t = \<lparr>ps_fields = map (\<lambda>(k, d). (k, schema_field d)) (active_fields (engine_table t)),
     ps_ordered = sort (map fst (active_fields (engine_table t))), ps_managed = pm_system m @ physical_columns, ps_lookup = lookup_name m\<rparr>"

lemma active_engine_fields:
  "active_fields (engine_table t) = map (\<lambda>(k, f). (k, engine_field f)) (filter (\<lambda>(k, f). \<not> fs_archived f) (os_fields t))"
  by (induction "os_fields t" arbitrary: t) (auto simp: active_fields_def engine_table_def engine_field_def filter_map o_def case_prod_unfold)

lemma engine_schema_compiled:
  assumes "map_of (pm_tables m) object_type = Some t" "\<not> os_archived t" "list_all evaluable_field (os_fields t)"
  shows "compile_schema object_type (engine_model m) = Inr (engine_schema m t)"
proof -
  have "map_of (tm_tables (engine_model m)) object_type = Some (engine_table t)"
    using assms(1) by (simp add: engine_model_def map_of_map)
  moreover have "\<not> list_ex (\<lambda>(k, d). tf_type d \<notin> set known_kinds) (active_fields (engine_table t))"
    using assms(3) by (fastforce simp: active_engine_fields list_ex_iff list_all_iff evaluable_field_def engine_field_def)
  ultimately show ?thesis using assms(2)
    by (simp add: compile_schema_def engine_schema_def engine_table_def engine_model_def lookup_name_def)
qed

lemma schema_field_of:
  assumes "distinct (map fst (os_fields t))"
  shows "map_of (ps_fields (engine_schema m t)) k = (case map_of (os_fields t) k of None \<Rightarrow> None
    | Some f \<Rightarrow> if fs_archived f then None else Some (schema_field (engine_field f)))"
proof -
  have "map_of (map (\<lambda>(k, d). (k, schema_field d)) (map (\<lambda>(k, f). (k, engine_field f)) (filter (\<lambda>(k, f). \<not> fs_archived f) fs))) k
      = (case map_of fs k of None \<Rightarrow> None | Some f \<Rightarrow> if fs_archived f then None else Some (schema_field (engine_field f)))"
    if "distinct (map fst fs)" for fs :: "(string \<times> field_schema) list"
    using that
  proof (induction fs)
    case (Cons p fs)
    obtain j f where p: "p = (j, f)" by (cases p)
    have "k = j \<Longrightarrow> map_of fs k = None" using Cons.prems p by (simp add: map_of_eq_None_iff)
    then show ?case using Cons p by (cases "k = j") simp_all
  qed simp
  from this [OF assms] show ?thesis by (simp add: engine_schema_def active_engine_fields)
qed

lemma ingested_fits:
  assumes "ingest_value f v = Inr w" "w \<noteq> VNil" "finite_value w"
    "fs_is_enum f \<Longrightarrow> fs_type f \<in> set [''string'', ''int'', ''float'']"
  shows "normalize_value (fs_type f) w = Some w \<and> (fs_is_enum f \<longrightarrow> go_sprint w \<in> set (fs_enum f))"
proof -
  have v: "v \<noteq> VNil" using assms(1,2) by (auto simp: ingest_value_def split: if_splits)
  have bool: "normalize_bool v = Some w \<Longrightarrow> normalize_bool w = Some w"
    using normalize_value_idem [of "''bool''" v w] by (simp add: normalize_value_def)
  have float: "ingest_float v = Some x \<Longrightarrow> w = VFloat x \<Longrightarrow> normalize_float w = Some w" for x
    using assms(3) by (auto simp: finite_value_def finite_float_def)
  show ?thesis using assms(1,4) v bool float
    by (auto simp: ingest_value_def normalize_value_def enum_check_def parse_ip_ok_def trim_space_idem
        split: if_splits option.splits gval.splits)
qed

definition stored_row :: "field_map \<Rightarrow> string \<Rightarrow> int \<Rightarrow> field_map" where
  "stored_row rec row_id now = rec @ [(''id'', VStr row_id), (''updated_at'', VTime now)]"

lemma physical_value:
  assumes "distinct (map fst (os_fields t))" "list_all evaluable_field (os_fields t)"
  shows "check_supplied (engine_schema m t) ''id'' (VStr i) = Inr (VStr i)"
    "check_supplied (engine_schema m t) ''updated_at'' (VTime now) = Inr (VTime now)"
proof -
  have "map_of (ps_fields (engine_schema m t)) k = None" if "k \<in> set physical_columns" for k
    using that assms(2) by (auto simp: schema_field_of [OF assms(1)] list_all_iff evaluable_field_def split: option.split dest!: map_of_SomeD)
  then show "check_supplied (engine_schema m t) ''id'' (VStr i) = Inr (VStr i)"
    "check_supplied (engine_schema m t) ''updated_at'' (VTime now) = Inr (VTime now)"
    by (simp_all add: check_supplied_def field_contract_def physical_field_def physical_columns_def engine_schema_def normalize_value_def)
qed

lemma normalize_bool_nil: "normalize_bool v = Some w \<Longrightarrow> w \<noteq> VNil"
  using normalize_value_idem [of "''bool''" v w] by (simp add: normalize_value_def)

lemma ingest_nil: "ingest_value f v = Inr VNil \<Longrightarrow> fs_nullable f"
  by (auto simp: ingest_value_def enum_check_def split: if_splits option.splits gval.splits dest: normalize_bool_nil)

lemma ingested_column:
  assumes "ingested_value m t object_type payload mode k = Some w" "k \<noteq> lookup_name m" "finite_value w"
    "distinct (map fst (os_fields t))" "list_all evaluable_field (os_fields t)"
    "k \<notin> set (pm_system m) \<Longrightarrow> map_of payload k = None \<Longrightarrow> mode = ''create'' \<Longrightarrow>
       (\<forall>f. map_of (os_fields t) k = Some f \<longrightarrow> \<not> fs_archived f \<longrightarrow> fs_nullable f)"
  shows "check_supplied (engine_schema m t) k w = Inr w" "k \<notin> set physical_columns"
proof -
  have "\<exists>f. map_of (os_fields t) k = Some f \<and> \<not> fs_archived f \<and>
      (w = VNil \<and> fs_nullable f \<or> w \<noteq> VNil \<and> (\<exists>v. ingest_value f v = Inr w))"
  proof (cases "map_of payload k")
    case None
    then show ?thesis using assms(1,2,6) by (auto simp: ingested_value_def split: option.splits if_splits)
  next
    case (Some v)
    then obtain f where f: "map_of (os_fields t) k = Some f" "\<not> fs_archived f" "ingest_value f v = Inr w"
      using assms(1,2) by (auto simp: ingested_value_def check_input_def split: option.splits if_splits sum.splits)
    then show ?thesis using ingest_nil [of f v] by auto
  qed
  then obtain f where f: "map_of (os_fields t) k = Some f" "\<not> fs_archived f"
    "w = VNil \<and> fs_nullable f \<or> w \<noteq> VNil \<and> (\<exists>v. ingest_value f v = Inr w)" by blast
  have e: "evaluable_field (k, f)" using assms(5) map_of_SomeD [OF f(1)] by (auto simp: list_all_iff)
  then show "k \<notin> set physical_columns" using f(2) by (simp add: evaluable_field_def)
  have c: "field_contract (engine_schema m t) k = Some (schema_field (engine_field f))"
    using f by (simp add: field_contract_def schema_field_of [OF assms(4)])
  show "check_supplied (engine_schema m t) k w = Inr w"
  proof (cases "w = VNil")
    case True
    then show ?thesis using f(3) by (simp add: check_supplied_def c schema_field_def engine_field_def)
  next
    case False
    then obtain v where v: "ingest_value f v = Inr w" using f(3) by blast
    have "normalize_value (fs_type f) w = Some w \<and> (fs_is_enum f \<longrightarrow> go_sprint w \<in> set (fs_enum f))"
      by (rule ingested_fits [OF v False assms(3)]) (use e f(2) in \<open>simp add: evaluable_field_def\<close>)
    then show ?thesis using False by (auto simp: check_supplied_def c schema_field_def engine_field_def)
  qed
qed

lemma engine_lookup [simp]: "ps_lookup (engine_schema m t) = lookup_name m"
  by (simp add: engine_schema_def)

lemma engine_ordered:
  assumes "distinct (map fst (os_fields t))" "k \<in> set (ps_ordered (engine_schema m t))"
  obtains f where "map_of (os_fields t) k = Some f" "\<not> fs_archived f"
  using assms by (auto simp: engine_schema_def active_engine_fields)

lemma engine_ordered_distinct: "distinct (map fst (os_fields t)) \<Longrightarrow> distinct (ps_ordered (engine_schema m t))"
  by (simp add: engine_schema_def active_engine_fields distinct_map_filter o_def case_prod_unfold)

text \<open>The hypotheses on the record that comes from a full write.\<close>

lemma full_write_columns:
  assumes "validate_record m object_type payload ''create'' = (out, oid, [])" "distinct (map fst payload)"
    "map_of (pm_tables m) object_type = Some t" "distinct (map fst (os_fields t))" "list_all evaluable_field (os_fields t)"
    "list_all (finite_value \<circ> snd) out" "map_of out k = Some w" "k \<noteq> lookup_name m"
  shows "check_supplied (engine_schema m t) k w = Inr w" "k \<notin> set physical_columns"
proof -
  note shape = accepted_shape [OF assms(1,3,4)]
  have w: "ingested_value m t object_type payload ''create'' k = Some w"
    using ingested_record_value(1) [OF assms(1-4)] assms(7) by simp
  have fin: "finite_value w" using assms(6) map_of_SomeD [OF assms(7)] by (auto simp: list_all_iff)
  have filled: "fs_nullable f" if f: "k \<notin> set (pm_system m)" "map_of payload k = None" "map_of (os_fields t) k = Some f" "\<not> fs_archived f" for f
  proof -
    have "map_of (base_record m t object_type payload) k = None"
      using base_value [OF assms(2) shape(5)] f(2) assms(8) by simp
    then have "map_of (fill_notes m t object_type payload) k = map_option snd (fill_note m (base_record m t object_type payload) (k, f))"
      using f(3) by (simp add: fill_notes_def map_of_fill [OF assms(4)])
    then show ?thesis
      using f assms(8) \<open>map_of (base_record m t object_type payload) k = None\<close> note_ok [OF shape(6) map_of_SomeD]
      by (fastforce simp: fill_note_def split: if_splits)
  qed
  show "check_supplied (engine_schema m t) k w = Inr w" "k \<notin> set physical_columns"
    using ingested_column [OF w assms(8) fin assms(4,5)] filled by blast+
qed

text \<open>A row on which the check has nothing to do.\<close>

lemma settled_values:
  assumes "distinct (map fst row)" "distinct (ps_ordered s)" "map_of row (ps_lookup s) = Some (VStr oid)" "oid \<noteq> []" "trim_space oid = oid"
    and sup: "\<And>k v. map_of row k = Some v \<Longrightarrow> k \<noteq> ps_lookup s \<Longrightarrow> check_supplied s k v = Inr v"
    and abs: "\<And>k. k \<in> set (ps_ordered s) \<Longrightarrow> check_absent s row k = None"
  shows "validate_values s category revision oid row = Inr (payload_record s oid row) \<and>
    map_of (payload_record s oid row) = map_of row"
proof -
  have pn: "map_of (payload_notes s row) k = (if k = ps_lookup s then None else map_option Inr (map_of row k))" for k
    using sup abs by (auto simp: map_of_payload_notes split: option.split)
  have "\<not> isl c" if "(k, c) \<in> set (payload_notes s row)" for k c
  proof -
    have "map_of (payload_notes s row) k = Some c"
      using that payload_notes_distinct [OF assms(1,2)] by simp
    then show ?thesis by (auto simp: pn split: if_splits)
  qed
  then have "payload_issues s oid row = []"
    using assms(3-5) by (auto simp: payload_issues_def identity_issues_def note_issues_nil)
  moreover have "map_of (payload_record s oid row) = map_of row"
    unfolding payload_record_value [OF assms(1,2)]
    using sup abs assms(3) by (auto simp: fun_eq_iff payload_value_def split: option.split)
  ultimately show ?thesis by (simp add: validate_values_spec)
qed


end
