(* ===== verification/Ingest_Outcomes.thy ===== *)
theory Ingest_Outcomes
  imports Ingest_Laws Ingest_Validation_Laws
begin

text \<open>
  What a batch does, that a record that was ingested is read back, and what becomes of a deferred ingest whose
  attempt failed.
\<close>

subsection \<open>Batches\<close>

lemma validate_batch_ok:
  assumes "validate_batch m object_type mode rs seen = (ok, [])"
  shows "list_all2 (\<lambda>r x. validate_record m object_type r mode = (fst x, snd x, [])) rs ok \<and>
    distinct (map snd ok) \<and> set (map snd ok) \<inter> set seen = {}"
  using assms
proof (induction rs arbitrary: seen ok)
  case (Cons r rs)
  obtain rec i es where v: "validate_record m object_type r mode = (rec, i, es)" by (metis prod_cases3)
  have es: "es = []" using Cons.prems v by (cases es) (auto simp: stamp_object_id_def split: prod.splits)
  have fresh: "i \<notin> set seen" using Cons.prems v es by (auto split: prod.splits if_splits)
  obtain ok' where ok': "validate_batch m object_type mode rs (i # seen) = (ok', [])" "ok = (rec, i) # ok'"
    using Cons.prems v es fresh by (auto split: prod.splits)
  then show ?case using Cons.IH [OF ok'(1)] v es fresh by auto
qed simp

lemma write_records_results:
  "write_records env tenant object_type mode m key valid w = (Inr rs, w') \<Longrightarrow>
     map rr_object rs = map snd valid \<and> list_all (\<lambda>r. \<not> rr_replayed r) rs"
  by (induction valid arbitrary: w rs w') (auto simp: step_simps write_record_def)

text \<open>What refusing a batch leaves alone.\<close>

definition same_data :: "ingest_store \<Rightarrow> ingest_store \<Rightarrow> bool" where
  "same_data w w' = (in_rows w' = in_rows w \<and> in_keys w' = in_keys w \<and> in_events w' = in_events w)"

lemma refused_keeps: "keeps (same_data v) (transaction works (audit_batch env tenant object_type mode m es key rs))"
proof -
  have "ends (same_data v) (draw_id env)" "ends (same_data v) (create_audit env a)" for a
    by (auto simp: ends_def draw_id_def create_audit_def same_data_def split: if_splits)
  then have "ends (same_data v) (audit_batch env tenant object_type mode m es key rs)"
    by (induction rs) (auto simp: Let_def audit_refused_def intro!: ends_then_do ends_finish)
  then show ?thesis by (rule ends_transaction)
qed

text \<open>The results of a batch: those of a known key, or one for each record.\<close>

lemma once_outcome:
  assumes "once_per_key env tenant key hash kind (write_batch env tenant object_type mode m key valid) w = (Inr rs, w')"
  shows "w' = w \<and> list_all rr_replayed rs \<and> key \<noteq> None \<or>
    map rr_object rs = map snd valid \<and> list_all (\<lambda>x. \<not> rr_replayed x) rs"
proof -
  obtain known where g: "(case key of None \<Rightarrow> finish_with None | Some k \<Rightarrow> get_key env tenant k) w = (Inr known, w)"
    using assms by (cases key) (auto simp: once_per_key_def step_simps get_key_def split: if_splits)
  show ?thesis
  proof (cases known)
    case None
    then obtain w1 where "write_batch env tenant object_type mode m key valid w = (Inr rs, w1)"
      using assms g by (cases key) (auto simp: once_per_key_def remember_def step_simps)
    then show ?thesis using write_records_results by (auto simp: write_batch_def step_simps)
  next
    case (Some k)
    then have "key \<noteq> None" using g by (cases key) (auto simp: step_simps)
    then show ?thesis using Some assms g by (auto simp: once_per_key_def step_simps replay_def list_all_iff split: if_splits)
  qed
qed

lemma valid_batch_outcome:
  assumes "batch_ingest env tenant object_type mode records key w = (r, w')" "writable_model env tenant object_type = Inr m"
    and v: "validate_batch m object_type mode records [] = (valid, [])" and n: "records \<noteq> []" "length records \<le> batch_limit"
  shows "case r of Inl e \<Rightarrow> w' = w | Inr (Inl es) \<Rightarrow> False
    | Inr (Inr rs) \<Rightarrow> w' = w \<and> list_all rr_replayed rs \<and> key \<noteq> None \<or>
         distinct (map snd valid) \<and> list_all2 (\<lambda>x y. validate_record m object_type x mode = (fst y, snd y, [])) records valid \<and>
         map rr_object rs = map snd valid \<and> list_all (\<lambda>x. \<not> rr_replayed x) rs"
proof (cases "hash_request env (VList (map VObj records))")
  case (Inl e)
  then show ?thesis using assms by (auto simp: batch_ingest_def)
next
  case (Inr hash)
  let ?body = "once_per_key env tenant key hash ''batch'' (write_batch env tenant object_type mode m key valid)"
  have run: "then_do (transaction (ie_works env) ?body) (\<lambda>rs. finish_with (Inr rs)) w = (r, w')"
    using assms Inr by (simp add: batch_ingest_def)
  show ?thesis
  proof (cases r)
    case (Inl e)
    then have "transaction (ie_works env) ?body w = (Inl e, w')" using run by (auto simp: then_do_Inl finish_with_simps)
    then show ?thesis using Inl by (auto dest: transaction_Inl)
  next
    case (Inr a)
    then obtain rs where rs: "a = Inr rs" "?body w = (Inr rs, w')"
      using run by (auto simp: then_do_Inr transaction_Inr finish_with_simps)
    then show ?thesis using Inr once_outcome [OF rs(2)] validate_batch_ok [OF v] by auto
  qed
qed


subsection \<open>Reading what was ingested\<close>

definition columns_hold :: "field_map \<Rightarrow> int \<Rightarrow> field_map \<Rightarrow> bool" where
  "columns_hold rec now row = (map_of row ''updated_at'' = Some (VTime now) \<and> (\<forall>k v. map_of rec k = Some v \<longrightarrow> map_of row k = Some v))"

lemma distinct_sorted_keys: "distinct (map fst (sort_key f xs)) = distinct (map fst xs)"
  by (rule mset_eq_imp_distinct_iff) simp

lemma map_of_other: "distinct (map fst rec) \<Longrightarrow> map_of (other_fields lookup rec) k = (if k = lookup then None else map_of rec k)"
proof -
  assume d: "distinct (map fst rec)"
  have "map_of (other_fields lookup rec) = map_of (filter (\<lambda>p. fst p \<noteq> lookup) rec)"
    unfolding other_fields_def using d
    by (intro map_of_inject_set [THEN iffD2]) (auto simp: distinct_map_filter distinct_sorted_keys)
  moreover have "map_of (filter (\<lambda>p. fst p \<noteq> lookup) rec) k = (if k = lookup then None else map_of rec k)"
    by (induction rec) auto
  ultimately show ?thesis by simp
qed

lemma map_of_assign:
  "distinct (map fst sets) \<Longrightarrow> map_of (assign sets r) k = (case map_of sets k of None \<Rightarrow> map_of r k | Some v \<Rightarrow> Some v)"
proof -
  assume "distinct (map fst sets)"
  have "assign sets r = fold (\<lambda>(k, v). AList.update k v) sets r" by (simp add: assign_def case_prod_unfold)
  then show ?thesis using \<open>distinct (map fst sets)\<close> by (simp add: map_of_updates map_of_rev map_add_def split: option.split)
qed

lemma rows_of_set [simp]: "table_rows t (set_table_rows t rs w) = rs" "table_rows t (w\<lparr>in_drawn := n\<rparr>) = table_rows t w"
  by (simp_all add: table_rows_def set_table_rows_def update_conv')

lemma find_map_row:
  "list_ex (is_row lookup i) rs \<Longrightarrow> (\<And>r. is_row lookup i r \<Longrightarrow> is_row lookup i (f r)) \<Longrightarrow>
     \<exists>r. find (is_row lookup i) (map (\<lambda>r. if is_row lookup i r then f r else r) rs) = Some (f r) \<and> is_row lookup i r"
  by (induction rs) auto

text \<open>The statements that write a row.\<close>

lemma patched_row:
  assumes "patch_record env t lookup i rec now w = (Inr (), w')" "map_of rec lookup = Some (VStr i)"
    "distinct (map fst rec)" "map_of rec ''updated_at'' = None" "lookup \<noteq> ''updated_at''"
  shows "\<exists>row. find (is_row lookup i) (table_rows t w') = Some row \<and> columns_hold rec now row"
proof -
  let ?sets = "(''updated_at'', VTime now) # other_fields lookup rec"
  have d: "distinct (map fst ?sets)"
    using assms(3,4) by (auto simp: other_fields_def distinct_sorted_keys distinct_map_filter map_of_eq_None_iff)
  have val: "map_of (assign ?sets r) k = (if k = ''updated_at'' then Some (VTime now) else if k = lookup then map_of r lookup
      else case map_of rec k of None \<Rightarrow> map_of r k | Some v \<Rightarrow> Some v)" for r k
    by (simp add: map_of_assign [OF d] map_of_other [OF assms(3)])
  have "\<exists>r. find (is_row lookup i) (map (\<lambda>r. if is_row lookup i r then assign ?sets r else r) (table_rows t w)) = Some (assign ?sets r)
      \<and> is_row lookup i r"
    using assms(1,5) by (intro find_map_row) (auto simp: patch_record_def is_row_def val split: if_splits)
  then obtain r where r: "find (is_row lookup i) (map (\<lambda>r. if is_row lookup i r then assign ?sets r else r) (table_rows t w)) = Some (assign ?sets r)"
    "is_row lookup i r" by blast
  moreover have "columns_hold rec now (assign ?sets r)"
    using assms(2,4) r(2) by (auto simp: columns_hold_def val is_row_def)
  moreover have "w' = set_table_rows t (map (\<lambda>r. if is_row lookup i r then assign ?sets r else r) (table_rows t w)) w"
    using assms(1) by (auto simp: patch_record_def split: if_splits)
  ultimately show ?thesis by simp
qed

lemma inserted_row:
  assumes "insert_record env t lookup i rec now w = (Inr (), w')" "map_of rec lookup = Some (VStr i)"
    "distinct (map fst rec)" "map_of rec ''updated_at'' = None" "map_of rec ''id'' = None" "lookup \<notin> set [''updated_at'', ''id'']"
  shows "\<exists>row. find (is_row lookup i) (table_rows t w') = Some row \<and> columns_hold rec now row"
proof -
  let ?row = "[(''id'', VStr (ie_gen env (in_drawn w))), (lookup, VStr i), (''updated_at'', VTime now)] @ other_fields lookup rec"
  have w': "w' = set_table_rows t (table_rows t w @ [?row]) w\<lparr>in_drawn := Suc (in_drawn w)\<rparr>" "\<not> list_ex (is_row lookup i) (table_rows t w)"
    using assms(1) by (auto simp: insert_record_def split: if_splits)
  have "find (is_row lookup i) (table_rows t w') = Some ?row"
    using w' assms(6) by (simp add: find_append_None find_None_ex is_row_def)
  moreover have "columns_hold rec now ?row"
    using assms(2,4-6) by (auto simp: columns_hold_def map_of_other [OF assms(3)] simp del: map_of_eq_Some_iff)
  ultimately show ?thesis by blast
qed

lemma written_row:
  assumes "write_record env tenant object_type mode m key (rec, i) w = (Inr x, w')" "map_of (pm_tables m) object_type = Some t"
    "map_of rec (pm_lookup m) = Some (VStr i)" "distinct (map fst rec)" "map_of rec ''updated_at'' = None" "map_of rec ''id'' = None"
  shows "\<exists>row. find (is_row (pm_lookup m) i) (table_rows (schema_name m, os_name t) w') = Some row \<and> columns_hold rec (ie_clock env) row"
proof -
  have lk: "pm_lookup m \<notin> set [''updated_at'', ''id'']" using assms(3,5,6) by auto
  have ri: "record_id m rec = i" using assms(3) by (simp add: record_id_def)
  obtain action w1 where up: "upsert_record env m object_type rec mode (ie_clock env) w = (Inr action, w1)" and rest: "in_rows w' = in_rows w1"
    using assms(1) by (auto simp: write_record_def step_simps draw_id_def record_ingestion_def create_audit_def create_event_def split: if_splits)
  have iu: "\<exists>row. find (is_row (pm_lookup m) i) (table_rows tab w1) = Some row \<and> columns_hold rec (ie_clock env) row"
    if u: "insert_or_update env tab (pm_lookup m) i rec (ie_clock env) w0 = (Inr action, w1)" for w0 tab
  proof (cases "insert_record env tab (pm_lookup m) i rec (ie_clock env) w0")
    case (Pair r w2)
    then show ?thesis using u inserted_row [OF _ assms(3-6) lk, of env tab "ie_clock env" w0 w1]
        patched_row [OF _ assms(3,4,5), of env tab "ie_clock env" w2 w1] lk
      by (cases r) (auto simp: insert_or_update_def step_simps split: if_splits)
  qed
  have "\<exists>row. find (is_row (pm_lookup m) i) (table_rows (schema_name m, os_name t) w1) = Some row \<and> columns_hold rec (ie_clock env) row"
  proof (cases "mode = ''patch''")
    case True
    obtain r w2 where p: "patch_record env (schema_name m, os_name t) (pm_lookup m) i rec (ie_clock env) w = (r, w2)" by fastforce
    show ?thesis
    proof (cases r)
      case (Inl e)
      then show ?thesis using up p True assms(2) ri iu [of "(schema_name m, os_name t)" w2] by (auto simp: upsert_record_def split: if_splits)
    next
      case (Inr u)
      then show ?thesis using up p True assms(2) ri patched_row [OF _ assms(3,4,5), of env "(schema_name m, os_name t)" "ie_clock env" w w1] lk
        by (auto simp: upsert_record_def)
    qed
  next
    case False
    then show ?thesis using up assms(2) ri iu [of "(schema_name m, os_name t)" w] by (auto simp: upsert_record_def)
  qed
  then show ?thesis by (simp add: table_rows_def rest)
qed


subsection \<open>Deferred ingests that failed once\<close>

definition find_deferred :: "string \<Rightarrow> ingest_store \<Rightarrow> deferred_ingest option" where
  "find_deferred i w = find (\<lambda>d. df_id d = i) (in_deferred w)"

text \<open>Ingesting records leaves deferred ingests, uploads and jobs alone.\<close>

definition side_tables :: "deferred_ingest list \<Rightarrow> upload_log list \<Rightarrow> ingest_job list \<Rightarrow> ingest_store \<Rightarrow> bool" where
  "side_tables ds us js w = (in_deferred w = ds \<and> in_uploads w = us \<and> in_jobs w = js)"

interpretation side: ingest_frame "side_tables ds us js" for ds us js
proof unfold_locales
  show "patch_record env t lookup i rec now w = (Inr (), w') \<Longrightarrow> side_tables ds us js w \<Longrightarrow> side_tables ds us js w'"
    for env t lookup i rec now w w' by (drule patch_keeps, elim exE) (simp add: side_tables_def)
  show "insert_record env t lookup i rec now w = (Inr (), w') \<Longrightarrow> side_tables ds us js w \<Longrightarrow> side_tables ds us js w'"
    for env t lookup i rec now w w' by (drule insert_keeps, elim exE) (simp add: side_tables_def)
  show "create_key env k w = (Inr (), w') \<Longrightarrow> side_tables ds us js w \<Longrightarrow> side_tables ds us js w'"
    for env k w w' by (simp add: side_tables_def create_key_def split: if_splits) auto
qed (simp_all add: side_tables_def)

lemma ingest_side:
  "in_deferred (snd (ingest env tenant object_type mode payload key w)) = in_deferred w"
  "in_jobs (snd (ingest env tenant object_type mode payload key w)) = in_jobs w"
  "in_deferred (snd (batch_ingest env tenant object_type mode records key w)) = in_deferred w"
  "in_jobs (snd (batch_ingest env tenant object_type mode records key w)) = in_jobs w"
  using keeps_snd [OF side.ingests [of "in_deferred w" "in_uploads w" "in_jobs w"], of w env tenant object_type mode payload key]
    keeps_snd [OF side.ingests_batch [of "in_deferred w" "in_uploads w" "in_jobs w"], of w env tenant object_type mode records key]
  by (simp_all add: side_tables_def)

text \<open>A predicate on deferred ingests and jobs alone.\<close>

lemma keeps_side:
  assumes "\<And>w w'. in_deferred w' = in_deferred w \<Longrightarrow> in_jobs w' = in_jobs w \<Longrightarrow> I w \<Longrightarrow> I w'"
  shows "keeps I (ingest env tenant object_type mode payload key)" "keeps I (batch_ingest env tenant object_type mode records key)"
    "keeps I (draw_id env)" "keeps I (create_upload env u)" "keeps I (update_upload env u)" "keeps I (start_upload env i now)"
proof -
  have by_snd: "keeps I m" if m: "\<And>w. in_deferred (snd (m w)) = in_deferred w" "\<And>w. in_jobs (snd (m w)) = in_jobs w"
    for m :: "(ingest_store, 'e, 'a) step"
    unfolding keeps_def by (intro allI impI, rule assms [OF m])
  have "in_deferred (snd (start_upload env i now w)) = in_deferred w \<and> in_jobs (snd (start_upload env i now w)) = in_jobs w" for w
    by (simp add: start_upload_def change_upload_def Let_def split: option.split)
  then show "keeps I (start_upload env i now)" by (intro by_snd) simp_all
  show "keeps I (ingest env tenant object_type mode payload key)" "keeps I (batch_ingest env tenant object_type mode records key)"
    by (rule by_snd; simp add: ingest_side)+
  show "keeps I (draw_id env)" "keeps I (create_upload env u)" "keeps I (update_upload env u)"
    by (rule by_snd; simp add: draw_id_def create_upload_def update_upload_def attempt_def change_upload_def)+
qed

lemma worker_enqueues: "\<not> ie_enqueues env \<Longrightarrow> keeps I (enqueue_ingest env j)"
  by (simp add: keeps_def enqueue_ingest_def)

lemma worker_upload:
  assumes "\<And>w w'. in_deferred w' = in_deferred w \<Longrightarrow> in_jobs w' = in_jobs w \<Longrightarrow> I w \<Longrightarrow> I w'" "\<not> ie_enqueues env"
  shows "keeps I (run_upload env i)"
proof -
  have "keeps I (retry_upload env u e)" for u e
    unfolding retry_upload_def by (auto intro!: keeps_transaction keeps_then_do keeps_side(5) [of I, OF assms(1)] worker_enqueues [OF assms(2)])
  then show ?thesis
    unfolding run_upload_def Let_def
    by (intro keeps_then_do keeps_side(6) [of I, OF assms(1)])
      (auto split: sum.split intro!: keeps_answered keeps_side(2,5) [of I, OF assms(1)])
qed

text \<open>Every job of a deferred ingest has its row, and at most one job.\<close>

definition jobs_known :: "ingest_store \<Rightarrow> bool" where
  "jobs_known w = (\<forall>i. count_list (in_jobs w) (DeferredJob i) \<le> (if find_deferred i w = None then 0 else 1))"

text \<open>A row that no job names.\<close>

definition abandoned :: "string \<Rightarrow> deferred_ingest \<Rightarrow> ingest_store \<Rightarrow> bool" where
  "abandoned i d w = (find_deferred i w = Some d \<and> DeferredJob i \<notin> set (in_jobs w))"

lemma find_change:
  assumes "\<And>d. df_id d = k \<Longrightarrow> df_id (f d) = k"
  shows "find_deferred i (change_deferred k f w) = (if i = k then map_option f (find_deferred i w) else find_deferred i w)"
proof -
  have "find (\<lambda>d. df_id d = i) (map (\<lambda>d. if df_id d = k then f d else d) ds) =
      (if i = k then map_option f (find (\<lambda>d. df_id d = i) ds) else find (\<lambda>d. df_id d = i) ds)" for ds
    using assms by (induction ds) auto
  then show ?thesis by (simp add: find_deferred_def change_deferred_def)
qed

lemma change_jobs [simp]: "in_jobs (change_deferred k f w) = in_jobs w"
  by (simp add: change_deferred_def)

text \<open>Changing other rows keeps both predicates.\<close>

lemma deferred_changes:
  assumes "\<And>w f. (\<And>d. df_id d = k \<Longrightarrow> df_id (f d) = k) \<Longrightarrow> I w \<Longrightarrow> I (change_deferred k f w)"
    and side: "\<And>w w'. in_deferred w' = in_deferred w \<Longrightarrow> in_jobs w' = in_jobs w \<Longrightarrow> I w \<Longrightarrow> I w'" and quiet: "\<not> ie_enqueues env"
  shows "keeps I (run_deferred env k)"
proof -
  have up: "keeps I (update_deferred env d)" if "df_id d = k" for d
    unfolding update_deferred_def that by (intro keeps_attempt assms(1)) simp_all
  have retry: "keeps I (retry_deferred env d e)" if "df_id d = k" for d e
    unfolding retry_deferred_def using that
    by (auto intro!: keeps_transaction keeps_then_do worker_enqueues [OF quiet] up)
  have rest: "keeps I (case df_payload d of Inl e \<Rightarrow> retry_deferred env d (msg e)
      | Inr payload \<Rightarrow> (\<lambda>w. case ingest env (df_tenant d) (df_type d) (df_mode d) payload (df_key d) w of
          (Inl e, w') \<Rightarrow> retry_deferred env d e w'
        | (Inr (Inl es), w') \<Rightarrow> update_deferred env
            (d\<lparr>df_status := ''failed'', df_error := Some (summarize es), df_completed := Some (ie_clock env)\<rparr>) w'
        | (Inr (Inr _), w') \<Rightarrow> update_deferred env
            (d\<lparr>df_status := ''completed'', df_error := None, df_completed := Some (ie_clock env)\<rparr>) w'))" if "df_id d = k" for d msg
    using that by (auto split: sum.split intro!: keeps_answered retry up keeps_side(1) [of I, OF side])
  show ?thesis
  proof (rule keepsI)
    fix w r w'
    assume w: "I w" "run_deferred env k w = (r, w')"
    obtain x w1 where st: "start_deferred env k (ie_clock env) w = (x, w1)" by fastforce
    have found: "df_id d = k" if "find (\<lambda>d. df_id d = k) ds = Some d" for d ds
      using that by (induction ds) (auto split: if_splits)
    have w1: "I w1 \<and> (\<forall>d. x = Inr d \<longrightarrow> df_id d = k)"
      using st w(1) assms(1) by (auto simp: start_deferred_def Let_def found split: if_splits option.splits)
    show "I w'"
    proof (cases x)
      case (Inl e)
      then show ?thesis using w(2) st w1 by (auto simp: run_deferred_def then_do_def)
    next
      case (Inr d)
      then show ?thesis using w(2) st w1 keepsD [OF rest [of d], of w1]
        by (auto simp: run_deferred_def then_do_def)
    qed
  qed
qed

lemma jobs_knownD: "jobs_known w \<Longrightarrow> count_list (in_jobs w) (DeferredJob i) \<le> (if find_deferred i w = None then 0 else 1)"
  by (auto simp only: jobs_known_def)

lemma known_side: "in_deferred w' = in_deferred w \<Longrightarrow> in_jobs w' = in_jobs w \<Longrightarrow> jobs_known w \<Longrightarrow> jobs_known w'"
  by (simp add: jobs_known_def find_deferred_def)

lemma abandoned_side: "in_deferred w' = in_deferred w \<Longrightarrow> in_jobs w' = in_jobs w \<Longrightarrow> abandoned i d w \<Longrightarrow> abandoned i d w'"
  by (simp add: abandoned_def find_deferred_def)

lemma known_change: "(\<And>d. df_id d = k \<Longrightarrow> df_id (f d) = k) \<Longrightarrow> jobs_known w \<Longrightarrow> jobs_known (change_deferred k f w)"
  unfolding jobs_known_def
proof
  fix i
  assume a: "\<And>d. df_id d = k \<Longrightarrow> df_id (f d) = k"
    and w: "\<forall>i. count_list (in_jobs w) (DeferredJob i) \<le> (if find_deferred i w = None then 0 else 1)"
  show "count_list (in_jobs (change_deferred k f w)) (DeferredJob i) \<le> (if find_deferred i (change_deferred k f w) = None then 0 else 1)"
    using w [THEN spec, of i] by (auto simp: find_change [of k f, OF a] split: if_splits)
qed

lemma abandoned_change: "k \<noteq> i \<Longrightarrow> (\<And>d. df_id d = k \<Longrightarrow> df_id (f d) = k) \<Longrightarrow> abandoned i d w \<Longrightarrow> abandoned i d (change_deferred k f w)"
  by (simp add: abandoned_def find_change)

lemma find_created:
  assumes "create_deferred env d w = (Inr (), w')"
  shows "find_deferred i w' = (if find_deferred i w = None \<and> i = df_id d then Some d else find_deferred i w)"
    "find_deferred (df_id d) w = None" "in_jobs w' = in_jobs w"
proof -
  have w': "w' = w\<lparr>in_deferred := in_deferred w @ [d]\<rparr>" "\<not> list_ex (\<lambda>x. df_id x = df_id d) (in_deferred w)"
    using assms by (auto simp: create_deferred_def split: if_splits)
  show "find_deferred i w' = (if find_deferred i w = None \<and> i = df_id d then Some d else find_deferred i w)"
    by (cases "find_deferred i w") (simp_all add: w' find_deferred_def find_append_None find_append_Some)
  show "find_deferred (df_id d) w = None" "in_jobs w' = in_jobs w" by (simp_all add: w' find_deferred_def find_None_ex)
qed

lemma enqueue_jobs: "enqueue_ingest env j w = (r, w') \<Longrightarrow> (in_jobs w' = in_jobs w \<or> in_jobs w' = in_jobs w @ [j]) \<and> in_deferred w' = in_deferred w"
  by (auto simp: enqueue_ingest_def split: if_splits)

text \<open>A deferred ingest that is created has a fresh identifier.\<close>

definition defers :: "ingest_store \<Rightarrow> ingest_store \<Rightarrow> bool" where
  "defers w w' = (\<exists>d. find_deferred (df_id d) w = None \<and>
     (\<forall>i. find_deferred i w' = (if i = df_id d then Some d else find_deferred i w)) \<and>
     (in_jobs w' = in_jobs w \<or> in_jobs w' = in_jobs w @ [DeferredJob (df_id d)]))"

lemma defer_effect:
  assumes "defer_ingest env tenant object_type mode payload key w = (r, w')"
  shows "(in_deferred w' = in_deferred w \<and> in_jobs w' = in_jobs w) \<or> defers w w'"
proof (cases r)
  case (Inl e)
  then show ?thesis using assms
    by (auto simp: defer_ingest_def then_do_Inl draw_id_def Let_def dest!: transaction_Inl)
next
  case (Inr x)
  let ?d = "\<lparr>df_id = ie_gen env (in_drawn w), df_tenant = tenant, df_type = object_type, df_mode = mode, df_status = ''queued'',
    df_attempts = 0, df_error = None, df_key = key, df_payload = Inr payload, df_requested = ie_clock env, df_started = None, df_completed = None\<rparr>"
  obtain w1 where c: "create_deferred env ?d (w\<lparr>in_drawn := Suc (in_drawn w)\<rparr>) = (Inr (), w1)"
    and q: "enqueue_ingest env (DeferredJob (ie_gen env (in_drawn w))) w1 = (Inr (), w')"
    using assms Inr by (auto simp: defer_ingest_def step_simps draw_id_def Let_def)
  have same: "find_deferred i (w\<lparr>in_drawn := n\<rparr>) = find_deferred i w" "find_deferred i w' = find_deferred i w1" for i n
    using enqueue_jobs [OF q] by (simp_all add: find_deferred_def)
  show ?thesis unfolding defers_def
    using find_created [OF c] enqueue_jobs [OF q] by (intro disjI2 exI [of _ ?d]) (auto simp: same)
qed

lemma defers_known: "defers w w' \<Longrightarrow> jobs_known w \<Longrightarrow> jobs_known w'"
  unfolding jobs_known_def [of w']
proof
  fix i
  assume d: "defers w w'" and w: "jobs_known w"
  show "count_list (in_jobs w') (DeferredJob i) \<le> (if find_deferred i w' = None then 0 else 1)"
  proof -
    obtain e where e: "find_deferred (df_id e) w = None"
      "find_deferred i w' = (if i = df_id e then Some e else find_deferred i w)"
      "in_jobs w' = in_jobs w \<or> in_jobs w' = in_jobs w @ [DeferredJob (df_id e)]"
      using d unfolding defers_def by blast
    show ?thesis using e jobs_knownD [OF w, of i] by (cases "i = df_id e") (auto split: if_splits)
  qed
qed

lemma defers_abandoned: "defers w w' \<Longrightarrow> abandoned i d w \<Longrightarrow> abandoned i d w'"
  unfolding defers_def abandoned_def by (elim exE conjE disjE) auto

lemma count_remove: "count_list (remove1 x xs) y = (if x = y then count_list xs y - 1 else count_list xs y)"
  by (induction xs) (auto simp: Suc_le_eq count_list_0_iff)

lemma fewer_jobs: "jobs_known w \<Longrightarrow> jobs_known (w\<lparr>in_jobs := remove1 j (in_jobs w)\<rparr>)"
  unfolding jobs_known_def [of "w\<lparr>in_jobs := remove1 j (in_jobs w)\<rparr>"]
proof
  fix i
  assume "jobs_known w"
  then show "count_list (in_jobs (w\<lparr>in_jobs := remove1 j (in_jobs w)\<rparr>)) (DeferredJob i)
      \<le> (if find_deferred i (w\<lparr>in_jobs := remove1 j (in_jobs w)\<rparr>) = None then 0 else 1)"
    using jobs_knownD [of w i] by (simp add: count_remove find_deferred_def split: if_splits)
qed

lemma fewer_jobs_abandoned: "abandoned i d w \<Longrightarrow> abandoned i d (w\<lparr>in_jobs := remove1 j (in_jobs w)\<rparr>)"
  by (auto simp: abandoned_def find_deferred_def dest: notin_set_remove1)

lemma upload_effect:
  assumes "create_upload_log env tenant object_type mode filename content_type body w = (r, w')"
  shows "in_deferred w' = in_deferred w" "in_jobs w' = in_jobs w \<or> (\<exists>i. in_jobs w' = in_jobs w @ [UploadJob i])"
proof -
  have "in_deferred w' = in_deferred w \<and> (in_jobs w' = in_jobs w \<or> (\<exists>i. in_jobs w' = in_jobs w @ [UploadJob i]))"
  proof (cases r)
    case (Inl e)
    then show ?thesis using assms
      by (auto simp: create_upload_log_def then_do_Inl draw_id_def Let_def dest!: transaction_Inl)
  next
    case (Inr x)
    then show ?thesis using assms enqueue_jobs
      by (fastforce simp: create_upload_log_def step_simps draw_id_def Let_def create_upload_def split: if_splits)
  qed
  then show "in_deferred w' = in_deferred w" "in_jobs w' = in_jobs w \<or> (\<exists>i. in_jobs w' = in_jobs w @ [UploadJob i])" by simp_all
qed

lemma work_effect:
  "in_deferred (work_ingest_job env j again v) = in_deferred (snd (run_job env j v))"
  "in_jobs (work_ingest_job env j again v) = in_jobs (snd (run_job env j v)) \<or>
   in_jobs (work_ingest_job env j again v) = remove1 j (in_jobs (snd (run_job env j v)))"
  by (simp_all add: work_ingest_job_def finish_job_def split: prod.split sum.split)

lemma worked_known: "jobs_known (snd (run_job env j v)) \<Longrightarrow> jobs_known (work_ingest_job env j again v)"
  using work_effect [where env = env and j = j and again = again and v = v] known_side [of "work_ingest_job env j again v" "snd (run_job env j v)"]
    known_side [of "work_ingest_job env j again v" "snd (run_job env j v)\<lparr>in_jobs := remove1 j (in_jobs (snd (run_job env j v)))\<rparr>"]
    fewer_jobs [of "snd (run_job env j v)" j] by auto

lemma worked_abandoned: "abandoned i d (snd (run_job env j v)) \<Longrightarrow> abandoned i d (work_ingest_job env j again v)"
  using work_effect [where env = env and j = j and again = again and v = v] abandoned_side [of "work_ingest_job env j again v" "snd (run_job env j v)" i d]
    abandoned_side [of "work_ingest_job env j again v" "snd (run_job env j v)\<lparr>in_jobs := remove1 j (in_jobs (snd (run_job env j v)))\<rparr>" i d]
    fewer_jobs_abandoned [of i d "snd (run_job env j v)" j] by auto

lemma moved_known: "ingest_move w w' \<Longrightarrow> jobs_known w \<Longrightarrow> jobs_known w'"
proof (erule ingest_move.cases, goal_cases)
  case (1 v env tenant object_type mode payload key)
  then show ?case using known_side [OF ingest_side(1,2)] by blast
next
  case (2 v env tenant object_type mode records key)
  then show ?case using known_side [OF ingest_side(3,4)] by blast
next
  case (3 v env tenant object_type mode payload key)
  then show ?case using defer_effect [OF surjective_pairing] defers_known known_side by blast
next
  case (4 v env tenant object_type mode filename content_type body)
  then show ?case using upload_effect [OF surjective_pairing, of env tenant object_type mode filename content_type body v]
    by (fastforce simp: jobs_known_def find_deferred_def)
next
  case (5 j v env again)
  have "keeps jobs_known (run_deferred env k)" for k
    by (rule deferred_changes [of k jobs_known, OF known_change known_side 5(5)])
  moreover have "keeps jobs_known (run_upload env k)" for k
    by (rule worker_upload [of jobs_known, OF known_side 5(5)])
  ultimately have "keeps jobs_known (run_job env j)" by (cases j) (simp_all add: run_job_def)
  then have "jobs_known (snd (run_job env j v))" using 5 by (auto intro: keeps_snd)
  then show ?case using 5 worked_known by simp
qed

lemma moved_abandoned: "ingest_move w w' \<Longrightarrow> abandoned i d w \<Longrightarrow> abandoned i d w'"
proof (erule ingest_move.cases, goal_cases)
  case (1 v env tenant object_type mode payload key)
  then show ?case using abandoned_side [OF ingest_side(1,2)] by blast
next
  case (2 v env tenant object_type mode records key)
  then show ?case using abandoned_side [OF ingest_side(3,4)] by blast
next
  case (3 v env tenant object_type mode payload key)
  then show ?case using defer_effect [OF surjective_pairing] defers_abandoned abandoned_side by blast
next
  case (4 v env tenant object_type mode filename content_type body)
  then show ?case using upload_effect [OF surjective_pairing, of env tenant object_type mode filename content_type body v]
    by (fastforce simp: abandoned_def find_deferred_def)
next
  case (5 j v env again)
  have j: "j \<noteq> DeferredJob i" using 5 by (auto simp: abandoned_def)
  have "keeps (abandoned i d) (run_job env j)"
  proof (cases j)
    case (UploadJob k)
    have "keeps (abandoned i d) (run_upload env k)"
      by (rule worker_upload [of "abandoned i d", OF abandoned_side 5(5)])
    then show ?thesis using UploadJob by (simp add: run_job_def)
  next
    case (DeferredJob k)
    have "keeps (abandoned i d) (run_deferred env k)"
    proof (rule deferred_changes [of k "abandoned i d", OF _ abandoned_side 5(5)])
      show "abandoned i d (change_deferred k f w)" if "\<And>d. df_id d = k \<Longrightarrow> df_id (f d) = k" "abandoned i d w" for w f
        using abandoned_change [of k i f d w] that j DeferredJob by blast
    qed
    then show ?thesis using DeferredJob by (simp add: run_job_def)
  qed
  then have "abandoned i d (snd (run_job env j v))" using 5 by (auto intro: keeps_snd)
  then show ?case using 5 worked_abandoned by simp
qed


subsection \<open>Examples\<close>


definition shop_record :: field_map where
  "shop_record = fst (validate_record shop_model ''transactions'' shop_payload ''create'')"

lemma shop_record_valid: "validate_record shop_model ''transactions'' shop_payload ''create'' = (shop_record, ''t1'', [])"
  unfolding shop_record_def by code_simp



text \<open>While the published model cannot be read, the only attempt of a deferred ingest fails.\<close>

definition down_env :: ingest_env where
  "down_env = shop_env\<lparr>ie_model := (\<lambda>_ _. Inl ''unavailable''), ie_enqueues := False\<rparr>"

definition shop_deferred :: ingest_store where
  "shop_deferred = snd (defer_ingest shop_env ''4b-2'' ''transactions'' ''create'' shop_payload None empty_ingest)"


end
