(* ===== verification/Ingest_Filter.thy ===== *)
theory Ingest_Filter
  imports Ingest_Model Aggregate_Compiler
begin

text \<open>
  Aggregate queries in the ingestion service: the checks of \<^verbatim>\<open>domain/ingestion/aggregate.go\<close> and the SQL text of
  \<^verbatim>\<open>store/postgres/tenant_data_reader.go\<close>. A filter is the decision engine's \<open>agg_filter\<close>, whose JSON form the
  two services share.
\<close>

subsection \<open>Limits\<close>

definition clean :: "string \<Rightarrow> string" where
  "clean s = to_lower (trim_space s)"

definition filter_depth_limit :: nat where "filter_depth_limit = 5"
definition filter_nodes_limit :: nat where "filter_nodes_limit = 50"
definition group_children_limit :: nat where "group_children_limit = 20"
definition in_list_limit :: nat where "in_list_limit = 100"

definition group_operators :: "string list" where
  "group_operators = [''and'', ''or'', ''not'']"

definition predicate_operators :: "string list" where
  "predicate_operators = [''eq'', ''neq'', ''gt'', ''gte'', ''lt'', ''lte'', ''in'', ''is_null'', ''is_not_null'', ''starts_with'']"

text \<open>\<^verbatim>\<open>aggregateFilterStats\<close>: nodes counted and the greatest depth.\<close>

type_synonym filter_stats = "nat \<times> nat"

fun measure_filter :: "nat \<Rightarrow> agg_filter \<Rightarrow> filter_stats \<Rightarrow> filter_stats"
  and measure_filters :: "nat \<Rightarrow> agg_filter list \<Rightarrow> filter_stats \<Rightarrow> filter_stats" where
  "measure_filter depth (AggFilter k opr cs f p v) st = measure_filters (Suc depth) cs (Suc (fst st), max (snd st) depth)"
| "measure_filters depth [] st = st"
| "measure_filters depth (c # cs) st = measure_filters depth cs (measure_filter depth c st)"

text \<open>The default of a kind and of an operator.\<close>

definition kind_of :: "string \<Rightarrow> string" where
  "kind_of k = (if clean k = [] then ''group'' else clean k)"

definition operator_of :: "string \<Rightarrow> string" where
  "operator_of opr = (if clean opr = [] then ''and'' else clean opr)"

definition check_group :: "string \<Rightarrow> nat \<Rightarrow> unit res" where
  "check_group opr children =
     (if operator_of opr \<notin> set group_operators
      then Inl (''aggregate filter group operator '' @ str_quote opr @ '' is not supported for pushdown'')
      else if group_children_limit < children then Inl ''aggregate filter group exceeds the maximum supported child count of 20''
      else if operator_of opr = ''not'' \<and> children \<noteq> 1 then Inl ''aggregate not filter expects exactly one child''
      else Inr ())"

definition check_predicate :: "string \<Rightarrow> gval \<Rightarrow> unit res" where
  "check_predicate p v =
     (if clean p \<notin> set predicate_operators
      then Inl (''aggregate filter operator '' @ str_quote p @ '' is not supported for pushdown'')
      else if clean p = ''in'' then
        (case v of VList items \<Rightarrow>
            if in_list_limit < length items then Inl ''aggregate in filter exceeds the maximum supported size of 100 items'' else Inr ()
         | _ \<Rightarrow> Inl ''aggregate in filter expects a list value'')
      else Inr ())"

text \<open>\<^verbatim>\<open>validateAggregateFilter\<close>: every visit measures the whole subtree again.\<close>

fun check_filter :: "nat \<Rightarrow> agg_filter \<Rightarrow> filter_stats \<Rightarrow> filter_stats res"
  and check_filters :: "nat \<Rightarrow> agg_filter list \<Rightarrow> filter_stats \<Rightarrow> filter_stats res" where
  "check_filter depth (AggFilter k opr cs f p v) st =
     (if filter_depth_limit < depth then Inl ''aggregate filter exceeds the maximum supported depth of 5''
      else (let st' = measure_filter depth (AggFilter k opr cs f p v) st in
        if kind_of k = ''group'' then bind_r (check_group opr (length cs)) (\<lambda>_. check_filters (Suc depth) cs st')
        else if kind_of k = ''predicate'' then bind_r (check_predicate p v) (\<lambda>_. Inr st')
        else Inl (''filter kind '' @ str_quote k @ '' is not supported'')))"
| "check_filters depth [] st = Inr st"
| "check_filters depth (c # cs) st = bind_r (check_filter depth c st) (check_filters depth cs)"

text \<open>\<^verbatim>\<open>ValidateAggregateQuery\<close>\<close>

definition check_query :: "agg_query \<Rightarrow> unit res" where
  "check_query q =
     (if trim_space (aq_object_type q) = [] then Inl ''object_type is required''
      else if trim_space (aq_aggregate q) = [] then Inl ''aggregate is required''
      else (case aq_filter q of None \<Rightarrow> Inr ()
        | Some f \<Rightarrow> bind_r (check_filter 1 f (0, 0)) (\<lambda>st.
            if filter_nodes_limit < fst st then Inl ''aggregate filter exceeds the maximum supported size of 50 nodes'' else Inr ())))"

text \<open>\<^verbatim>\<open>MeasureAggregateQueryShape\<close>: depth and nodes.\<close>

definition query_shape :: "agg_query \<Rightarrow> nat \<times> nat" where
  "query_shape q = (case aq_filter q of None \<Rightarrow> (0, 0)
     | Some f \<Rightarrow> let st = measure_filter 1 f (0, 0) in (snd st, fst st))"

text \<open>\<^verbatim>\<open>normalizeAggregateFilterShape\<close>, \<^verbatim>\<open>NormalizedAggregateQueryShapeKey\<close>\<close>

fun insert_str :: "string \<Rightarrow> string list \<Rightarrow> string list" where
  "insert_str s [] = [s]"
| "insert_str s (t # ts) = (if str_less t s then t # insert_str s ts else s # t # ts)"

definition sort_strs :: "string list \<Rightarrow> string list" where
  "sort_strs ss = foldr insert_str ss []"

fun filter_shape :: "agg_filter \<Rightarrow> string" where
  "filter_shape (AggFilter k opr cs f p v) =
     (if kind_of k = ''predicate'' then ''predicate:'' @ clean f @ '':'' @ clean p
      else ''group:'' @ operator_of opr @ ''('' @ join_with '','' (sort_strs (map filter_shape cs)) @ '')'')"

definition query_shape_key :: "agg_query \<Rightarrow> string" where
  "query_shape_key q =
     (let parts = [clean (aq_object_type q), clean (aq_aggregate q), clean (aq_field q)] in
      case aq_filter q of None \<Rightarrow> join_with ''|'' parts | Some f \<Rightarrow> join_with ''|'' (parts @ [filter_shape f]))"

subsection \<open>The SQL text\<close>

text \<open>\<^verbatim>\<open>sanitizeIdentifier\<close>\<close>

definition sanitize_identifier :: "string list \<Rightarrow> string" where
  "sanitize_identifier parts = join_with ''.'' (map (\<lambda>p. str_quote (replace_all p [CHR 0x22] [CHR 0x22, CHR 0x22])) parts)"

definition aggregate_expression :: "string \<Rightarrow> string \<Rightarrow> string res" where
  "aggregate_expression name field =
     (let c = sanitize_identifier [field]; n = clean name in
      if n = ''count'' then Inr (''COUNT('' @ c @ '')'')
      else if n = ''count_distinct'' then Inr (''COUNT(DISTINCT '' @ c @ '')'')
      else if n = ''sum'' then Inr (''COALESCE(SUM('' @ c @ ''), 0)'')
      else if n = ''avg'' then Inr (''AVG('' @ c @ '')'')
      else if n = ''min'' then Inr (''MIN('' @ c @ '')'')
      else if n = ''max'' then Inr (''MAX('' @ c @ '')'')
      else Inl (''aggregate '' @ str_quote name @ '' is not supported''))"

definition placeholder :: "nat \<Rightarrow> string" where
  "placeholder n = ''$'' @ itoa (int n)"

definition compare_sign :: "string \<Rightarrow> string option" where
  "compare_sign op =
     (if op = ''eq'' then Some ''='' else if op = ''neq'' then Some ''<>'' else if op = ''gt'' then Some ''>''
      else if op = ''gte'' then Some ''>='' else if op = ''lt'' then Some ''<'' else if op = ''lte'' then Some ''<='' else None)"

definition available :: "published_model \<Rightarrow> object_schema \<Rightarrow> string \<Rightarrow> bool" where
  "available m t field = (map_of (os_fields t) field \<noteq> None \<or> field = pm_lookup m)"

definition unavailable_message :: "string \<Rightarrow> string \<Rightarrow> string" where
  "unavailable_message field object_type = ''field '' @ field @ '' is not available on object type '' @ object_type"

text \<open>\<^verbatim>\<open>buildAggregatePredicateSQL\<close>; the argument list is the one the code appends to.\<close>

definition predicate_text :: "string \<Rightarrow> string \<Rightarrow> string \<Rightarrow> gval \<Rightarrow> gval list \<Rightarrow> (string \<times> gval list) res" where
  "predicate_text column p op v args =
     (case compare_sign op of Some sign \<Rightarrow> Inr (column @ '' '' @ sign @ '' '' @ placeholder (Suc (length args)), args @ [v])
      | None \<Rightarrow>
        if op = ''in'' then
          (case v of VList items \<Rightarrow>
              if items = [] then Inl ''in filter expects a non-empty list value''
              else Inr (column @ '' IN ('' @ join_with '', '' (map (\<lambda>i. placeholder (Suc (length args + i))) [0..<length items]) @ '')'',
                        args @ items)
           | _ \<Rightarrow> Inl ''in filter expects a non-empty list value'')
        else if op = ''is_null'' then Inr (column @ '' IS NULL'', args)
        else if op = ''is_not_null'' then Inr (column @ '' IS NOT NULL'', args)
        else if op = ''starts_with'' then
          Inr (column @ '' LIKE ('' @ placeholder (Suc (length args)) @ '' || '' @ [CHR 0x27, CHR 0x25, CHR 0x27] @ '')'', args @ [v])
        else Inl (''filter operator '' @ str_quote p @ '' is not supported''))"

definition predicate_sql :: "published_model \<Rightarrow> object_schema \<Rightarrow> string \<Rightarrow> string \<Rightarrow> gval \<Rightarrow> gval list \<Rightarrow> (string \<times> gval list) res" where
  "predicate_sql m t f p v args =
     (let field = trim_space f in
      if field = [] then Inl ''filter field is required''
      else if \<not> available m t field then Inl (unavailable_message field (os_name t))
      else predicate_text (sanitize_identifier [field]) p (clean p) v args)"

text \<open>\<^verbatim>\<open>buildAggregateFilterSQL\<close>; a group drops the children without a text.\<close>

fun filter_sql :: "published_model \<Rightarrow> object_schema \<Rightarrow> agg_filter \<Rightarrow> gval list \<Rightarrow> (string \<times> gval list) res"
  and filters_sql :: "published_model \<Rightarrow> object_schema \<Rightarrow> agg_filter list \<Rightarrow> gval list \<Rightarrow> (string list \<times> gval list) res" where
  "filter_sql m t (AggFilter k opr cs f p v) args =
     (if kind_of k = ''group'' then
        (if operator_of opr = ''and'' \<or> operator_of opr = ''or'' then
           bind_r (filters_sql m t cs args) (\<lambda>(parts, args').
             Inr (join_with ('' '' @ to_upper (operator_of opr) @ '' '') parts, args'))
         else if operator_of opr = ''not'' then
           (case cs of [c] \<Rightarrow> bind_r (filter_sql m t c args) (\<lambda>(part, args').
                Inr (if part = [] then [] else ''NOT ('' @ part @ '')'', args'))
            | _ \<Rightarrow> Inl (''filter group operator '' @ str_quote opr @ '' expects exactly one child''))
         else Inl (''filter group operator '' @ str_quote opr @ '' is not supported''))
      else if kind_of k = ''predicate'' then predicate_sql m t f p v args
      else Inl (''filter kind '' @ str_quote k @ '' is not supported''))"
| "filters_sql m t [] args = Inr ([], args)"
| "filters_sql m t (c # cs) args =
     bind_r (filter_sql m t c args) (\<lambda>(part, args').
     bind_r (filters_sql m t cs args') (\<lambda>(parts, args'').
       Inr (if part = [] then parts else (''('' @ part @ '')'') # parts, args'')))"

text \<open>\<^verbatim>\<open>AggregateRecords\<close> up to the query: text and arguments.\<close>

definition aggregate_sql :: "published_model \<Rightarrow> agg_query \<Rightarrow> (string \<times> gval list) res" where
  "aggregate_sql m q =
     (case map_of (pm_tables m) (aq_object_type q) of
        None \<Rightarrow> Inl (''object type '' @ aq_object_type q @ '' is not available'')
      | Some t \<Rightarrow>
          (let field = trim_space (aq_field q) in
           if field = [] then Inl ''field is required''
           else if \<not> available m t field then Inl (unavailable_message field (aq_object_type q))
           else bind_r (aggregate_expression (trim_space (aq_aggregate q)) field) (\<lambda>expr.
                bind_r (case aq_filter q of None \<Rightarrow> Inr ([], []) | Some f \<Rightarrow> filter_sql m t f []) (\<lambda>(built, args).
                  Inr (''SELECT '' @ expr @ '' FROM '' @ sanitize_identifier [schema_name m, os_name t]
                       @ (if built = [] then [] else '' WHERE '' @ built), args)))))"

end
