(* ===== verification/Ingest_Filter_Laws.thy ===== *)
theory Ingest_Filter_Laws
  imports Ingest_Filter
begin

text \<open>
  What the ingestion service accepts as an aggregate query, and what the SQL condition it builds selects: the
  text is the rendering of a condition tree, and on rows whose values the database compares as the decision
  engine does, the condition is true exactly when the engine's filter matches.
\<close>

subsection \<open>The limits\<close>

fun filter_nodes :: "agg_filter \<Rightarrow> nat" where
  "filter_nodes (AggFilter k opr cs f p v) = Suc (sum_list (map filter_nodes cs))"

fun filter_height :: "agg_filter \<Rightarrow> nat" where
  "filter_height (AggFilter k opr cs f p v) = Suc (foldr max (map filter_height cs) 0)"

text \<open>Sound with at most so many levels; only the children of groups are looked at.\<close>

fun filter_sound :: "nat \<Rightarrow> agg_filter \<Rightarrow> bool" where
  "filter_sound levels (AggFilter k opr cs f p v) =
     (0 < levels \<and>
      (if kind_of k = ''group'' then check_group opr (length cs) = Inr () \<and> list_all (filter_sound (levels - 1)) cs
       else kind_of k = ''predicate'' \<and> check_predicate p v = Inr ()))"

text \<open>What the check counts: every visited node counts its whole subtree.\<close>

fun charged_nodes :: "agg_filter \<Rightarrow> nat" where
  "charged_nodes (AggFilter k opr cs f p v) = filter_nodes (AggFilter k opr cs f p v)
     + (if kind_of k = ''group'' then sum_list (map charged_nodes cs) else 0)"

lemma measure_counts:
  "fst (measure_filter depth f st) = fst st + filter_nodes f"
  "fst (measure_filters depth cs st) = fst st + sum_list (map filter_nodes cs)"
  by (induction depth f st and depth cs st rule: measure_filter_measure_filters.induct) auto

lemma measure_depth:
  "snd (measure_filter depth f st) = max (snd st) (depth + filter_height f - 1)"
  "snd (measure_filters depth cs st) = (if cs = [] then snd st else max (snd st) (depth + foldr max (map filter_height cs) 0 - 1))"
proof (induction depth f st and depth cs st rule: measure_filter_measure_filters.induct)
  case (1 depth k opr cs f p v st)
  then show ?case by (cases cs) (auto simp: max_def)
next
  case (3 depth c cs st)
  have "0 < filter_height c" by (cases c) simp
  then show ?case using 3 by (cases cs) (auto simp: max_def)
qed simp

lemma query_shape_exact:
  "query_shape q = (case aq_filter q of None \<Rightarrow> (0, 0) | Some f \<Rightarrow> (filter_height f, filter_nodes f))"
proof (cases "aq_filter q")
  case (Some f)
  have "0 < filter_height f" by (cases f) simp
  then show ?thesis using Some by (simp add: query_shape_def Let_def measure_counts measure_depth)
qed (simp add: query_shape_def)

lemma unit_res: "(m :: unit res) = Inr u \<longleftrightarrow> m = Inr ()"
  by (cases m) auto

lemma check_filter_sound:
  "(\<exists>st'. check_filter depth f st = Inr st') = filter_sound (Suc filter_depth_limit - depth) f"
  "(\<exists>st'. check_filters depth cs st = Inr st') = list_all (filter_sound (Suc filter_depth_limit - depth)) cs"
proof (induction depth f st and depth cs st rule: check_filter_check_filters.induct)
  case (1 depth k opr cs f p v st)
  then show ?case
    by (cases "kind_of k = ''group''"; cases "check_group opr (length cs)"; cases "check_predicate p v")
      (auto simp: filter_depth_limit_def)
next
  case (3 depth c cs st)
  show ?case
  proof (cases "check_filter depth c st")
    case (Inl e)
    then show ?thesis using 3(1) by auto
  next
    case (Inr st')
    then show ?thesis using 3(1) 3(2) [OF Inr] by auto
  qed
qed simp

lemma check_filter_count:
  "check_filter depth f st = Inr st' \<Longrightarrow> fst st' = fst st + charged_nodes f"
  "check_filters depth cs st = Inr st' \<Longrightarrow> fst st' = fst st + sum_list (map charged_nodes cs)"
proof (induction depth f st and depth cs st arbitrary: st' and st' rule: check_filter_check_filters.induct)
  case (1 depth k opr cs f p v st)
  then show ?case
    by (auto simp: result_simps measure_counts Let_def split: if_splits)
next
  case (3 depth c cs st)
  then obtain st1 where c: "check_filter depth c st = Inr st1" "check_filters depth cs st1 = Inr st'" by (auto simp: result_simps)
  show ?case using 3(1) [OF c(1)] 3(2) [OF c] by simp
qed simp

lemma filter_nodes_charged: "filter_nodes f \<le> charged_nodes f"
  by (cases f) simp

text \<open>C33. An aggregate query is accepted exactly when its object type and aggregate are not
  blank and its filter is sound on at most five levels and charged with at most fifty nodes, where
  each node is charged once for every level above it and itself: the recursive walk with its early
  exits and running counter decides that.\<close>

theorem query_accepted:
  "check_query q = Inr () \<longleftrightarrow>
     trim_space (aq_object_type q) \<noteq> [] \<and> trim_space (aq_aggregate q) \<noteq> [] \<and>
     (case aq_filter q of None \<Rightarrow> True | Some f \<Rightarrow> filter_sound filter_depth_limit f \<and> charged_nodes f \<le> filter_nodes_limit)"
proof (cases "aq_filter q")
  case None
  then show ?thesis by (simp add: check_query_def)
next
  case (Some f)
  have s: "(\<exists>st. check_filter 1 f (0, 0) = Inr st) = filter_sound filter_depth_limit f"
    using check_filter_sound(1) [of 1 f "(0, 0)"] by simp
  show ?thesis
  proof (cases "check_filter 1 f (0, 0)")
    case (Inl e)
    then show ?thesis using s Some by (auto simp: check_query_def)
  next
    case (Inr st)
    then have "fst st = charged_nodes f" using check_filter_count(1) by fastforce
    then show ?thesis using s Some Inr by (auto simp: check_query_def)
  qed
qed

text \<open>A filter of 19 nodes on three levels is refused as larger than 50.\<close>

definition small_filter :: agg_filter where
  "small_filter = AggFilter ''group'' ''and''
     (replicate 2 (AggFilter ''group'' ''or'' (replicate 8 (AggFilter ''predicate'' [] [] ''amount'' ''eq'' (VFloat (FRat 1)))) [] [] VNil)) [] [] VNil"

lemma small_filter_refused:
  "filter_nodes small_filter = 19 \<and> filter_height small_filter = 3 \<and> filter_sound filter_depth_limit small_filter \<and>
   check_query \<lparr>aq_object_type = ''transactions'', aq_aggregate = ''count'', aq_field = ''amount'', aq_filter = Some small_filter\<rparr>
     = Inl ''aggregate filter exceeds the maximum supported size of 50 nodes''"
  by code_simp

subsection \<open>The condition tree\<close>

datatype sql_cond =
    SqlCompare string string nat
  | SqlIn string nat nat
  | SqlNull string bool
  | SqlPrefix string nat
  | SqlNot sql_cond
  | SqlGroup string "sql_cond list"

definition column :: "string \<Rightarrow> string" where
  "column field = sanitize_identifier [field]"

fun render :: "sql_cond \<Rightarrow> string" where
  "render (SqlCompare field op n) = column field @ '' '' @ the (compare_sign op) @ '' '' @ placeholder (Suc n)"
| "render (SqlIn field n k) = column field @ '' IN ('' @ join_with '', '' (map (\<lambda>i. placeholder (Suc (n + i))) [0..<k]) @ '')''"
| "render (SqlNull field b) = column field @ (if b then '' IS NULL'' else '' IS NOT NULL'')"
| "render (SqlPrefix field n) = column field @ '' LIKE ('' @ placeholder (Suc n) @ '' || '' @ [CHR 0x27, CHR 0x25, CHR 0x27] @ '')''"
| "render (SqlNot c) = ''NOT ('' @ render c @ '')''"
| "render (SqlGroup op cs) = join_with ('' '' @ to_upper op @ '' '') (map (\<lambda>c. ''('' @ render c @ '')'') cs)"

definition predicate_cond :: "string \<Rightarrow> string \<Rightarrow> gval \<Rightarrow> gval list \<Rightarrow> (sql_cond \<times> gval list) option" where
  "predicate_cond field op v args =
     (if compare_sign op \<noteq> None then Some (SqlCompare field op (length args), args @ [v])
      else if op = ''in'' then
        (case v of VList items \<Rightarrow> if items = [] then None else Some (SqlIn field (length args) (length items), args @ items) | _ \<Rightarrow> None)
      else if op = ''is_null'' then Some (SqlNull field True, args)
      else if op = ''is_not_null'' then Some (SqlNull field False, args)
      else if op = ''starts_with'' then Some (SqlPrefix field (length args), args @ [v])
      else None)"

text \<open>The tree of a filter whose text is built, and no tree for an empty text.\<close>

fun filter_cond :: "agg_filter \<Rightarrow> gval list \<Rightarrow> sql_cond option \<times> gval list"
  and filters_cond :: "agg_filter list \<Rightarrow> gval list \<Rightarrow> sql_cond list \<times> gval list" where
  "filter_cond (AggFilter k opr cs f p v) args =
     (if kind_of k = ''group'' then
        (if operator_of opr = ''not'' then
           (case cs of [c] \<Rightarrow> (let r = filter_cond c args in (map_option SqlNot (fst r), snd r)) | _ \<Rightarrow> (None, args))
         else (let r = filters_cond cs args in (if fst r = [] then None else Some (SqlGroup (operator_of opr) (fst r)), snd r)))
      else (case predicate_cond (trim_space f) (clean p) v args of None \<Rightarrow> (None, args) | Some (c, args') \<Rightarrow> (Some c, args')))"
| "filters_cond [] args = ([], args)"
| "filters_cond (c # cs) args =
     (let r = filter_cond c args; rs = filters_cond cs (snd r)
      in ((case fst r of None \<Rightarrow> fst rs | Some x \<Rightarrow> x # fst rs), snd rs))"

lemma str_quote_neq: "str_quote s \<noteq> []"
  by (simp add: str_quote_def)

lemma column_neq: "column f \<noteq> []"
  by (simp add: column_def sanitize_identifier_def str_quote_neq)

lemma join_with_neq: "ws \<noteq> [] \<Longrightarrow> [] \<notin> set ws \<Longrightarrow> join_with sep ws \<noteq> []"
  by (induction sep ws rule: join_with.induct) auto

text \<open>No group of a tree is empty.\<close>

fun full :: "sql_cond \<Rightarrow> bool" where
  "full (SqlNot c) = full c"
| "full (SqlGroup op cs) = (cs \<noteq> [] \<and> list_all full cs)"
| "full _ = True"

lemma render_neq: "full c \<Longrightarrow> render c \<noteq> []"
proof (cases c)
  case (SqlGroup op cs)
  then show "full c \<Longrightarrow> render c \<noteq> []" using join_with_neq [of "map (\<lambda>c. ''('' @ render c @ '')'') cs"] by auto
qed (simp_all add: column_neq)

definition text_of :: "sql_cond option \<Rightarrow> string" where
  "text_of c = (case c of None \<Rightarrow> [] | Some x \<Rightarrow> render x)"

lemma predicate_text_renders:
  "predicate_text (column field) p op v args = Inr (part, args') \<Longrightarrow>
     \<exists>c. predicate_cond field op v args = Some (c, args') \<and> full c \<and> part = render c"
  by (cases "compare_sign op")
    (auto simp: predicate_text_def predicate_cond_def split: if_splits gval.splits)

lemma filter_sql_renders:
  "filter_sql m t f args = Inr (part, args') \<Longrightarrow>
     snd (filter_cond f args) = args' \<and> part = text_of (fst (filter_cond f args)) \<and> pred_option full (fst (filter_cond f args))"
  "filters_sql m t cs args = Inr (parts, args') \<Longrightarrow>
     snd (filters_cond cs args) = args' \<and> parts = map (\<lambda>c. ''('' @ render c @ '')'') (fst (filters_cond cs args)) \<and>
     list_all full (fst (filters_cond cs args))"
proof (induction m t f args and m t cs args arbitrary: part args' and parts args' rule: filter_sql_filters_sql.induct)
  case (1 m t k opr cs f p v args)
  show ?case
  proof (cases "kind_of k = ''group''")
    case group: True
    show ?thesis
    proof (cases "operator_of opr = ''not''")
      case True
      obtain c where cs: "cs = [c]" using 1(3) group True by (auto split: list.splits)
      obtain part0 where c: "filter_sql m t c args = Inr (part0, args')" "part = (if part0 = [] then [] else ''NOT ('' @ part0 @ '')'')"
        using 1(3) group True cs by (auto simp: result_simps)
      have ih: "snd (filter_cond c args) = args'" "part0 = text_of (fst (filter_cond c args))" "pred_option full (fst (filter_cond c args))"
        using 1(2) [OF group _ True _ refl c(1)] True cs by simp_all
      show ?thesis using group True cs c(2) ih
        by (cases "fst (filter_cond c args)") (auto simp: text_of_def Let_def render_neq)
    next
      case False
      then have op: "operator_of opr = ''and'' \<or> operator_of opr = ''or''" using 1(3) group by (auto split: if_splits)
      then obtain parts where cs: "filters_sql m t cs args = Inr (parts, args')"
        "part = join_with ('' '' @ to_upper (operator_of opr) @ '' '') parts"
        using 1(3) group by (auto simp: result_simps)
      show ?thesis using 1(1) [OF group op cs(1)] group False cs(2) by (auto simp: text_of_def Let_def)
    qed
  next
    case False
    then have "kind_of k = ''predicate''" "predicate_sql m t f p v args = Inr (part, args')"
      using 1(3) by (auto split: if_splits)
    then have "predicate_text (column (trim_space f)) p (clean p) v args = Inr (part, args')"
      by (auto simp: predicate_sql_def column_def Let_def split: if_splits)
    from predicate_text_renders [OF this] show ?thesis using False by (auto simp: text_of_def)
  qed
next
  case (2 m t args)
  then show ?case by simp
next
  case (3 m t c cs args)
  obtain part args1 rest where c: "filter_sql m t c args = Inr (part, args1)" and cs: "filters_sql m t cs args1 = Inr (rest, args')"
    and parts: "parts = (if part = [] then rest else (''('' @ part @ '')'') # rest)"
    using 3(3) by (auto simp: result_simps)
  show ?case using 3(1) [OF c] 3(2) [OF c refl cs] parts
    by (cases "fst (filter_cond c args)") (auto simp: text_of_def Let_def render_neq)
qed

subsection \<open>What the condition selects\<close>

text \<open>The database's comparison of two values that are not NULL, and its \<^verbatim>\<open>LIKE\<close> with a prefix pattern. A value that
  is \<open>VNil\<close> is NULL; a condition has three truth values.\<close>

record sql_ops =
  so_compare :: "string \<Rightarrow> gval \<Rightarrow> gval \<Rightarrow> bool"
  so_prefix :: "gval \<Rightarrow> gval \<Rightarrow> bool"

definition strict2 :: "(gval \<Rightarrow> gval \<Rightarrow> bool) \<Rightarrow> gval \<Rightarrow> gval \<Rightarrow> bool option" where
  "strict2 test a b = (if a = VNil \<or> b = VNil then None else Some (test a b))"

definition and3 :: "bool option list \<Rightarrow> bool option" where
  "and3 bs = (if Some False \<in> set bs then Some False else if None \<in> set bs then None else Some True)"

definition or3 :: "bool option list \<Rightarrow> bool option" where
  "or3 bs = (if Some True \<in> set bs then Some True else if None \<in> set bs then None else Some False)"

fun cond_value :: "sql_ops \<Rightarrow> field_map \<Rightarrow> gval list \<Rightarrow> sql_cond \<Rightarrow> bool option" where
  "cond_value ops row args (SqlCompare field op n) = strict2 (so_compare ops op) (field_of row field) (args ! n)"
| "cond_value ops row args (SqlIn field n k) =
     or3 (map (strict2 (so_compare ops ''eq'') (field_of row field)) (take k (drop n args)))"
| "cond_value ops row args (SqlNull field b) = Some ((field_of row field = VNil) = b)"
| "cond_value ops row args (SqlPrefix field n) = strict2 (so_prefix ops) (field_of row field) (args ! n)"
| "cond_value ops row args (SqlNot c) = map_option Not (cond_value ops row args c)"
| "cond_value ops row args (SqlGroup op cs) =
     (if op = ''or'' then or3 (map (cond_value ops row args) cs) else and3 (map (cond_value ops row args) cs))"

text \<open>The rows of the query: all when there is no condition.\<close>

definition selects :: "sql_ops \<Rightarrow> field_map \<Rightarrow> sql_cond option \<times> gval list \<Rightarrow> bool" where
  "selects ops row r = (case fst r of None \<Rightarrow> True | Some c \<Rightarrow> cond_value ops row (snd r) c = Some True)"

text \<open>A predicate both services read the same way on a row: its values are not NULL and the database compares
  them as the engine does.\<close>

definition agreed_predicate :: "sql_ops \<Rightarrow> field_map \<Rightarrow> string \<Rightarrow> string \<Rightarrow> gval \<Rightarrow> bool" where
  "agreed_predicate ops row f p v =
     (field_of row f \<noteq> VNil \<and>
      (if p = ''in'' then (case v of VList vs \<Rightarrow> vs \<noteq> [] \<and>
            list_all (\<lambda>x. x \<noteq> VNil \<and> so_compare ops ''eq'' (field_of row f) x = values_equal (field_of row f) x) vs
          | _ \<Rightarrow> False)
       else p \<in> set [''eq'', ''neq'', ''gt'', ''gte'', ''lt'', ''lte''] \<and> v \<noteq> VNil \<and>
            compare_values p (field_of row f) v = Inr (so_compare ops p (field_of row f) v)))"

fun agreed :: "published_model \<Rightarrow> object_schema \<Rightarrow> sql_ops \<Rightarrow> field_map \<Rightarrow> agg_filter \<Rightarrow> bool" where
  "agreed m t ops row (AggFilter k opr cs f p v) =
     (if k = ''group'' then opr \<in> set [''and'', ''or'', ''not''] \<and> cs \<noteq> [] \<and> (opr = ''not'' \<longrightarrow> length cs = 1) \<and>
        list_all (agreed m t ops row) cs
      else k = ''predicate'' \<and> trim_space f = f \<and> f \<noteq> [] \<and> available m t f \<and> agreed_predicate ops row f p v)"

lemma clean_names:
  "clean ''group'' = ''group''" "clean ''predicate'' = ''predicate''" "clean ''and'' = ''and''" "clean ''or'' = ''or''"
  "clean ''not'' = ''not''" "clean ''eq'' = ''eq''" "clean ''neq'' = ''neq''" "clean ''gt'' = ''gt''" "clean ''gte'' = ''gte''"
  "clean ''lt'' = ''lt''" "clean ''lte'' = ''lte''" "clean ''in'' = ''in''"
  by code_simp+

lemma kind_names: "kind_of ''group'' = ''group''" "kind_of ''predicate'' = ''predicate''"
  "operator_of ''and'' = ''and''" "operator_of ''or'' = ''or''" "operator_of ''not'' = ''not''"
  by (simp_all add: kind_of_def operator_of_def clean_names)

lemma op_names:
  "trim_space (to_lower ''eq'') = ''eq''" "trim_space (to_lower ''neq'') = ''neq''" "trim_space (to_lower ''gt'') = ''gt''"
  "trim_space (to_lower ''gte'') = ''gte''" "trim_space (to_lower ''lt'') = ''lt''" "trim_space (to_lower ''lte'') = ''lte''"
  "to_lower (trim_space ''and'') = ''and''" "to_lower (trim_space ''or'') = ''or''" "to_lower (trim_space ''not'') = ''not''"
  by code_simp+

text \<open>Truth values that are known behave as in two-valued logic.\<close>

lemma and3_known: "and3 (map Some bs) = Some (list_all id bs)"
proof -
  have "Some False \<in> set (map Some bs) \<longleftrightarrow> \<not> list_all id bs" "None \<notin> set (map Some bs)"
    by (induction bs) auto
  then show ?thesis by (simp only: and3_def if_False not_False_eq_True split: if_splits) simp
qed

lemma or3_known: "or3 (map Some bs) = Some (list_ex id bs)"
proof -
  have "Some True \<in> set (map Some bs) \<longleftrightarrow> list_ex id bs" "None \<notin> set (map Some bs)"
    by (induction bs) auto
  then show ?thesis by (simp only: or3_def if_False not_False_eq_True split: if_splits) simp
qed

lemma all_r_known: "all_r (map Inr bs) = Inr (list_all id bs)"
  by (induction bs) auto

lemma any_r_known: "any_r (map Inr bs) = Inr (list_ex id bs)"
  by (induction bs) auto

text \<open>Arguments appended later do not change the value of a condition built earlier.\<close>

fun args_below :: "nat \<Rightarrow> sql_cond \<Rightarrow> bool" where
  "args_below n (SqlCompare _ _ i) = (i < n)"
| "args_below n (SqlIn _ i k) = (i + k \<le> n)"
| "args_below n (SqlNull _ _) = True"
| "args_below n (SqlPrefix _ i) = (i < n)"
| "args_below n (SqlNot c) = args_below n c"
| "args_below n (SqlGroup _ cs) = list_all (args_below n) cs"

lemma args_below_mono: "args_below n c \<Longrightarrow> n \<le> k \<Longrightarrow> args_below k c"
  by (induction c) (auto simp: list_all_iff)

lemma cond_value_append: "args_below (length args) c \<Longrightarrow> cond_value ops row (args @ extra) c = cond_value ops row args c"
proof (induction c)
  case (SqlGroup op cs)
  then have "map (cond_value ops row (args @ extra)) cs = map (cond_value ops row args) cs"
    by (intro map_cong refl) (auto simp: list_all_iff)
  then show ?case by (simp only: cond_value.simps)
qed (auto simp: nth_append)

text \<open>A condition built after some arguments, with its verdict.\<close>

definition decides :: "sql_ops \<Rightarrow> field_map \<Rightarrow> gval list \<Rightarrow> sql_cond \<Rightarrow> bool \<Rightarrow> bool" where
  "decides ops row args c b = (args_below (length args) c \<and> cond_value ops row args c = Some b)"

lemma decides_append: "decides ops row args c b \<Longrightarrow> decides ops row (args @ extra) c b"
  by (auto simp: decides_def cond_value_append intro: args_below_mono)

lemma decides_group:
  assumes "list_all2 (decides ops row args) cs bs"
  shows "decides ops row args (SqlGroup op cs) (if op = ''or'' then list_ex id bs else list_all id bs)"
proof -
  have "map (cond_value ops row args) cs = map Some bs" "list_all (args_below (length args)) cs"
    using assms by (induction rule: list_all2_induct) (auto simp: decides_def)
  then show ?thesis by (simp add: decides_def and3_known or3_known)
qed

lemma apply_filter_named:
  "p \<in> set [''eq'', ''neq'', ''gt'', ''gte'', ''lt'', ''lte''] \<Longrightarrow> apply_filter l p r = compare_values p l r"
  unfolding list.set insert_iff by (elim disjE) (simp_all add: apply_filter_def op_names neq_sign_def Let_def)

lemma agreed_predicate_decides:
  assumes "agreed_predicate ops row f p v"
  shows "\<exists>c extra b. predicate_text (column f) p p v args = Inr (render c, args @ extra) \<and>
    predicate_cond f p v args = Some (c, args @ extra) \<and> full c \<and> decides ops row (args @ extra) c b \<and>
    apply_filter (field_of row f) p v = Inr b"
proof (cases "p = ''in''")
  case True
  then obtain vs where v: "v = VList vs" "vs \<noteq> []" "field_of row f \<noteq> VNil"
    and vs: "\<forall>x \<in> set vs. x \<noteq> VNil \<and> so_compare ops ''eq'' (field_of row f) x = values_equal (field_of row f) x"
    using assms by (auto simp: agreed_predicate_def list_all_iff split: gval.splits)
  have "map (strict2 (so_compare ops ''eq'') (field_of row f)) vs = map Some (map (values_equal (field_of row f)) vs)"
    using v(3) vs by (auto simp: strict2_def)
  then have "decides ops row (args @ vs) (SqlIn f (length args) (length vs)) (list_ex (values_equal (field_of row f)) vs)"
    by (simp add: decides_def or3_known del: map_map) (simp add: list_ex_iff)
  then show ?thesis using True v
    by (intro exI [of _ "SqlIn f (length args) (length vs)"] exI [of _ vs] exI)
      (auto simp: predicate_text_def predicate_cond_def compare_sign_def apply_in)
next
  case False
  then have p: "p \<in> set [''eq'', ''neq'', ''gt'', ''gte'', ''lt'', ''lte'']" and v: "v \<noteq> VNil" "field_of row f \<noteq> VNil"
    and c: "compare_values p (field_of row f) v = Inr (so_compare ops p (field_of row f) v)"
    using assms by (auto simp: agreed_predicate_def)
  let ?b = "so_compare ops p (field_of row f) v"
  have "apply_filter (field_of row f) p v = Inr ?b"
    unfolding c [symmetric] by (rule apply_filter_named [OF p])
  moreover obtain sign where "compare_sign p = Some sign" using p by (auto simp: compare_sign_def)
  moreover have "decides ops row (args @ [v]) (SqlCompare f p (length args)) ?b"
    using v by (simp add: decides_def strict2_def)
  ultimately show ?thesis
    by (intro exI [of _ "SqlCompare f p (length args)"] exI [of _ "[v]"] exI [of _ ?b])
      (simp add: predicate_text_def predicate_cond_def)
qed

lemma agreed_decides:
  "agreed m t ops row f \<Longrightarrow> \<exists>c extra b. filter_sql m t f args = Inr (render c, args @ extra) \<and>
     filter_cond f args = (Some c, args @ extra) \<and> full c \<and> decides ops row (args @ extra) c b \<and> record_matches row f = Inr b"
  "list_all (agreed m t ops row) fs \<Longrightarrow> \<exists>cs extra bs. filters_sql m t fs args = Inr (map (\<lambda>c. ''('' @ render c @ '')'') cs, args @ extra) \<and>
     filters_cond fs args = (cs, args @ extra) \<and> list_all full cs \<and> list_all2 (decides ops row (args @ extra)) cs bs \<and>
     length cs = length fs \<and> map (record_matches row) fs = map Inr bs"
proof (induction m t f args and m t fs args rule: filter_sql_filters_sql.induct)
  case (1 m t k opr cs f p v args)
  show ?case
  proof (cases "k = ''group''")
    case group: True
    show ?thesis
    proof (cases "opr = ''not''")
      case True
      then obtain c where cs: "cs = [c]" and c: "agreed m t ops row c"
        using "1.prems" group by (auto simp: length_Suc_conv)
      obtain x extra b where x: "filter_sql m t c args = Inr (render x, args @ extra)" "filter_cond c args = (Some x, args @ extra)"
        "full x" "decides ops row (args @ extra) x b" "record_matches row c = Inr b"
        using 1(2) [OF _ _ _ _ refl c] group True cs by (auto simp: kind_names)
      have "decides ops row (args @ extra) (SqlNot x) (\<not> b)" using x(4) by (simp add: decides_def)
      then show ?thesis using x group True cs
        by (intro exI [of _ "SqlNot x"] exI [of _ extra] exI [of _ "\<not> b"])
          (simp add: kind_names op_names render_neq)
    next
      case False
      then have op: "opr = ''and'' \<or> opr = ''or''" and cs: "list_all (agreed m t ops row) cs" "cs \<noteq> []"
        using "1.prems" group by auto
      obtain xs extra bs where x: "filters_sql m t cs args = Inr (map (\<lambda>c. ''('' @ render c @ '')'') xs, args @ extra)"
        "filters_cond cs args = (xs, args @ extra)" "list_all full xs" "list_all2 (decides ops row (args @ extra)) xs bs"
        "length xs = length cs" "map (record_matches row) cs = map Inr bs"
        using 1(1) [OF _ _ cs(1)] group kind_names op by fastforce
      have "decides ops row (args @ extra) (SqlGroup opr xs) (if opr = ''or'' then list_ex id bs else list_all id bs)"
        by (rule decides_group [OF x(4)])
      moreover have "record_matches row (AggFilter k opr cs f p v) = Inr (if opr = ''or'' then list_ex id bs else list_all id bs)"
        using op group by (auto simp: x(6) op_names all_r_known any_r_known)
      moreover have ne: "xs \<noteq> []" using x(5) cs(2) by auto
      moreover have "filter_sql m t (AggFilter k opr cs f p v) args = Inr (render (SqlGroup opr xs), args @ extra)"
        using op by (elim disjE) (simp_all add: group kind_names x(1))
      moreover have "filter_cond (AggFilter k opr cs f p v) args = (Some (SqlGroup opr xs), args @ extra)"
        using op ne by (elim disjE) (simp_all add: group kind_names x(2))
      moreover have "full (SqlGroup opr xs)" using ne x(3) by simp
      ultimately show ?thesis by blast
    qed
  next
    case False
    then have k: "k = ''predicate''" "trim_space f = f" "f \<noteq> []" "available m t f" "agreed_predicate ops row f p v"
      using "1.prems" by auto
    have p: "clean p = p" using k(5) by (auto simp: agreed_predicate_def clean_names split: if_splits)
    show ?thesis using agreed_predicate_decides [OF k(5), of args] k p
      by (fastforce simp: kind_names predicate_sql_def column_def Let_def)
  qed
next
  case (2 m t args)
  then show ?case by simp
next
  case (3 m t f fs args)
  then have ags: "agreed m t ops row f" "list_all (agreed m t ops row) fs" by simp_all
  obtain c extra b where c: "filter_sql m t f args = Inr (render c, args @ extra)" "filter_cond f args = (Some c, args @ extra)"
    "full c" "decides ops row (args @ extra) c b" "record_matches row f = Inr b" using 3(1) [OF ags(1)] by blast
  obtain cs more_args bs where cs: "filters_sql m t fs (args @ extra) = Inr (map (\<lambda>c. ''('' @ render c @ '')'') cs, (args @ extra) @ more_args)"
    "filters_cond fs (args @ extra) = (cs, (args @ extra) @ more_args)" "list_all full cs"
    "list_all2 (decides ops row ((args @ extra) @ more_args)) cs bs" "length cs = length fs" "map (record_matches row) fs = map Inr bs"
    using 3(2) [OF c(1) refl ags(2)] by blast
  show ?case using c cs decides_append [OF c(4), of more_args] render_neq [OF c(3)]
    by (intro exI [of _ "c # cs"] exI [of _ "extra @ more_args"] exI [of _ "b # bs"]) (simp add: Let_def)
qed


definition engine_ops :: sql_ops where
  "engine_ops = \<lparr>so_compare = (\<lambda>op a b. compare_values op a b = Inr True), so_prefix = (\<lambda>a b. False)\<rparr>"

definition open_or_large :: agg_filter where
  "open_or_large = AggFilter ''group'' ''and''
     [AggFilter ''predicate'' [] [] ''status'' ''in'' (VList [VStr ''open'', VStr ''held'']),
      AggFilter ''group'' ''not'' [AggFilter ''predicate'' [] [] ''amount'' ''lt'' (VFloat (FRat 100))] [] [] VNil] [] [] VNil"


subsection \<open>Where the two services differ\<close>

text \<open>An OR without children has no text: the query counts every row, while the engine's filter holds for none.\<close>

definition empty_or :: agg_filter where
  "empty_or = AggFilter ''group'' ''or'' [] [] [] VNil"

definition counting :: "string \<Rightarrow> string \<Rightarrow> agg_query" where
  "counting table field = \<lparr>aq_object_type = table, aq_aggregate = ''count'', aq_field = field, aq_filter = Some empty_or\<rparr>"

lemma empty_or_compiled: "parse_agg_filter ev (Node ''or'' VNil [] []) = Inr (Inr empty_or)"
proof -
  have "canonical_function_name ''or'' = ''or''" by code_simp
  then show ?thesis by (simp add: group_of_def empty_or_def)
qed

lemma empty_or_selects_all:
  assumes "map_of (pm_tables m) table = Some t" "available m t field" "trim_space field = field" "field \<noteq> []" "trim_space table \<noteq> []"
  shows "compile_filter ev (Node ''Aggregator'' VNil [] [(''filters'', Node ''or'' VNil [] [])]) = Inr (Inr (Some empty_or)) \<and>
    check_query (counting table field) = Inr () \<and>
    aggregate_sql m (counting table field)
      = Inr (''SELECT COUNT('' @ column field @ '') FROM '' @ sanitize_identifier [schema_name m, os_name t], []) \<and>
    record_matches row empty_or = Inr False"
proof -
  have n: "normalize_filter empty_or = empty_or" by code_simp
  have "check_filter 1 empty_or (0, 0) = Inr (1, 1)" "clean ''count'' = ''count''" "trim_space ''count'' = ''count''"
    "record_matches row empty_or = Inr False"
    by (code_simp, code_simp, code_simp) (simp add: empty_or_def op_names)
  moreover have "filter_sql m t empty_or [] = Inr ([], [])"
    by (simp add: empty_or_def kind_names)
  moreover have "to_port_filter empty_or = empty_or"
    by (simp add: to_port_filter_eq n)
  ultimately show ?thesis using assms
    by (simp add: check_query_def aggregate_sql_def aggregate_expression_def column_def filter_nodes_limit_def counting_def
        compile_filter_def empty_or_compiled del: parse_agg_filter.simps)
qed

lemma empty_or_selects_all_witness:
  "compile_filter (\<lambda>_. Inl ''none'') (Node ''Aggregator'' VNil [] [(''filters'', Node ''or'' VNil [] [])]) = Inr (Inr (Some empty_or)) \<and>
   check_query (counting ''transactions'' ''amount'') = Inr () \<and>
   aggregate_sql shop_model (counting ''transactions'' ''amount'')
     = Inr (''SELECT COUNT('' @ column ''amount'' @ '') FROM '' @ sanitize_identifier [schema_name shop_model, os_name shop_table], []) \<and>
   record_matches [(''amount'', VFloat (FRat 250))] empty_or = Inr False"
  by (rule empty_or_selects_all) code_simp+

text \<open>A row whose field is NULL differs from a value for the engine, not for the database.\<close>

lemma null_differs:
  "record_matches [(''status'', VNil)] (AggFilter ''predicate'' [] [] ''status'' ''neq'' (VStr ''open'')) = Inr True \<and>
   \<not> selects ops [(''status'', VNil)] (filter_cond (AggFilter ''predicate'' [] [] ''status'' ''neq'' (VStr ''open'')) [])"
proof -
  have "record_matches [(''status'', VNil)] (AggFilter ''predicate'' [] [] ''status'' ''neq'' (VStr ''open'')) = Inr True"
    by code_simp
  moreover have "filter_cond (AggFilter ''predicate'' [] [] ''status'' ''neq'' (VStr ''open'')) []
      = (Some (SqlCompare ''status'' ''neq'' 0), [VStr ''open''])"
    by code_simp
  ultimately show ?thesis by (simp add: selects_def strict2_def field_of_def)
qed

end
