(* ===== verification/Ingest_Reading.thy ===== *)
theory Ingest_Reading
  imports Ingest_Outcomes Ingest_Filter_Laws
begin

text \<open>
  The reads of the ingestion service beside those of \<^verbatim>\<open>Ingest_Service\<close>: records by the value of a field, aggregates
  (\<^verbatim>\<open>ingest_service.go\<close>, \<^verbatim>\<open>httpapi/handlers/ingest.go\<close>), upload logs, deferred ingests and their metrics. How
  PostgreSQL compares a column with a text and what it answers to a SELECT are arguments.
\<close>

subsection \<open>Records by a field, aggregates\<close>

definition query_records :: "ingest_env \<Rightarrow> (gval \<Rightarrow> string \<Rightarrow> bool) \<Rightarrow> string \<Rightarrow> string \<Rightarrow> string \<Rightarrow> string \<Rightarrow> int \<Rightarrow> field_map list ingest_step" where
  "query_records env equals tenant object_type field v limit w =
     (case ie_model env tenant object_type of Inl e \<Rightarrow> (Inl e, w)
      | Inr m \<Rightarrow> (case map_of (pm_tables m) object_type of
          None \<Rightarrow> (Inl (''object type '' @ object_type @ '' is not available''), w)
        | Some t \<Rightarrow>
            if \<not> available m t field then (Inl (unavailable_message field object_type), w)
            else if \<not> ie_works env ''tenant read'' then (Inl ''tenant read'', w)
            else (Inr (take (nat (if limit \<le> 0 then 100 else limit))
              (sort_key (\<lambda>r. - time_of r) (filter (\<lambda>r. equals (field_of r field) v) (table_rows (schema_name m, os_name t) w)))), w)))"

definition aggregate_records :: "ingest_env \<Rightarrow> (string \<Rightarrow> gval list \<Rightarrow> gval res) \<Rightarrow> string \<Rightarrow> agg_query \<Rightarrow> gval res" where
  "aggregate_records env answer tenant q =
     bind_r (ie_model env tenant (aq_object_type q)) (\<lambda>m.
     bind_r (aggregate_sql m q) (\<lambda>(text, args). answer text args))"

text \<open>The request: it is checked before the service is asked.\<close>

definition aggregate_request :: "ingest_env \<Rightarrow> (string \<Rightarrow> gval list \<Rightarrow> gval res) \<Rightarrow> string \<Rightarrow> agg_query \<Rightarrow> gval res" where
  "aggregate_request env answer tenant q =
     (if aq_object_type q = [] then Inl ''object_type is required''
      else if aq_aggregate q = [] then Inl ''aggregate is required''
      else bind_r (check_query q) (\<lambda>_. aggregate_records env answer tenant q))"

subsection \<open>Upload logs and deferred ingests\<close>

definition list_uploads :: "string \<Rightarrow> string \<Rightarrow> ingest_store \<Rightarrow> upload_log list" where
  "list_uploads tenant object_type w =
     sort_key (\<lambda>u. - ul_requested u) (filter (\<lambda>u. ul_tenant u = tenant \<and> ul_type u = object_type) (in_uploads w))"

definition get_upload :: "string \<Rightarrow> ingest_store \<Rightarrow> upload_log option" where
  "get_upload i w = find (\<lambda>u. ul_id u = i) (in_uploads w)"

definition get_deferred :: "string \<Rightarrow> ingest_store \<Rightarrow> deferred_ingest option" where
  "get_deferred i w = find (\<lambda>d. df_id d = i) (in_deferred w)"

text \<open>\<^verbatim>\<open>DeferredIngestMetrics\<close>; the age is kept in nanoseconds.\<close>

record deferred_metrics =
  dm_queued :: int
  dm_processing :: int
  dm_completed :: int
  dm_failed :: int
  dm_retry_pending :: int
  dm_retried :: int
  dm_oldest :: "int option"
  dm_oldest_age :: int
  dm_recent_success :: int
  dm_recent_failure :: int
  dm_recent_retry :: int
  dm_drain_rate :: f64
  dm_snapshot :: int

definition count_of :: "('a \<Rightarrow> bool) \<Rightarrow> 'a list \<Rightarrow> int" where
  "count_of P xs = int (length (filter P xs))"

definition since :: "int \<Rightarrow> int option \<Rightarrow> bool" where
  "since t moment = (case moment of None \<Rightarrow> False | Some m \<Rightarrow> t \<le> m)"

text \<open>\<^verbatim>\<open>MIN\<close> over no rows is NULL.\<close>

definition oldest_queued :: "deferred_ingest list \<Rightarrow> int option" where
  "oldest_queued ds = (case map df_requested (filter (\<lambda>d. df_status d = ''queued'') ds) of [] \<Rightarrow> None | t # ts \<Rightarrow> Some (foldl min t ts))"

definition metrics_snapshot :: "int \<Rightarrow> ingest_store \<Rightarrow> deferred_metrics" where
  "metrics_snapshot now w =
     (let ds = in_deferred w; status = (\<lambda>s d. df_status d = s); recent = now - 300 * sec_ns;
          success = count_of (\<lambda>d. status ''completed'' d \<and> since recent (df_completed d)) ds
      in \<lparr>dm_queued = count_of (status ''queued'') ds, dm_processing = count_of (status ''processing'') ds,
          dm_completed = count_of (status ''completed'') ds, dm_failed = count_of (status ''failed'') ds,
          dm_retry_pending = count_of (\<lambda>d. status ''queued'' d \<and> df_attempts d > 0) ds,
          dm_retried = count_of (\<lambda>d. df_attempts d > 1) ds,
          dm_oldest = oldest_queued ds, dm_oldest_age = (case oldest_queued ds of None \<Rightarrow> 0 | Some t \<Rightarrow> now - t),
          dm_recent_success = success,
          dm_recent_failure = count_of (\<lambda>d. status ''failed'' d \<and> since recent (df_completed d)) ds,
          dm_recent_retry = count_of (\<lambda>d. df_attempts d > 1 \<and> since recent (df_started d)) ds,
          dm_drain_rate = f64_div (f64_of_int success) (f64_of_int 5), dm_snapshot = now\<rparr>)"

subsection \<open>Laws\<close>

text \<open>Every statement on deferred ingests leaves one of the four statuses.\<close>

definition known_status :: "ingest_store \<Rightarrow> bool" where
  "known_status w = list_all (\<lambda>d. df_status d \<in> {''queued'', ''processing'', ''completed'', ''failed''}) (in_deferred w)"

lemma counted: "known_status w \<Longrightarrow>
  dm_queued (metrics_snapshot now w) + dm_processing (metrics_snapshot now w) + dm_completed (metrics_snapshot now w)
    + dm_failed (metrics_snapshot now w) = int (length (in_deferred w))"
proof -
  have "list_all (\<lambda>d. df_status d \<in> {''queued'', ''processing'', ''completed'', ''failed''}) ds \<Longrightarrow>
      count_of (\<lambda>d. df_status d = ''queued'') ds + count_of (\<lambda>d. df_status d = ''processing'') ds
      + count_of (\<lambda>d. df_status d = ''completed'') ds + count_of (\<lambda>d. df_status d = ''failed'') ds = int (length ds)" for ds
    by (induction ds) (auto simp: count_of_def)
  then show "known_status w \<Longrightarrow> ?thesis" by (simp add: metrics_snapshot_def known_status_def Let_def)
qed

text \<open>A query reaches the database only after every check, with as many arguments as its text has places for.\<close>

lemma aggregate_request_checked:
  assumes "aggregate_request env answer tenant q = Inr v"
  shows "check_query q = Inr () \<and> (\<exists>m text args. ie_model env tenant (aq_object_type q) = Inr m \<and>
    aggregate_sql m q = Inr (text, args) \<and> answer text args = Inr v)"
  using assms by (auto simp: aggregate_request_def aggregate_records_def result_simps split: if_splits)

end
