(* ===== verification/Datamodel_Names.thy ===== *)
theory Datamodel_Names
  imports Ingest_Validation
begin

text \<open>
  The data-model service: its records and the checks of names, types, fields, pivots, enum values and index jobs
  (\<^verbatim>\<open>data-model-service/internal/domain/datamodel/model.go\<close>, \<^verbatim>\<open>domain/tenant\<close>), and the names of indexes
  (\<^verbatim>\<open>tenantdb/postgres/indexing.go\<close>). Identifiers are their text.
\<close>

subsection \<open>Records\<close>

record tenant_row =
  tn_id :: string
  tn_key :: "string option"
  tn_name :: string
  tn_schema :: string
  tn_status :: string
  tn_created :: int
  tn_updated :: int

record table_row =
  tb_id :: string
  tb_tenant :: string
  tb_name :: string
  tb_description :: string
  tb_alias :: string
  tb_semantic :: string
  tb_caption :: string
  tb_archived :: bool
  tb_created :: int
  tb_updated :: int

record field_row =
  fd_id :: string
  fd_tenant :: string
  fd_table :: string
  fd_name :: string
  fd_description :: string
  fd_alias :: string
  fd_type :: string
  fd_nullable :: bool
  fd_enum :: bool
  fd_unique :: bool
  fd_archived :: bool
  fd_created :: int
  fd_updated :: int

record enum_row =
  eu_id :: string
  eu_tenant :: string
  eu_field :: string
  eu_value :: string
  eu_label :: string
  eu_order :: int
  eu_created :: int
  eu_updated :: int

record link_row =
  ln_id :: string
  ln_tenant :: string
  ln_name :: string
  ln_parent_table :: string
  ln_parent_field :: string
  ln_child_table :: string
  ln_child_field :: string
  ln_created :: int

record pivot_row =
  pv_id :: string
  pv_tenant :: string
  pv_base :: string
  pv_field :: "string option"
  pv_path :: "string list"
  pv_created :: int

record options_row =
  ot_id :: string
  ot_tenant :: string
  ot_table :: string
  ot_displayed :: "string list"
  ot_order :: "string list"
  ot_updated :: int

record navigation_row =
  nv_id :: string
  nv_tenant :: string
  nv_source_table :: string
  nv_source_field :: string
  nv_target_table :: string
  nv_filter_field :: string
  nv_ordering_field :: string
  nv_created :: int

record change_row =
  lg_id :: string
  lg_tenant :: string
  lg_operation :: string
  lg_resource_type :: string
  lg_resource :: string
  lg_status :: string
  lg_created :: int

record migration_row =
  mg_id :: string
  mg_tenant :: string
  mg_version :: string
  mg_applied :: int

record index_job_row =
  jb_id :: string
  jb_tenant :: string
  jb_table :: "string option"
  jb_table_name :: string
  jb_type :: string
  jb_columns :: "string list"
  jb_status :: string
  jb_operation :: string
  jb_error :: "string option"
  jb_attempts :: int
  jb_requested :: int
  jb_started :: "int option"
  jb_completed :: "int option"
  jb_scheduled :: "int option"
  jb_key :: string

text \<open>\<^verbatim>\<open>DeleteReport\<close>\<close>

record delete_report =
  dr_performed :: bool
  dr_reserved :: bool
  dr_links :: "string list"
  dr_pivots :: "string list"

definition new_report :: delete_report where
  "new_report = \<lparr>dr_performed = False, dr_reserved = False, dr_links = [], dr_pivots = []\<rparr>"

subsection \<open>Names and types\<close>

definition normalize_name :: "string \<Rightarrow> string" where
  "normalize_name s = trim_space (to_lower s)"

definition is_lower :: "char \<Rightarrow> bool" where
  "is_lower c = (c \<in> set ''abcdefghijklmnopqrstuvwxyz'')"

definition is_name_char :: "char \<Rightarrow> bool" where
  "is_name_char c = (is_lower c \<or> c \<in> set ''0123456789_'')"

text \<open>\<^verbatim>\<open>validNameRegex\<close>, \<open>^[a-z]+[a-z0-9_]+$\<close>: a letter, then at least one more character.\<close>

definition valid_name :: "string \<Rightarrow> bool" where
  "valid_name s = (2 \<le> length s \<and> is_lower (hd s) \<and> list_all is_name_char s)"

definition data_types :: "string list" where
  "data_types = [''bool'', ''int'', ''float'', ''string'', ''timestamp'', ''ip_address'']"

definition parse_data_type :: "string \<Rightarrow> string res" where
  "parse_data_type v = (if trim_space v \<in> set data_types then Inr (trim_space v) else Inl (''unsupported data type: '' @ v))"

definition reserved_names :: "string list" where
  "reserved_names = [''id'', ''object_id'', ''updated_at'', ''valid_from'', ''valid_until'']"

definition validate_object_name :: "string \<Rightarrow> string \<Rightarrow> unit res" where
  "validate_object_name kind v =
     (if valid_name (normalize_name v) then Inr ()
      else Inl (kind @ '' name must contain only lowercase alphanumeric characters and underscores and start with a letter''))"

definition supports_unique :: "string \<Rightarrow> bool" where
  "supports_unique t = (t = ''string'' \<or> t = ''int'' \<or> t = ''float'')"

definition validate_field_create :: "string \<Rightarrow> string \<Rightarrow> bool \<Rightarrow> bool \<Rightarrow> unit res" where
  "validate_field_create name t enum unique =
     bind_r (validate_object_name ''field'' name) (\<lambda>_.
       if normalize_name name \<in> set reserved_names then Inl (''field name is reserved: '' @ name)
       else if enum \<and> \<not> supports_unique t then Inl ''enum fields can only be string, int, or float''
       else if unique \<and> \<not> supports_unique t then Inl ''unique fields can only be string, int, or float''
       else if enum \<and> unique then Inl ''a field cannot be both enum and unique''
       else Inr ())"

definition given :: "'a option \<Rightarrow> 'a \<Rightarrow> 'a" where
  "given v d = (case v of None \<Rightarrow> d | Some x \<Rightarrow> x)"

definition validate_field_update :: "field_row \<Rightarrow> string \<Rightarrow> bool option \<Rightarrow> bool option \<Rightarrow> bool option \<Rightarrow> unit res" where
  "validate_field_update f t enum unique nullable =
     (if enum = Some True \<and> \<not> supports_unique t then Inl ''enum fields can only be string, int, or float''
      else if unique = Some True \<and> \<not> supports_unique t then Inl ''unique fields can only be string, int, or float''
      else if given enum (fd_enum f) \<and> given unique (fd_unique f) then Inl ''a field cannot be both enum and unique''
      else if (fd_name f = ''object_id'' \<or> fd_name f = ''updated_at'') \<and> (enum \<noteq> None \<or> unique \<noteq> None \<or> nullable \<noteq> None)
        then Inl ''only the description of object_id and updated_at can be updated''
      else Inr ())"

definition validate_semantic_type :: "string \<Rightarrow> unit res" where
  "validate_semantic_type v = (if normalize_name v = [] then Inr () else validate_object_name ''semantic_type'' (normalize_name v))"

definition validate_pivot :: "string option \<Rightarrow> string list \<Rightarrow> unit res" where
  "validate_pivot field path =
     (if (field \<noteq> None) = (path \<noteq> []) then Inl ''either field_id or path_link_ids must be provided'' else Inr ())"

subsection \<open>Enum values\<close>

text \<open>\<^verbatim>\<open>validateEnumValueForDataType\<close>\<close>

definition check_enum_value :: "string \<Rightarrow> string \<Rightarrow> unit res" where
  "check_enum_value t v =
     (if t = ''string'' then Inr ()
      else if t = ''int'' then (case parse_int64 (trim_space v) of None \<Rightarrow> Inl ''enum value must be a valid int'' | Some _ \<Rightarrow> Inr ())
      else if t = ''float'' then (case parse_float64 (trim_space v) of None \<Rightarrow> Inl ''enum value must be a valid float'' | Some _ \<Rightarrow> Inr ())
      else Inl ''enum values are only supported for string, int, or float fields'')"

definition validate_enum_create :: "field_row \<Rightarrow> string \<Rightarrow> string \<Rightarrow> unit res" where
  "validate_enum_create f v label =
     (if \<not> fd_enum f then Inl ''field is not marked as enum''
      else if trim_space v = [] then Inl ''enum value is required''
      else bind_r (check_enum_value (fd_type f) v) (\<lambda>_. if trim_space label = [] then Inl ''enum label is required'' else Inr ()))"

definition validate_enum_update :: "field_row \<Rightarrow> string option \<Rightarrow> string option \<Rightarrow> unit res" where
  "validate_enum_update f v label =
     (if \<not> fd_enum f then Inl ''field is not marked as enum''
      else bind_r (case v of None \<Rightarrow> Inr ()
          | Some x \<Rightarrow> if trim_space x = [] then Inl ''enum value is required'' else check_enum_value (fd_type f) x) (\<lambda>_.
        case label of None \<Rightarrow> Inr () | Some l \<Rightarrow> if trim_space l = [] then Inl ''enum label is required'' else Inr ()))"

subsection \<open>The order of fields\<close>

text \<open>\<^verbatim>\<open>SortFieldOrder\<close>: the wanted identifiers that are fields, each once, then the other fields by name.\<close>

fun take_ordered :: "string list \<Rightarrow> string list \<Rightarrow> string list" where
  "take_ordered [] left = []"
| "take_ordered (i # is) left = (if i \<in> set left then i # take_ordered is (removeAll i left) else take_ordered is left)"

definition sort_field_order :: "field_row list \<Rightarrow> string list \<Rightarrow> string list" where
  "sort_field_order fs wanted =
     (let ordered = take_ordered wanted (map fd_id fs)
      in ordered @ map fd_id (sort_key fd_name (filter (\<lambda>f. fd_id f \<notin> set ordered) fs)))"

subsection \<open>Index jobs and indexes\<close>

definition index_job_types :: "string list" where
  "index_job_types = [''navigation'', ''search'', ''repair'']"

definition parse_index_job_type :: "string \<Rightarrow> string res" where
  "parse_index_job_type v =
     (if trim_space v \<in> set index_job_types then Inr (trim_space v) else Inl (''unsupported index job type: '' @ v))"

fun check_columns :: "string list \<Rightarrow> string list \<Rightarrow> unit res" where
  "check_columns [] seen = Inr ()"
| "check_columns (c # cs) seen =
     bind_r (validate_object_name ''index column'' (normalize_name c)) (\<lambda>_.
       if normalize_name c \<in> set seen then Inl (''duplicate index column: '' @ normalize_name c)
       else check_columns cs (normalize_name c # seen))"

definition validate_index_job :: "string \<Rightarrow> string list \<Rightarrow> unit res" where
  "validate_index_job t cs =
     (if t \<notin> set index_job_types then Inl (''unsupported index job type: '' @ t)
      else if cs = [] then Inl ''at least one column is required''
      else check_columns cs [])"

text \<open>The hexadecimal SHA-1 of a text is an argument, here and below.\<close>

definition dedupe_key :: "(string \<Rightarrow> string) \<Rightarrow> string \<Rightarrow> string \<Rightarrow> string \<Rightarrow> string list \<Rightarrow> string" where
  "dedupe_key digest tenant table t cs = digest (tenant @ '':'' @ table @ '':'' @ t @ '':'' @ join_with '','' cs)"

definition managed_index_name :: "(string \<Rightarrow> string) \<Rightarrow> string \<Rightarrow> string list \<Rightarrow> bool \<Rightarrow> string" where
  "managed_index_name digest table cs unique =
     (if unique then ''uniq'' else ''idx'') @ ''_'' @ table @ ''_'' @ take 8 (digest (table @ ''_'' @ join_with ''_'' cs))"

definition column_type :: "string \<Rightarrow> string res" where
  "column_type t =
     (if t = ''bool'' then Inr ''BOOLEAN'' else if t = ''int'' then Inr ''INTEGER'' else if t = ''float'' then Inr ''DOUBLE PRECISION''
      else if t = ''string'' then Inr ''TEXT'' else if t = ''timestamp'' then Inr ''TIMESTAMPTZ'' else if t = ''ip_address'' then Inr ''INET''
      else Inl (''unsupported data type: '' @ t))"

definition schema_name_for :: "string \<Rightarrow> string" where
  "schema_name_for i = ''tenant_'' @ filter (\<lambda>c. c \<noteq> CHR ''-'') i"

definition normalize_optional :: "string option \<Rightarrow> string option" where
  "normalize_optional v = (case v of None \<Rightarrow> None | Some s \<Rightarrow> if trim_space s = [] then None else Some (trim_space s))"

definition new_tenant :: "string \<Rightarrow> int \<Rightarrow> string \<Rightarrow> string option \<Rightarrow> tenant_row" where
  "new_tenant i now name key = \<lparr>tn_id = i, tn_key = normalize_optional key, tn_name = trim_space name, tn_schema = schema_name_for i,
     tn_status = ''pending'', tn_created = now, tn_updated = now\<rparr>"

subsection \<open>Laws\<close>

lemma lower_name: "is_lower c \<Longrightarrow> is_name_char c"
  by (simp only: is_name_char_def simp_thms)

lemma lower_names: "list_all is_lower s \<Longrightarrow> list_all is_name_char s"
  by (induction s) (simp_all add: lower_name)

text \<open>The regular expression, spelled out.\<close>

lemma valid_name_regex:
  "valid_name s \<longleftrightarrow> (\<exists>u v. s = u @ v \<and> u \<noteq> [] \<and> list_all is_lower u \<and> v \<noteq> [] \<and> list_all is_name_char v)"
proof
  assume v: "valid_name s"
  then obtain c t where s: "s = c # t" "t \<noteq> []" by (cases s; cases "tl s") (auto simp: valid_name_def)
  then show "\<exists>u v. s = u @ v \<and> u \<noteq> [] \<and> list_all is_lower u \<and> v \<noteq> [] \<and> list_all is_name_char v"
    using v by (intro exI [of _ "[c]"] exI [of _ t]) (auto simp: valid_name_def)
next
  assume "\<exists>u v. s = u @ v \<and> u \<noteq> [] \<and> list_all is_lower u \<and> v \<noteq> [] \<and> list_all is_name_char v"
  then obtain u v where "s = u @ v" "u \<noteq> []" "list_all is_lower u" "v \<noteq> []" "list_all is_name_char v" by blast
  then show "valid_name s"
    by (cases u; cases v) (auto simp: valid_name_def lower_name lower_names)
qed

text \<open>The order lists every field once, whatever was wanted.\<close>

lemma take_ordered_sub: "set (take_ordered is left) \<subseteq> set left"
  by (induction "is" left rule: take_ordered.induct) auto

lemma take_ordered_distinct: "distinct (take_ordered is left)"
proof (induction "is" left rule: take_ordered.induct)
  case (2 i "is" left)
  then show ?case using take_ordered_sub [of "is" "removeAll i left"] by auto
qed simp

lemma field_order_permutes:
  assumes "distinct (map fd_id fs)"
  shows "distinct (sort_field_order fs wanted) \<and> set (sort_field_order fs wanted) = fd_id ` set fs"
proof -
  let ?o = "take_ordered wanted (map fd_id fs)"
  let ?r = "filter (\<lambda>f. fd_id f \<notin> set ?o) fs"
  have "distinct (map fd_id ?r)" using assms by (simp add: distinct_map_filter)
  then have "distinct (map fd_id (sort_key fd_name ?r))"
    by (metis distinct_map distinct_sort set_sort)
  then show ?thesis using take_ordered_distinct [of wanted "map fd_id fs"] take_ordered_sub [of wanted "map fd_id fs"]
    by (auto simp: sort_field_order_def Let_def)
qed

text \<open>Two lists of columns may have the same index name.\<close>

lemma index_names_collide:
  "managed_index_name digest table [''ab_cd'', ''ef''] unique = managed_index_name digest table [''ab'', ''cd_ef''] unique \<and>
   validate_index_job ''navigation'' [''ab_cd'', ''ef''] = Inr () \<and> validate_index_job ''navigation'' [''ab'', ''cd_ef''] = Inr ()"
proof -
  have "join_with ''_'' [''ab_cd'', ''ef''] = join_with ''_'' [''ab'', ''cd_ef'']" by code_simp
  moreover have "validate_index_job ''navigation'' [''ab_cd'', ''ef''] = Inr ()" by code_simp
  moreover have "validate_index_job ''navigation'' [''ab'', ''cd_ef''] = Inr ()" by code_simp
  ultimately show ?thesis by (simp add: managed_index_name_def)
qed

end
