(* ===== verification/Datamodel_Store.thy ===== *)
theory Datamodel_Store
  imports Datamodel_Names State_Steps
begin

text \<open>
  The tables of the data-model service and the statements on them (\<^verbatim>\<open>store/postgres\<close>), with the keys and references
  of the migrations, and the schemas of the tenants with their tables, columns and indexes
  (\<^verbatim>\<open>tenantdb/postgres\<close>). Deleting a row deletes the rows that refer to it. An error inside a transaction aborts
  it, also where the code drops the error, so such a statement is like any other one.
\<close>

record model_store =
  ms_tenants :: "tenant_row list"
  ms_tables :: "table_row list"
  ms_fields :: "field_row list"
  ms_enums :: "enum_row list"
  ms_links :: "link_row list"
  ms_pivots :: "pivot_row list"
  ms_options :: "options_row list"
  ms_navigation :: "navigation_row list"
  ms_changes :: "change_row list"
  ms_migrations :: "migration_row list"
  ms_jobs :: "index_job_row list"
  ms_queue :: "string list"
  ms_schemas :: "string list"
  ms_columns :: "((string \<times> string) \<times> string list) list"
  ms_indexes :: "(string \<times> string \<times> string \<times> string list) list"
  ms_drawn :: nat

definition empty_model :: model_store where
  "empty_model = \<lparr>ms_tenants = [], ms_tables = [], ms_fields = [], ms_enums = [], ms_links = [], ms_pivots = [], ms_options = [],
     ms_navigation = [], ms_changes = [], ms_migrations = [], ms_jobs = [], ms_queue = [], ms_schemas = [], ms_columns = [],
     ms_indexes = [], ms_drawn = 0\<rparr>"

text \<open>The statements that work, clock, identifiers, the digest of a text, and whether River adds a job.\<close>

record model_env =
  me_works :: "string \<Rightarrow> bool"
  me_clock :: int
  me_gen :: "nat \<Rightarrow> string"
  me_digest :: "string \<Rightarrow> string"
  me_inserts :: "string \<Rightarrow> string list \<Rightarrow> bool"

type_synonym 'a model_step = "(model_store, string, 'a) step"

definition model_id :: "model_env \<Rightarrow> string model_step" where
  "model_id env w = (Inr (me_gen env (ms_drawn w)), w\<lparr>ms_drawn := Suc (ms_drawn w)\<rparr>)"

text \<open>A statement that also needs the keys and references of the schema to hold.\<close>

definition guarded :: "model_env \<Rightarrow> string \<Rightarrow> (model_store \<Rightarrow> bool) \<Rightarrow> (model_store \<Rightarrow> model_store) \<Rightarrow> unit model_step" where
  "guarded env name ok f w = (if me_works env name \<and> ok w then (Inr (), f w) else (Inl name, w))"

subsection \<open>Reading\<close>

definition find_tenant :: "model_env \<Rightarrow> string \<Rightarrow> model_store \<Rightarrow> tenant_row res" where
  "find_tenant env i w = (case find (\<lambda>t. tn_id t = i) (ms_tenants w) of
     Some t \<Rightarrow> if me_works env ''tenant get'' then Inr t else Inl ''get tenant by id'' | None \<Rightarrow> Inl ''get tenant by id'')"

definition find_table :: "model_env \<Rightarrow> string \<Rightarrow> model_store \<Rightarrow> table_row res" where
  "find_table env i w = (case find (\<lambda>t. tb_id t = i) (ms_tables w) of
     Some t \<Rightarrow> if me_works env ''table get'' then Inr t else Inl ''get table by id'' | None \<Rightarrow> Inl ''get table by id'')"

definition find_field :: "model_env \<Rightarrow> string \<Rightarrow> model_store \<Rightarrow> field_row res" where
  "find_field env i w = (case find (\<lambda>f. fd_id f = i) (ms_fields w) of
     Some f \<Rightarrow> if me_works env ''field get'' then Inr f else Inl ''get field by id'' | None \<Rightarrow> Inl ''get field by id'')"

definition find_enum :: "model_env \<Rightarrow> string \<Rightarrow> model_store \<Rightarrow> enum_row res" where
  "find_enum env i w = (case find (\<lambda>v. eu_id v = i) (ms_enums w) of
     Some v \<Rightarrow> if me_works env ''enum get'' then Inr v else Inl ''get field enum value by id'' | None \<Rightarrow> Inl ''get field enum value by id'')"

definition find_link :: "model_env \<Rightarrow> string \<Rightarrow> model_store \<Rightarrow> link_row res" where
  "find_link env i w = (case find (\<lambda>l. ln_id l = i) (ms_links w) of
     Some l \<Rightarrow> if me_works env ''link get'' then Inr l else Inl ''get link by id'' | None \<Rightarrow> Inl ''get link by id'')"

definition find_pivot :: "model_env \<Rightarrow> string \<Rightarrow> model_store \<Rightarrow> pivot_row res" where
  "find_pivot env i w = (case find (\<lambda>p. pv_id p = i) (ms_pivots w) of
     Some p \<Rightarrow> if me_works env ''pivot get'' then Inr p else Inl ''get pivot by id'' | None \<Rightarrow> Inl ''get pivot by id'')"

definition find_navigation :: "model_env \<Rightarrow> string \<Rightarrow> model_store \<Rightarrow> navigation_row res" where
  "find_navigation env i w = (case find (\<lambda>n. nv_id n = i) (ms_navigation w) of
     Some n \<Rightarrow> if me_works env ''navigation get'' then Inr n else Inl ''no rows in result set'' | None \<Rightarrow> Inl ''no rows in result set'')"

definition list_tables :: "string \<Rightarrow> model_store \<Rightarrow> table_row list" where
  "list_tables tenant w = sort_key (\<lambda>t. - tb_created t) (filter (\<lambda>t. tb_tenant t = tenant) (ms_tables w))"

definition list_fields :: "string \<Rightarrow> model_store \<Rightarrow> field_row list" where
  "list_fields table w = sort_key fd_created (filter (\<lambda>f. fd_table f = table) (ms_fields w))"

definition list_enums :: "string \<Rightarrow> model_store \<Rightarrow> enum_row list" where
  "list_enums field w = sort_key eu_order (sort_key eu_created (filter (\<lambda>v. eu_field v = field) (ms_enums w)))"

definition list_links :: "string \<Rightarrow> model_store \<Rightarrow> link_row list" where
  "list_links tenant w = sort_key (\<lambda>l. - ln_created l) (filter (\<lambda>l. ln_tenant l = tenant) (ms_links w))"

definition list_pivots :: "string \<Rightarrow> model_store \<Rightarrow> pivot_row list" where
  "list_pivots tenant w = sort_key (\<lambda>p. - pv_created p) (filter (\<lambda>p. pv_tenant p = tenant) (ms_pivots w))"

definition list_navigation :: "string \<Rightarrow> model_store \<Rightarrow> navigation_row list" where
  "list_navigation tenant w = sort_key nv_created (sort_key nv_id (filter (\<lambda>n. nv_tenant n = tenant) (ms_navigation w)))"

definition options_of :: "string \<Rightarrow> model_store \<Rightarrow> options_row option" where
  "options_of table w = find (\<lambda>x. ot_table x = table) (ms_options w)"

definition list_migrations :: "string \<Rightarrow> model_store \<Rightarrow> migration_row list" where
  "list_migrations tenant w = sort_key (\<lambda>m. - mg_applied m) (filter (\<lambda>m. mg_tenant m = tenant) (ms_migrations w))"

subsection \<open>Tenants and the log\<close>

definition tenant_known :: "string \<Rightarrow> model_store \<Rightarrow> bool" where
  "tenant_known i w = list_ex (\<lambda>t. tn_id t = i) (ms_tenants w)"

definition table_known :: "string \<Rightarrow> model_store \<Rightarrow> bool" where
  "table_known i w = list_ex (\<lambda>t. tb_id t = i) (ms_tables w)"

definition field_known :: "string \<Rightarrow> model_store \<Rightarrow> bool" where
  "field_known i w = list_ex (\<lambda>f. fd_id f = i) (ms_fields w)"

definition insert_tenant :: "model_env \<Rightarrow> tenant_row \<Rightarrow> unit model_step" where
  "insert_tenant env t = guarded env ''tenant insert''
     (\<lambda>w. list_all (\<lambda>x. tn_id x \<noteq> tn_id t \<and> tn_schema x \<noteq> tn_schema t \<and> (tn_key t = None \<or> tn_key x \<noteq> tn_key t)) (ms_tenants w))
     (\<lambda>w. w\<lparr>ms_tenants := ms_tenants w @ [t]\<rparr>)"

definition update_tenant_status :: "model_env \<Rightarrow> string \<Rightarrow> string \<Rightarrow> unit model_step" where
  "update_tenant_status env i status = guarded env ''tenant update'' (\<lambda>w. True)
     (\<lambda>w. w\<lparr>ms_tenants := map (\<lambda>t. if tn_id t = i then t\<lparr>tn_status := status, tn_updated := me_clock env\<rparr> else t) (ms_tenants w)\<rparr>)"

definition log_as :: "model_env \<Rightarrow> string \<Rightarrow> string \<Rightarrow> string \<Rightarrow> string \<Rightarrow> string \<Rightarrow> unit model_step" where
  "log_as env status tenant operation resource_type resource =
     then_do (model_id env) (\<lambda>i. guarded env ''change insert'' (tenant_known tenant)
       (\<lambda>w. w\<lparr>ms_changes := ms_changes w @ [\<lparr>lg_id = i, lg_tenant = tenant, lg_operation = operation, lg_resource_type = resource_type,
          lg_resource = resource, lg_status = status, lg_created = me_clock env\<rparr>]\<rparr>))"

definition log_change :: "model_env \<Rightarrow> string \<Rightarrow> string \<Rightarrow> string \<Rightarrow> string \<Rightarrow> unit model_step" where
  "log_change env = log_as env ''applied''"

text \<open>\<^verbatim>\<open>recordTenantSchemaMigration\<close>\<close>

definition log_migration :: "model_env \<Rightarrow> string \<Rightarrow> string \<Rightarrow> unit model_step" where
  "log_migration env tenant version =
     then_do (model_id env) (\<lambda>i. guarded env ''migration insert'' (tenant_known tenant)
       (\<lambda>w. w\<lparr>ms_migrations := ms_migrations w @ [\<lparr>mg_id = i, mg_tenant = tenant, mg_version = version, mg_applied = me_clock env\<rparr>]\<rparr>))"

definition log_both :: "model_env \<Rightarrow> string \<Rightarrow> string \<Rightarrow> string \<Rightarrow> string \<Rightarrow> unit model_step" where
  "log_both env tenant operation resource_type resource =
     then_do (log_change env tenant operation resource_type resource) (\<lambda>_. log_migration env tenant (operation @ '':'' @ resource_type))"

subsection \<open>Tables, fields, enum values\<close>

definition insert_table :: "model_env \<Rightarrow> table_row \<Rightarrow> unit model_step" where
  "insert_table env t = guarded env ''table insert''
     (\<lambda>w. tenant_known (tb_tenant t) w \<and>
        list_all (\<lambda>x. tb_id x \<noteq> tb_id t \<and> (tb_tenant x = tb_tenant t \<longrightarrow> tb_name x \<noteq> tb_name t)) (ms_tables w))
     (\<lambda>w. w\<lparr>ms_tables := ms_tables w @ [t]\<rparr>)"

definition update_table_row :: "model_env \<Rightarrow> table_row \<Rightarrow> unit model_step" where
  "update_table_row env t = guarded env ''table update'' (\<lambda>w. True)
     (\<lambda>w. w\<lparr>ms_tables := map (\<lambda>x. if tb_id x = tb_id t then x\<lparr>tb_description := tb_description t, tb_alias := tb_alias t,
        tb_semantic := tb_semantic t, tb_caption := tb_caption t, tb_archived := tb_archived t, tb_updated := tb_updated t\<rparr> else x) (ms_tables w)\<rparr>)"

definition insert_field :: "model_env \<Rightarrow> field_row \<Rightarrow> unit model_step" where
  "insert_field env f = guarded env ''field insert''
     (\<lambda>w. tenant_known (fd_tenant f) w \<and> table_known (fd_table f) w \<and>
        list_all (\<lambda>x. fd_id x \<noteq> fd_id f \<and> (fd_table x = fd_table f \<longrightarrow> fd_name x \<noteq> fd_name f)) (ms_fields w))
     (\<lambda>w. w\<lparr>ms_fields := ms_fields w @ [f]\<rparr>)"

definition update_field_row :: "model_env \<Rightarrow> field_row \<Rightarrow> unit model_step" where
  "update_field_row env f = guarded env ''field update'' (\<lambda>w. True)
     (\<lambda>w. w\<lparr>ms_fields := map (\<lambda>x. if fd_id x = fd_id f then x\<lparr>fd_description := fd_description f, fd_alias := fd_alias f,
        fd_nullable := fd_nullable f, fd_enum := fd_enum f, fd_unique := fd_unique f, fd_archived := fd_archived f,
        fd_updated := fd_updated f\<rparr> else x) (ms_fields w)\<rparr>)"

definition insert_enum :: "model_env \<Rightarrow> enum_row \<Rightarrow> unit model_step" where
  "insert_enum env v = guarded env ''enum insert''
     (\<lambda>w. tenant_known (eu_tenant v) w \<and> field_known (eu_field v) w \<and>
        list_all (\<lambda>x. eu_id x \<noteq> eu_id v \<and> (eu_field x = eu_field v \<longrightarrow> eu_value x \<noteq> eu_value v \<and> eu_label x \<noteq> eu_label v)) (ms_enums w))
     (\<lambda>w. w\<lparr>ms_enums := ms_enums w @ [v]\<rparr>)"

definition update_enum_row :: "model_env \<Rightarrow> enum_row \<Rightarrow> unit model_step" where
  "update_enum_row env v = guarded env ''enum update''
     (\<lambda>w. list_all (\<lambda>x. eu_id x \<noteq> eu_id v \<and> list_ex (\<lambda>y. eu_id y = eu_id v \<and> eu_field y = eu_field x) (ms_enums w) \<longrightarrow>
        eu_value x \<noteq> eu_value v \<and> eu_label x \<noteq> eu_label v) (ms_enums w))
     (\<lambda>w. w\<lparr>ms_enums := map (\<lambda>x. if eu_id x = eu_id v then x\<lparr>eu_value := eu_value v, eu_label := eu_label v, eu_order := eu_order v,
        eu_updated := eu_updated v\<rparr> else x) (ms_enums w)\<rparr>)"

definition delete_enum_row :: "model_env \<Rightarrow> string \<Rightarrow> unit model_step" where
  "delete_enum_row env i = guarded env ''enum delete'' (\<lambda>w. True) (\<lambda>w. w\<lparr>ms_enums := filter (\<lambda>x. eu_id x \<noteq> i) (ms_enums w)\<rparr>)"

subsection \<open>Links, pivots, options, navigation\<close>

definition insert_link :: "model_env \<Rightarrow> link_row \<Rightarrow> unit model_step" where
  "insert_link env l = guarded env ''link insert''
     (\<lambda>w. tenant_known (ln_tenant l) w \<and> table_known (ln_parent_table l) w \<and> field_known (ln_parent_field l) w \<and>
        table_known (ln_child_table l) w \<and> field_known (ln_child_field l) w \<and>
        list_all (\<lambda>x. ln_id x \<noteq> ln_id l \<and> (ln_tenant x = ln_tenant l \<and> ln_child_table x = ln_child_table l \<longrightarrow> ln_name x \<noteq> ln_name l)) (ms_links w))
     (\<lambda>w. w\<lparr>ms_links := ms_links w @ [l]\<rparr>)"

definition delete_link_row :: "model_env \<Rightarrow> string \<Rightarrow> unit model_step" where
  "delete_link_row env i = guarded env ''link delete'' (\<lambda>w. True) (\<lambda>w. w\<lparr>ms_links := filter (\<lambda>x. ln_id x \<noteq> i) (ms_links w)\<rparr>)"

definition insert_pivot :: "model_env \<Rightarrow> pivot_row \<Rightarrow> unit model_step" where
  "insert_pivot env p = guarded env ''pivot insert''
     (\<lambda>w. tenant_known (pv_tenant p) w \<and> table_known (pv_base p) w \<and> (case pv_field p of None \<Rightarrow> True | Some f \<Rightarrow> field_known f w) \<and>
        list_all (\<lambda>x. pv_id x \<noteq> pv_id p) (ms_pivots w))
     (\<lambda>w. w\<lparr>ms_pivots := ms_pivots w @ [p]\<rparr>)"

definition delete_pivot_row :: "model_env \<Rightarrow> string \<Rightarrow> unit model_step" where
  "delete_pivot_row env i = guarded env ''pivot delete'' (\<lambda>w. True) (\<lambda>w. w\<lparr>ms_pivots := filter (\<lambda>x. pv_id x \<noteq> i) (ms_pivots w)\<rparr>)"

definition upsert_options :: "model_env \<Rightarrow> options_row \<Rightarrow> unit model_step" where
  "upsert_options env x = guarded env ''options upsert''
     (\<lambda>w. tenant_known (ot_tenant x) w \<and> table_known (ot_table x) w \<and>
        (list_ex (\<lambda>y. ot_table y = ot_table x) (ms_options w) \<or> list_all (\<lambda>y. ot_id y \<noteq> ot_id x) (ms_options w)))
     (\<lambda>w. if list_ex (\<lambda>y. ot_table y = ot_table x) (ms_options w)
        then w\<lparr>ms_options := map (\<lambda>y. if ot_table y = ot_table x then y\<lparr>ot_displayed := ot_displayed x, ot_order := ot_order x,
          ot_updated := ot_updated x\<rparr> else y) (ms_options w)\<rparr>
        else w\<lparr>ms_options := ms_options w @ [x]\<rparr>)"

definition insert_navigation :: "model_env \<Rightarrow> navigation_row \<Rightarrow> unit model_step" where
  "insert_navigation env n = guarded env ''navigation insert''
     (\<lambda>w. tenant_known (nv_tenant n) w \<and> table_known (nv_source_table n) w \<and> field_known (nv_source_field n) w \<and>
        table_known (nv_target_table n) w \<and> field_known (nv_filter_field n) w \<and> field_known (nv_ordering_field n) w \<and>
        list_all (\<lambda>x. nv_id x \<noteq> nv_id n) (ms_navigation w))
     (\<lambda>w. w\<lparr>ms_navigation := ms_navigation w @ [n]\<rparr>)"

definition delete_navigation_row :: "model_env \<Rightarrow> string \<Rightarrow> unit model_step" where
  "delete_navigation_row env i = guarded env ''navigation delete'' (\<lambda>w. True)
     (\<lambda>w. w\<lparr>ms_navigation := filter (\<lambda>x. nv_id x \<noteq> i) (ms_navigation w)\<rparr>)"

text \<open>Deleting fields, by a test, and what refers to them; deleting a table deletes its fields so.\<close>

definition without_fields :: "(string \<Rightarrow> bool) \<Rightarrow> model_store \<Rightarrow> model_store" where
  "without_fields gone w = w\<lparr>ms_fields := filter (\<lambda>f. \<not> gone (fd_id f)) (ms_fields w),
     ms_enums := filter (\<lambda>v. \<not> gone (eu_field v)) (ms_enums w),
     ms_links := filter (\<lambda>l. \<not> gone (ln_parent_field l) \<and> \<not> gone (ln_child_field l)) (ms_links w),
     ms_pivots := filter (\<lambda>p. case pv_field p of None \<Rightarrow> True | Some f \<Rightarrow> \<not> gone f) (ms_pivots w),
     ms_navigation := filter (\<lambda>n. \<not> gone (nv_source_field n) \<and> \<not> gone (nv_filter_field n) \<and> \<not> gone (nv_ordering_field n)) (ms_navigation w)\<rparr>"

definition delete_field_row :: "model_env \<Rightarrow> string \<Rightarrow> unit model_step" where
  "delete_field_row env i = guarded env ''field delete'' (\<lambda>w. True) (without_fields (\<lambda>j. j = i))"

definition without_table :: "string \<Rightarrow> model_store \<Rightarrow> model_store" where
  "without_table i w = (let w = without_fields (\<lambda>j. list_ex (\<lambda>f. fd_id f = j \<and> fd_table f = i) (ms_fields w)) w in
     w\<lparr>ms_tables := filter (\<lambda>t. tb_id t \<noteq> i) (ms_tables w),
       ms_links := filter (\<lambda>l. ln_parent_table l \<noteq> i \<and> ln_child_table l \<noteq> i) (ms_links w),
       ms_pivots := filter (\<lambda>p. pv_base p \<noteq> i) (ms_pivots w),
       ms_options := filter (\<lambda>x. ot_table x \<noteq> i) (ms_options w),
       ms_navigation := filter (\<lambda>n. nv_source_table n \<noteq> i \<and> nv_target_table n \<noteq> i) (ms_navigation w),
       ms_jobs := filter (\<lambda>j. jb_table j \<noteq> Some i) (ms_jobs w)\<rparr>)"

definition delete_table_row :: "model_env \<Rightarrow> string \<Rightarrow> unit model_step" where
  "delete_table_row env i = guarded env ''table delete'' (\<lambda>w. True) (without_table i)"

subsection \<open>Index jobs\<close>

definition job_by_key :: "model_env \<Rightarrow> string \<Rightarrow> index_job_row option model_step" where
  "job_by_key env k w = (if \<not> me_works env ''job get'' then (Inl ''job get'', w)
     else (Inr (find (\<lambda>j. jb_key j = k \<and> jb_key j \<noteq> []) (ms_jobs w)), w))"

definition insert_job :: "model_env \<Rightarrow> index_job_row \<Rightarrow> unit model_step" where
  "insert_job env j = guarded env ''insert index job''
     (\<lambda>w. tenant_known (jb_tenant j) w \<and> (case jb_table j of None \<Rightarrow> True | Some t \<Rightarrow> table_known t w) \<and>
        list_all (\<lambda>x. jb_id x \<noteq> jb_id j \<and> (jb_key j \<noteq> [] \<longrightarrow> jb_key x \<noteq> jb_key j)) (ms_jobs w))
     (\<lambda>w. w\<lparr>ms_jobs := ms_jobs w @ [j]\<rparr>)"

definition change_job :: "string \<Rightarrow> (index_job_row \<Rightarrow> index_job_row) \<Rightarrow> model_store \<Rightarrow> model_store" where
  "change_job i f w = w\<lparr>ms_jobs := map (\<lambda>j. if jb_id j = i then f j else j) (ms_jobs w)\<rparr>"

definition start_job :: "model_env \<Rightarrow> string \<Rightarrow> index_job_row model_step" where
  "start_job env i w =
     (if \<not> me_works env ''job start'' then (Inl ''start index job attempt'', w)
      else case find (\<lambda>j. jb_id j = i) (ms_jobs w) of
          None \<Rightarrow> (Inl ''start index job attempt'', w)
        | Some j \<Rightarrow> (let j' = j\<lparr>jb_status := ''running'', jb_attempts := jb_attempts j + 1, jb_started := Some (me_clock env),
              jb_error := None, jb_completed := None\<rparr>
            in (Inr j', change_job i (\<lambda>_. j') w)))"

definition mark_applied :: "model_env \<Rightarrow> string \<Rightarrow> unit model_step" where
  "mark_applied env i = guarded env ''mark index job applied'' (\<lambda>w. True)
     (change_job i (\<lambda>j. j\<lparr>jb_status := ''applied'', jb_completed := Some (me_clock env), jb_error := None\<rparr>))"

definition mark_failed :: "model_env \<Rightarrow> string \<Rightarrow> string \<Rightarrow> unit model_step" where
  "mark_failed env i message = guarded env ''mark index job failed'' (\<lambda>w. True)
     (change_job i (\<lambda>j. j\<lparr>jb_status := ''failed'', jb_error := Some message, jb_completed := Some (me_clock env)\<rparr>))"

definition mark_pending :: "model_env \<Rightarrow> string \<Rightarrow> string \<Rightarrow> unit model_step" where
  "mark_pending env i message = guarded env ''mark index job pending retry'' (\<lambda>w. True)
     (change_job i (\<lambda>j. j\<lparr>jb_status := ''pending'', jb_error := Some message, jb_completed := None\<rparr>))"

definition retry_job :: "model_env \<Rightarrow> string \<Rightarrow> unit model_step" where
  "retry_job env i = guarded env ''retry index job'' (\<lambda>w. True)
     (change_job i (\<lambda>j. j\<lparr>jb_status := ''pending'', jb_error := None, jb_started := None, jb_completed := None,
        jb_scheduled := Some (me_clock env)\<rparr>))"

definition enqueue_index_job :: "model_env \<Rightarrow> string \<Rightarrow> unit model_step" where
  "enqueue_index_job env i = guarded env ''enqueue'' (\<lambda>w. True)
     (\<lambda>w. if me_inserts env i (ms_queue w) then w\<lparr>ms_queue := ms_queue w @ [i]\<rparr> else w)"

subsection \<open>The schemas of the tenants\<close>

definition columns_of :: "string \<times> string \<Rightarrow> model_store \<Rightarrow> string list option" where
  "columns_of t w = map_of (ms_columns w) t"

definition provision_schema :: "model_env \<Rightarrow> tenant_row \<Rightarrow> unit model_step" where
  "provision_schema env t = guarded env ''create schema'' (\<lambda>w. True) (\<lambda>w. w\<lparr>ms_schemas := List.insert (tn_schema t) (ms_schemas w)\<rparr>)"

definition table_columns :: "string list" where
  "table_columns = [''id'', ''object_id'', ''updated_at'', ''valid_from'', ''valid_until'']"

definition create_tenant_table :: "model_env \<Rightarrow> tenant_row \<Rightarrow> table_row \<Rightarrow> unit model_step" where
  "create_tenant_table env t b = guarded env ''create tenant table'' (\<lambda>w. tn_schema t \<in> set (ms_schemas w))
     (\<lambda>w. if columns_of (tn_schema t, tb_name b) w \<noteq> None then w
        else w\<lparr>ms_columns := ((tn_schema t, tb_name b), table_columns) # ms_columns w\<rparr>)"

text \<open>Dropping a table or a column drops the indexes on it.\<close>

definition drop_tenant_table :: "model_env \<Rightarrow> tenant_row \<Rightarrow> table_row \<Rightarrow> unit model_step" where
  "drop_tenant_table env t b = guarded env ''drop tenant table'' (\<lambda>w. True)
     (\<lambda>w. w\<lparr>ms_columns := filter (\<lambda>c. fst c \<noteq> (tn_schema t, tb_name b)) (ms_columns w),
        ms_indexes := filter (\<lambda>x. (fst x, fst (snd x)) \<noteq> (tn_schema t, tb_name b)) (ms_indexes w)\<rparr>)"

definition set_columns :: "string \<times> string \<Rightarrow> (string list \<Rightarrow> string list) \<Rightarrow> model_store \<Rightarrow> model_store" where
  "set_columns t f w = w\<lparr>ms_columns := map (\<lambda>c. if fst c = t then (t, f (snd c)) else c) (ms_columns w)\<rparr>"

definition add_tenant_field :: "model_env \<Rightarrow> tenant_row \<Rightarrow> table_row \<Rightarrow> field_row \<Rightarrow> unit model_step" where
  "add_tenant_field env t b f =
     (case column_type (fd_type f) of
        Inl e \<Rightarrow> failing e
      | Inr _ \<Rightarrow> guarded env ''add tenant field'' (\<lambda>w. columns_of (tn_schema t, tb_name b) w \<noteq> None)
          (set_columns (tn_schema t, tb_name b) (\<lambda>cs. if fd_name f \<in> set cs then cs else cs @ [fd_name f])))"

definition drop_tenant_field :: "model_env \<Rightarrow> tenant_row \<Rightarrow> table_row \<Rightarrow> field_row \<Rightarrow> unit model_step" where
  "drop_tenant_field env t b f = guarded env ''drop tenant field'' (\<lambda>w. columns_of (tn_schema t, tb_name b) w \<noteq> None)
     (\<lambda>w. (set_columns (tn_schema t, tb_name b) (removeAll (fd_name f)) w)\<lparr>ms_indexes := filter (\<lambda>(schema, table, name, cs).
        \<not> (schema = tn_schema t \<and> table = tb_name b \<and> fd_name f \<in> set cs)) (ms_indexes w)\<rparr>)"

text \<open>Indexes, by schema, table, name and columns; the name is one of the schema.\<close>

definition index_exists :: "string \<Rightarrow> string \<Rightarrow> model_store \<Rightarrow> bool" where
  "index_exists schema name w = list_ex (\<lambda>x. fst x = schema \<and> fst (snd (snd x)) = name) (ms_indexes w)"

definition create_index :: "model_env \<Rightarrow> tenant_row \<Rightarrow> table_row \<Rightarrow> string list \<Rightarrow> bool \<Rightarrow> unit model_step" where
  "create_index env t b cs unique =
     (let name = managed_index_name (me_digest env) (tb_name b) cs unique in
      guarded env ''create index'' (\<lambda>w. case columns_of (tn_schema t, tb_name b) w of None \<Rightarrow> False | Some cols \<Rightarrow> set cs \<subseteq> set cols)
        (\<lambda>w. if index_exists (tn_schema t) name w then w
           else w\<lparr>ms_indexes := (tn_schema t, tb_name b, name, cs) # ms_indexes w\<rparr>))"

definition drop_unique_index :: "model_env \<Rightarrow> tenant_row \<Rightarrow> table_row \<Rightarrow> string list \<Rightarrow> unit model_step" where
  "drop_unique_index env t b cs =
     (let name = managed_index_name (me_digest env) (tb_name b) cs True in
      guarded env ''drop unique index'' (\<lambda>w. True)
        (\<lambda>w. w\<lparr>ms_indexes := filter (\<lambda>x. \<not> (fst x = tn_schema t \<and> fst (snd (snd x)) = name)) (ms_indexes w)\<rparr>))"

end
