(* ===== verification/Datamodel_Service.thy ===== *)
theory Datamodel_Service
  imports Datamodel_Store
begin

text \<open>
  The services of the data model (\<^verbatim>\<open>data-model-service/internal/service\<close>): tenants, tables, fields, enum values, links,
  pivots, options, navigation and index jobs. A call reads outside its transaction and then writes inside it, so each
  is given as a read, which makes a plan, and a write that carries it out; the whole is the call that nothing interrupts.
\<close>

definition model_call :: "(model_store \<Rightarrow> 'p res) \<Rightarrow> ('p \<Rightarrow> 'a model_step) \<Rightarrow> 'a model_step" where
  "model_call rd wr w = (case rd w of Inl e \<Rightarrow> (Inl e, w) | Inr p \<Rightarrow> wr p w)"

subsection \<open>Tenants\<close>

definition create_tenant :: "model_env \<Rightarrow> string \<Rightarrow> string option \<Rightarrow> tenant_row model_step" where
  "create_tenant env name key =
     (if trim_space name = [] then failing ''tenant name is required''
      else then_do (model_id env) (\<lambda>i.
        (let t = new_tenant i (me_clock env) name key in
         transaction (me_works env)
           (then_do (insert_tenant env t) (\<lambda>_. then_do (log_both env i ''create_tenant'' ''tenant'' i) (\<lambda>_. finish_with t))))))"

definition provision_write :: "model_env \<Rightarrow> tenant_row \<Rightarrow> tenant_row model_step" where
  "provision_write env t =
     transaction (me_works env) (then_do (provision_schema env t) (\<lambda>_.
       then_do (log_both env (tn_id t) ''provision_tenant_schema'' ''tenant'' (tn_id t)) (\<lambda>_.
       if tn_status t \<noteq> ''active''
       then then_do (update_tenant_status env (tn_id t) ''active'') (\<lambda>_. finish_with (t\<lparr>tn_status := ''active'', tn_updated := me_clock env\<rparr>))
       else finish_with t)))"

definition provision_tenant :: "model_env \<Rightarrow> string \<Rightarrow> tenant_row model_step" where
  "provision_tenant env i = model_call (find_tenant env i) (provision_write env)"

subsection \<open>Index jobs that other services ask for\<close>

definition new_job :: "model_env \<Rightarrow> string \<Rightarrow> string \<Rightarrow> table_row \<Rightarrow> string \<Rightarrow> string list \<Rightarrow> string \<Rightarrow> int option \<Rightarrow> index_job_row" where
  "new_job env i tenant b jtype cs operation scheduled =
     \<lparr>jb_id = i, jb_tenant = tenant, jb_table = Some (tb_id b), jb_table_name = tb_name b, jb_type = jtype, jb_columns = cs,
      jb_status = ''pending'', jb_operation = operation, jb_error = None, jb_attempts = 0, jb_requested = me_clock env,
      jb_started = None, jb_completed = None, jb_scheduled = scheduled, jb_key = dedupe_key (me_digest env) tenant (tb_id b) jtype cs\<rparr>"

text \<open>\<^verbatim>\<open>ensureManagedIndexJobTx\<close>: the job, and whether it was asked for now.\<close>

definition request_job :: "model_env \<Rightarrow> string \<Rightarrow> table_row \<Rightarrow> string \<Rightarrow> string list \<Rightarrow> string \<Rightarrow> (index_job_row \<times> bool) model_step" where
  "request_job env tenant b jtype cs operation =
     then_do (model_id env) (\<lambda>i. (let j = new_job env i tenant b jtype cs operation None in
       then_do (insert_job env j) (\<lambda>_. then_do (enqueue_index_job env i) (\<lambda>_. finish_with (j, True)))))"

definition ensure_index :: "model_env \<Rightarrow> string \<Rightarrow> table_row \<Rightarrow> string \<Rightarrow> string list \<Rightarrow> string \<Rightarrow> (index_job_row \<times> bool) model_step" where
  "ensure_index env tenant b jtype cs operation =
     then_do (job_by_key env (dedupe_key (me_digest env) tenant (tb_id b) jtype cs)) (\<lambda>existing. case existing of
        None \<Rightarrow> request_job env tenant b jtype cs operation
      | Some j \<Rightarrow>
          if jb_status j \<in> {''pending'', ''running'', ''applied''} then finish_with (j, False)
          else if jb_status j = ''failed'' then
            then_do (retry_job env (jb_id j)) (\<lambda>_. then_do (enqueue_index_job env (jb_id j)) (\<lambda>_.
              finish_with (j\<lparr>jb_status := ''pending'', jb_scheduled := Some (me_clock env), jb_error := None\<rparr>, True)))
          else request_job env tenant b jtype cs operation)"

subsection \<open>Tables\<close>

definition table_read :: "model_env \<Rightarrow> string \<Rightarrow> string \<Rightarrow> string \<Rightarrow> model_store \<Rightarrow> tenant_row res" where
  "table_read env tenant name semantic w =
     bind_r (validate_object_name ''table'' name) (\<lambda>_. bind_r (validate_semantic_type semantic) (\<lambda>_.
     bind_r (find_tenant env tenant w) (\<lambda>t.
       if tn_status t \<noteq> ''active'' then Inl ''tenant must be active before creating tables'' else Inr t)))"

definition default_field :: "model_env \<Rightarrow> string \<Rightarrow> table_row \<Rightarrow> string \<Rightarrow> string \<Rightarrow> string \<Rightarrow> bool \<Rightarrow> field_row" where
  "default_field env i b name what t unique =
     \<lparr>fd_id = i, fd_tenant = tb_tenant b, fd_table = tb_id b, fd_name = name,
      fd_description = ''required '' @ what @ '' on all objects in the '' @ tb_name b @ '' table'', fd_alias = [], fd_type = t,
      fd_nullable = False, fd_enum = False, fd_unique = unique, fd_archived = False, fd_created = me_clock env, fd_updated = me_clock env\<rparr>"

definition new_table :: "model_env \<Rightarrow> string \<Rightarrow> string \<Rightarrow> string \<Rightarrow> string \<Rightarrow> string \<Rightarrow> string \<Rightarrow> table_row" where
  "new_table env i tenant name description alias semantic =
     \<lparr>tb_id = i, tb_tenant = tenant, tb_name = normalize_name name, tb_description = description, tb_alias = alias,
      tb_semantic = normalize_name semantic, tb_caption = [], tb_archived = False, tb_created = me_clock env, tb_updated = me_clock env\<rparr>"

definition table_write :: "model_env \<Rightarrow> string \<Rightarrow> string \<Rightarrow> string \<Rightarrow> string \<Rightarrow> tenant_row \<Rightarrow> table_row model_step" where
  "table_write env name description alias semantic t =
     then_do (model_id env) (\<lambda>i. then_do (model_id env) (\<lambda>i1. then_do (model_id env) (\<lambda>i2.
       (let b = new_table env i (tn_id t) name description alias semantic in
        transaction (me_works env)
          (then_do (insert_table env b) (\<lambda>_.
           then_do (create_tenant_table env t b) (\<lambda>_.
           then_do (insert_field env (default_field env i1 b ''object_id'' ''id'' ''string'' True)) (\<lambda>_.
           then_do (insert_field env (default_field env i2 b ''updated_at'' ''timestamp'' ''timestamp'' False)) (\<lambda>_.
           then_do (create_index env t b [''object_id''] True) (\<lambda>_.
           then_do (log_both env (tn_id t) ''create_table'' ''table'' i) (\<lambda>_. finish_with b)))))))))))"

definition create_table :: "model_env \<Rightarrow> string \<Rightarrow> string \<Rightarrow> string \<Rightarrow> string \<Rightarrow> string \<Rightarrow> table_row model_step" where
  "create_table env tenant name description alias semantic =
     model_call (table_read env tenant name semantic) (table_write env name description alias semantic)"

text \<open>\<^verbatim>\<open>Update\<close>: the table as it is written.\<close>

definition check_caption :: "table_row \<Rightarrow> field_row list \<Rightarrow> string \<Rightarrow> unit res" where
  "check_caption b fs caption =
     (if caption = [] then Inr ()
      else (case find (\<lambda>f. fd_name f = caption) fs of
          None \<Rightarrow> Inl (''caption field '' @ caption @ '' not found on table '' @ tb_name b)
        | Some f \<Rightarrow> if fd_archived f \<or> fd_type f \<noteq> ''string'' then Inl ''caption field must be a string field'' else Inr ()))"

definition update_table_read ::
    "model_env \<Rightarrow> string \<Rightarrow> string option \<Rightarrow> string option \<Rightarrow> string option \<Rightarrow> string option \<Rightarrow> model_store \<Rightarrow> table_row res" where
  "update_table_read env i description alias semantic caption w =
     bind_r (find_table env i w) (\<lambda>b.
     bind_r (case semantic of None \<Rightarrow> Inr () | Some s \<Rightarrow> validate_semantic_type s) (\<lambda>_.
     bind_r (case caption of None \<Rightarrow> Inr () | Some c \<Rightarrow> check_caption b (list_fields i w) (normalize_name c)) (\<lambda>_.
       Inr (b\<lparr>tb_description := given description (tb_description b), tb_alias := given alias (tb_alias b),
         tb_semantic := (case semantic of None \<Rightarrow> tb_semantic b | Some s \<Rightarrow> normalize_name s),
         tb_caption := (case caption of None \<Rightarrow> tb_caption b | Some c \<Rightarrow> normalize_name c), tb_updated := me_clock env\<rparr>))))"

definition update_table_write :: "model_env \<Rightarrow> table_row \<Rightarrow> table_row model_step" where
  "update_table_write env b =
     transaction (me_works env) (then_do (update_table_row env b) (\<lambda>_.
       then_do (if tb_caption b = [] then finish_with () else
           then_do (ensure_index env (tb_tenant b) b ''search'' [tb_caption b] ''update_table_caption_field'') (\<lambda>_. finish_with ())) (\<lambda>_.
       then_do (log_change env (tb_tenant b) ''update_table'' ''table'' (tb_id b)) (\<lambda>_. finish_with b))))"

definition update_table :: "model_env \<Rightarrow> string \<Rightarrow> string option \<Rightarrow> string option \<Rightarrow> string option \<Rightarrow> string option \<Rightarrow> table_row model_step" where
  "update_table env i description alias semantic caption =
     model_call (update_table_read env i description alias semantic caption) (update_table_write env)"

text \<open>What speaks against deleting a table.\<close>

definition table_conflicts :: "table_row \<Rightarrow> model_store \<Rightarrow> delete_report" where
  "table_conflicts b w = new_report
     \<lparr>dr_links := map ln_id (filter (\<lambda>l. ln_parent_table l = tb_id b \<or> ln_child_table l = tb_id b) (list_links (tb_tenant b) w)),
      dr_pivots := map pv_id (filter (\<lambda>p. pv_base p = tb_id b) (list_pivots (tb_tenant b) w))\<rparr>"

definition delete_table_read :: "model_env \<Rightarrow> string \<Rightarrow> model_store \<Rightarrow> (tenant_row \<times> table_row) res" where
  "delete_table_read env i w =
     bind_r (find_table env i w) (\<lambda>b. bind_r (find_tenant env (tb_tenant b) w) (\<lambda>t.
       if dr_links (table_conflicts b w) \<noteq> [] \<or> dr_pivots (table_conflicts b w) \<noteq> [] then Inl ''table has internal conflicts''
       else Inr (t, b)))"

definition delete_table_write :: "model_env \<Rightarrow> bool \<Rightarrow> tenant_row \<times> table_row \<Rightarrow> delete_report model_step" where
  "delete_table_write env dry_run = (\<lambda>(t, b).
     if dry_run then finish_with new_report
     else transaction (me_works env) (then_do (drop_tenant_table env t b) (\<lambda>_. then_do (delete_table_row env (tb_id b)) (\<lambda>_.
       then_do (log_both env (tb_tenant b) ''delete_table'' ''table'' (tb_id b)) (\<lambda>_. finish_with (new_report\<lparr>dr_performed := True\<rparr>))))))"

definition delete_table :: "model_env \<Rightarrow> string \<Rightarrow> bool \<Rightarrow> delete_report model_step" where
  "delete_table env i dry_run = model_call (delete_table_read env i) (delete_table_write env dry_run)"

subsection \<open>Fields\<close>

record field_input =
  fi_table :: string
  fi_name :: string
  fi_description :: string
  fi_alias :: string
  fi_type :: string
  fi_nullable :: bool
  fi_enum :: bool
  fi_unique :: bool
  fi_values :: "(string \<times> string \<times> int) list"

definition field_read :: "model_env \<Rightarrow> field_input \<Rightarrow> model_store \<Rightarrow> (tenant_row \<times> table_row) res" where
  "field_read env x w =
     bind_r (validate_field_create (fi_name x) (fi_type x) (fi_enum x) (fi_unique x)) (\<lambda>_.
     if fi_values x \<noteq> [] \<and> \<not> fi_enum x then Inl ''enum_values can only be provided when is_enum=true''
     else bind_r (find_table env (fi_table x) w) (\<lambda>b. bind_r (find_tenant env (tb_tenant b) w) (\<lambda>t. Inr (t, b))))"

definition new_field :: "model_env \<Rightarrow> string \<Rightarrow> string \<Rightarrow> field_input \<Rightarrow> field_row" where
  "new_field env i tenant x =
     \<lparr>fd_id = i, fd_tenant = tenant, fd_table = fi_table x, fd_name = normalize_name (fi_name x), fd_description = fi_description x,
      fd_alias = trim_space (fi_alias x), fd_type = fi_type x, fd_nullable = fi_nullable x, fd_enum = fi_enum x, fd_unique = fi_unique x,
      fd_archived = False, fd_created = me_clock env, fd_updated = me_clock env\<rparr>"

definition add_enum :: "model_env \<Rightarrow> field_row \<Rightarrow> string \<Rightarrow> string \<Rightarrow> int \<Rightarrow> enum_row model_step" where
  "add_enum env f v label pos =
     then_do (model_id env) (\<lambda>i.
       (let x = \<lparr>eu_id = i, eu_tenant = fd_tenant f, eu_field = fd_id f, eu_value = v, eu_label = label, eu_order = pos,
          eu_created = me_clock env, eu_updated = me_clock env\<rparr> in
        then_do (insert_enum env x) (\<lambda>_.
        then_do (log_both env (fd_tenant f) ''create_field_enum_value'' ''field_enum_value'' i) (\<lambda>_. finish_with x))))"

fun add_enums :: "model_env \<Rightarrow> field_row \<Rightarrow> (string \<times> string \<times> int) list \<Rightarrow> unit model_step" where
  "add_enums env f [] = finish_with ()"
| "add_enums env f ((v, label, pos) # rest) =
     (case validate_enum_create f v label of
        Inl e \<Rightarrow> failing e
      | Inr _ \<Rightarrow> then_do (add_enum env f v label pos) (\<lambda>_. add_enums env f rest))"

definition field_write :: "model_env \<Rightarrow> field_input \<Rightarrow> tenant_row \<times> table_row \<Rightarrow> field_row model_step" where
  "field_write env x = (\<lambda>(t, b).
     then_do (model_id env) (\<lambda>i. (let f = new_field env i (tb_tenant b) x in
       transaction (me_works env)
         (then_do (insert_field env f) (\<lambda>_.
          then_do (add_tenant_field env t b f) (\<lambda>_.
          then_do (if fd_unique f then create_index env t b [fd_name f] True else finish_with ()) (\<lambda>_.
          then_do (add_enums env f (fi_values x)) (\<lambda>_.
          then_do (log_both env (fd_tenant f) ''create_field'' ''field'' i) (\<lambda>_. finish_with f)))))))))"

definition create_field :: "model_env \<Rightarrow> field_input \<Rightarrow> field_row model_step" where
  "create_field env x = model_call (field_read env x) (field_write env x)"

record field_change =
  fc_description :: "string option"
  fc_alias :: "string option"
  fc_nullable :: "bool option"
  fc_enum :: "bool option"
  fc_unique :: "bool option"

text \<open>The plan: tenant, table, whether the field was unique, and the field as it is written.\<close>

definition update_field_read :: "model_env \<Rightarrow> string \<Rightarrow> field_change \<Rightarrow> model_store \<Rightarrow> (tenant_row \<times> table_row \<times> bool \<times> field_row) res" where
  "update_field_read env i c w =
     bind_r (find_field env i w) (\<lambda>f.
     bind_r (validate_field_update f (fd_type f) (fc_enum c) (fc_unique c) (fc_nullable c)) (\<lambda>_.
     bind_r (find_table env (fd_table f) w) (\<lambda>b. bind_r (find_tenant env (tb_tenant b) w) (\<lambda>t.
       if fd_enum f \<and> fc_enum c = Some False \<and> list_enums i w \<noteq> [] then Inl ''remove enum values before unsetting is_enum''
       else Inr (t, b, fd_unique f, f\<lparr>fd_description := given (fc_description c) (fd_description f),
         fd_alias := (case fc_alias c of None \<Rightarrow> fd_alias f | Some a \<Rightarrow> trim_space a), fd_nullable := given (fc_nullable c) (fd_nullable f),
         fd_enum := given (fc_enum c) (fd_enum f), fd_unique := given (fc_unique c) (fd_unique f), fd_updated := me_clock env\<rparr>)))))"

definition update_field_write :: "model_env \<Rightarrow> tenant_row \<times> table_row \<times> bool \<times> field_row \<Rightarrow> field_row model_step" where
  "update_field_write env = (\<lambda>(t, b, was_unique, f).
     transaction (me_works env) (then_do (update_field_row env f) (\<lambda>_.
       then_do (if \<not> was_unique \<and> fd_unique f then create_index env t b [fd_name f] True else finish_with ()) (\<lambda>_.
       then_do (if was_unique \<and> \<not> fd_unique f then drop_unique_index env t b [fd_name f] else finish_with ()) (\<lambda>_.
       then_do (log_both env (fd_tenant f) ''update_field'' ''field'' (fd_id f)) (\<lambda>_. finish_with f))))))"

definition update_field :: "model_env \<Rightarrow> string \<Rightarrow> field_change \<Rightarrow> field_row model_step" where
  "update_field env i c = model_call (update_field_read env i c) (update_field_write env)"

definition field_conflicts :: "table_row \<Rightarrow> field_row \<Rightarrow> model_store \<Rightarrow> delete_report" where
  "field_conflicts b f w = new_report
     \<lparr>dr_reserved := (fd_name f = ''object_id'' \<or> fd_name f = ''updated_at''),
      dr_links := map ln_id (filter (\<lambda>l. ln_parent_field l = fd_id f \<or> ln_child_field l = fd_id f) (list_links (tb_tenant b) w)),
      dr_pivots := map pv_id (filter (\<lambda>p. pv_field p = Some (fd_id f)) (list_pivots (tb_tenant b) w))\<rparr>"

definition delete_field_read :: "model_env \<Rightarrow> string \<Rightarrow> model_store \<Rightarrow> (tenant_row \<times> table_row \<times> field_row) res" where
  "delete_field_read env i w =
     bind_r (find_field env i w) (\<lambda>f. bind_r (find_table env (fd_table f) w) (\<lambda>b. bind_r (find_tenant env (tb_tenant b) w) (\<lambda>t.
       if dr_reserved (field_conflicts b f w) then Inl ''field is reserved''
       else if dr_links (field_conflicts b f w) \<noteq> [] \<or> dr_pivots (field_conflicts b f w) \<noteq> [] then Inl ''field has internal conflicts''
       else Inr (t, b, f))))"

definition delete_field_write :: "model_env \<Rightarrow> bool \<Rightarrow> tenant_row \<times> table_row \<times> field_row \<Rightarrow> delete_report model_step" where
  "delete_field_write env dry_run = (\<lambda>(t, b, f).
     if dry_run then finish_with new_report
     else transaction (me_works env)
       (then_do (if fd_unique f then drop_unique_index env t b [fd_name f] else finish_with ()) (\<lambda>_.
        then_do (drop_tenant_field env t b f) (\<lambda>_. then_do (delete_field_row env (fd_id f)) (\<lambda>_.
        then_do (log_both env (fd_tenant f) ''delete_field'' ''field'' (fd_id f)) (\<lambda>_. finish_with (new_report\<lparr>dr_performed := True\<rparr>)))))))"

definition delete_field :: "model_env \<Rightarrow> string \<Rightarrow> bool \<Rightarrow> delete_report model_step" where
  "delete_field env i dry_run = model_call (delete_field_read env i) (delete_field_write env dry_run)"

subsection \<open>Enum values\<close>

definition enum_read :: "model_env \<Rightarrow> string \<Rightarrow> string \<Rightarrow> string \<Rightarrow> model_store \<Rightarrow> field_row res" where
  "enum_read env field v label w = bind_r (find_field env field w) (\<lambda>f. bind_r (validate_enum_create f v label) (\<lambda>_. Inr f))"

definition enum_write :: "model_env \<Rightarrow> string \<Rightarrow> string \<Rightarrow> int \<Rightarrow> field_row \<Rightarrow> enum_row model_step" where
  "enum_write env v label pos f = transaction (me_works env) (add_enum env f v label pos)"

definition create_enum :: "model_env \<Rightarrow> string \<Rightarrow> string \<Rightarrow> string \<Rightarrow> int \<Rightarrow> enum_row model_step" where
  "create_enum env field v label pos = model_call (enum_read env field v label) (enum_write env v label pos)"

definition update_enum_read :: "model_env \<Rightarrow> string \<Rightarrow> string option \<Rightarrow> string option \<Rightarrow> int option \<Rightarrow> model_store \<Rightarrow> (field_row \<times> enum_row) res" where
  "update_enum_read env i v label pos w =
     bind_r (find_enum env i w) (\<lambda>x. bind_r (find_field env (eu_field x) w) (\<lambda>f. bind_r (validate_enum_update f v label) (\<lambda>_.
       Inr (f, x\<lparr>eu_value := given v (eu_value x), eu_label := given label (eu_label x), eu_order := given pos (eu_order x),
         eu_updated := me_clock env\<rparr>))))"

definition update_enum_write :: "model_env \<Rightarrow> field_row \<times> enum_row \<Rightarrow> enum_row model_step" where
  "update_enum_write env = (\<lambda>(f, x). transaction (me_works env) (then_do (update_enum_row env x) (\<lambda>_.
     then_do (log_both env (fd_tenant f) ''update_field_enum_value'' ''field_enum_value'' (eu_id x)) (\<lambda>_. finish_with x))))"

definition update_enum :: "model_env \<Rightarrow> string \<Rightarrow> string option \<Rightarrow> string option \<Rightarrow> int option \<Rightarrow> enum_row model_step" where
  "update_enum env i v label pos = model_call (update_enum_read env i v label pos) (update_enum_write env)"

definition delete_enum_read :: "model_env \<Rightarrow> string \<Rightarrow> model_store \<Rightarrow> (field_row \<times> enum_row) res" where
  "delete_enum_read env i w = bind_r (find_enum env i w) (\<lambda>x. bind_r (find_field env (eu_field x) w) (\<lambda>f. Inr (f, x)))"

definition delete_enum_write :: "model_env \<Rightarrow> field_row \<times> enum_row \<Rightarrow> unit model_step" where
  "delete_enum_write env = (\<lambda>(f, x). transaction (me_works env) (then_do (delete_enum_row env (eu_id x)) (\<lambda>_.
     log_both env (fd_tenant f) ''delete_field_enum_value'' ''field_enum_value'' (eu_id x))))"

definition delete_enum :: "model_env \<Rightarrow> string \<Rightarrow> unit model_step" where
  "delete_enum env i = model_call (delete_enum_read env i) (delete_enum_write env)"

end
