(* ===== verification/Datamodel_Links.thy ===== *)
theory Datamodel_Links
  imports Datamodel_Service
begin

text \<open>
  Links, pivots, display options, navigation and index jobs (\<^verbatim>\<open>link_service.go\<close>, \<^verbatim>\<open>pivot_service.go\<close>,
  \<^verbatim>\<open>options_service.go\<close>, \<^verbatim>\<open>navigation_option_service.go\<close>, \<^verbatim>\<open>index_job_service.go\<close>) and the worker that builds
  indexes (\<^verbatim>\<open>worker/index_job_runner.go\<close>).
\<close>

subsection \<open>Links\<close>

record link_input =
  li_tenant :: string
  li_name :: string
  li_parent_table :: string
  li_parent_field :: string
  li_child_table :: string
  li_child_field :: string

definition link_read :: "model_env \<Rightarrow> link_input \<Rightarrow> model_store \<Rightarrow> unit res" where
  "link_read env x w =
     bind_r (validate_object_name ''link'' (li_name x)) (\<lambda>_.
     bind_r (find_table env (li_parent_table x) w) (\<lambda>pt. bind_r (find_table env (li_child_table x) w) (\<lambda>ct.
     bind_r (find_field env (li_parent_field x) w) (\<lambda>pf. bind_r (find_field env (li_child_field x) w) (\<lambda>cf.
       if tb_tenant pt \<noteq> li_tenant x \<or> tb_tenant ct \<noteq> li_tenant x then Inl ''tables do not belong to tenant''
       else if fd_tenant pf \<noteq> li_tenant x \<or> fd_tenant cf \<noteq> li_tenant x \<or> fd_table pf \<noteq> tb_id pt \<or> fd_table cf \<noteq> tb_id ct
         then Inl ''link fields do not belong to the selected tenant and tables''
       else if \<not> fd_unique pf then Inl ''parent field must be unique''
       else if fd_type pf \<noteq> ''string'' \<or> fd_type cf \<noteq> ''string'' then Inl ''parent and child link fields must be string''
       else Inr ())))))"

definition link_write :: "model_env \<Rightarrow> link_input \<Rightarrow> unit \<Rightarrow> link_row model_step" where
  "link_write env x = (\<lambda>_. then_do (model_id env) (\<lambda>i.
     (let l = \<lparr>ln_id = i, ln_tenant = li_tenant x, ln_name = normalize_name (li_name x), ln_parent_table = li_parent_table x,
        ln_parent_field = li_parent_field x, ln_child_table = li_child_table x, ln_child_field = li_child_field x, ln_created = me_clock env\<rparr> in
      transaction (me_works env) (then_do (insert_link env l) (\<lambda>_.
        then_do (log_both env (ln_tenant l) ''create_link'' ''link'' i) (\<lambda>_. finish_with l))))))"

definition create_link :: "model_env \<Rightarrow> link_input \<Rightarrow> link_row model_step" where
  "create_link env x = model_call (link_read env x) (link_write env x)"

definition link_conflicts :: "link_row \<Rightarrow> model_store \<Rightarrow> delete_report" where
  "link_conflicts l w = new_report\<lparr>dr_pivots := map pv_id (filter (\<lambda>p. ln_id l \<in> set (pv_path p)) (list_pivots (ln_tenant l) w))\<rparr>"

definition delete_link_read :: "model_env \<Rightarrow> string \<Rightarrow> model_store \<Rightarrow> link_row res" where
  "delete_link_read env i w = bind_r (find_link env i w) (\<lambda>l.
     if dr_pivots (link_conflicts l w) \<noteq> [] then Inl ''link has internal conflicts'' else Inr l)"

definition delete_link_write :: "model_env \<Rightarrow> bool \<Rightarrow> link_row \<Rightarrow> delete_report model_step" where
  "delete_link_write env dry_run l =
     (if dry_run then finish_with new_report
      else transaction (me_works env) (then_do (delete_link_row env (ln_id l)) (\<lambda>_.
        then_do (log_both env (ln_tenant l) ''delete_link'' ''link'' (ln_id l)) (\<lambda>_. finish_with (new_report\<lparr>dr_performed := True\<rparr>)))))"

definition delete_link :: "model_env \<Rightarrow> string \<Rightarrow> bool \<Rightarrow> delete_report model_step" where
  "delete_link env i dry_run = model_call (delete_link_read env i) (delete_link_write env dry_run)"

subsection \<open>Pivots\<close>

text \<open>The walk along the path; the link before the first one is the base table.\<close>

definition link_of :: "link_row list \<Rightarrow> string \<Rightarrow> link_row option" where
  "link_of ls i = find (\<lambda>l. ln_id l = i) ls"

fun check_path :: "link_row list \<Rightarrow> link_row \<Rightarrow> string list \<Rightarrow> link_row res" where
  "check_path ls prev [] = Inr prev"
| "check_path ls prev (i # is) =
     (case link_of ls i of
        None \<Rightarrow> Inl ''pivot path contains unknown link''
      | Some cur \<Rightarrow> if ln_parent_table prev \<noteq> ln_child_table cur then Inl ''pivot path links are not chained consistently''
          else check_path ls cur is)"

definition path_end :: "link_row list \<Rightarrow> string \<Rightarrow> string list \<Rightarrow> link_row res" where
  "path_end ls base path = (case path of [] \<Rightarrow> Inl ''first pivot path link must start from the base table''
     | i # is \<Rightarrow> (case link_of ls i of
          None \<Rightarrow> Inl ''first pivot path link must start from the base table''
        | Some first \<Rightarrow> if ln_child_table first \<noteq> base then Inl ''first pivot path link must start from the base table''
            else check_path ls first is))"

definition check_pivot_field :: "model_env \<Rightarrow> string \<Rightarrow> string \<Rightarrow> string option \<Rightarrow> model_store \<Rightarrow> unit res" where
  "check_pivot_field env tenant base field w = (case field of None \<Rightarrow> Inr ()
     | Some i \<Rightarrow> bind_r (find_field env i w) (\<lambda>f.
         if fd_tenant f \<noteq> tenant \<or> fd_table f \<noteq> base then Inl ''pivot field does not belong to the selected tenant and base table''
         else if fd_type f \<noteq> ''string'' then Inl ''pivot field must be a string field'' else Inr ()))"

definition check_pivot_path :: "model_env \<Rightarrow> string \<Rightarrow> string \<Rightarrow> string list \<Rightarrow> model_store \<Rightarrow> unit res" where
  "check_pivot_path env tenant base path w =
     (if path = [] then Inr ()
      else bind_r (path_end (list_links tenant w) base path) (\<lambda>last. bind_r (find_field env (ln_parent_field last) w) (\<lambda>f.
        if fd_type f \<noteq> ''string'' then Inl ''pivot field must be a string field'' else Inr ())))"

definition pivot_read :: "model_env \<Rightarrow> string \<Rightarrow> string \<Rightarrow> string option \<Rightarrow> string list \<Rightarrow> model_store \<Rightarrow> unit res" where
  "pivot_read env tenant base field path w =
     bind_r (validate_pivot field path) (\<lambda>_. bind_r (find_table env base w) (\<lambda>b.
     if tb_tenant b \<noteq> tenant then Inl ''base table does not belong to tenant''
     else bind_r (check_pivot_field env tenant base field w) (\<lambda>_. check_pivot_path env tenant base path w)))"

definition pivot_write :: "model_env \<Rightarrow> string \<Rightarrow> string \<Rightarrow> string option \<Rightarrow> string list \<Rightarrow> unit \<Rightarrow> pivot_row model_step" where
  "pivot_write env tenant base field path = (\<lambda>_. then_do (model_id env) (\<lambda>i.
     (let p = \<lparr>pv_id = i, pv_tenant = tenant, pv_base = base, pv_field = field, pv_path = path, pv_created = me_clock env\<rparr> in
      transaction (me_works env) (then_do (insert_pivot env p) (\<lambda>_.
        then_do (log_both env tenant ''create_pivot'' ''pivot'' i) (\<lambda>_. finish_with p))))))"

definition create_pivot :: "model_env \<Rightarrow> string \<Rightarrow> string \<Rightarrow> string option \<Rightarrow> string list \<Rightarrow> pivot_row model_step" where
  "create_pivot env tenant base field path = model_call (pivot_read env tenant base field path) (pivot_write env tenant base field path)"

definition delete_pivot_write :: "model_env \<Rightarrow> bool \<Rightarrow> pivot_row \<Rightarrow> delete_report model_step" where
  "delete_pivot_write env dry_run p =
     (if dry_run then finish_with new_report
      else transaction (me_works env) (then_do (delete_pivot_row env (pv_id p)) (\<lambda>_.
        then_do (log_both env (pv_tenant p) ''delete_pivot'' ''pivot'' (pv_id p)) (\<lambda>_. finish_with (new_report\<lparr>dr_performed := True\<rparr>)))))"

definition delete_pivot :: "model_env \<Rightarrow> string \<Rightarrow> bool \<Rightarrow> delete_report model_step" where
  "delete_pivot env i dry_run = model_call (find_pivot env i) (delete_pivot_write env dry_run)"

subsection \<open>Options\<close>

definition get_options :: "model_env \<Rightarrow> string \<Rightarrow> model_store \<Rightarrow> options_row res" where
  "get_options env table w = bind_r (find_table env table w) (\<lambda>b.
     (let x = (case options_of table w of Some x \<Rightarrow> x
          | None \<Rightarrow> \<lparr>ot_id = me_gen env (ms_drawn w), ot_tenant = tb_tenant b, ot_table = table, ot_displayed = [], ot_order = [],
              ot_updated = me_clock env\<rparr>)
      in Inr (x\<lparr>ot_order := sort_field_order (list_fields table w) (ot_order x)\<rparr>)))"

definition display_limit :: nat where "display_limit = 12"

definition options_read :: "model_env \<Rightarrow> options_row \<Rightarrow> model_store \<Rightarrow> (table_row \<times> field_row list) res" where
  "options_read env x w = bind_r (find_table env (ot_table x) w) (\<lambda>b.
     (let fs = list_fields (tb_id b) w; valid = fd_id ` set (filter (\<lambda>f. \<not> fd_archived f) fs) in
      if display_limit < length (ot_displayed x) then Inl ''at most 12 displayed fields are allowed''
      else if \<not> distinct (ot_displayed x) \<or> \<not> distinct (ot_order x) then Inl ''display fields must be distinct''
      else if \<not> set (ot_displayed x) \<subseteq> valid then Inl ''displayed field does not belong to table''
      else if \<not> set (ot_order x) \<subseteq> valid then Inl ''ordered field does not belong to table''
      else Inr (b, fs)))"

text \<open>An option without an identifier draws one.\<close>

definition options_write :: "model_env \<Rightarrow> options_row \<Rightarrow> table_row \<times> field_row list \<Rightarrow> options_row model_step" where
  "options_write env x = (\<lambda>(b, fs).
     then_do (if ot_id x = [] then model_id env else finish_with (ot_id x)) (\<lambda>i.
       (let x = x\<lparr>ot_id := i, ot_tenant := tb_tenant b, ot_updated := me_clock env\<rparr> in
        transaction (me_works env) (then_do (upsert_options env x) (\<lambda>_.
          then_do (log_both env (ot_tenant x) ''upsert_table_options'' ''table_options'' (ot_table x)) (\<lambda>_.
          finish_with (x\<lparr>ot_order := sort_field_order fs (ot_order x)\<rparr>)))))))"

definition set_options :: "model_env \<Rightarrow> options_row \<Rightarrow> options_row model_step" where
  "set_options env x = model_call (options_read env x) (options_write env x)"

subsection \<open>Navigation\<close>

record navigation_input =
  ni_tenant :: string
  ni_source_table :: string
  ni_source_field :: string
  ni_target_table :: string
  ni_filter_field :: string
  ni_ordering_field :: string

definition backed :: "navigation_input \<Rightarrow> model_store \<Rightarrow> bool" where
  "backed x w =
     (list_ex (\<lambda>l. ln_parent_table l = ni_source_table x \<and> ln_parent_field l = ni_source_field x \<and>
        ln_child_table l = ni_target_table x \<and> ln_child_field l = ni_filter_field x) (list_links (ni_tenant x) w) \<or>
      ni_source_table x = ni_target_table x \<and>
        list_ex (\<lambda>p. pv_base p = ni_source_table x \<and> pv_field p = Some (ni_source_field x)) (list_pivots (ni_tenant x) w))"

text \<open>The plan: target table, filter field, ordering field.\<close>

definition navigation_read :: "model_env \<Rightarrow> navigation_input \<Rightarrow> model_store \<Rightarrow> (table_row \<times> field_row \<times> field_row) res" where
  "navigation_read env x w =
     bind_r (find_table env (ni_source_table x) w) (\<lambda>st. bind_r (find_table env (ni_target_table x) w) (\<lambda>tt.
     if tb_tenant st \<noteq> ni_tenant x \<or> tb_tenant tt \<noteq> ni_tenant x then Inl ''tables do not belong to tenant''
     else (let sfs = list_fields (tb_id st) w; tfs = list_fields (tb_id tt) w; pick = (\<lambda>i. find (\<lambda>f. fd_id f = i)) in
       case pick (ni_source_field x) sfs of None \<Rightarrow> Inl ''source field does not belong to source table''
       | Some sf \<Rightarrow> (case pick (ni_filter_field x) tfs of None \<Rightarrow> Inl ''filter field does not belong to target table''
       | Some ff \<Rightarrow> (case pick (ni_ordering_field x) tfs of None \<Rightarrow> Inl ''ordering field does not belong to target table''
       | Some order \<Rightarrow>
           if fd_type sf \<noteq> ''string'' then Inl ''source field must be a string field''
           else if ni_filter_field x = ni_ordering_field x then Inl ''filter and ordering fields must be different''
           else if tb_id st = tb_id tt \<and> fd_id sf \<noteq> fd_id ff
             then Inl ''if source and target tables are the same, source and filter fields must match''
           else if \<not> backed x w then Inl ''navigation option must be backed by a reverse link or self-table pivot''
           else Inr (tt, ff, order))))))"

definition navigation_write :: "model_env \<Rightarrow> navigation_input \<Rightarrow> table_row \<times> field_row \<times> field_row \<Rightarrow> navigation_row model_step" where
  "navigation_write env x = (\<lambda>(tt, ff, order).
     then_do (model_id env) (\<lambda>i.
       (let n = \<lparr>nv_id = i, nv_tenant = ni_tenant x, nv_source_table = ni_source_table x, nv_source_field = ni_source_field x,
          nv_target_table = ni_target_table x, nv_filter_field = ni_filter_field x, nv_ordering_field = ni_ordering_field x,
          nv_created = me_clock env\<rparr> in
        transaction (me_works env) (then_do (insert_navigation env n) (\<lambda>_.
          then_do (ensure_index env (ni_tenant x) tt ''navigation'' [fd_name ff, fd_name order] ''create_navigation_option'') (\<lambda>_.
          then_do (log_change env (ni_tenant x) ''create_navigation_option'' ''navigation_option'' i) (\<lambda>_. finish_with n)))))))"

definition create_navigation :: "model_env \<Rightarrow> navigation_input \<Rightarrow> navigation_row model_step" where
  "create_navigation env x = model_call (navigation_read env x) (navigation_write env x)"

definition delete_navigation_write :: "model_env \<Rightarrow> navigation_row \<Rightarrow> unit model_step" where
  "delete_navigation_write env n = transaction (me_works env) (then_do (delete_navigation_row env (nv_id n))
     (\<lambda>_. log_change env (nv_tenant n) ''delete_navigation_option'' ''navigation_option'' (nv_id n)))"

definition delete_navigation :: "model_env \<Rightarrow> string \<Rightarrow> unit model_step" where
  "delete_navigation env i = model_call (find_navigation env i) (delete_navigation_write env)"

subsection \<open>Index jobs\<close>

fun pick_columns :: "string list \<Rightarrow> string list \<Rightarrow> string list res" where
  "pick_columns names [] = Inr []"
| "pick_columns names (c # cs) =
     (if normalize_name c \<notin> set names then Inl (''field does not exist on table: '' @ c)
      else bind_r (pick_columns names cs) (\<lambda>rest. Inr (normalize_name c # rest)))"

definition job_read :: "model_env \<Rightarrow> string \<Rightarrow> string \<Rightarrow> string \<Rightarrow> string list \<Rightarrow> model_store \<Rightarrow> (table_row \<times> string list) res" where
  "job_read env tenant table jtype cs w =
     bind_r (validate_index_job jtype cs) (\<lambda>_. bind_r (find_tenant env tenant w) (\<lambda>t.
     if tn_status t \<noteq> ''active'' then Inl ''tenant must be active before creating index jobs''
     else bind_r (find_table env table w) (\<lambda>b.
       if tb_tenant b \<noteq> tenant then Inl ''table does not belong to tenant''
       else bind_r (pick_columns (map fd_name (list_fields table w)) cs) (\<lambda>names. Inr (b, names)))))"

definition job_write :: "model_env \<Rightarrow> string \<Rightarrow> string \<Rightarrow> string \<Rightarrow> int option \<Rightarrow> table_row \<times> string list \<Rightarrow> index_job_row model_step" where
  "job_write env tenant jtype operation scheduled = (\<lambda>(b, names).
     then_do (model_id env) (\<lambda>i. (let j = new_job env i tenant b jtype names (trim_space operation) scheduled in
       transaction (me_works env) (then_do (insert_job env j) (\<lambda>_.
         then_do (log_change env tenant ''request_index_job'' ''index_job'' i) (\<lambda>_.
         then_do (enqueue_index_job env i) (\<lambda>_. finish_with j)))))))"

definition create_job :: "model_env \<Rightarrow> string \<Rightarrow> string \<Rightarrow> string \<Rightarrow> string list \<Rightarrow> string \<Rightarrow> int option \<Rightarrow> index_job_row model_step" where
  "create_job env tenant table jtype cs operation scheduled =
     model_call (job_read env tenant table jtype cs) (job_write env tenant jtype operation scheduled)"

definition retry_job_read :: "model_env \<Rightarrow> string \<Rightarrow> model_store \<Rightarrow> string res" where
  "retry_job_read env i w = (case find (\<lambda>j. jb_id j = i) (ms_jobs w) of
     None \<Rightarrow> Inl ''no rows in result set''
   | Some j \<Rightarrow> if \<not> me_works env ''job get'' then Inl ''job get''
       else if jb_status j \<noteq> ''failed'' then Inl ''only failed index jobs can be retried'' else Inr i)"

definition retry_job_write :: "model_env \<Rightarrow> string \<Rightarrow> unit model_step" where
  "retry_job_write env i = transaction (me_works env) (then_do (retry_job env i) (\<lambda>_. enqueue_index_job env i))"

definition retry_index_job :: "model_env \<Rightarrow> string \<Rightarrow> unit model_step" where
  "retry_index_job env i = model_call (retry_job_read env i) (retry_job_write env)"

subsection \<open>The worker\<close>

text \<open>A statement whose error is dropped, outside a transaction.\<close>

definition dropping :: "unit model_step \<Rightarrow> unit model_step" where
  "dropping m w = (Inr (), snd (m w))"

definition log_job :: "model_env \<Rightarrow> index_job_row \<Rightarrow> string \<Rightarrow> string \<Rightarrow> unit model_step" where
  "log_job env j operation status = dropping (log_as env status (jb_tenant j) operation ''index_job'' (jb_id j))"

definition fail_job :: "model_env \<Rightarrow> index_job_row \<Rightarrow> string \<Rightarrow> unit model_step" where
  "fail_job env j message = then_do (dropping (mark_failed env (jb_id j) message)) (\<lambda>_. log_job env j ''fail_index_job'' ''failed'')"

definition apply_job :: "model_env \<Rightarrow> index_job_row \<Rightarrow> unit model_step" where
  "apply_job env j = then_do (mark_applied env (jb_id j)) (\<lambda>_. log_job env j ''apply_index_job'' ''applied'')"

definition retry_or_fail :: "model_env \<Rightarrow> int \<Rightarrow> index_job_row \<Rightarrow> string \<Rightarrow> unit model_step" where
  "retry_or_fail env limit j message w =
     (if jb_attempts j < limit then
        (case mark_pending env (jb_id j) message w of
           (Inr _, w') \<Rightarrow> log_job env j ''reschedule_index_job'' ''pending'' w'
         | (Inl _, w') \<Rightarrow> fail_job env j message w')
      else fail_job env j message w)"

definition execute_job :: "model_env \<Rightarrow> int \<Rightarrow> index_job_row \<Rightarrow> unit model_step" where
  "execute_job env limit j w =
     (case jb_table j of None \<Rightarrow> fail_job env j ''index job missing table_id'' w
      | Some i \<Rightarrow> (case bind_r (find_tenant env (jb_tenant j) w) (\<lambda>t. bind_r (find_table env i w) (\<lambda>b. Inr (t, b))) of
          Inl e \<Rightarrow> fail_job env j e w
        | Inr (t, b) \<Rightarrow>
            if \<not> me_works env ''index state'' then fail_job env j ''lookup managed index state'' w
            else if index_exists (tn_schema t) (managed_index_name (me_digest env) (tb_name b) (jb_columns j) False) w then apply_job env j w
            else (case create_index env t b (jb_columns j) False w of
                (Inl e, w') \<Rightarrow> (Inl e, snd (retry_or_fail env limit j e w'))
              | (Inr _, w') \<Rightarrow> apply_job env j w')))"

definition run_index_job :: "model_env \<Rightarrow> int \<Rightarrow> string \<Rightarrow> unit model_step" where
  "run_index_job env limit i = then_do (start_job env i) (execute_job env limit)"

text \<open>River: a job that ends without error is done; after an error it may be tried again or given up.\<close>

definition work_index_job :: "model_env \<Rightarrow> int \<Rightarrow> string \<Rightarrow> bool \<Rightarrow> model_store \<Rightarrow> model_store" where
  "work_index_job env limit i again w =
     (case run_index_job env limit i w of
        (Inr _, w') \<Rightarrow> w'\<lparr>ms_queue := remove1 i (ms_queue w')\<rparr>
      | (Inl _, w') \<Rightarrow> if again then w' else w'\<lparr>ms_queue := remove1 i (ms_queue w')\<rparr>)"

end
