(* ===== verification/Spec2Isabelle.thy ===== *)
theory Spec2Isabelle
  imports Ast_Evidence Eval_Caches Schedule_Laws Payload_Cache Decision_Laws Metadata_Cache Execution_Wait Publication_Laws
    Contract_Laws Ingest_Reading Datamodel_Links
begin

text \<open>
  Verification library for the fraud platform's backend services.
\<close>

end
